(* ===== verification/Prelude.thy ===== *)
theory Prelude
  imports Complex_Main "HOL-Library.Word" "HOL-Library.List_Lexorder" "HOL-Library.Char_ord"
begin

text \<open>
  Shared vocabulary of the development: machine integers of the Rust sources (\<open>i32\<close>, \<open>i64\<close>,
  \<open>u32\<close>) as \<open>int\<close>/\<open>nat\<close> with their wrapping and saturating operations written out, Rust
  string operations on byte strings, the ordered map \<open>BTreeMap\<close> as a sorted association
  list, and loops with early return.  A Rust \<open>Result<T, E>\<close> is the sum \<open>'e + 'a\<close> with
  \<open>Inl\<close> for the error.  A Rust string is its UTF-8 byte sequence (\<open>string\<close>), and one
  Unicode scalar value is the byte group that encodes it.
\<close>

named_theorems int_ops
named_theorems str_ops

section \<open>Machine integers\<close>

type_synonym i32 = int
type_synonym i64 = int
type_synonym u32 = nat
type_synonym UnixMs = i64
type_synonym f64 = rat

abbreviation i32_max :: int where "i32_max \<equiv> 2147483647"
abbreviation i32_min :: int where "i32_min \<equiv> -2147483648"
abbreviation i64_max :: int where "i64_max \<equiv> 9223372036854775807"
abbreviation i64_min :: int where "i64_min \<equiv> -9223372036854775808"
abbreviation u32_max :: nat where "u32_max \<equiv> 4294967295"

definition is_i32 :: "int \<Rightarrow> bool" where
  "is_i32 x \<longleftrightarrow> i32_min \<le> x \<and> x \<le> i32_max"

definition is_i64 :: "int \<Rightarrow> bool" where
  "is_i64 x \<longleftrightarrow> i64_min \<le> x \<and> x \<le> i64_max"

text \<open>Two's complement wrap-around of \<open>i32\<close> arithmetic (release profile).\<close>

definition wrap_i32 :: "int \<Rightarrow> i32" where
  "wrap_i32 x = (x + 2147483648) mod 4294967296 - 2147483648"

definition wrap_i64 :: "int \<Rightarrow> i64" where
  "wrap_i64 x = (x + 9223372036854775808) mod 18446744073709551616 - 9223372036854775808"

definition i32_add :: "i32 \<Rightarrow> i32 \<Rightarrow> i32" where
  "i32_add a b = wrap_i32 (a + b)"

definition i32_sub :: "i32 \<Rightarrow> i32 \<Rightarrow> i32" where
  "i32_sub a b = wrap_i32 (a - b)"

text \<open>Rust's \<open>/\<close> on signed integers truncates towards zero.\<close>

definition i32_half :: "i32 \<Rightarrow> i32" where
  "i32_half a = (if 0 \<le> a then a div 2 else - ((- a) div 2))"

definition sat_i64 :: "int \<Rightarrow> i64" where
  "sat_i64 x = max i64_min (min i64_max x)"

definition i64_sat_add :: "i64 \<Rightarrow> i64 \<Rightarrow> i64" where
  "i64_sat_add a b = sat_i64 (a + b)"

definition i64_sat_sub :: "i64 \<Rightarrow> i64 \<Rightarrow> i64" where
  "i64_sat_sub a b = sat_i64 (a - b)"

definition u32_succ :: "u32 \<Rightarrow> u32" where
  "u32_succ n = (n + 1) mod 4294967296"

text \<open>\<open>u32::try_from(n).unwrap_or(u32::MAX)\<close> on a \<open>usize\<close>.\<close>

definition u32_of_usize :: "nat \<Rightarrow> u32" where
  "u32_of_usize n = (if n \<le> u32_max then n else u32_max)"

lemma wrap_i32_id [int_ops]: "is_i32 x \<Longrightarrow> wrap_i32 x = x"
  by (simp add: wrap_i32_def is_i32_def)

lemma wrap_i32_range [int_ops]: "is_i32 (wrap_i32 x)"
proof -
  have "0 \<le> (x + 2147483648) mod 4294967296" and "(x + 2147483648) mod 4294967296 < 4294967296"
    by (simp_all add: pos_mod_bound pos_mod_sign)
  then show ?thesis by (simp add: is_i32_def wrap_i32_def)
qed

lemma sat_i64_range [int_ops]: "is_i64 (sat_i64 x)"
  by (simp add: sat_i64_def is_i64_def)

lemma sat_i64_id [int_ops]: "is_i64 x \<Longrightarrow> sat_i64 x = x"
  by (simp add: sat_i64_def is_i64_def)

lemma sat_sub_ge_iff [int_ops]:
  "0 \<le> k \<Longrightarrow> k \<le> i64_max \<Longrightarrow> i64_sat_sub a b \<ge> k \<longleftrightarrow> a - b \<ge> k"
  by (auto simp: i64_sat_sub_def sat_i64_def)

lemma sat_sub_less_iff [int_ops]:
  "0 \<le> k \<Longrightarrow> k \<le> i64_max \<Longrightarrow> i64_sat_sub a b < k \<longleftrightarrow> a - b < k"
  using sat_sub_ge_iff [of k a b] by linarith

lemma sat_add_le [int_ops]: "0 \<le> d \<Longrightarrow> a \<le> i64_max \<Longrightarrow> a \<le> i64_sat_add a d"
  by (simp add: i64_sat_add_def sat_i64_def)

section \<open>Strings\<close>

text \<open>Bytes of a UTF-8 encoding: a scalar value is one lead byte and its continuation bytes.\<close>

definition is_cont :: "char \<Rightarrow> bool" where
  "is_cont c \<longleftrightarrow> 128 \<le> (of_char c :: nat) \<and> (of_char c :: nat) < 192"

function (sequential) str_chars :: "string \<Rightarrow> string list" where
  "str_chars [] = []"
| "str_chars (c # cs) = (c # takeWhile is_cont cs) # str_chars (dropWhile is_cont cs)"
  by pat_completeness auto
termination
  by (relation "measure length") (auto simp: le_imp_less_Suc length_dropWhile_le)

fun strip_prefix :: "string \<Rightarrow> string \<Rightarrow> string option" where
  "strip_prefix [] s = Some s"
| "strip_prefix (p # ps) [] = None"
| "strip_prefix (p # ps) (c # cs) = (if p = c then strip_prefix ps cs else None)"

lemma strip_prefix_Some [str_ops]: "strip_prefix p s = Some r \<longleftrightarrow> s = p @ r"
  by (induction p s rule: strip_prefix.induct) auto

lemma strip_prefix_append [simp]: "strip_prefix p (p @ r) = Some r"
  by (simp add: strip_prefix_Some)

text \<open>\<open>str::split(c)\<close>: always at least one segment.\<close>

fun str_split :: "char \<Rightarrow> string \<Rightarrow> string list" where
  "str_split d [] = [[]]"
| "str_split d (c # cs) =
     (if c = d then [] # str_split d cs
      else (case str_split d cs of [] \<Rightarrow> [[c]] | s # ss \<Rightarrow> (c # s) # ss))"

text \<open>\<open>str::split_once(c)\<close>: \<open>None\<close> when the separator does not occur.\<close>

fun split_once :: "char \<Rightarrow> string \<Rightarrow> (string \<times> string) option" where
  "split_once d [] = None"
| "split_once d (c # cs) =
     (if c = d then Some ([], cs)
      else map_option (\<lambda>(a, b). (c # a, b)) (split_once d cs))"

lemma split_once_Some [str_ops]:
  "split_once d s = Some (a, b) \<longleftrightarrow> s = a @ d # b \<and> d \<notin> set a"
proof (induction d s arbitrary: a rule: split_once.induct)
  case (2 d c cs)
  show ?case
  proof (cases "c = d")
    case True
    then show ?thesis by (cases a) auto
  next
    case False
    with 2 show ?thesis by (cases a) auto
  qed
qed simp

lemma split_once_None [str_ops]: "split_once d s = None \<longleftrightarrow> d \<notin> set s"
  by (induction d s rule: split_once.induct) auto

lemma str_split_nonempty [simp]: "str_split d s \<noteq> []"
  by (induction d s rule: str_split.induct) (auto split: list.splits)

lemma str_split_no_sep: "d \<notin> set s \<Longrightarrow> str_split d s = [s]"
  by (induction s) auto

lemma str_split_append:
  "d \<notin> set a \<Longrightarrow> str_split d (a @ d # b) = a # str_split d b"
  by (induction a) auto

fun str_join :: "char \<Rightarrow> string list \<Rightarrow> string" where
  "str_join d [] = []"
| "str_join d [s] = s"
| "str_join d (s # t # ss) = s @ d # str_join d (t # ss)"

lemma str_join_split: "str_join d (str_split d s) = s"
proof (induction d s rule: str_split.induct)
  case (2 d c cs)
  then show ?case
    by (cases "str_split d cs"; cases "tl (str_split d cs)") auto
qed simp

lemma str_split_parts: "s \<in> set (str_split d t) \<Longrightarrow> d \<notin> set s"
  by (induction d t arbitrary: s rule: str_split.induct) (auto split: if_splits list.splits)

text \<open>Decimal rendering, as \<open>format!("{n}")\<close> prints an unsigned integer.\<close>

definition digit_char :: "nat \<Rightarrow> char" where
  "digit_char d = char_of (48 + d)"

fun nat_str :: "nat \<Rightarrow> string" where
  "nat_str n = (if n < 10 then [digit_char n] else nat_str (n div 10) @ [digit_char (n mod 10)])"

declare nat_str.simps [simp del]

definition int_str :: "int \<Rightarrow> string" where
  "int_str i = (if i < 0 then CHR ''-'' # nat_str (nat (- i)) else nat_str (nat i))"

lemma digit_char_inj: "a < 10 \<Longrightarrow> b < 10 \<Longrightarrow> digit_char a = digit_char b \<Longrightarrow> a = b"
proof -
  assume a: "a < 10" and b: "b < 10" and e: "digit_char a = digit_char b"
  from e have "of_char (digit_char a) = (of_char (digit_char b) :: nat)" by simp
  with a b show ?thesis by (simp add: digit_char_def)
qed

lemma nat_str_nonempty [simp]: "nat_str n \<noteq> []"
  by (subst nat_str.simps) simp

lemma nat_str_inj: "nat_str a = nat_str b \<Longrightarrow> a = b"
proof (induction a arbitrary: b rule: nat_str.induct)
  case (1 a)
  show ?case
  proof (cases "a < 10")
    case True
    with 1(2) have "length (nat_str b) = 1" by (simp add: nat_str.simps [of a] flip: 1(2))
    then have "b < 10" by (simp add: nat_str.simps [of b] split: if_splits)
    with True 1(2) show ?thesis
      by (simp add: nat_str.simps [of a] nat_str.simps [of b] digit_char_inj)
  next
    case False
    with 1(2) have b: "\<not> b < 10"
      by (auto simp: nat_str.simps [of a] nat_str.simps [of b] split: if_splits)
    with False 1(2) have eq: "nat_str (a div 10) = nat_str (b div 10)"
      and d: "digit_char (a mod 10) = digit_char (b mod 10)"
      by (simp_all add: nat_str.simps [of a] nat_str.simps [of b])
    from 1(1) [OF False eq] have "a div 10 = b div 10" .
    moreover from d have "a mod 10 = b mod 10" by (simp add: digit_char_inj)
    ultimately show ?thesis by (metis div_mult_mod_eq)
  qed
qed

section \<open>Ordered maps\<close>

text \<open>
  \<open>BTreeMap<String, V>\<close>: an association list sorted strictly by key; iteration is in
  ascending byte order of the keys.
\<close>

type_synonym 'v btree = "(string \<times> 'v) list"

fun btree_insert :: "string \<Rightarrow> 'v \<Rightarrow> 'v btree \<Rightarrow> 'v btree" where
  "btree_insert k v [] = [(k, v)]"
| "btree_insert k v ((a, b) # ps) =
     (if k < a then (k, v) # (a, b) # ps
      else if k = a then (k, v) # ps
      else (a, b) # btree_insert k v ps)"

abbreviation btree_get :: "'v btree \<Rightarrow> string \<Rightarrow> 'v option" where
  "btree_get \<equiv> map_of"

abbreviation btree_keys :: "'v btree \<Rightarrow> string list" where
  "btree_keys m \<equiv> map fst m"

definition btree_wf :: "'v btree \<Rightarrow> bool" where
  "btree_wf m \<longleftrightarrow> sorted_wrt (<) (btree_keys m)"

definition btree_contains :: "'v btree \<Rightarrow> string \<Rightarrow> bool" where
  "btree_contains m k \<longleftrightarrow> btree_get m k \<noteq> None"

locale ordered_map =
  fixes empty :: "'m" and get :: "'m \<Rightarrow> string \<Rightarrow> 'v option"
    and insert_at :: "string \<Rightarrow> 'v \<Rightarrow> 'm \<Rightarrow> 'm" and keys :: "'m \<Rightarrow> string list"
    and wf :: "'m \<Rightarrow> bool"
  assumes get_empty: "get empty k = None"
    and get_insert: "wf m \<Longrightarrow> get (insert_at k v m) = (get m)(k \<mapsto> v)"
    and wf_empty: "wf empty"
    and wf_insert: "wf m \<Longrightarrow> wf (insert_at k v m)"
    and keys_get: "wf m \<Longrightarrow> k \<in> set (keys m) \<longleftrightarrow> get m k \<noteq> None"
    and keys_sorted: "wf m \<Longrightarrow> sorted_wrt (<) (keys m)"
begin

lemma keys_distinct: "wf m \<Longrightarrow> distinct (keys m)"
  using keys_sorted strict_sorted_iff by blast

lemma keys_insert: "wf m \<Longrightarrow> set (keys (insert_at k v m)) = insert k (set (keys m))"
  by (auto simp: keys_get wf_insert get_insert split: if_splits)

lemma insert_keeps: "wf m \<Longrightarrow> get m k = Some v \<Longrightarrow> k \<noteq> j \<Longrightarrow> get (insert_at j w m) k = Some v"
  by (simp add: get_insert)

lemma keys_unique:
  assumes "wf m" "wf n" "get m = get n"
  shows "keys m = keys n"
proof -
  have "set (keys m) = set (keys n)"
    using assms by (auto simp: keys_get)
  then show ?thesis
    using assms by (intro strict_sorted_equal) (auto simp: keys_sorted)
qed

end

lemma map_of_btree_insert: "map_of (btree_insert k v m) = (map_of m)(k \<mapsto> v)"
  by (induction k v m rule: btree_insert.induct) (auto simp: fun_eq_iff)

lemma btree_keys_insert: "set (map fst (btree_insert k v m)) = insert k (set (map fst m))"
  by (induction k v m rule: btree_insert.induct) auto

lemma btree_wf_insert: "btree_wf m \<Longrightarrow> btree_wf (btree_insert k v m)"
  unfolding btree_wf_def
proof (induction k v m rule: btree_insert.induct)
  case (2 k v a b ps)
  have "set (map fst (btree_insert k v ps)) = insert k (set (map fst ps))"
    by (rule btree_keys_insert)
  with 2 show ?case by (auto simp: order.strict_trans)
qed simp

interpretation bt: ordered_map "[]" map_of btree_insert "map fst" btree_wf
proof (unfold_locales, goal_cases)
  case (5 m k)
  show ?case by (simp add: map_of_eq_None_iff)
next
  case (6 m)
  then show ?case by (simp add: btree_wf_def)
qed (simp_all add: map_of_btree_insert btree_wf_insert, simp add: btree_wf_def)

section \<open>Loops with early return\<close>

text \<open>\<open>for (i, x) in xs.iter().enumerate() { f(i, x)?; }\<close> from index \<open>i\<close>.\<close>

fun try_each :: "(nat \<Rightarrow> 'a \<Rightarrow> 'e + unit) \<Rightarrow> nat \<Rightarrow> 'a list \<Rightarrow> 'e + unit" where
  "try_each f i [] = Inr ()"
| "try_each f i (x # xs) = (case f i x of Inl e \<Rightarrow> Inl e | Inr _ \<Rightarrow> try_each f (Suc i) xs)"

lemma all_less_Suc_shift: "(\<forall>k < Suc n. P k) \<longleftrightarrow> P 0 \<and> (\<forall>k < n. P (Suc k))"
  by (metis Suc_less_eq gr0_implies_Suc not_gr_zero zero_less_Suc)

lemma try_each_ok: "try_each f i xs = Inr u \<longleftrightarrow> (\<forall>k < length xs. f (i + k) (xs ! k) = Inr ())"
proof (induction xs arbitrary: i)
  case (Cons x xs)
  show ?case
  proof (cases "f i x")
    case (Inl e)
    then show ?thesis by force
  next
    case (Inr v)
    then show ?thesis using Cons.IH [of "Suc i"] by (simp add: all_less_Suc_shift)
  qed
qed simp

lemma try_each_ok_set:
  "try_each f i xs = Inr u \<Longrightarrow> x \<in> set xs \<Longrightarrow> \<exists>k. f k x = Inr ()"
  by (auto simp: try_each_ok in_set_conv_nth)

lemma try_each_err:
  "try_each f i xs = Inl e \<Longrightarrow> \<exists>k < length xs. f (i + k) (xs ! k) = Inl e"
proof (induction xs arbitrary: i)
  case (Cons x xs)
  show ?case
  proof (cases "f i x")
    case (Inl a)
    with Cons.prems show ?thesis by auto
  next
    case (Inr b)
    with Cons.prems have "try_each f (Suc i) xs = Inl e" by simp
    from Cons.IH [OF this] obtain k where "k < length xs" "f (Suc i + k) (xs ! k) = Inl e" by blast
    then show ?thesis by (intro exI [of _ "Suc k"]) simp
  qed
qed simp

end
