(* ===== verification/Core_Types.thy ===== *)
theory Core_Types
  imports Prelude
begin

text \<open>
  The shared types of crate \<open>vcli-core\<close>: geometry, frames, regions, predicates, steps,
  watches, triggers, programs, lifecycle states, events and wire errors, with the small
  operations the crate defines on them.  Optional fields are \<open>option\<close>s, enums are
  datatypes with the source's variants (suffixed where two enums share a variant name or
  HOL already uses it).  A \<open>ProgramId\<close> is identified with its canonical hyphenated text,
  so \<open>Display\<close> is the identity and equality of ids is equality of texts.  A finite
  \<open>f64\<close> is the rational number it denotes: JSON carries no other value, and the code only
  compares them.
\<close>

section \<open>Geometry\<close>

record Point =
  pt_x :: i32
  pt_y :: i32

record Rect =
  rect_x :: i32
  rect_y :: i32
  rect_w :: i32
  rect_h :: i32

record Size =
  size_w :: i32
  size_h :: i32

definition rect_center :: "Rect \<Rightarrow> Point" where
  "rect_center r = \<lparr>pt_x = i32_add (rect_x r) (i32_half (rect_w r)),
                    pt_y = i32_add (rect_y r) (i32_half (rect_h r))\<rparr>"

definition rect_top_left :: "Rect \<Rightarrow> Point" where
  "rect_top_left r = \<lparr>pt_x = rect_x r, pt_y = rect_y r\<rparr>"

definition rect_contains :: "Rect \<Rightarrow> Point \<Rightarrow> bool" where
  "rect_contains r p \<longleftrightarrow>
     pt_x p \<ge> rect_x r \<and> pt_x p < i32_add (rect_x r) (rect_w r) \<and>
     pt_y p \<ge> rect_y r \<and> pt_y p < i32_add (rect_y r) (rect_h r)"

section \<open>Frames\<close>

datatype FrameFormat = Bgra8 | Rgba8

fun bytes_per_pixel :: "FrameFormat \<Rightarrow> nat" where
  "bytes_per_pixel Bgra8 = 4"
| "bytes_per_pixel Rgba8 = 4"

record Frame =
  fr_format :: FrameFormat
  fr_bounds :: Rect
  fr_stride :: nat
  fr_pixels :: "8 word list"
  fr_captured_at_ns :: nat

text \<open>\<open>Frame::new\<close> asserts the buffer length; \<open>None\<close> is the panic.\<close>

definition frame_new :: "FrameFormat \<Rightarrow> Rect \<Rightarrow> nat \<Rightarrow> 8 word list \<Rightarrow> nat \<Rightarrow> Frame option" where
  "frame_new fmt bounds stride pixels captured_at_ns =
     (let h = (if 0 \<le> rect_h bounds then nat (rect_h bounds) else 0);
          needed = stride * h
      in if length pixels \<ge> needed
         then Some \<lparr>fr_format = fmt, fr_bounds = bounds, fr_stride = stride,
                    fr_pixels = pixels, fr_captured_at_ns = captured_at_ns\<rparr>
         else None)"

definition frame_width :: "Frame \<Rightarrow> i32" where
  "frame_width f = rect_w (fr_bounds f)"

definition frame_height :: "Frame \<Rightarrow> i32" where
  "frame_height f = rect_h (fr_bounds f)"

section \<open>Predicates\<close>

datatype Anchor = AnchorMatch

datatype Region =
    Absolute Rect
  | Window string "string option" "u32 option"
  | RelativeTo string Anchor Point "Size option"

definition default_anchor :: Anchor where
  "default_anchor = AnchorMatch"

definition default_offset :: Point where
  "default_offset = \<lparr>pt_x = 0, pt_y = 0\<rparr>"

type_synonym Confidence = f64
type_synonym Rgb = "8 word \<times> 8 word \<times> 8 word"

datatype PredicateKind =
    Template string Confidence Region u32
  | ColorAt Point Rgb nat
  | PixelDiff Region string f64
  | AllOf "string list"
  | AnyOf "string list"
  | NotOf string
  | ElapsedMsSinceTrue string u32

definition default_template_throttle_ms :: u32 where
  "default_template_throttle_ms = 200"

record MatchData =
  bbox :: Rect
  confidence :: Confidence

record PredicateResult =
  truthy :: bool
  match_data :: "MatchData option"
  pr_at :: UnixMs

definition match_center :: "MatchData \<Rightarrow> Point" where
  "match_center m = rect_center (bbox m)"

definition match_top_left :: "MatchData \<Rightarrow> Point" where
  "match_top_left m = rect_top_left (bbox m)"

section \<open>Actions, steps, watches, triggers\<close>

datatype Button = LeftButton | RightButton | MiddleButton
datatype Modifier = Cmd | Shift | Alt | Ctrl

datatype InputAction =
    Act_Move Point
  | Act_Click Point Button
  | Act_Type string
  | Act_Key string "Modifier list"
  | Act_Scroll Point i32 i32

datatype Target = AbsoluteTarget Point | Expression string

datatype OnTimeout = Timeout_Fail | Timeout_Continue | Timeout_Retry
datatype OnFail = Assert_Fail | Assert_Continue

datatype Step =
    Move Target
  | Click Target Button
  | TypeText string
  | Key string "Modifier list"
  | Scroll Target i32 i32
  | WaitFor string u32 OnTimeout
  | Assert string OnFail
  | SleepMs u32

definition default_button :: Button where "default_button = LeftButton"
definition is_default_button :: "Button \<Rightarrow> bool" where "is_default_button b \<longleftrightarrow> b = LeftButton"
definition default_on_timeout :: OnTimeout where "default_on_timeout = Timeout_Fail"
definition default_on_fail :: OnFail where "default_on_fail = Assert_Fail"

datatype WatchWhen = ByName string | Inline PredicateKind

datatype Lifetime =
    OneShot
  | Persistent
  | UntilPredicate string
  | TimeoutMs u32

record Watch =
  when_cond :: WatchWhen
  watch_steps :: "Step list"
  throttle_ms :: u32
  lifetime :: Lifetime

definition default_lifetime :: Lifetime where "default_lifetime = Persistent"

datatype Trigger = OnSubmit | OnPredicate string | Manual

section \<open>Programs\<close>

type_synonym ProgramId = string
type_synonym Priority = i32

record Program =
  version :: string
  prog_name :: string
  prog_id :: "ProgramId option"
  trigger :: Trigger
  predicates :: "PredicateKind btree"
  watches :: "Watch list"
  body :: "Step list"
  on_complete :: "string option"
  on_fail :: "string option"
  timeout_ms :: "u32 option"
  labels :: "string btree"
  priority :: Priority

text \<open>Everything before the first dot; \<open>split\<close> always yields a first segment.\<close>

definition dsl_major :: "string \<Rightarrow> string" where
  "dsl_major v = (case str_split (CHR ''.'') v of [] \<Rightarrow> '''' | s # _ \<Rightarrow> s)"

definition is_default_priority :: "Priority \<Rightarrow> bool" where
  "is_default_priority p \<longleftrightarrow> p = 0"

section \<open>Lifecycle states\<close>

datatype ProgramState =
  Pending | Waiting | Running | Blocked | Completed | Failed | Cancelled

fun is_terminal :: "ProgramState \<Rightarrow> bool" where
  "is_terminal Completed = True"
| "is_terminal Failed = True"
| "is_terminal Cancelled = True"
| "is_terminal _ = False"

fun is_active :: "ProgramState \<Rightarrow> bool" where
  "is_active Waiting = True"
| "is_active Running = True"
| "is_active Blocked = True"
| "is_active _ = False"

fun state_as_str :: "ProgramState \<Rightarrow> string" where
  "state_as_str Pending = ''pending''"
| "state_as_str Waiting = ''waiting''"
| "state_as_str Running = ''running''"
| "state_as_str Blocked = ''blocked''"
| "state_as_str Completed = ''completed''"
| "state_as_str Failed = ''failed''"
| "state_as_str Cancelled = ''cancelled''"

definition state_from_str :: "string \<Rightarrow> string + ProgramState" where
  "state_from_str s =
     (if s = ''pending'' then Inr Pending
      else if s = ''waiting'' then Inr Waiting
      else if s = ''running'' then Inr Running
      else if s = ''blocked'' then Inr Blocked
      else if s = ''completed'' then Inr Completed
      else if s = ''failed'' then Inr Failed
      else if s = ''cancelled'' then Inr Cancelled
      else Inl (''unknown program state: '' @ s))"

section \<open>JSON values\<close>

text \<open>
  \<open>serde_json::Value\<close>.  A number is an integer (the \<open>i64\<close> and \<open>u64\<close> arms) or a finite
  float; an object is its \<open>BTreeMap\<close> of members.
\<close>

datatype JsonNumber = JInt int | JFloat f64

datatype JsonValue =
    JNull
  | JBool bool
  | JNumber JsonNumber
  | JString string
  | JArray "JsonValue list"
  | JObject "(string \<times> JsonValue) list"

section \<open>Events\<close>

datatype EventData =
    ProgramSubmitted ProgramId string
  | ProgramStateChanged ProgramId ProgramState ProgramState string
  | ProgramCompleted ProgramId "string option"
  | ProgramFailed ProgramId string "string option" "string option"
  | ProgramResumed ProgramId u32
  | WatchFired ProgramId u32 string
  | ActionDispatched ProgramId JsonValue "Point option"
  | ActionDeferred ProgramId JsonValue JsonValue
  | TickFrameSkipped string
  | DaemonPressure u32
  | StreamDropped u32 UnixMs
  | CapturePermissionMissing string
  | DaemonStarted string
  | DaemonStopped

record Event =
  ev_at :: UnixMs
  ev_data :: EventData

section \<open>Wire errors\<close>

datatype ErrorCode =
    InvalidProgram | UnknownProgram | BadStateTransition | PermissionDenied
  | CaptureFailed | DaemonBusy | NotResumable | ResumePreconditionFailed | Internal

fun error_code_as_str :: "ErrorCode \<Rightarrow> string" where
  "error_code_as_str InvalidProgram = ''invalid_program''"
| "error_code_as_str UnknownProgram = ''unknown_program''"
| "error_code_as_str BadStateTransition = ''bad_state_transition''"
| "error_code_as_str PermissionDenied = ''permission_denied''"
| "error_code_as_str CaptureFailed = ''capture_failed''"
| "error_code_as_str DaemonBusy = ''daemon_busy''"
| "error_code_as_str NotResumable = ''not_resumable''"
| "error_code_as_str ResumePreconditionFailed = ''resume_precondition_failed''"
| "error_code_as_str Internal = ''internal''"

record ErrorPayload =
  ep_code :: ErrorCode
  ep_message :: string
  ep_path :: "string option"
  ep_line :: "u32 option"
  ep_column :: "u32 option"
  ep_span_len :: "u32 option"
  ep_hint :: "string option"

definition payload_simple :: "ErrorCode \<Rightarrow> string \<Rightarrow> ErrorPayload" where
  "payload_simple code message =
     \<lparr>ep_code = code, ep_message = message, ep_path = None, ep_line = None,
      ep_column = None, ep_span_len = None, ep_hint = None\<rparr>"

section \<open>Lemmas\<close>

lemma state_terminal_not_active: "is_terminal s \<Longrightarrow> \<not> is_active s"
  by (cases s) simp_all

lemma state_from_as_str: "state_from_str (state_as_str s) = Inr s"
  by (cases s) (simp_all add: state_from_str_def)

lemma state_as_str_inj [simp]: "state_as_str s = state_as_str t \<longleftrightarrow> s = t"
  by (metis state_from_as_str sum.inject(2))

lemma state_from_str_ok: "state_from_str x = Inr s \<longleftrightarrow> x = state_as_str s"
proof
  assume "state_from_str x = Inr s"
  then show "x = state_as_str s"
    by (auto simp: state_from_str_def split: if_splits)
qed (simp add: state_from_as_str)

lemma rect_center_contained:
  assumes "is_i32 (rect_x r + rect_w r)" "is_i32 (rect_y r + rect_h r)"
    and "is_i32 (rect_x r)" "is_i32 (rect_y r)" "0 < rect_w r" "0 < rect_h r"
  shows "rect_contains r (rect_center r)"
proof -
  have "is_i32 (rect_x r + i32_half (rect_w r))" "is_i32 (rect_y r + i32_half (rect_h r))"
    using assms by (auto simp: is_i32_def i32_half_def)
  with assms show ?thesis
    by (auto simp: rect_contains_def rect_center_def i32_add_def wrap_i32_id i32_half_def)
qed

end
