(* ===== verification/Frame_View.thy ===== *)
theory Frame_View
  imports Core_Types
begin

text \<open>
  Pixel access of crate \<open>vcli-perception\<close> (\<open>frame_view.rs\<close>, \<open>error.rs\<close> and the sampling
  helper of \<open>color_at.rs\<close>).  An operation that may panic returns an \<open>option\<close> with \<open>None\<close>
  for the panic (a slice index out of range); its error values are the \<open>Inl\<close> of a sum.
  \<open>i32\<close> arithmetic wraps, as the release profile has it.  The lemmas show that on frames
  that \<open>Frame::new\<close> accepts pixel access never panics, and that cropping returns exactly
  the pixels of the overlap.
\<close>

datatype PerceptionError =
    UnknownPredicate string
  | Cycle string
  | AssetDecode string
  | RegionOutOfBounds
  | AssetNotMaterialized string

type_synonym bytes = "8 word list"
type_synonym 'a fallible = "(PerceptionError + 'a) option"

section \<open>Images\<close>

text \<open>\<open>image::ImageBuffer\<close>: row-major pixels.\<close>

record 'p Image =
  img_w :: nat
  img_h :: nat
  img_px :: "'p list"

definition image_new :: "nat \<Rightarrow> nat \<Rightarrow> 'p \<Rightarrow> 'p Image" where
  "image_new w h z = \<lparr>img_w = w, img_h = h, img_px = replicate (w * h) z\<rparr>"

definition put_pixel :: "nat \<Rightarrow> nat \<Rightarrow> 'p \<Rightarrow> 'p Image \<Rightarrow> 'p Image" where
  "put_pixel x y v im = im\<lparr>img_px := (img_px im)[y * img_w im + x := v]\<rparr>"

definition get_pixel :: "'p Image \<Rightarrow> nat \<Rightarrow> nat \<Rightarrow> 'p option" where
  "get_pixel im x y =
     (if x < img_w im \<and> y < img_h im \<and> y * img_w im + x < length (img_px im)
      then Some (img_px im ! (y * img_w im + x)) else None)"

section \<open>Pixel access\<close>

definition pixel_rgb :: "Frame \<Rightarrow> i32 \<Rightarrow> i32 \<Rightarrow> Rgb fallible" where
  "pixel_rgb f x y =
     (if x < 0 \<or> y < 0 \<or> x \<ge> frame_width f \<or> y \<ge> frame_height f
      then Some (Inl RegionOutOfBounds)
      else (let bpp = bytes_per_pixel (fr_format f);
                offset = nat y * fr_stride f + nat x * bpp
            in if offset + bpp \<le> length (fr_pixels f)
               then (let b = take bpp (drop offset (fr_pixels f))
                     in Some (Inr (case fr_format f of
                          Bgra8 \<Rightarrow> (b ! 2, b ! 1, b ! 0)
                        | Rgba8 \<Rightarrow> (b ! 0, b ! 1, b ! 2))))
               else None))"

text \<open>The pixel loops: visit the coordinates in order, stop at the first error.\<close>

fun fill_pixels :: "(nat \<Rightarrow> nat \<Rightarrow> 'p fallible) \<Rightarrow> (nat \<times> nat) list \<Rightarrow> 'p Image \<Rightarrow> 'p Image fallible" where
  "fill_pixels src [] im = Some (Inr im)"
| "fill_pixels src ((x, y) # ps) im =
     (case src x y of
        None \<Rightarrow> None
      | Some (Inl e) \<Rightarrow> Some (Inl e)
      | Some (Inr v) \<Rightarrow> fill_pixels src ps (put_pixel x y v im))"

definition raster :: "nat \<Rightarrow> nat \<Rightarrow> (nat \<times> nat) list" where
  "raster w h = concat (map (\<lambda>y. map (\<lambda>x. (x, y)) [0..<w]) [0..<h])"

definition u32_of_i32 :: "i32 \<Rightarrow> u32" where
  "u32_of_i32 x = nat (x mod 4294967296)"

definition i32_of_u32 :: "u32 \<Rightarrow> i32" where
  "i32_of_u32 n = wrap_i32 (int n)"

definition crop_rgb :: "Frame \<Rightarrow> Rect \<Rightarrow> Rgb Image fallible" where
  "crop_rgb f region_abs =
     (let fb = fr_bounds f;
          x0 = max (rect_x region_abs) (rect_x fb);
          y0 = max (rect_y region_abs) (rect_y fb);
          x1 = min (i32_add (rect_x region_abs) (rect_w region_abs)) (i32_add (rect_x fb) (rect_w fb));
          y1 = min (i32_add (rect_y region_abs) (rect_h region_abs)) (i32_add (rect_y fb) (rect_h fb))
      in if x1 \<le> x0 \<or> y1 \<le> y0 then Some (Inl RegionOutOfBounds)
         else (let w = u32_of_i32 (i32_sub x1 x0); h = u32_of_i32 (i32_sub y1 y0)
               in fill_pixels (\<lambda>col row. pixel_rgb f (i32_add (i32_sub x0 (rect_x fb)) (i32_of_u32 col))
                                                    (i32_add (i32_sub y0 (rect_y fb)) (i32_of_u32 row)))
                    (raster w h) (image_new w h (0, 0, 0))))"

definition frame_to_rgb :: "Frame \<Rightarrow> Rgb Image fallible" where
  "frame_to_rgb f =
     (let w = u32_of_i32 (frame_width f); h = u32_of_i32 (frame_height f)
      in fill_pixels (\<lambda>x y. pixel_rgb f (int x) (int y))
           (raster (nat (frame_width f)) (nat (frame_height f))) (image_new w h (0, 0, 0)))"

section \<open>Colour sampling\<close>

definition u8_diff :: "8 word \<Rightarrow> 8 word \<Rightarrow> i32" where
  "u8_diff a b = i32_sub (int (unat a)) (int (unat b))"

definition i32_mul :: "i32 \<Rightarrow> i32 \<Rightarrow> i32" where
  "i32_mul a b = wrap_i32 (a * b)"

definition color_sample :: "Frame \<Rightarrow> i32 \<Rightarrow> i32 \<Rightarrow> Rgb \<Rightarrow> nat \<Rightarrow> bool fallible" where
  "color_sample f x y target tolerance =
     (case pixel_rgb f x y of
        None \<Rightarrow> None
      | Some (Inl e) \<Rightarrow> Some (Inl e)
      | Some (Inr (r, g, b)) \<Rightarrow>
         (case target of (tr, tg, tb) \<Rightarrow>
            (let dr = u8_diff r tr; dg = u8_diff g tg; db = u8_diff b tb;
                 dist_sq = i32_add (i32_add (i32_mul dr dr) (i32_mul dg dg)) (i32_mul db db);
                 tol_sq = i32_mul (int tolerance) (int tolerance)
             in Some (Inr (dist_sq \<le> tol_sq)))))"

section \<open>Well-formed frames\<close>

text \<open>
  What \<open>Frame::new\<close> asserts, together with the documented meaning of \<open>stride\<close> (bytes per
  row, at least one row of pixels) and coordinates that fit \<open>i32\<close>.
\<close>

definition frame_wf :: "Frame \<Rightarrow> bool" where
  "frame_wf f \<longleftrightarrow>
     fr_stride f * nat (frame_height f) \<le> length (fr_pixels f) \<and>
     nat (frame_width f) * bytes_per_pixel (fr_format f) \<le> fr_stride f \<and>
     is_i32 (rect_x (fr_bounds f)) \<and> is_i32 (rect_y (fr_bounds f)) \<and>
     is_i32 (rect_w (fr_bounds f)) \<and> is_i32 (rect_h (fr_bounds f)) \<and>
     is_i32 (rect_x (fr_bounds f) + rect_w (fr_bounds f)) \<and>
     is_i32 (rect_y (fr_bounds f) + rect_h (fr_bounds f))"

definition rect_i32 :: "Rect \<Rightarrow> bool" where
  "rect_i32 r \<longleftrightarrow> is_i32 (rect_x r) \<and> is_i32 (rect_y r) \<and> is_i32 (rect_w r) \<and> is_i32 (rect_h r) \<and>
     is_i32 (rect_x r + rect_w r) \<and> is_i32 (rect_y r + rect_h r)"

lemma bpp [simp]: "bytes_per_pixel k = 4"
  by (cases k) simp_all

lemma frame_new_wf:
  assumes "frame_new fmt b stride px t = Some f"
    and "rect_i32 b" "nat (rect_w b) * 4 \<le> stride"
  shows "frame_wf f"
proof -
  from assms(1) have f: "f = \<lparr>fr_format = fmt, fr_bounds = b, fr_stride = stride, fr_pixels = px,
      fr_captured_at_ns = t\<rparr>" and l: "stride * nat (rect_h b) \<le> length px"
    by (auto simp: frame_new_def Let_def split: if_splits)
  from assms(2,3) l show ?thesis
    by (simp add: f frame_wf_def rect_i32_def frame_width_def frame_height_def)
qed

lemma row_offset_bound:
  fixes x y w h stride n :: nat
  assumes "x < w" "y < h" "w * 4 \<le> stride" "stride * h \<le> n"
  shows "y * stride + x * 4 + 4 \<le> n"
proof -
  have "x * 4 + 4 \<le> stride" using assms(1,3) by linarith
  then have "y * stride + x * 4 + 4 \<le> Suc y * stride" by simp
  also have "\<dots> \<le> h * stride" using assms(2) by (intro mult_le_mono1) simp
  finally show ?thesis using assms(4) by (simp add: mult.commute)
qed

lemma pixel_rgb_no_panic: "frame_wf f \<Longrightarrow> pixel_rgb f x y \<noteq> None"
proof -
  assume wf: "frame_wf f"
  have "nat y * fr_stride f + nat x * 4 + 4 \<le> length (fr_pixels f)"
    if "0 \<le> x" "0 \<le> y" "x < frame_width f" "y < frame_height f"
    using wf that
    by (intro row_offset_bound [of "nat x" "nat (frame_width f)" _ "nat (frame_height f)"])
      (auto simp: frame_wf_def)
  then show ?thesis by (auto simp: pixel_rgb_def Let_def)
qed

lemma pixel_rgb_in_bounds:
  assumes "frame_wf f" "0 \<le> x" "x < frame_width f" "0 \<le> y" "y < frame_height f"
  shows "\<exists>v. pixel_rgb f x y = Some (Inr v)"
  using pixel_rgb_no_panic [OF assms(1), of x y] assms(2-)
  by (cases "fr_format f") (auto simp: pixel_rgb_def Let_def split: if_splits)

lemma pixel_rgb_error: "pixel_rgb f x y = Some (Inl e) \<Longrightarrow> e = RegionOutOfBounds"
  by (auto simp: pixel_rgb_def Let_def split: if_splits)

section \<open>Pixel loops\<close>

lemma raster_set [simp]: "set (raster w h) = {(x, y). x < w \<and> y < h}"
  by (auto simp: raster_def)

lemma fill_pixels_no_panic:
  "(\<And>x y. (x, y) \<in> set ps \<Longrightarrow> src x y \<noteq> None) \<Longrightarrow> fill_pixels src ps im \<noteq> None"
  by (induction src ps im rule: fill_pixels.induct) (auto split: option.splits sum.splits)

lemma fill_pixels_error:
  "fill_pixels src ps im = Some (Inl e) \<Longrightarrow> \<exists>x y. src x y = Some (Inl e)"
  by (induction src ps im rule: fill_pixels.induct) (auto split: option.splits sum.splits)

lemma fill_pixels_ok:
  "(\<And>x y. (x, y) \<in> set ps \<Longrightarrow> src x y = Some (Inr (v x y))) \<Longrightarrow>
   fill_pixels src ps im = Some (Inr (foldl (\<lambda>im (x, y). put_pixel x y (v x y) im) im ps))"
  by (induction src ps im rule: fill_pixels.induct) auto

lemma pixel_index_inj:
  fixes a b x y w :: nat
  assumes "a < w" "x < w" "b * w + a = y * w + x"
  shows "a = x \<and> b = y"
proof -
  from assms(3) have "(b * w + a) mod w = (y * w + x) mod w" by simp
  with assms(1,2) have "a = x" by simp
  with assms show ?thesis by simp
qed

lemma put_pixel_get:
  assumes "a < img_w im" "x < img_w im" "y * img_w im + x < length (img_px im)"
  shows "img_px (put_pixel a b v im) ! (y * img_w im + x) =
     (if a = x \<and> b = y then v else img_px im ! (y * img_w im + x))"
proof (cases "b * img_w im + a = y * img_w im + x")
  case True
  with pixel_index_inj [OF assms(1,2)] assms(3) show ?thesis by (simp add: put_pixel_def)
next
  case False
  with assms(3) show ?thesis by (auto simp: put_pixel_def)
qed

lemma fold_put_dims:
  "img_w (foldl (\<lambda>im (x, y). put_pixel x y (v x y) im) im ps) = img_w im \<and>
   img_h (foldl (\<lambda>im (x, y). put_pixel x y (v x y) im) im ps) = img_h im \<and>
   length (img_px (foldl (\<lambda>im (x, y). put_pixel x y (v x y) im) im ps)) = length (img_px im)"
  by (induction ps rule: rev_induct) (auto simp: put_pixel_def)

lemma fold_put_pixel:
  assumes "\<forall>(a, b) \<in> set ps. a < img_w im" "x < img_w im" "y * img_w im + x < length (img_px im)"
  shows "img_px (foldl (\<lambda>im (x, y). put_pixel x y (v x y) im) im ps) ! (y * img_w im + x) =
        (if (x, y) \<in> set ps then v x y else img_px im ! (y * img_w im + x))"
  using assms(1)
proof (induction ps rule: rev_induct)
  case (snoc p ps)
  obtain a b where p: "p = (a, b)" by fastforce
  let ?im = "foldl (\<lambda>im (x, y). put_pixel x y (v x y) im) im ps"
  have d: "img_w ?im = img_w im" "length (img_px ?im) = length (img_px im)"
    using fold_put_dims [of v im ps] by simp_all
  have "img_px (put_pixel a b (v a b) ?im) ! (y * img_w im + x) =
      (if a = x \<and> b = y then v a b else img_px ?im ! (y * img_w im + x))"
    using put_pixel_get [of a ?im x y b "v a b"] snoc(2) assms(2,3) p by (simp add: d)
  with snoc p show ?case by auto
qed simp

lemma fill_raster:
  assumes "\<And>x y. x < w \<Longrightarrow> y < h \<Longrightarrow> src x y = Some (Inr (v x y))"
  shows "\<exists>im. fill_pixels src (raster w h) (image_new w h z) = Some (Inr im) \<and>
      img_w im = w \<and> img_h im = h \<and> length (img_px im) = w * h \<and>
      (\<forall>x < w. \<forall>y < h. get_pixel im x y = Some (v x y))"
proof -
  let ?im = "foldl (\<lambda>im (x, y). put_pixel x y (v x y) im) (image_new w h z) (raster w h)"
  have dims: "img_w (image_new w h z) = w" "img_h (image_new w h z) = h"
    "length (img_px (image_new w h z)) = w * h" by (simp_all add: image_new_def)
  have idx: "y * w + x < w * h" if "x < w" "y < h" for x y
  proof -
    have "y * w + x < Suc y * w" using that by simp
    also have "\<dots> \<le> h * w" using that by (intro mult_le_mono1) simp
    finally show ?thesis by (simp add: mult.commute)
  qed
  show ?thesis
  proof (cases "w = 0")
    case True
    then have "raster w h = []" by (simp add: raster_def)
    with True show ?thesis by (simp add: image_new_def)
  next
    case False
    have "fill_pixels src (raster w h) (image_new w h z) = Some (Inr ?im)"
      using assms by (intro fill_pixels_ok) simp
    moreover have d: "img_w ?im = w \<and> img_h ?im = h \<and> length (img_px ?im) = w * h"
      using fold_put_dims [of v "image_new w h z" "raster w h"] by (simp add: dims)
    moreover have "get_pixel ?im x y = Some (v x y)" if "x < w" "y < h" for x y
      using fold_put_pixel [of "raster w h" "image_new w h z" x y v] that idx [OF that] d
      by (simp add: get_pixel_def dims)
    ultimately show ?thesis by blast
  qed
qed

section \<open>Cropping\<close>

text \<open>The overlap of a region with the frame, in screen coordinates.\<close>

definition overlap :: "Frame \<Rightarrow> Rect \<Rightarrow> Rect" where
  "overlap f r =
     (let fb = fr_bounds f; x0 = max (rect_x r) (rect_x fb); y0 = max (rect_y r) (rect_y fb)
      in \<lparr>rect_x = x0, rect_y = y0,
          rect_w = min (rect_x r + rect_w r) (rect_x fb + rect_w fb) - x0,
          rect_h = min (rect_y r + rect_h r) (rect_y fb + rect_h fb) - y0\<rparr>)"

lemma u32_of_i32_nonneg: "0 \<le> x \<Longrightarrow> is_i32 x \<Longrightarrow> u32_of_i32 x = nat x"
  by (simp add: u32_of_i32_def is_i32_def)

lemma overlap_in_frame:
  assumes "frame_wf f" "rect_i32 r" "0 < rect_w (overlap f r)" "0 < rect_h (overlap f r)"
  shows "rect_x (fr_bounds f) \<le> rect_x (overlap f r)"
    and "rect_x (overlap f r) + rect_w (overlap f r) \<le> rect_x (fr_bounds f) + frame_width f"
    and "rect_y (fr_bounds f) \<le> rect_y (overlap f r)"
    and "rect_y (overlap f r) + rect_h (overlap f r) \<le> rect_y (fr_bounds f) + frame_height f"
  by (auto simp: overlap_def Let_def frame_width_def frame_height_def)

lemma crop_rgb_unfold:
  assumes wf: "frame_wf f" and r: "rect_i32 r"
  defines "ov \<equiv> overlap f r"
  shows "crop_rgb f r =
     (if rect_w ov \<le> 0 \<or> rect_h ov \<le> 0 then Some (Inl RegionOutOfBounds)
      else fill_pixels (\<lambda>col row. pixel_rgb f
               (i32_add (i32_sub (rect_x ov) (rect_x (fr_bounds f))) (i32_of_u32 col))
               (i32_add (i32_sub (rect_y ov) (rect_y (fr_bounds f))) (i32_of_u32 row)))
             (raster (nat (rect_w ov)) (nat (rect_h ov)))
             (image_new (nat (rect_w ov)) (nat (rect_h ov)) (0, 0, 0)))"
proof -
  let ?fb = "fr_bounds f"
  have i: "i32_add (rect_x r) (rect_w r) = rect_x r + rect_w r" "i32_add (rect_y r) (rect_h r) = rect_y r + rect_h r"
    "i32_add (rect_x ?fb) (rect_w ?fb) = rect_x ?fb + rect_w ?fb"
    "i32_add (rect_y ?fb) (rect_h ?fb) = rect_y ?fb + rect_h ?fb"
    using wf r by (simp_all add: i32_add_def frame_wf_def rect_i32_def wrap_i32_id)
  have w: "is_i32 (rect_w ov)" if "0 < rect_w ov"
    using wf r that by (auto simp: ov_def overlap_def Let_def is_i32_def frame_wf_def rect_i32_def)
  have h: "is_i32 (rect_h ov)" if "0 < rect_h ov"
    using wf r that by (auto simp: ov_def overlap_def Let_def is_i32_def frame_wf_def rect_i32_def)
  let ?x0 = "max (rect_x r) (rect_x ?fb)" and ?y0 = "max (rect_y r) (rect_y ?fb)"
  let ?x1 = "min (rect_x r + rect_w r) (rect_x ?fb + rect_w ?fb)"
  let ?y1 = "min (rect_y r + rect_h r) (rect_y ?fb + rect_h ?fb)"
  have o: "rect_x ov = ?x0" "rect_y ov = ?y0" "rect_w ov = ?x1 - ?x0" "rect_h ov = ?y1 - ?y0"
    by (simp_all add: ov_def overlap_def Let_def)
  show ?thesis
  proof (cases "?x1 \<le> ?x0 \<or> ?y1 \<le> ?y0")
    case True
    then have "rect_w ov \<le> 0 \<or> rect_h ov \<le> 0" by (simp only: o) linarith
    with True show ?thesis by (simp only: crop_rgb_def Let_def i if_True)
  next
    case False
    then have pos: "0 < rect_w ov" "0 < rect_h ov" by (simp_all only: o) linarith+
    have "u32_of_i32 (i32_sub ?x1 ?x0) = nat (rect_w ov)" "u32_of_i32 (i32_sub ?y1 ?y0) = nat (rect_h ov)"
      using w [OF pos(1)] h [OF pos(2)] pos unfolding o i32_sub_def
      by (simp_all only: wrap_i32_id u32_of_i32_nonneg less_imp_le)
    with False pos show ?thesis
      by (simp only: crop_rgb_def Let_def i if_False o(1,2) not_le if_not_P) simp
  qed
qed

lemma if_Some_not_None: "g \<noteq> None \<Longrightarrow> (if c then Some e else g) \<noteq> None"
  by simp

lemma crop_rgb_no_panic: "frame_wf f \<Longrightarrow> crop_rgb f r \<noteq> None"
  unfolding crop_rgb_def Let_def
  by (intro if_Some_not_None fill_pixels_no_panic pixel_rgb_no_panic)

lemma frame_to_rgb_no_panic: "frame_wf f \<Longrightarrow> frame_to_rgb f \<noteq> None"
  unfolding frame_to_rgb_def Let_def by (intro fill_pixels_no_panic pixel_rgb_no_panic)

lemma crop_rgb_err: "crop_rgb f r = Some (Inl e) \<Longrightarrow> e = RegionOutOfBounds"
  by (auto simp: crop_rgb_def Let_def dest!: fill_pixels_error pixel_rgb_error split: if_splits)

lemma frame_to_rgb_err: "frame_to_rgb f = Some (Inl e) \<Longrightarrow> e = RegionOutOfBounds"
  by (auto simp: frame_to_rgb_def Let_def dest!: fill_pixels_error pixel_rgb_error split: if_splits)

lemma crop_rgb_ok:
  assumes wf: "frame_wf f" and r: "rect_i32 r"
    and pos: "0 < rect_w (overlap f r)" "0 < rect_h (overlap f r)"
  shows "\<exists>im. crop_rgb f r = Some (Inr im) \<and>
     img_w im = nat (rect_w (overlap f r)) \<and> img_h im = nat (rect_h (overlap f r)) \<and>
     (\<forall>x < img_w im. \<forall>y < img_h im. \<exists>v. get_pixel im x y = Some v \<and>
        pixel_rgb f (rect_x (overlap f r) - rect_x (fr_bounds f) + int x)
                    (rect_y (overlap f r) - rect_y (fr_bounds f) + int y) = Some (Inr v))"
proof -
  let ?ov = "overlap f r" and ?fb = "fr_bounds f"
  note inf = overlap_in_frame [OF wf r pos]
  let ?px = "\<lambda>x y. pixel_rgb f (rect_x ?ov - rect_x ?fb + int x) (rect_y ?ov - rect_y ?fb + int y)"
  have b: "is_i32 (rect_w ?fb)" "is_i32 (rect_h ?fb)" using wf by (simp_all add: frame_wf_def)
  have in_frame: "\<exists>v. ?px x y = Some (Inr v)" if "x < nat (rect_w ?ov)" "y < nat (rect_h ?ov)" for x y
    using inf that by (intro pixel_rgb_in_bounds [OF wf]) linarith+
  define v where "v x y = (case ?px x y of Some (Inr p) \<Rightarrow> p | _ \<Rightarrow> (0, 0, 0))" for x y
  have pv: "?px x y = Some (Inr (v x y))" if "x < nat (rect_w ?ov)" "y < nat (rect_h ?ov)" for x y
    using in_frame [OF that] by (auto simp: v_def)
  have e: "i32_add (i32_sub a c) (i32_of_u32 k) = a - c + int k"
    if "c \<le> a" "a - c + int k < m" "is_i32 m" for a c m k
    using that by (simp add: i32_add_def i32_sub_def i32_of_u32_def is_i32_def wrap_i32_id)
  have src: "pixel_rgb f (i32_add (i32_sub (rect_x ?ov) (rect_x ?fb)) (i32_of_u32 x))
       (i32_add (i32_sub (rect_y ?ov) (rect_y ?fb)) (i32_of_u32 y)) = Some (Inr (v x y))"
    if xy: "x < nat (rect_w ?ov)" "y < nat (rect_h ?ov)" for x y
  proof -
    have 1: "rect_x ?ov - rect_x ?fb + int x < rect_w ?fb" "rect_y ?ov - rect_y ?fb + int y < rect_h ?fb"
      using inf xy by (simp_all add: frame_width_def frame_height_def)
    show ?thesis using pv [OF xy] e [OF inf(1) 1(1) b(1)] e [OF inf(3) 1(2) b(2)] by simp
  qed
  have crop: "crop_rgb f r = fill_pixels
      (\<lambda>col row. pixel_rgb f (i32_add (i32_sub (rect_x ?ov) (rect_x ?fb)) (i32_of_u32 col))
               (i32_add (i32_sub (rect_y ?ov) (rect_y ?fb)) (i32_of_u32 row)))
      (raster (nat (rect_w ?ov)) (nat (rect_h ?ov))) (image_new (nat (rect_w ?ov)) (nat (rect_h ?ov)) (0, 0, 0))"
    using pos by (simp add: crop_rgb_unfold [OF wf r])
  have "\<exists>im. crop_rgb f r = Some (Inr im) \<and> img_w im = nat (rect_w ?ov) \<and> img_h im = nat (rect_h ?ov) \<and>
      length (img_px im) = nat (rect_w ?ov) * nat (rect_h ?ov) \<and>
      (\<forall>x < nat (rect_w ?ov). \<forall>y < nat (rect_h ?ov). get_pixel im x y = Some (v x y))"
    unfolding crop by (rule fill_raster) (rule src)
  with pv show ?thesis by metis
qed

lemma crop_rgb_error:
  assumes "frame_wf f" "rect_i32 r" "crop_rgb f r = Some (Inl e)"
  shows "e = RegionOutOfBounds \<and> (rect_w (overlap f r) \<le> 0 \<or> rect_h (overlap f r) \<le> 0)"
  using crop_rgb_ok [OF assms(1,2)] assms(3) crop_rgb_unfold [OF assms(1,2)]
  by (auto split: if_splits simp: not_le)

section \<open>Colour distance\<close>

definition color_dist_sq :: "Rgb \<Rightarrow> Rgb \<Rightarrow> int" where
  "color_dist_sq c d = (case c of (r, g, b) \<Rightarrow> case d of (tr, tg, tb) \<Rightarrow>
     (int (unat r) - int (unat tr))\<^sup>2 + (int (unat g) - int (unat tg))\<^sup>2 + (int (unat b) - int (unat tb))\<^sup>2)"

lemma three_squares_zero: "(x::int)\<^sup>2 + y\<^sup>2 + z\<^sup>2 \<le> 0 \<longleftrightarrow> x = 0 \<and> y = 0 \<and> z = 0"
proof
  assume h: "x\<^sup>2 + y\<^sup>2 + z\<^sup>2 \<le> 0"
  have "0 \<le> x\<^sup>2" "0 \<le> y\<^sup>2" "0 \<le> z\<^sup>2" by simp_all
  with h have "x\<^sup>2 = 0" "y\<^sup>2 = 0" "z\<^sup>2 = 0" by linarith+
  then show "x = 0 \<and> y = 0 \<and> z = 0" by simp
qed simp

lemma color_dist_zero: "color_dist_sq c d \<le> 0 \<longleftrightarrow> c = d"
  by (cases c; cases d) (simp only: color_dist_sq_def prod.case three_squares_zero right_minus_eq
      of_nat_eq_iff word_unat_eq_iff [symmetric] prod.inject)

lemma u8_bound: "unat (a :: 8 word) < 256"
  using unsigned_less [of a, where 'a = nat] by simp

lemma u8_diff_eq: "u8_diff a b = int (unat a) - int (unat b)"
  and u8_diff_sq: "(int (unat a) - int (unat b)) * (int (unat a) - int (unat b)) \<le> 65025"
proof -
  have ab: "int (unat a) < 256" "int (unat b) < 256"
    using u8_bound [of a] u8_bound [of b] by linarith+
  have "is_i32 (int (unat a) - int (unat b))"
    using ab unfolding is_i32_def by linarith
  then show "u8_diff a b = int (unat a) - int (unat b)"
    by (simp only: u8_diff_def i32_sub_def wrap_i32_id)
  have "\<bar>int (unat a) - int (unat b)\<bar> \<le> \<bar>255 :: int\<bar>" using ab by linarith
  then have "(int (unat a) - int (unat b))\<^sup>2 \<le> 255\<^sup>2" by (simp only: abs_le_square_iff)
  then show "(int (unat a) - int (unat b)) * (int (unat a) - int (unat b)) \<le> 65025"
    by (simp add: power2_eq_square)
qed

lemma color_sample_dist:
  assumes "pixel_rgb f x y = Some (Inr c)"
  shows "color_sample f x y t tol = Some (Inr (color_dist_sq c t \<le> wrap_i32 ((int tol)\<^sup>2)))"
proof -
  obtain r g b tr tg tb where c: "c = (r, g, b)" and t: "t = (tr, tg, tb)" by (cases c; cases t) auto
  have q: "0 \<le> z * z" for z :: int by simp
  define sq where "sq a a' = (int (unat a) - int (unat a')) * (int (unat a) - int (unat a'))" for a a' :: "8 word"
  have sq: "0 \<le> sq a a'" "sq a a' \<le> 65025" for a a'
    using u8_diff_sq [of a a'] q [of "int (unat a) - int (unat a')"] by (simp_all only: sq_def)
  have i: "is_i32 (sq a a')" "is_i32 (sq a a' + sq d d')" "is_i32 (sq a a' + sq d d' + sq e e')" for a a' d d' e e'
    using sq [of a a'] sq [of d d'] sq [of e e'] unfolding is_i32_def by linarith+
  have m: "i32_mul (u8_diff a a') (u8_diff a a') = sq a a'" for a a'
    using i(1) [of a a'] by (simp only: i32_mul_def u8_diff_eq sq_def wrap_i32_id)
  have cd: "color_dist_sq c t = sq r tr + sq g tg + sq b tb"
    by (simp only: color_dist_sq_def c t prod.case sq_def power2_eq_square)
  show ?thesis
    unfolding color_sample_def assms option.case sum.case Let_def cd
    by (simp only: c t prod.case m i32_add_def wrap_i32_id [OF i(2)] wrap_i32_id [OF i(3)])
      (simp only: i32_mul_def power2_eq_square)
qed

lemma tolerance_square: "tol \<le> 46340 \<Longrightarrow> wrap_i32 ((int tol)\<^sup>2) = (int tol)\<^sup>2"
proof -
  assume "tol \<le> 46340"
  then have "tol * tol \<le> 46340 * 46340" by (intro mult_le_mono) simp_all
  then have "int (tol * tol) \<le> 2147395600" by linarith
  then have "(int tol)\<^sup>2 \<le> 2147395600" by (simp add: power2_eq_square)
  moreover have "0 \<le> (int tol)\<^sup>2" by simp
  ultimately have "is_i32 ((int tol)\<^sup>2)" unfolding is_i32_def by linarith
  then show ?thesis by (rule wrap_i32_id)
qed

end
