(* ===== verification/Canonical.thy ===== *)
theory Canonical
  imports Core_Types
begin

unbundle bit_operations_syntax

text \<open>
  Canonical JSON and its SHA-256 digest (\<open>vcli-core/src/canonical.rs\<close>).  The Unicode
  normaliser \<open>nfc\<close> (crate \<open>unicode-normalization\<close>) and the float printer \<open>ryu\<close> (crate
  \<open>ryu\<close>) are parameters.  Numbers are finite by construction of the JSON type, so the two
  error arms of \<open>write_number\<close> have no counterpart and the writers are total.  Bytes are
  characters; the writer appends to a byte buffer, which is the returned string.
\<close>

record CanonExt =
  nfc :: "string \<Rightarrow> string"
  ryu :: "f64 \<Rightarrow> string"

section \<open>Writers\<close>

definition write_number :: "CanonExt \<Rightarrow> JsonNumber \<Rightarrow> string" where
  "write_number X n = (case n of JInt i \<Rightarrow> int_str i | JFloat f \<Rightarrow> ryu X f)"

definition hex_digit :: "nat \<Rightarrow> char" where
  "hex_digit d = (if d < 10 then char_of (48 + d) else char_of (87 + d))"

definition escape_char :: "char \<Rightarrow> string" where
  "escape_char c =
     (if c = CHR 0x22 then [CHR 0x5C, CHR 0x22]
      else if c = CHR 0x5C then [CHR 0x5C, CHR 0x5C]
      else if c = CHR 0x0A then [CHR 0x5C, CHR ''n'']
      else if c = CHR 0x0D then [CHR 0x5C, CHR ''r'']
      else if c = CHR 0x09 then [CHR 0x5C, CHR ''t'']
      else if c = CHR 0x08 then [CHR 0x5C, CHR ''b'']
      else if c = CHR 0x0C then [CHR 0x5C, CHR ''f'']
      else if (of_char c :: nat) < 32
        then [CHR 0x5C, CHR ''u'', CHR ''0'', CHR ''0'',
              hex_digit (of_char c div 16), hex_digit (of_char c mod 16)]
      else [c])"

definition write_string :: "CanonExt \<Rightarrow> string \<Rightarrow> string" where
  "write_string X s = CHR 0x22 # concat (map escape_char (nfc X s)) @ [CHR 0x22]"

text \<open>Elements separated by commas, as both container writers emit them.\<close>

fun comma_sep :: "string list \<Rightarrow> string" where
  "comma_sep [] = []"
| "comma_sep [s] = s"
| "comma_sep (s # t # ss) = s @ CHR '','' # comma_sep (t # ss)"

definition write_object_members :: "CanonExt \<Rightarrow> (string \<times> string) list \<Rightarrow> string" where
  "write_object_members X obj =
     (let ks = sort (map fst obj)
      in CHR ''{'' # comma_sep (map (\<lambda>k. write_string X k @ CHR '':'' # the (map_of obj k)) ks)
           @ ''}'')"

fun write_value :: "CanonExt \<Rightarrow> JsonValue \<Rightarrow> string" where
  "write_value X JNull = ''null''"
| "write_value X (JBool b) = (if b then ''true'' else ''false'')"
| "write_value X (JNumber n) = write_number X n"
| "write_value X (JString s) = write_string X s"
| "write_value X (JArray a) = CHR ''['' # comma_sep (map (write_value X) a) @ '']''"
| "write_value X (JObject m) = write_object_members X (map (\<lambda>(k, v). (k, write_value X v)) m)"

definition canonicalize :: "CanonExt \<Rightarrow> JsonValue \<Rightarrow> string" where
  "canonicalize X v = write_value X v"

section \<open>SHA-256\<close>

type_synonym w32 = "32 word"

definition rotate_right :: "w32 \<Rightarrow> nat \<Rightarrow> w32" where
  "rotate_right w n = drop_bit n w OR push_bit (32 - n) w"

text \<open>Constants in the two digit groups in which the source writes them, as in \<open>0x428a_2f98\<close>.\<close>

definition hex_groups :: "(w32 \<times> w32) list \<Rightarrow> w32 list" where
  "hex_groups = map (\<lambda>(hi, lo). hi * 0x10000 + lo)"

definition sha_init :: "w32 list" where
  "sha_init = hex_groups
    [(0x6a09, 0xe667), (0xbb67, 0xae85), (0x3c6e, 0xf372), (0xa54f, 0xf53a),
     (0x510e, 0x527f), (0x9b05, 0x688c), (0x1f83, 0xd9ab), (0x5be0, 0xcd19)]"

definition sha_k :: "w32 list" where
  "sha_k = hex_groups
    [(0x428a, 0x2f98), (0x7137, 0x4491), (0xb5c0, 0xfbcf), (0xe9b5, 0xdba5),
     (0x3956, 0xc25b), (0x59f1, 0x11f1), (0x923f, 0x82a4), (0xab1c, 0x5ed5),
     (0xd807, 0xaa98), (0x1283, 0x5b01), (0x2431, 0x85be), (0x550c, 0x7dc3),
     (0x72be, 0x5d74), (0x80de, 0xb1fe), (0x9bdc, 0x06a7), (0xc19b, 0xf174),
     (0xe49b, 0x69c1), (0xefbe, 0x4786), (0x0fc1, 0x9dc6), (0x240c, 0xa1cc),
     (0x2de9, 0x2c6f), (0x4a74, 0x84aa), (0x5cb0, 0xa9dc), (0x76f9, 0x88da),
     (0x983e, 0x5152), (0xa831, 0xc66d), (0xb003, 0x27c8), (0xbf59, 0x7fc7),
     (0xc6e0, 0x0bf3), (0xd5a7, 0x9147), (0x06ca, 0x6351), (0x1429, 0x2967),
     (0x27b7, 0x0a85), (0x2e1b, 0x2138), (0x4d2c, 0x6dfc), (0x5338, 0x0d13),
     (0x650a, 0x7354), (0x766a, 0x0abb), (0x81c2, 0xc92e), (0x9272, 0x2c85),
     (0xa2bf, 0xe8a1), (0xa81a, 0x664b), (0xc24b, 0x8b70), (0xc76c, 0x51a3),
     (0xd192, 0xe819), (0xd699, 0x0624), (0xf40e, 0x3585), (0x106a, 0xa070),
     (0x19a4, 0xc116), (0x1e37, 0x6c08), (0x2748, 0x774c), (0x34b0, 0xbcb5),
     (0x391c, 0x0cb3), (0x4ed8, 0xaa4a), (0x5b9c, 0xca4f), (0x682e, 0x6ff3),
     (0x748f, 0x82ee), (0x78a5, 0x636f), (0x84c8, 0x7814), (0x8cc7, 0x0208),
     (0x90be, 0xfffa), (0xa450, 0x6ceb), (0xbef9, 0xa3f7), (0xc671, 0x78f2)]"

text \<open>\<open>while msg.len() % 64 != 56 { msg.push(0) }\<close>\<close>

definition pad_missing :: "nat \<Rightarrow> nat" where
  "pad_missing m = (if m \<le> 56 then 56 - m else 120 - m)"

lemma pad_missing_decreases:
  assumes "n mod 64 \<noteq> 56"
  shows "pad_missing (Suc n mod 64) < pad_missing (n mod 64)"
proof -
  have "n mod 64 < 64" by simp
  with assms show ?thesis by (auto simp: pad_missing_def mod_Suc)
qed

function sha_pad_zeros :: "string \<Rightarrow> string" where
  "sha_pad_zeros msg =
     (if length msg mod 64 \<noteq> 56 then sha_pad_zeros (msg @ [CHR 0x00]) else msg)"
  by pat_completeness auto
termination
proof (relation "measure (\<lambda>msg. pad_missing (length msg mod 64))")
  fix msg :: string
  assume "length msg mod 64 \<noteq> 56"
  then show "(msg @ [CHR 0x00], msg) \<in> measure (\<lambda>msg. pad_missing (length msg mod 64))"
    using pad_missing_decreases by simp
qed simp

declare sha_pad_zeros.simps [simp del]

text \<open>\<open>(data.len() as u64).wrapping_mul(8).to_be_bytes()\<close>\<close>

definition be_bytes_u64 :: "64 word \<Rightarrow> string" where
  "be_bytes_u64 n = map (\<lambda>i. char_of (uint (drop_bit (8 * (7 - i)) n) mod 256)) [0..<8]"

definition sha_padded :: "string \<Rightarrow> string" where
  "sha_padded data =
     sha_pad_zeros (data @ [CHR 0x80]) @ be_bytes_u64 (word_of_nat (length data) * 8)"

text \<open>\<open>chunks_exact(n)\<close>: full chunks only.\<close>

function chunks_exact :: "nat \<Rightarrow> 'a list \<Rightarrow> 'a list list" where
  "chunks_exact n xs =
     (if n = 0 \<or> length xs < n then [] else take n xs # chunks_exact n (drop n xs))"
  by pat_completeness auto
termination by (relation "measure (\<lambda>(n, xs). length xs)") auto

declare chunks_exact.simps [simp del]

fun u32_from_be :: "string \<Rightarrow> w32" where
  "u32_from_be [a, b, c, d] =
     word_of_int (((of_char a * 256 + of_char b) * 256 + of_char c) * 256 + of_char d)"
| "u32_from_be _ = 0"

fun sha_schedule :: "nat \<Rightarrow> w32 list \<Rightarrow> w32 list" where
  "sha_schedule 0 w = w"
| "sha_schedule (Suc n) w =
     (let i = 63 - n;
          s0 = rotate_right (w ! (i - 15)) 7 XOR rotate_right (w ! (i - 15)) 18 XOR drop_bit 3 (w ! (i - 15));
          s1 = rotate_right (w ! (i - 2)) 17 XOR rotate_right (w ! (i - 2)) 19 XOR drop_bit 10 (w ! (i - 2))
      in sha_schedule n (w[i := w ! (i - 16) + s0 + w ! (i - 7) + s1]))"

definition sha_round :: "w32 \<Rightarrow> w32 \<Rightarrow> w32 list \<Rightarrow> w32 list" where
  "sha_round ki wi h =
     (let s1 = rotate_right (h ! 4) 6 XOR rotate_right (h ! 4) 11 XOR rotate_right (h ! 4) 25;
          ch = (h ! 4 AND h ! 5) XOR (NOT (h ! 4) AND h ! 6);
          temp1 = h ! 7 + s1 + ch + ki + wi;
          s0 = rotate_right (h ! 0) 2 XOR rotate_right (h ! 0) 13 XOR rotate_right (h ! 0) 22;
          maj = (h ! 0 AND h ! 1) XOR (h ! 0 AND h ! 2) XOR (h ! 1 AND h ! 2);
          temp2 = s0 + maj
      in [temp1 + temp2, h ! 0, h ! 1, h ! 2, h ! 3 + temp1, h ! 4, h ! 5, h ! 6])"

fun sha_rounds :: "(w32 \<times> w32) list \<Rightarrow> w32 list \<Rightarrow> w32 list" where
  "sha_rounds [] h = h"
| "sha_rounds ((ki, wi) # r) h = sha_rounds r (sha_round ki wi h)"

definition sha_chunk :: "w32 list \<Rightarrow> string \<Rightarrow> w32 list" where
  "sha_chunk state chunk =
     (let w = sha_schedule 48 (map u32_from_be (chunks_exact 4 chunk) @ replicate 48 0);
          h = sha_rounds (zip sha_k w) state
      in map2 (+) state h)"

definition hex_word :: "w32 \<Rightarrow> string" where
  "hex_word w = map (\<lambda>i. hex_digit (nat (uint (drop_bit (4 * (7 - i)) w) mod 16))) [0..<8]"

definition sha256_hex :: "string \<Rightarrow> string" where
  "sha256_hex data =
     concat (map hex_word (foldl sha_chunk sha_init (chunks_exact 64 (sha_padded data))))"

definition predicate_hash :: "CanonExt \<Rightarrow> JsonValue \<Rightarrow> string" where
  "predicate_hash X v = sha256_hex (canonicalize X v)"

end
