(* ===== verification/Serde.thy ===== *)
theory Serde
  imports Canonical
begin

text \<open>
  The \<open>serde_json::to_value\<close> images of the types whose serialisation the runtime relies on:
  predicates (hashed for the result cache), steps (embedded in action events), whole
  programs (stored by the daemon) and their parts, as the \<open>#[serde(...)]\<close> attributes of \<open>vcli-core\<close> prescribe: internally tagged by
  \<open>kind\<close>, snake-case variant names, renamed fields, skipped defaults.
\<close>

definition json_obj :: "(string \<times> JsonValue) list \<Rightarrow> JsonValue" where
  "json_obj kvs = JObject (fold (\<lambda>(k, v) m. btree_insert k v m) kvs [])"

definition jnat :: "nat \<Rightarrow> JsonValue" where "jnat n = JNumber (JInt (int n))"
definition jint :: "int \<Rightarrow> JsonValue" where "jint i = JNumber (JInt i)"
definition jf64 :: "f64 \<Rightarrow> JsonValue" where "jf64 f = JNumber (JFloat f)"

definition opt_field :: "string \<Rightarrow> ('a \<Rightarrow> JsonValue) \<Rightarrow> 'a option \<Rightarrow> (string \<times> JsonValue) list" where
  "opt_field k f v = (case v of None \<Rightarrow> [] | Some x \<Rightarrow> [(k, f x)])"

definition point_to_value :: "Point \<Rightarrow> JsonValue" where
  "point_to_value p = json_obj [(''x'', jint (pt_x p)), (''y'', jint (pt_y p))]"

definition rect_to_value :: "Rect \<Rightarrow> JsonValue" where
  "rect_to_value r = json_obj [(''x'', jint (rect_x r)), (''y'', jint (rect_y r)),
                               (''w'', jint (rect_w r)), (''h'', jint (rect_h r))]"

definition size_to_value :: "Size \<Rightarrow> JsonValue" where
  "size_to_value z = json_obj [(''w'', jint (size_w z)), (''h'', jint (size_h z))]"

fun region_to_value :: "Region \<Rightarrow> JsonValue" where
  "region_to_value (Absolute r) = json_obj [(''kind'', JString ''absolute''), (''box'', rect_to_value r)]"
| "region_to_value (Window app title idx) =
     json_obj ([(''kind'', JString ''window''), (''app'', JString app)]
               @ opt_field ''title_contains'' JString title @ opt_field ''window_index'' jnat idx)"
| "region_to_value (RelativeTo p a off sz) =
     json_obj ([(''kind'', JString ''relative_to''), (''predicate'', JString p),
                (''anchor'', JString ''match''), (''offset'', point_to_value off)]
               @ opt_field ''size'' size_to_value sz)"

definition rgb_to_value :: "Rgb \<Rightarrow> JsonValue" where
  "rgb_to_value c = (case c of (r, g, b) \<Rightarrow> JArray [jnat (unat r), jnat (unat g), jnat (unat b)])"

fun predicate_to_value :: "PredicateKind \<Rightarrow> JsonValue" where
  "predicate_to_value (Template img conf region thr) =
     json_obj [(''kind'', JString ''template''), (''image'', JString img), (''confidence'', jf64 conf),
               (''region'', region_to_value region), (''throttle_ms'', jnat thr)]"
| "predicate_to_value (ColorAt p c tol) =
     json_obj [(''kind'', JString ''color_at''), (''point'', point_to_value p),
               (''rgb'', rgb_to_value c), (''tolerance'', jnat tol)]"
| "predicate_to_value (PixelDiff region baseline thr) =
     json_obj [(''kind'', JString ''pixel_diff''), (''region'', region_to_value region),
               (''baseline'', JString baseline), (''threshold'', jf64 thr)]"
| "predicate_to_value (AllOf xs) = json_obj [(''kind'', JString ''all_of''), (''of'', JArray (map JString xs))]"
| "predicate_to_value (AnyOf xs) = json_obj [(''kind'', JString ''any_of''), (''of'', JArray (map JString xs))]"
| "predicate_to_value (NotOf x) = json_obj [(''kind'', JString ''not''), (''of'', JString x)]"
| "predicate_to_value (ElapsedMsSinceTrue p ms) =
     json_obj [(''kind'', JString ''elapsed_ms_since_true''), (''predicate'', JString p), (''ms'', jnat ms)]"

definition target_to_value :: "Target \<Rightarrow> JsonValue" where
  "target_to_value t = (case t of AbsoluteTarget p \<Rightarrow> point_to_value p | Expression s \<Rightarrow> JString s)"

fun button_str :: "Button \<Rightarrow> string" where
  "button_str LeftButton = ''left''"
| "button_str RightButton = ''right''"
| "button_str MiddleButton = ''middle''"

fun modifier_str :: "Modifier \<Rightarrow> string" where
  "modifier_str Cmd = ''cmd''"
| "modifier_str Shift = ''shift''"
| "modifier_str Alt = ''alt''"
| "modifier_str Ctrl = ''ctrl''"

fun on_timeout_str :: "OnTimeout \<Rightarrow> string" where
  "on_timeout_str Timeout_Fail = ''fail''"
| "on_timeout_str Timeout_Continue = ''continue''"
| "on_timeout_str Timeout_Retry = ''retry''"

fun on_fail_str :: "OnFail \<Rightarrow> string" where
  "on_fail_str Assert_Fail = ''fail''"
| "on_fail_str Assert_Continue = ''continue''"

fun step_to_value :: "Step \<Rightarrow> JsonValue" where
  "step_to_value (Move t) = json_obj [(''kind'', JString ''move''), (''at'', target_to_value t)]"
| "step_to_value (Click t b) =
     json_obj ([(''kind'', JString ''click''), (''at'', target_to_value t)]
               @ (if is_default_button b then [] else [(''button'', JString (button_str b))]))"
| "step_to_value (TypeText s) = json_obj [(''kind'', JString ''type''), (''text'', JString s)]"
| "step_to_value (Key k ms) =
     json_obj ([(''kind'', JString ''key''), (''key'', JString k)]
               @ (if ms = [] then [] else [(''modifiers'', JArray (map (JString \<circ> modifier_str) ms))]))"
| "step_to_value (Scroll t dx dy) =
     json_obj [(''kind'', JString ''scroll''), (''at'', target_to_value t), (''dx'', jint dx), (''dy'', jint dy)]"
| "step_to_value (WaitFor p ms ot) =
     json_obj [(''kind'', JString ''wait_for''), (''predicate'', JString p), (''timeout_ms'', jnat ms),
               (''on_timeout'', JString (on_timeout_str ot))]"
| "step_to_value (Assert p f) =
     json_obj [(''kind'', JString ''assert''), (''predicate'', JString p), (''on_fail'', JString (on_fail_str f))]"
| "step_to_value (SleepMs ms) = json_obj [(''kind'', JString ''sleep_ms''), (''ms'', jnat ms)]"

fun trigger_to_value :: "Trigger \<Rightarrow> JsonValue" where
  "trigger_to_value OnSubmit = json_obj [(''kind'', JString ''on_submit'')]"
| "trigger_to_value (OnPredicate n) = json_obj [(''kind'', JString ''on_predicate''), (''name'', JString n)]"
| "trigger_to_value Manual = json_obj [(''kind'', JString ''manual'')]"

fun lifetime_to_value :: "Lifetime \<Rightarrow> JsonValue" where
  "lifetime_to_value OneShot = json_obj [(''kind'', JString ''one_shot'')]"
| "lifetime_to_value Persistent = json_obj [(''kind'', JString ''persistent'')]"
| "lifetime_to_value (UntilPredicate n) =
     json_obj [(''kind'', JString ''until_predicate''), (''name'', JString n)]"
| "lifetime_to_value (TimeoutMs ms) = json_obj [(''kind'', JString ''timeout_ms''), (''ms'', jnat ms)]"

definition when_to_value :: "WatchWhen \<Rightarrow> JsonValue" where
  "when_to_value w = (case w of ByName n \<Rightarrow> JString n | Inline p \<Rightarrow> predicate_to_value p)"

definition watch_to_value :: "Watch \<Rightarrow> JsonValue" where
  "watch_to_value w =
     json_obj [(''when'', when_to_value (when_cond w)), (''do'', JArray (map step_to_value (watch_steps w))),
               (''throttle_ms'', jnat (throttle_ms w)), (''lifetime'', lifetime_to_value (lifetime w))]"

definition program_to_value :: "Program \<Rightarrow> JsonValue" where
  "program_to_value p =
     json_obj ([(''version'', JString (version p)), (''name'', JString (prog_name p))]
       @ opt_field ''id'' JString (prog_id p)
       @ [(''trigger'', trigger_to_value (trigger p)),
          (''predicates'', JObject (map (\<lambda>(k, q). (k, predicate_to_value q)) (predicates p)))]
       @ (if watches p = [] then [] else [(''watches'', JArray (map watch_to_value (watches p)))])
       @ [(''body'', JArray (map step_to_value (body p)))]
       @ opt_field ''on_complete'' (\<lambda>e. json_obj [(''emit'', JString e)]) (on_complete p)
       @ opt_field ''on_fail'' (\<lambda>e. json_obj [(''emit'', JString e)]) (on_fail p)
       @ opt_field ''timeout_ms'' jnat (timeout_ms p)
       @ (if labels p = [] then []
          else [(''labels'', JObject (map (\<lambda>(k, v). (k, JString v)) (labels p)))])
       @ (if is_default_priority (priority p) then [] else [(''priority'', jint (priority p))]))"

text \<open>\<open>hash_predicate\<close> of the perception crate: canonical JSON of the serialised predicate.\<close>

definition hash_predicate :: "CanonExt \<Rightarrow> PredicateKind \<Rightarrow> string" where
  "hash_predicate X p = predicate_hash X (predicate_to_value p)"

end
