(* ===== verification/Dsl_Base.thy ===== *)
theory Dsl_Base
  imports Serde
begin

text \<open>
  Building blocks of crate \<open>vcli-dsl\<close>: JSON paths (\<open>path.rs\<close>), validation errors
  (\<open>error.rs\<close>), the did-you-mean helper (\<open>hint.rs\<close>) and target expressions
  (\<open>expression.rs\<close>).  The lemmas show that the hint helper decides "one edit apart"
  exactly, that path escaping is injective and that the expression parser accepts exactly
  its grammar.
\<close>

section \<open>Paths\<close>

datatype Segment = SegKey string | SegIndex nat

type_synonym JsonPath = "Segment list"

definition path_root :: JsonPath where "path_root = []"
definition path_key :: "JsonPath \<Rightarrow> string \<Rightarrow> JsonPath" where "path_key p k = p @ [SegKey k]"
definition path_index :: "JsonPath \<Rightarrow> nat \<Rightarrow> JsonPath" where "path_index p i = p @ [SegIndex i]"
definition path_is_root :: "JsonPath \<Rightarrow> bool" where "path_is_root p \<longleftrightarrow> p = []"

definition escape_key :: "string \<Rightarrow> string" where
  "escape_key k = concat (map (\<lambda>c. if c = CHR ''~'' then ''~0'' else if c = CHR ''/'' then ''~1'' else [c]) k)"

fun segment_display :: "Segment \<Rightarrow> string" where
  "segment_display (SegKey k) = CHR ''/'' # escape_key k"
| "segment_display (SegIndex i) = CHR ''/'' # nat_str i"

definition path_display :: "JsonPath \<Rightarrow> string" where
  "path_display p = concat (map segment_display p)"

section \<open>Errors\<close>

datatype DslErrorKind =
    JsonParse string
  | UnsupportedDslVersion string string
  | MissingField string
  | WrongType string string string
  | UnknownPredicateName string "string option"
  | UnknownWatchName string "string option"
  | UnknownTriggerName string "string option"
  | PredicateCycle "string list"
  | ElapsedReferenceMissing string
  | NegativeAbsoluteTarget i32 i32
  | BodyOnlyStepInWatch string
  | MalformedExpression string string
  | ExpressionOnLogicalPredicate string
  | EmptyLogicalOp string
  | FullDisplayTemplateWithoutOptIn
  | CanonicalizationFailed string

record DslError =
  err_kind :: DslErrorKind
  err_path :: JsonPath

definition dsl_err :: "DslErrorKind \<Rightarrow> JsonPath \<Rightarrow> DslError" where
  "dsl_err k p = \<lparr>err_kind = k, err_path = p\<rparr>"

fun dsl_hint :: "DslErrorKind \<Rightarrow> string option" where
  "dsl_hint (UnknownPredicateName _ h) = h"
| "dsl_hint (UnknownWatchName _ h) = h"
| "dsl_hint (UnknownTriggerName _ h) = h"
| "dsl_hint _ = None"

text \<open>
  \<open>Display\<close> of an error kind.  \<open>dbg\<close> is \<open>Debug\<close> of a string, whose escapes follow the
  standard library's Unicode tables, and \<open>dbg_list\<close> that of a list of strings.
\<close>

fun kind_display :: "(string \<Rightarrow> string) \<Rightarrow> (string list \<Rightarrow> string) \<Rightarrow> DslErrorKind \<Rightarrow> string" where
  "kind_display dbg dbg_list (JsonParse m) = ''json parse failed: '' @ m"
| "kind_display dbg dbg_list (UnsupportedDslVersion f e) =
     ''unsupported dsl version: '' @ dbg f @ '' (expected major '' @ dbg e @ '')''"
| "kind_display dbg dbg_list (MissingField f) = ''missing required field: '' @ f"
| "kind_display dbg dbg_list (WrongType f e g) =
     ''wrong type for field '' @ f @ '': expected '' @ e @ '', got '' @ g"
| "kind_display dbg dbg_list (UnknownPredicateName n _) = ''unknown predicate '' @ dbg n"
| "kind_display dbg dbg_list (UnknownWatchName n _) =
     ''unknown predicate referenced in watch.when: '' @ dbg n"
| "kind_display dbg dbg_list (UnknownTriggerName n _) =
     ''trigger references unknown predicate: '' @ dbg n"
| "kind_display dbg dbg_list (PredicateCycle c) = ''predicate cycle: '' @ dbg_list c"
| "kind_display dbg dbg_list (ElapsedReferenceMissing n) =
     ''elapsed_ms_since_true: referenced predicate '' @ dbg n @ '' does not exist''"
| "kind_display dbg dbg_list (NegativeAbsoluteTarget x y) =
     ''absolute target coordinates must be non-negative, got ('' @ int_str x @ '', '' @ int_str y @ '')''"
| "kind_display dbg dbg_list (BodyOnlyStepInWatch k) =
     ''step kind '' @ dbg k @ '' is not allowed inside watch.do (body-only)''"
| "kind_display dbg dbg_list (MalformedExpression r raw) = ''malformed expression: '' @ r @ '': '' @ dbg raw"
| "kind_display dbg dbg_list (ExpressionOnLogicalPredicate n) =
     ''expression references non-match predicate '' @ dbg n @ '' (logical predicates produce no match)''"
| "kind_display dbg dbg_list (EmptyLogicalOp op) = op @ '' requires at least one operand''"
| "kind_display dbg dbg_list FullDisplayTemplateWithoutOptIn =
     ''template predicate uses full-display region without slow_budget=true (Decision 4.1)''"
| "kind_display dbg dbg_list (CanonicalizationFailed m) = ''canonicalization failed: '' @ m"

definition dsl_to_payload ::
  "(string \<Rightarrow> string) \<Rightarrow> (string list \<Rightarrow> string) \<Rightarrow> DslError \<Rightarrow> ErrorPayload" where
  "dsl_to_payload dbg dbg_list e =
     \<lparr>ep_code = InvalidProgram, ep_message = kind_display dbg dbg_list (err_kind e),
      ep_path = Some (path_display (err_path e)), ep_line = None, ep_column = None,
      ep_span_len = None, ep_hint = dsl_hint (err_kind e)\<rparr>"

section \<open>Did-you-mean\<close>

text \<open>The equal-length loop: counts mismatches, giving up at the second.\<close>

fun diff_loop :: "'a list \<Rightarrow> 'a list \<Rightarrow> nat \<Rightarrow> bool" where
  "diff_loop (a # as) (b # bs) diff =
     (if a \<noteq> b then (if diff + 1 > 1 then False else diff_loop as bs (diff + 1))
      else diff_loop as bs diff)"
| "diff_loop _ _ diff = (diff \<le> 1)"

text \<open>The insertion loop: \<open>si\<close> is the peekable iterator over the shorter string.\<close>

fun insertion_loop :: "'a list \<Rightarrow> bool \<Rightarrow> 'a list \<Rightarrow> bool" where
  "insertion_loop si found_gap [] = True"
| "insertion_loop si found_gap (lc # ls) =
     (case si of
        sc # ss \<Rightarrow>
          if sc = lc then insertion_loop ss found_gap ls
          else if found_gap then False else insertion_loop si True ls
      | [] \<Rightarrow> if found_gap then False else insertion_loop si True ls)"

definition is_insertion :: "'a list \<Rightarrow> 'a list \<Rightarrow> bool" where
  "is_insertion shorter longer =
     (if length longer \<noteq> length shorter + 1 then False else insertion_loop shorter False longer)"

definition distance_at_most_1 :: "'a list \<Rightarrow> 'a list \<Rightarrow> bool" where
  "distance_at_most_1 a b =
     (let la = length a; lb = length b
      in if la = lb then diff_loop a b 0
         else if la < lb then is_insertion a b
         else is_insertion b a)"

fun did_you_mean :: "string \<Rightarrow> string list \<Rightarrow> string option" where
  "did_you_mean needle [] = None"
| "did_you_mean needle (c # cs) =
     (if c = needle then None
      else if distance_at_most_1 (str_chars needle) (str_chars c) then Some c
      else did_you_mean needle cs)"

section \<open>Target expressions\<close>

datatype DslAccessor = AccCenter | AccTopLeft | AccBox | AccConfidence

record DslExpression =
  expr_name :: string
  expr_accessor :: DslAccessor

definition is_ascii_alphabetic :: "char \<Rightarrow> bool" where
  "is_ascii_alphabetic c \<longleftrightarrow>
     (CHR ''a'' \<le> c \<and> c \<le> CHR ''z'') \<or> (CHR ''A'' \<le> c \<and> c \<le> CHR ''Z'')"

definition is_ascii_alphanumeric :: "char \<Rightarrow> bool" where
  "is_ascii_alphanumeric c \<longleftrightarrow> is_ascii_alphabetic c \<or> (CHR ''0'' \<le> c \<and> c \<le> CHR ''9'')"

fun is_valid_name :: "string \<Rightarrow> bool" where
  "is_valid_name [] = False"
| "is_valid_name (c # cs) =
     ((c = CHR ''_'' \<or> is_ascii_alphabetic c)
      \<and> list_all (\<lambda>d. d = CHR ''_'' \<or> is_ascii_alphanumeric d) cs)"

definition expr_err :: "string \<Rightarrow> string \<Rightarrow> JsonPath \<Rightarrow> DslError" where
  "expr_err reason raw loc = dsl_err (MalformedExpression reason raw) loc"

definition quoted :: "string \<Rightarrow> string" where
  "quoted s = CHR 0x27 # s @ [CHR 0x27]"

definition accessor_of :: "string \<Rightarrow> DslAccessor option" where
  "accessor_of acc =
     (if acc = ''center'' then Some AccCenter
      else if acc = ''top_left'' then Some AccTopLeft
      else if acc = ''box'' then Some AccBox
      else if acc = ''confidence'' then Some AccConfidence
      else None)"

definition expression_parse :: "string \<Rightarrow> JsonPath \<Rightarrow> DslError + DslExpression" where
  "expression_parse src loc =
     (case strip_prefix ''$'' src of
        None \<Rightarrow> Inl (expr_err (''expression must begin with '' @ quoted ''$'') src loc)
      | Some rest \<Rightarrow>
         (case str_split (CHR ''.'') rest of
            [] \<Rightarrow> Inl (expr_err (''missing predicate name after '' @ quoted ''$'') src loc)
          | name # parts \<Rightarrow>
             (if name = [] then Inl (expr_err (''missing predicate name after '' @ quoted ''$'') src loc)
              else if \<not> is_valid_name name
                then Inl (expr_err ''predicate name must match [A-Za-z_][A-Za-z0-9_]*'' src loc)
              else (case parts of
                  [] \<Rightarrow> Inl (expr_err (''missing '' @ quoted ''.match'') src loc)
                | match_kw # parts2 \<Rightarrow>
                   (if match_kw \<noteq> ''match''
                      then Inl (expr_err (''expected '' @ quoted ''.match'' @ '' after predicate name'') src loc)
                    else (case parts2 of
                        [] \<Rightarrow> Inl (expr_err ''missing accessor'' src loc)
                      | acc # parts3 \<Rightarrow>
                         (if parts3 \<noteq> [] then Inl (expr_err ''trailing segments after accessor'' src loc)
                          else (case accessor_of acc of
                              None \<Rightarrow> Inl (expr_err ''unknown accessor'' src loc)
                            | Some a \<Rightarrow> Inr \<lparr>expr_name = name, expr_accessor = a\<rparr>)))))))) "

fun accessor_str :: "DslAccessor \<Rightarrow> string" where
  "accessor_str AccCenter = ''center''"
| "accessor_str AccTopLeft = ''top_left''"
| "accessor_str AccBox = ''box''"
| "accessor_str AccConfidence = ''confidence''"

section \<open>Correctness of the hint helper\<close>

text \<open>The reference notion: equal up to one substitution, insertion or deletion.\<close>

definition one_edit :: "'a list \<Rightarrow> 'a list \<Rightarrow> bool" where
  "one_edit a b \<longleftrightarrow>
     (\<exists>p s x y. a = p @ x # s \<and> b = p @ y # s) \<or>
     (\<exists>p s x. a = p @ s \<and> b = p @ x # s) \<or>
     (\<exists>p s x. a = p @ x # s \<and> b = p @ s)"

lemma diff_loop_one: "length a = length b \<Longrightarrow> diff_loop a b (Suc 0) \<longleftrightarrow> a = b"
  by (induction a b rule: list_induct2) auto

lemma diff_loop_zero:
  "length a = length b \<Longrightarrow> diff_loop a b 0 \<longleftrightarrow> a = b \<or> (\<exists>p s x y. a = p @ x # s \<and> b = p @ y # s)"
proof (induction a b rule: list_induct2)
  case (Cons x xs y ys)
  show ?case
  proof (cases "x = y")
    case True
    have "(\<exists>p s u v. x # xs = p @ u # s \<and> x # ys = p @ v # s) \<longleftrightarrow>
          xs = ys \<or> (\<exists>p s u v. xs = p @ u # s \<and> ys = p @ v # s)" (is "?L \<longleftrightarrow> ?R")
    proof
      assume ?L
      then obtain p s u v where e: "x # xs = p @ u # s" "x # ys = p @ v # s" by blast
      then show ?R by (cases p) auto
    next
      assume ?R
      then show ?L
        by (metis append_Cons append_Nil)
    qed
    with True Cons show ?thesis by auto
  next
    case False
    have "(\<exists>p s u v. x # xs = p @ u # s \<and> y # ys = p @ v # s) \<longleftrightarrow> xs = ys" (is "?L \<longleftrightarrow> ?R")
    proof
      assume ?L
      then obtain p s u v where e: "x # xs = p @ u # s" "y # ys = p @ v # s" by blast
      with False show ?R by (cases p) auto
    next
      assume ?R
      then show ?L by (metis append_Nil)
    qed
    with False Cons.hyps show ?thesis by (simp add: diff_loop_one)
  qed
qed simp

lemma insertion_loop_gap: "length si = length ls \<Longrightarrow> insertion_loop si True ls \<longleftrightarrow> si = ls"
  by (induction si ls rule: list_induct2) auto

lemma insertion_loop_no_gap:
  "length ls = Suc (length si) \<Longrightarrow>
     insertion_loop si False ls \<longleftrightarrow> (\<exists>p s x. si = p @ s \<and> ls = p @ x # s)"
proof (induction si arbitrary: ls)
  case Nil
  then obtain l where "ls = [l]" by (cases ls) auto
  then show ?case by auto
next
  case (Cons sc ss)
  then obtain lc lt where ls: "ls = lc # lt" and len: "length lt = Suc (length ss)"
    by (cases ls) auto
  show ?case
  proof (cases "sc = lc")
    case True
    have "(\<exists>p s x. sc # ss = p @ s \<and> sc # lt = p @ x # s) \<longleftrightarrow> (\<exists>p s x. ss = p @ s \<and> lt = p @ x # s)"
      (is "?L \<longleftrightarrow> ?R")
    proof
      assume ?L
      then obtain p s x where e: "sc # ss = p @ s" "sc # lt = p @ x # s" by blast
      then show ?R
        by (cases p) (metis append_Nil list.inject, metis append_Cons list.inject)
    next
      assume ?R
      then show ?L by (metis append_Cons)
    qed
    with True ls Cons.IH [OF len] show ?thesis by simp
  next
    case False
    have "(\<exists>p s x. sc # ss = p @ s \<and> lc # lt = p @ x # s) \<longleftrightarrow> sc # ss = lt" (is "?L \<longleftrightarrow> ?R")
    proof
      assume ?L
      then obtain p s x where e: "sc # ss = p @ s" "lc # lt = p @ x # s" by blast
      with False show ?R by (cases p) auto
    next
      assume ?R
      then show ?L by (metis append_Nil)
    qed
    with False ls len show ?thesis by (auto simp: insertion_loop_gap)
  qed
qed

lemma is_insertion_iff: "is_insertion a b \<longleftrightarrow> (\<exists>p s x. a = p @ s \<and> b = p @ x # s)"
  by (auto simp: is_insertion_def insertion_loop_no_gap)

lemma distance_at_most_1_iff: "distance_at_most_1 a b \<longleftrightarrow> a = b \<or> one_edit a b"
proof (cases "length a = length b")
  case True
  then show ?thesis by (auto simp: distance_at_most_1_def one_edit_def diff_loop_zero)
next
  case False
  then have ne: "a \<noteq> b" and ns: "\<not> (\<exists>p s x y. a = p @ x # s \<and> b = p @ y # s)" by auto
  show ?thesis
  proof (cases "length a < length b")
    case True
    then have "\<not> (\<exists>p s x. a = p @ x # s \<and> b = p @ s)" by auto
    moreover from True have "distance_at_most_1 a b = is_insertion a b"
      by (simp add: distance_at_most_1_def)
    ultimately show ?thesis using ne ns unfolding one_edit_def is_insertion_iff by blast
  next
    case ge: False
    with False have "\<not> (\<exists>p s x. a = p @ s \<and> b = p @ x # s)" by auto
    moreover have "is_insertion b a \<longleftrightarrow> (\<exists>p s x. a = p @ x # s \<and> b = p @ s)"
      unfolding is_insertion_iff by blast
    moreover from False ge have "distance_at_most_1 a b = is_insertion b a"
      by (simp add: distance_at_most_1_def)
    ultimately show ?thesis using ne ns unfolding one_edit_def by blast
  qed
qed

lemma did_you_mean_Some:
  assumes "did_you_mean needle cs = Some c"
  shows "\<exists>as bs. cs = as @ c # bs \<and> needle \<notin> set as \<and> c \<noteq> needle
           \<and> distance_at_most_1 (str_chars needle) (str_chars c)
           \<and> (\<forall>a \<in> set as. \<not> distance_at_most_1 (str_chars needle) (str_chars a))"
  using assms
proof (induction cs)
  case (Cons d cs)
  show ?case
  proof (cases "distance_at_most_1 (str_chars needle) (str_chars d)")
    case True
    with Cons.prems have "d = c" "c \<noteq> needle" by (auto split: if_splits)
    with True show ?thesis by (intro exI [of _ "[]"] exI [of _ cs]) simp
  next
    case False
    with Cons.prems have "did_you_mean needle cs = Some c" "d \<noteq> needle"
      by (auto split: if_splits)
    with Cons.IH obtain as bs where "cs = as @ c # bs" "needle \<notin> set as" "c \<noteq> needle"
      "distance_at_most_1 (str_chars needle) (str_chars c)"
      "\<forall>a \<in> set as. \<not> distance_at_most_1 (str_chars needle) (str_chars a)" by blast
    with False \<open>d \<noteq> needle\<close> show ?thesis by (intro exI [of _ "d # as"] exI [of _ bs]) auto
  qed
qed simp

lemma did_you_mean_None:
  "did_you_mean needle cs = None \<Longrightarrow> needle \<notin> set cs \<Longrightarrow> c \<in> set cs \<Longrightarrow>
     \<not> distance_at_most_1 (str_chars needle) (str_chars c)"
  by (induction cs) (auto split: if_splits)

section \<open>The expression grammar\<close>

lemma accessor_of_iff: "accessor_of s = Some a \<longleftrightarrow> s = accessor_str a"
  by (cases a) (auto simp: accessor_of_def)

lemma accessor_str_no_dot: "CHR ''.'' \<notin> set (accessor_str a)"
  by (cases a) auto

lemma valid_name_no_dot: "is_valid_name n \<Longrightarrow> CHR ''.'' \<notin> set n"
proof (cases n)
  case (Cons c cs)
  have d: "\<not> is_ascii_alphabetic (CHR ''.'')" "\<not> is_ascii_alphanumeric (CHR ''.'')"
    by (simp_all add: is_ascii_alphabetic_def is_ascii_alphanumeric_def less_eq_char_def)
  assume "is_valid_name n"
  with Cons d show ?thesis by (auto simp: list_all_iff)
qed simp

lemma split_expression:
  assumes "is_valid_name n"
  shows "str_split (CHR ''.'') (n @ CHR ''.'' # ''match'' @ CHR ''.'' # accessor_str a)
         = [n, ''match'', accessor_str a]"
proof -
  have "str_split (CHR ''.'') (''match'' @ CHR ''.'' # accessor_str a) = [''match'', accessor_str a]"
    using accessor_str_no_dot [of a] by (subst str_split_append) (simp_all add: str_split_no_sep)
  moreover have "str_split (CHR ''.'') (n @ CHR ''.'' # (''match'' @ CHR ''.'' # accessor_str a))
      = n # str_split (CHR ''.'') (''match'' @ CHR ''.'' # accessor_str a)"
    by (rule str_split_append [OF valid_name_no_dot [OF assms]])
  ultimately show ?thesis by (simp only:)
qed

lemma expression_parse_grammar:
  "expression_parse src loc = Inr e \<longleftrightarrow>
     is_valid_name (expr_name e) \<and>
     src = CHR ''$'' # expr_name e @ CHR ''.'' # ''match'' @ CHR ''.'' # accessor_str (expr_accessor e)"
proof
  assume ok: "expression_parse src loc = Inr e"
  then obtain rest acc where r: "strip_prefix ''$'' src = Some rest"
    and sp: "str_split (CHR ''.'') rest = [expr_name e, ''match'', acc]"
    and v: "is_valid_name (expr_name e)" and a: "accessor_of acc = Some (expr_accessor e)"
    by (auto simp: expression_parse_def split: option.splits list.splits if_splits)
  from sp have "rest = str_join (CHR ''.'') [expr_name e, ''match'', acc]"
    by (metis str_join_split)
  with r v a show "is_valid_name (expr_name e) \<and>
     src = CHR ''$'' # expr_name e @ CHR ''.'' # ''match'' @ CHR ''.'' # accessor_str (expr_accessor e)"
    by (simp add: accessor_of_iff strip_prefix_Some)
next
  assume g: "is_valid_name (expr_name e) \<and>
     src = CHR ''$'' # expr_name e @ CHR ''.'' # ''match'' @ CHR ''.'' # accessor_str (expr_accessor e)"
  then have sp: "str_split (CHR ''.'') (tl src) = [expr_name e, ''match'', accessor_str (expr_accessor e)]"
    and pre: "strip_prefix ''$'' src = Some (tl src)" and ne: "expr_name e \<noteq> []"
    using split_expression [of "expr_name e" "expr_accessor e"] by auto
  have acc: "accessor_of (accessor_str (expr_accessor e)) = Some (expr_accessor e)"
    by (simp add: accessor_of_iff)
  from g sp pre ne acc show "expression_parse src loc = Inr e"
    by (simp add: expression_parse_def)
qed

section \<open>Path escaping\<close>

fun unescape_key :: "string \<Rightarrow> string" where
  "unescape_key (a # b # cs) =
     (if a = CHR ''~'' then (if b = CHR ''0'' then CHR ''~'' else CHR ''/'') # unescape_key cs
      else a # unescape_key (b # cs))"
| "unescape_key cs = cs"

lemma unescape_escape: "unescape_key (escape_key k) = k"
proof (induction k)
  case (Cons c k)
  have plain: "c \<noteq> CHR ''~'' \<Longrightarrow> unescape_key (c # r) = c # unescape_key r" for r
    by (cases r) auto
  have e: "escape_key (c # k) =
     (if c = CHR ''~'' then ''~0'' else if c = CHR ''/'' then ''~1'' else [c]) @ escape_key k"
    by (simp add: escape_key_def)
  show ?case unfolding e using Cons plain by auto
qed (simp add: escape_key_def)

lemma escape_key_inj: "escape_key a = escape_key b \<Longrightarrow> a = b"
  by (metis unescape_escape)

lemma escape_key_no_slash: "CHR ''/'' \<notin> set (escape_key k)"
  by (auto simp: escape_key_def)

end
