(* ===== verification/Dsl_Predicates.thy ===== *)
theory Dsl_Predicates
  imports Dsl_Base
begin

text \<open>
  Validation of the predicate map (\<open>vcli-dsl/src/predicates.rs\<close>): references exist, logical
  operators are non-empty, and the dependency graph has no cycle, by an iterative
  depth-first search with three colours and an explicit stack.  Main results: the loop
  terminates (its measure), an accepted map has an acyclic graph all of whose edges stay
  inside the map, and a reported cycle is a closed walk of that graph.
\<close>

section \<open>References\<close>

definition resolve_name :: "string \<Rightarrow> string list \<Rightarrow> JsonPath \<Rightarrow> DslError + unit" where
  "resolve_name name names loc =
     (if name \<in> set names then Inr ()
      else Inl (dsl_err (UnknownPredicateName name (did_you_mean name names)) loc))"

definition resolve_elapsed :: "string \<Rightarrow> string list \<Rightarrow> JsonPath \<Rightarrow> DslError + unit" where
  "resolve_elapsed name names loc =
     (if name \<in> set names then Inr () else Inl (dsl_err (ElapsedReferenceMissing name) loc))"

fun check_region_references :: "Region \<Rightarrow> string list \<Rightarrow> JsonPath \<Rightarrow> DslError + unit" where
  "check_region_references (RelativeTo p _ _ _) names loc = resolve_name p names (path_key loc ''predicate'')"
| "check_region_references _ names loc = Inr ()"

fun check_predicate_references :: "PredicateKind \<Rightarrow> string list \<Rightarrow> JsonPath \<Rightarrow> DslError + unit" where
  "check_predicate_references (AllOf xs) names loc =
     (if xs = [] then Inl (dsl_err (EmptyLogicalOp ''all_of'') (path_key loc ''of''))
      else try_each (\<lambda>i n. resolve_name n names (path_index (path_key loc ''of'') i)) 0 xs)"
| "check_predicate_references (AnyOf xs) names loc =
     (if xs = [] then Inl (dsl_err (EmptyLogicalOp ''any_of'') (path_key loc ''of''))
      else try_each (\<lambda>i n. resolve_name n names (path_index (path_key loc ''of'') i)) 0 xs)"
| "check_predicate_references (NotOf x) names loc = resolve_name x names (path_key loc ''of'')"
| "check_predicate_references (ElapsedMsSinceTrue p _) names loc =
     resolve_elapsed p names (path_key loc ''predicate'')"
| "check_predicate_references (Template _ _ region _) names loc =
     check_region_references region names (path_key loc ''region'')"
| "check_predicate_references (PixelDiff region _ _) names loc =
     check_region_references region names (path_key loc ''region'')"
| "check_predicate_references (ColorAt _ _ _) names loc = Inr ()"

definition validate_predicate_shape :: "PredicateKind btree \<Rightarrow> DslError + unit" where
  "validate_predicate_shape P =
     (let names = btree_keys P
      in try_each (\<lambda>_ (name, pred).
            check_predicate_references pred names (path_key (path_key path_root ''predicates'') name)) 0 P)"

section \<open>Cycle detection\<close>

datatype Color = White | Gray | Black

fun region_edges :: "Region \<Rightarrow> string list" where
  "region_edges (RelativeTo p _ _ _) = [p]"
| "region_edges _ = []"

fun edges_of :: "PredicateKind \<Rightarrow> string list" where
  "edges_of (AllOf xs) = xs"
| "edges_of (AnyOf xs) = xs"
| "edges_of (NotOf x) = [x]"
| "edges_of (ElapsedMsSinceTrue p _) = [p]"
| "edges_of (Template _ _ region _) = region_edges region"
| "edges_of (PixelDiff region _ _) = region_edges region"
| "edges_of (ColorAt _ _ _) = []"

text \<open>Potential of a search state: unvisited nodes with their edges, plus what the stack holds.\<close>

definition node_weight :: "PredicateKind btree \<Rightarrow> string \<Rightarrow> nat" where
  "node_weight P k = (case map_of P k of None \<Rightarrow> 0 | Some p \<Rightarrow> length (edges_of p) + 1)"

definition white_weight :: "PredicateKind btree \<Rightarrow> (string \<Rightarrow> Color) \<Rightarrow> nat" where
  "white_weight P c = (\<Sum>k \<in> {k \<in> set (map fst P). c k = White}. node_weight P k)"

definition stack_weight :: "(string \<times> string list) list \<Rightarrow> nat" where
  "stack_weight st = sum_list (map (\<lambda>(n, es). length es + 1) st)"

lemma white_weight_mono:
  "(\<And>k. c' k = White \<Longrightarrow> c k = White) \<Longrightarrow> white_weight P c' \<le> white_weight P c"
  unfolding white_weight_def by (rule sum_mono2) auto

lemma white_weight_gray:
  assumes "map_of P n = Some p" "c n = White"
  shows "white_weight P (c(n := Gray)) + (length (edges_of p) + 1) = white_weight P c"
proof -
  let ?S = "{k \<in> set (map fst P). c k = White}"
  have n: "n \<in> ?S"
    using assms by (force dest: map_of_SomeD)
  have "{k \<in> set (map fst P). (c(n := Gray)) k = White} = ?S - {n}" by auto
  then have "white_weight P (c(n := Gray)) = (\<Sum>k \<in> ?S - {n}. node_weight P k)"
    by (simp add: white_weight_def)
  moreover have "white_weight P c = node_weight P n + (\<Sum>k \<in> ?S - {n}. node_weight P k)"
    unfolding white_weight_def by (rule sum.remove [OF _ n]) simp
  moreover have "node_weight P n = length (edges_of p) + 1"
    using assms by (simp add: node_weight_def)
  ultimately show ?thesis by simp
qed

text \<open>
  The inner \<open>while let\<close> loop.  The head of \<open>st\<close> is the top of the source's stack; \<open>path\<close>
  mirrors it from the start node on.  On a grey node the path is trimmed to its first
  occurrence and closed.
\<close>

definition trim_cycle :: "string list \<Rightarrow> string \<Rightarrow> string list" where
  "trim_cycle path nx = dropWhile (\<lambda>s. s \<noteq> nx) path @ [nx]"

function (sequential) dfs_loop ::
  "PredicateKind btree \<Rightarrow> (string \<Rightarrow> Color) \<Rightarrow> (string \<times> string list) list \<Rightarrow> string list
     \<Rightarrow> DslError + (string \<Rightarrow> Color)" where
  "dfs_loop P c [] path = Inr c"
| "dfs_loop P c ((cur, []) # st) path = dfs_loop P (c(cur := Black)) st (butlast path)"
| "dfs_loop P c ((cur, nx # es) # st) path =
     (case map_of P nx of
        None \<Rightarrow> dfs_loop P c ((cur, es) # st) path
      | Some p \<Rightarrow>
         (case c nx of
            White \<Rightarrow> dfs_loop P (c(nx := Gray)) ((nx, edges_of p) # (cur, es) # st) (path @ [nx])
          | Gray \<Rightarrow> Inl (dsl_err (PredicateCycle (trim_cycle path nx)) (path_key path_root ''predicates''))
          | Black \<Rightarrow> dfs_loop P c ((cur, es) # st) path))"
  by pat_completeness auto
termination
proof (relation "measure (\<lambda>(P, c, st, path). white_weight P c + stack_weight st)", goal_cases)
  case (2 P c cur st path)
  have "white_weight P (c(cur := Black)) \<le> white_weight P c"
    by (rule white_weight_mono) (simp split: if_splits)
  then show ?case by (simp add: stack_weight_def)
next
  case (4 P c cur nx es st path p)
  from white_weight_gray [where P = P and n = nx and p = p and c = c] 4 show ?case by (simp add: stack_weight_def)
qed (simp_all add: stack_weight_def)

fun dfs_starts :: "PredicateKind btree \<Rightarrow> (string \<Rightarrow> Color) \<Rightarrow> string list \<Rightarrow> DslError + (string \<Rightarrow> Color)" where
  "dfs_starts P c [] = Inr c"
| "dfs_starts P c (start # ks) =
     (if c start \<noteq> White then dfs_starts P c ks
      else (case dfs_loop P (c(start := Gray))
                  [(start, edges_of (the (map_of P start)))] [start] of
              Inl e \<Rightarrow> Inl e
            | Inr c' \<Rightarrow> dfs_starts P c' ks))"

definition validate_predicate_graph :: "PredicateKind btree \<Rightarrow> DslError + unit" where
  "validate_predicate_graph P =
     (case validate_predicate_shape P of
        Inl e \<Rightarrow> Inl e
      | Inr _ \<Rightarrow> (case dfs_starts P (\<lambda>_. White) (btree_keys P) of Inl e \<Rightarrow> Inl e | Inr _ \<Rightarrow> Inr ()))"

section \<open>The dependency graph\<close>

definition dep_rel :: "PredicateKind btree \<Rightarrow> (string \<times> string) set" where
  "dep_rel P = {(a, b). \<exists>p q. map_of P a = Some p \<and> b \<in> set (edges_of p) \<and> map_of P b = Some q}"

text \<open>
  What the search maintains between two iterations.  Going down the stack, every node's
  outgoing edges are still to be explored, lead to finished nodes, or lead to the node right
  above it, which is one of its successors.
\<close>

fun stack_ok :: "PredicateKind btree \<Rightarrow> (string \<Rightarrow> Color) \<Rightarrow> string option \<Rightarrow> (string \<times> string list) list \<Rightarrow> bool" where
  "stack_ok P c child [] = True"
| "stack_ok P c child ((n, es) # st) =
     (map_of P n \<noteq> None \<and> set es \<subseteq> set (edges_of (the (map_of P n))) \<and>
      (\<forall>b. (n, b) \<in> dep_rel P \<longrightarrow> b \<in> set es \<or> c b = Black \<or> child = Some b) \<and>
      (\<forall>b. child = Some b \<longrightarrow> (n, b) \<in> dep_rel P) \<and>
      stack_ok P c (Some n) st)"

definition done_ok :: "PredicateKind btree \<Rightarrow> (string \<Rightarrow> Color) \<Rightarrow> bool" where
  "done_ok P c \<longleftrightarrow>
     (\<forall>a b. (a, b) \<in> dep_rel P \<longrightarrow> c a = Black \<longrightarrow> c b = Black) \<and>
     acyclic (dep_rel P \<inter> {n. c n = Black} \<times> UNIV)"

definition dfs_inv :: "PredicateKind btree \<Rightarrow> (string \<Rightarrow> Color) \<Rightarrow> (string \<times> string list) list
    \<Rightarrow> string list \<Rightarrow> bool" where
  "dfs_inv P c st path \<longleftrightarrow>
     path = rev (map fst st) \<and> distinct path \<and> (\<forall>n. c n = Gray \<longleftrightarrow> n \<in> set path) \<and>
     done_ok P c \<and> stack_ok P c None st"

lemma acyclic_add_source:
  assumes acyc: "acyclic (R \<inter> B \<times> UNIV)" and closed: "\<And>a b. (a, b) \<in> R \<Longrightarrow> a \<in> B \<Longrightarrow> b \<in> B"
    and new: "\<And>b. (s, b) \<in> R \<Longrightarrow> b \<in> B"
  shows "acyclic (R \<inter> insert s B \<times> UNIV)"
proof (rule acyclicI, rule allI, rule notI)
  fix x
  let ?R' = "R \<inter> insert s B \<times> UNIV"
  assume cyc: "(x, x) \<in> ?R'\<^sup>+"
  have target: "b \<in> B" if "(a, b) \<in> ?R'\<^sup>+" for a b
    using that by (induction rule: trancl.induct) (use closed new in auto)
  have step: "(a, b) \<in> (R \<inter> B \<times> UNIV)\<^sup>+" if "(a, b) \<in> ?R'\<^sup>+" "a \<in> B" for a b
    using that
  proof (induction rule: trancl.induct)
    case (trancl_into_trancl a b c)
    from target [OF trancl_into_trancl(1)] trancl_into_trancl show ?case
      by (auto intro: trancl.trancl_into_trancl)
  qed auto
  from step [OF cyc target [OF cyc]] acyc show False by (auto simp: acyclic_def)
qed

lemma stack_ok_mono:
  "stack_ok P c child st \<Longrightarrow> (\<And>b. c b = Black \<Longrightarrow> c' b = Black) \<Longrightarrow> stack_ok P c' child st"
  by (induction P c child st rule: stack_ok.induct) auto

lemma stack_ok_child_black:
  "stack_ok P c (Some n) st \<Longrightarrow> c n = Black \<Longrightarrow> stack_ok P c None st"
  by (cases st) auto

lemma stack_ok_walk:
  "stack_ok P c child st \<Longrightarrow> successively (\<lambda>a b. (b, a) \<in> dep_rel P) (map fst st)"
proof (induction P c child st rule: stack_ok.induct)
  case (2 P c child n es st)
  then show ?case by (cases st) auto
qed simp

lemma dfs_invD:
  assumes "dfs_inv P c ((cur, es) # st) path"
  shows "path = rev (map fst st) @ [cur]" "distinct path" "\<forall>n. c n = Gray \<longleftrightarrow> n \<in> set path"
    "done_ok P c" "stack_ok P c None ((cur, es) # st)"
  using assms unfolding dfs_inv_def by (simp, blast+)

lemma dfs_inv_pop:
  assumes inv: "dfs_inv P c ((cur, []) # st) path"
  shows "dfs_inv P (c(cur := Black)) st (butlast path)"
proof -
  let ?c = "c(cur := Black)"
  have path: "path = rev (map fst st) @ [cur]" and dist: "distinct path"
    and gray: "\<forall>n. c n = Gray \<longleftrightarrow> n \<in> set path" and ok: "done_ok P c"
    and st: "stack_ok P c None ((cur, []) # st)"
    using dfs_invD [OF inv] by blast+
  have new: "(cur, b) \<in> dep_rel P \<Longrightarrow> c b = Black" for b using st by auto
  have "{n. ?c n = Black} = insert cur {n. c n = Black}" by auto
  then have "done_ok P ?c"
    using acyclic_add_source [of "dep_rel P" "{n. c n = Black}" cur] ok new
    by (auto simp: done_ok_def)
  moreover have "stack_ok P ?c None st"
  proof (rule stack_ok_child_black)
    show "stack_ok P ?c (Some cur) st" using st by (auto intro: stack_ok_mono)
  qed simp
  moreover have "(\<forall>n. ?c n = Gray \<longleftrightarrow> n \<in> set (rev (map fst st)))"
    using dist gray unfolding path by (auto simp del: set_map)
  ultimately show ?thesis using path dist by (simp add: dfs_inv_def del: set_map)
qed

lemma dfs_inv_skip:
  assumes inv: "dfs_inv P c ((cur, nx # es) # st) path" and nx: "map_of P nx = None \<or> c nx = Black"
  shows "dfs_inv P c ((cur, es) # st) path"
proof -
  have "(cur, nx) \<in> dep_rel P \<Longrightarrow> c nx = Black" using nx by (auto simp: dep_rel_def)
  then have "stack_ok P c None ((cur, nx # es) # st) \<Longrightarrow> stack_ok P c None ((cur, es) # st)" by auto
  with dfs_invD [OF inv] show ?thesis unfolding dfs_inv_def by simp
qed

lemma dep_rel_edge:
  "map_of P a \<noteq> None \<Longrightarrow> b \<in> set (edges_of (the (map_of P a))) \<Longrightarrow> map_of P b \<noteq> None \<Longrightarrow> (a, b) \<in> dep_rel P"
  by (auto simp: dep_rel_def)

lemma dfs_inv_push:
  assumes inv: "dfs_inv P c ((cur, nx # es) # st) path"
    and p: "map_of P nx = Some p" and w: "c nx = White"
  shows "dfs_inv P (c(nx := Gray)) ((nx, edges_of p) # (cur, es) # st) (path @ [nx])"
proof -
  let ?c = "c(nx := Gray)"
  note D = dfs_invD [OF inv]
  have st: "stack_ok P c None ((cur, nx # es) # st)" by (rule D)
  have same: "(?c b = Black) = (c b = Black)" for b using w by auto
  have "(cur, nx) \<in> dep_rel P" using st p by (auto intro: dep_rel_edge)
  moreover have "stack_ok P ?c (Some cur) st" using st same by (auto intro: stack_ok_mono)
  moreover have "\<forall>b. (cur, b) \<in> dep_rel P \<longrightarrow> b \<in> set es \<or> ?c b = Black \<or> Some nx = Some b"
    using st unfolding same by auto
  moreover have "\<forall>b. (nx, b) \<in> dep_rel P \<longrightarrow> b \<in> set (edges_of p)"
    using p by (auto simp: dep_rel_def)
  ultimately have "stack_ok P ?c None ((nx, edges_of p) # (cur, es) # st)"
    using st p by (simp del: fun_upd_apply)
  moreover have "done_ok P ?c" using D(4) unfolding done_ok_def same by blast
  moreover have nx: "nx \<notin> set path" using D(3) w by (metis Color.distinct(1))
  moreover have "\<forall>n. ?c n = Gray \<longleftrightarrow> n \<in> set (path @ [nx])" using D(3) by auto
  ultimately show ?thesis using D(1,2) unfolding dfs_inv_def by (simp, blast)
qed

lemma dfs_loop_ok:
  assumes "dfs_inv P c st path" and "dfs_loop P c st path = Inr c'"
  shows "dfs_inv P c' [] [] \<and> (\<forall>n. c' n = White \<longrightarrow> c n = White)"
  using assms
proof (induction P c st path rule: dfs_loop.induct)
  case (1 P c path)
  then show ?case by (auto simp: dfs_inv_def)
next
  case (2 P c cur st path)
  from 2(3) have "dfs_loop P (c(cur := Black)) st (butlast path) = Inr c'" by simp
  from 2(1) [OF dfs_inv_pop [OF 2(2)] this] show ?case by (auto split: if_splits)
next
  case (3 P c cur nx es st path)
  show ?case
  proof (cases "map_of P nx")
    case None
    with 3(1) [OF None dfs_inv_skip [OF 3(4)]] 3(5) show ?thesis by auto
  next
    case (Some p)
    show ?thesis
    proof (cases "c nx")
      case White
      with 3(5) Some have "dfs_loop P (c(nx := Gray)) ((nx, edges_of p) # (cur, es) # st) (path @ [nx]) = Inr c'"
        by simp
      from 3(2) [OF Some White dfs_inv_push [OF 3(4) Some White] this] show ?thesis
        by (auto split: if_splits)
    next
      case Gray
      with 3(5) Some show ?thesis by simp
    next
      case Black
      with 3(3) [OF Some Black dfs_inv_skip [OF 3(4)]] 3(5) Some show ?thesis by auto
    qed
  qed
qed

definition closed_walk :: "PredicateKind btree \<Rightarrow> string list \<Rightarrow> bool" where
  "closed_walk P cyc \<longleftrightarrow>
     length cyc \<ge> 2 \<and> hd cyc = last cyc \<and> successively (\<lambda>a b. (a, b) \<in> dep_rel P) cyc"

lemma trim_cycle_closed:
  assumes inv: "dfs_inv P c ((cur, nx # es) # st) path"
    and p: "map_of P nx = Some p" and g: "c nx = Gray"
  shows "closed_walk P (trim_cycle path nx)"
proof -
  let ?d = "dropWhile (\<lambda>s. s \<noteq> nx) path"
  have path: "path = rev (map fst st) @ [cur]" and st: "stack_ok P c None ((cur, nx # es) # st)"
    and nx: "nx \<in> set path" using dfs_invD [OF inv] g by blast+
  have walk: "successively (\<lambda>a b. (a, b) \<in> dep_rel P) path"
    using stack_ok_walk [OF st] unfolding path by (simp flip: rev.simps(2) add: successively_rev)
  have ne: "?d \<noteq> []" using nx by (simp add: dropWhile_eq_Nil_conv)
  then have h: "hd ?d = nx" by (metis (mono_tags, lifting) hd_dropWhile)
  have split: "path = takeWhile (\<lambda>s. s \<noteq> nx) path @ ?d" by simp
  then have l: "last ?d = cur" using ne path by (metis last_appendR last_snoc)
  have "successively (\<lambda>a b. (a, b) \<in> dep_rel P) ?d"
    using walk split successively_append_iff by metis
  moreover have "(cur, nx) \<in> dep_rel P" using st p by (auto intro: dep_rel_edge)
  ultimately have "successively (\<lambda>a b. (a, b) \<in> dep_rel P) (?d @ [nx])"
    using ne l by (simp add: successively_append_iff)
  with ne h show ?thesis
    by (cases ?d) (auto simp: closed_walk_def trim_cycle_def)
qed

lemma dfs_loop_err:
  assumes "dfs_inv P c st path" and "dfs_loop P c st path = Inl e"
  shows "\<exists>cyc. err_kind e = PredicateCycle cyc \<and> closed_walk P cyc"
  using assms
proof (induction P c st path rule: dfs_loop.induct)
  case (2 P c cur st path)
  from 2(3) have "dfs_loop P (c(cur := Black)) st (butlast path) = Inl e" by simp
  from 2(1) [OF dfs_inv_pop [OF 2(2)] this] show ?case .
next
  case (3 P c cur nx es st path)
  show ?case
  proof (cases "map_of P nx")
    case None
    with 3(1) [OF None dfs_inv_skip [OF 3(4)]] 3(5) show ?thesis by auto
  next
    case (Some p)
    show ?thesis
    proof (cases "c nx")
      case White
      with 3(5) Some have "dfs_loop P (c(nx := Gray)) ((nx, edges_of p) # (cur, es) # st) (path @ [nx]) = Inl e"
        by simp
      from 3(2) [OF Some White dfs_inv_push [OF 3(4) Some White] this] show ?thesis
        by (auto split: if_splits)
    next
      case Gray
      with 3(5) Some trim_cycle_closed [OF 3(4) Some Gray] show ?thesis by (auto simp: dsl_err_def)
    next
      case Black
      with 3(3) [OF Some Black dfs_inv_skip [OF 3(4)]] 3(5) Some show ?thesis by auto
    qed
  qed
qed simp

lemma dfs_inv_start:
  assumes inv: "dfs_inv P c [] []" and k: "map_of P k \<noteq> None" and w: "c k = White"
  shows "dfs_inv P (c(k := Gray)) [(k, edges_of (the (map_of P k)))] [k]"
proof -
  have same: "((c(k := Gray)) b = Black) = (c b = Black)" for b using w by auto
  have "done_ok P (c(k := Gray))"
    using inv unfolding dfs_inv_def done_ok_def same by blast
  with inv k show ?thesis by (auto simp: dfs_inv_def dep_rel_def)
qed

lemma dfs_starts_ok:
  assumes "dfs_inv P c [] []" "dfs_starts P c ks = Inr c'" "\<And>k. k \<in> set ks \<Longrightarrow> map_of P k \<noteq> None"
  shows "dfs_inv P c' [] [] \<and> (\<forall>k \<in> set ks. c' k = Black) \<and> (\<forall>n. c' n = White \<longrightarrow> c n = White)"
  using assms
proof (induction ks arbitrary: c)
  case (Cons k ks)
  have black: "d n = Black" if "dfs_inv P d [] []" "d n \<noteq> White" for d n
    using that by (cases "d n") (auto simp: dfs_inv_def)
  show ?case
  proof (cases "c k = White")
    case False
    then have "dfs_starts P c ks = Inr c'" using Cons.prems by simp
    from Cons.IH [OF Cons.prems(1) this Cons.prems(3)] False black show ?thesis by auto
  next
    case True
    let ?st = "[(k, edges_of (the (map_of P k)))]"
    from True Cons.prems obtain d where d: "dfs_loop P (c(k := Gray)) ?st [k] = Inr d"
      and rest: "dfs_starts P d ks = Inr c'" by (auto split: sum.splits)
    have "dfs_inv P (c(k := Gray)) ?st [k]"
      using Cons.prems True by (intro dfs_inv_start) auto
    from dfs_loop_ok [OF this d] have d1: "dfs_inv P d [] []" and d2: "\<forall>n. d n = White \<longrightarrow> (c(k := Gray)) n = White"
      by auto
    from d2 have "d k \<noteq> White" by auto
    moreover have ih: "dfs_inv P c' [] []" "\<forall>j \<in> set ks. c' j = Black" "\<forall>n. c' n = White \<longrightarrow> d n = White"
      using Cons.IH [OF d1 rest] Cons.prems(3) by auto
    ultimately have "c' k = Black" using black [OF ih(1)] by blast
    with ih d2 show ?thesis by (auto split: if_splits)
  qed
qed auto

lemma dfs_starts_err:
  assumes "dfs_inv P c [] []" "dfs_starts P c ks = Inl e" "\<And>k. k \<in> set ks \<Longrightarrow> map_of P k \<noteq> None"
  shows "\<exists>cyc. err_kind e = PredicateCycle cyc \<and> closed_walk P cyc"
  using assms
proof (induction ks arbitrary: c)
  case (Cons k ks)
  show ?case
  proof (cases "c k = White")
    case False
    with Cons show ?thesis by simp
  next
    case True
    let ?st = "[(k, edges_of (the (map_of P k)))]"
    have inv: "dfs_inv P (c(k := Gray)) ?st [k]"
      using Cons.prems True by (intro dfs_inv_start) auto
    show ?thesis
    proof (cases "dfs_loop P (c(k := Gray)) ?st [k]")
      case (Inl e')
      with Cons.prems True dfs_loop_err [OF inv Inl] show ?thesis by simp
    next
      case (Inr d)
      with Cons.prems True have "dfs_starts P d ks = Inl e" by simp
      with Cons.IH [of d] dfs_loop_ok [OF inv Inr] Cons.prems(3) show ?thesis by auto
    qed
  qed
qed simp

lemma dfs_inv_init: "dfs_inv P (\<lambda>_. White) [] []"
  by (simp add: dfs_inv_def done_ok_def acyclic_def)

lemma closed_walk_trancl:
  assumes "successively (\<lambda>a b. (a, b) \<in> R) xs" "length xs \<ge> 2"
  shows "(hd xs, last xs) \<in> R\<^sup>+"
  using assms
proof (induction xs rule: list.induct)
  case (Cons x xs)
  then obtain y ys where xs: "xs = y # ys" and xy: "(x, y) \<in> R" by (cases xs) auto
  show ?case
  proof (cases ys)
    case Nil
    with xs xy show ?thesis by auto
  next
    case (Cons z zs)
    with Cons.IH Cons.prems xs have "(y, last xs) \<in> R\<^sup>+" by simp
    with xy xs show ?thesis by (simp add: trancl_into_trancl2)
  qed
qed simp

lemma closed_walk_not_acyclic: "closed_walk P cyc \<Longrightarrow> \<not> acyclic (dep_rel P)"
  using closed_walk_trancl [of "dep_rel P" cyc] by (auto simp: closed_walk_def acyclic_def)

lemma dfs_starts_iff:
  "(\<exists>c. dfs_starts P (\<lambda>_. White) (map fst P) = Inr c) \<longleftrightarrow> acyclic (dep_rel P)"
proof
  have keys: "k \<in> set (map fst P) \<Longrightarrow> map_of P k \<noteq> None" for k by (simp add: map_of_eq_None_iff)
  {
    assume "\<exists>c. dfs_starts P (\<lambda>_. White) (map fst P) = Inr c"
    then obtain c where "dfs_starts P (\<lambda>_. White) (map fst P) = Inr c" by blast
    from dfs_starts_ok [OF dfs_inv_init this keys]
    have acyc: "acyclic (dep_rel P \<inter> {n. c n = Black} \<times> UNIV)" and black: "\<forall>k \<in> set (map fst P). c k = Black"
      by (auto simp: dfs_inv_def done_ok_def)
    have "dep_rel P \<inter> {n. c n = Black} \<times> UNIV = dep_rel P"
      using black by (force simp: dep_rel_def dest: map_of_SomeD)
    with acyc show "acyclic (dep_rel P)" by simp
  next
    assume "acyclic (dep_rel P)"
    with dfs_starts_err [OF dfs_inv_init _ keys] closed_walk_not_acyclic
    show "\<exists>c. dfs_starts P (\<lambda>_. White) (map fst P) = Inr c"
      by (cases "dfs_starts P (\<lambda>_. White) (map fst P)") blast+
  }
qed

section \<open>What acceptance means\<close>

text \<open>The declarative reading of the shape pass.\<close>

fun logical_nonempty :: "PredicateKind \<Rightarrow> bool" where
  "logical_nonempty (AllOf xs) = (xs \<noteq> [])"
| "logical_nonempty (AnyOf xs) = (xs \<noteq> [])"
| "logical_nonempty _ = True"

definition well_shaped :: "PredicateKind btree \<Rightarrow> bool" where
  "well_shaped P \<longleftrightarrow>
     (\<forall>(k, p) \<in> set P. logical_nonempty p \<and> set (edges_of p) \<subseteq> set (map fst P))"

lemma resolve_name_ok [simp]: "resolve_name n names loc = Inr u \<longleftrightarrow> n \<in> set names"
  by (simp add: resolve_name_def)

lemma check_references_ok:
  "check_predicate_references p names loc = Inr () \<longleftrightarrow> logical_nonempty p \<and> set (edges_of p) \<subseteq> set names"
proof -
  have region: "check_region_references r names l = Inr () \<longleftrightarrow> set (region_edges r) \<subseteq> set names" for r l
    by (cases r) auto
  have each: "try_each (\<lambda>i n. resolve_name n names (f i)) 0 xs = Inr () \<longleftrightarrow> set xs \<subseteq> set names" for f xs
    by (auto simp: try_each_ok in_set_conv_nth subset_iff)
  show ?thesis by (cases p) (auto simp: region each resolve_elapsed_def)
qed

lemma validate_shape_ok: "validate_predicate_shape P = Inr () \<longleftrightarrow> well_shaped P"
proof -
  have "validate_predicate_shape P = Inr () \<longleftrightarrow>
     (\<forall>i < length P. logical_nonempty (snd (P ! i)) \<and> set (edges_of (snd (P ! i))) \<subseteq> set (map fst P))"
    by (simp add: validate_predicate_shape_def Let_def try_each_ok check_references_ok split_beta)
  also have "\<dots> \<longleftrightarrow> well_shaped P"
    by (force simp: well_shaped_def in_set_conv_nth split_beta)
  finally show ?thesis .
qed

lemma validate_graph_iff:
  "validate_predicate_graph P = Inr () \<longleftrightarrow> well_shaped P \<and> acyclic (dep_rel P)"
proof (cases "validate_predicate_shape P")
  case (Inl e)
  then have "\<not> well_shaped P" by (metis Inl_Inr_False validate_shape_ok)
  with Inl show ?thesis by (simp add: validate_predicate_graph_def)
next
  case (Inr u)
  then have "well_shaped P" by (simp add: validate_shape_ok)
  with Inr dfs_starts_iff [of P] show ?thesis
    by (cases "dfs_starts P (\<lambda>_. White) (map fst P)") (auto simp: validate_predicate_graph_def)
qed

lemma validate_graph_cycle:
  assumes "validate_predicate_graph P = Inl e" "well_shaped P"
  shows "\<exists>cyc. err_kind e = PredicateCycle cyc \<and> closed_walk P cyc"
proof -
  have keys: "k \<in> set (map fst P) \<Longrightarrow> map_of P k \<noteq> None" for k by (simp add: map_of_eq_None_iff)
  have "validate_predicate_shape P = Inr ()" using assms(2) by (simp add: validate_shape_ok)
  with assms(1) have "dfs_starts P (\<lambda>_. White) (map fst P) = Inl e"
    by (simp add: validate_predicate_graph_def split: sum.splits)
  from dfs_starts_err [OF dfs_inv_init this keys] show ?thesis .
qed

text \<open>A rank that strictly decreases along dependencies, bounded by the number of predicates.\<close>

definition dep_rank :: "PredicateKind btree \<Rightarrow> string \<Rightarrow> nat" where
  "dep_rank P n = card ((dep_rel P)\<^sup>+ `` {n})"

lemma dep_rel_range: "(dep_rel P)\<^sup>+ `` {n} \<subseteq> set (map fst P)"
proof
  fix b
  assume "b \<in> (dep_rel P)\<^sup>+ `` {n}"
  then have "(n, b) \<in> (dep_rel P)\<^sup>+" by simp
  then show "b \<in> set (map fst P)"
    by (cases rule: trancl.cases) (force simp: dep_rel_def dest: map_of_SomeD)+
qed

lemma dep_rank_bound: "dep_rank P n \<le> length P"
proof -
  have "dep_rank P n \<le> card (set (map fst P))"
    unfolding dep_rank_def by (rule card_mono [OF _ dep_rel_range]) simp
  also have "\<dots> \<le> length P" using card_length [of "map fst P"] by simp
  finally show ?thesis .
qed

lemma dep_rank_less:
  assumes "acyclic (dep_rel P)" "(a, b) \<in> dep_rel P"
  shows "dep_rank P b < dep_rank P a"
  unfolding dep_rank_def
proof (rule psubset_card_mono)
  show "finite ((dep_rel P)\<^sup>+ `` {a})" by (rule finite_subset [OF dep_rel_range]) simp
  have "b \<in> (dep_rel P)\<^sup>+ `` {a}" "b \<notin> (dep_rel P)\<^sup>+ `` {b}"
    using assms by (auto simp: acyclic_def)
  moreover have "(dep_rel P)\<^sup>+ `` {b} \<subseteq> (dep_rel P)\<^sup>+ `` {a}"
    using assms(2) by (auto intro: trancl_into_trancl2)
  ultimately show "(dep_rel P)\<^sup>+ `` {b} \<subset> (dep_rel P)\<^sup>+ `` {a}" by blast
qed

end
