(* ===== verification/Dsl_Validate.thy ===== *)
theory Dsl_Validate
  imports Dsl_Predicates
begin

text \<open>
  The validator entry points of crate \<open>vcli-dsl\<close>: envelope and version gate (\<open>parse.rs\<close>),
  steps (\<open>steps.rs\<close>), triggers (\<open>triggers.rs\<close>), watches (\<open>watches.rs\<close>), the hash
  side-table (\<open>hash.rs\<close>) and their composition (\<open>lib.rs\<close>).  The JSON text parser and the
  derived deserialiser of \<open>Program\<close> are parameters (\<open>DslExt\<close>).  The lemmas characterise
  each pass by a declarative condition on the program.
\<close>

record DslExt =
  json_from_str :: "string \<Rightarrow> string + JsonValue"
  program_from_value :: "JsonValue \<Rightarrow> string + Program"
  dsl_canon :: CanonExt

section \<open>Envelope\<close>

definition SUPPORTED_DSL_MAJOR :: string where "SUPPORTED_DSL_MAJOR = ''0''"

fun type_name :: "JsonValue \<Rightarrow> string" where
  "type_name JNull = ''null''"
| "type_name (JBool _) = ''bool''"
| "type_name (JNumber _) = ''number''"
| "type_name (JString _) = ''string''"
| "type_name (JArray _) = ''array''"
| "type_name (JObject _) = ''object''"

definition parse_envelope_value :: "DslExt \<Rightarrow> JsonValue \<Rightarrow> DslError + Program" where
  "parse_envelope_value D v =
     (case v of
        JObject m \<Rightarrow>
          (case map_of m ''version'' of
             None \<Rightarrow> Inl (dsl_err (MissingField ''version'') path_root)
           | Some ver \<Rightarrow>
              (case ver of
                 JString ver_str \<Rightarrow>
                   (if dsl_major ver_str \<noteq> SUPPORTED_DSL_MAJOR
                    then Inl (dsl_err (UnsupportedDslVersion ver_str SUPPORTED_DSL_MAJOR)
                                (path_key path_root ''version''))
                    else (case program_from_value D v of
                            Inl e \<Rightarrow> Inl (dsl_err (JsonParse e) path_root)
                          | Inr p \<Rightarrow> Inr p))
               | _ \<Rightarrow> Inl (dsl_err (WrongType ''version'' ''string'' (type_name ver))
                             (path_key path_root ''version''))))
      | _ \<Rightarrow> Inl (dsl_err (WrongType ''<root>'' ''object'' (type_name v)) path_root))"

definition parse_envelope_str :: "DslExt \<Rightarrow> string \<Rightarrow> DslError + Program" where
  "parse_envelope_str D src =
     (case json_from_str D src of
        Inl e \<Rightarrow> Inl (dsl_err (JsonParse e) path_root)
      | Inr v \<Rightarrow> parse_envelope_value D v)"

section \<open>Steps\<close>

definition resolve_step_name :: "string \<Rightarrow> PredicateKind btree \<Rightarrow> JsonPath \<Rightarrow> DslError + unit" where
  "resolve_step_name name P loc =
     (if btree_contains P name then Inr ()
      else Inl (dsl_err (UnknownPredicateName name (did_you_mean name (btree_keys P))) loc))"

definition validate_target :: "Target \<Rightarrow> PredicateKind btree \<Rightarrow> JsonPath \<Rightarrow> DslError + unit" where
  "validate_target t P loc =
     (case t of
        AbsoluteTarget p \<Rightarrow>
          (if pt_x p < 0 \<or> pt_y p < 0
           then Inl (dsl_err (NegativeAbsoluteTarget (pt_x p) (pt_y p)) loc) else Inr ())
      | Expression raw \<Rightarrow>
          (case expression_parse raw loc of
             Inl e \<Rightarrow> Inl e
           | Inr ex \<Rightarrow>
              (case btree_get P (expr_name ex) of
                 None \<Rightarrow> Inl (dsl_err (UnknownPredicateName (expr_name ex)
                                 (did_you_mean (expr_name ex) (btree_keys P))) loc)
               | Some (AllOf _) \<Rightarrow> Inl (dsl_err (ExpressionOnLogicalPredicate (expr_name ex)) loc)
               | Some (AnyOf _) \<Rightarrow> Inl (dsl_err (ExpressionOnLogicalPredicate (expr_name ex)) loc)
               | Some (NotOf _) \<Rightarrow> Inl (dsl_err (ExpressionOnLogicalPredicate (expr_name ex)) loc)
               | Some (ElapsedMsSinceTrue _ _) \<Rightarrow> Inl (dsl_err (ExpressionOnLogicalPredicate (expr_name ex)) loc)
               | Some _ \<Rightarrow> Inr ())))"

fun validate_step :: "Step \<Rightarrow> PredicateKind btree \<Rightarrow> bool \<Rightarrow> JsonPath \<Rightarrow> DslError + unit" where
  "validate_step (Move t) P in_watch loc = validate_target t P (path_key loc ''at'')"
| "validate_step (Click t _) P in_watch loc = validate_target t P (path_key loc ''at'')"
| "validate_step (Scroll t _ _) P in_watch loc = validate_target t P (path_key loc ''at'')"
| "validate_step (TypeText _) P in_watch loc = Inr ()"
| "validate_step (Key _ _) P in_watch loc = Inr ()"
| "validate_step (WaitFor p _ _) P in_watch loc =
     (if in_watch then Inl (dsl_err (BodyOnlyStepInWatch ''wait_for'') loc)
      else resolve_step_name p P (path_key loc ''predicate''))"
| "validate_step (Assert p _) P in_watch loc =
     (if in_watch then Inl (dsl_err (BodyOnlyStepInWatch ''assert'') loc)
      else resolve_step_name p P (path_key loc ''predicate''))"
| "validate_step (SleepMs _) P in_watch loc =
     (if in_watch then Inl (dsl_err (BodyOnlyStepInWatch ''sleep_ms'') loc) else Inr ())"

definition validate_body_steps :: "Step list \<Rightarrow> PredicateKind btree \<Rightarrow> JsonPath \<Rightarrow> DslError + unit" where
  "validate_body_steps steps P base =
     try_each (\<lambda>i s. validate_step s P False (path_index base i)) 0 steps"

definition validate_watch_steps :: "Step list \<Rightarrow> PredicateKind btree \<Rightarrow> JsonPath \<Rightarrow> DslError + unit" where
  "validate_watch_steps steps P base =
     try_each (\<lambda>i s. validate_step s P True (path_index base i)) 0 steps"

section \<open>Triggers and watches\<close>

definition validate_trigger :: "Trigger \<Rightarrow> PredicateKind btree \<Rightarrow> DslError + unit" where
  "validate_trigger t P =
     (case t of
        OnPredicate name \<Rightarrow>
          (if \<not> btree_contains P name
           then Inl (dsl_err (UnknownTriggerName name (did_you_mean name (btree_keys P)))
                       (path_key (path_key path_root ''trigger'') ''name''))
           else Inr ())
      | _ \<Rightarrow> Inr ())"

definition synthetic_name :: string where "synthetic_name = ''__vcli_inline__''"

text \<open>Errors about the synthetic entry are re-rooted at the watch; segments become keys.\<close>

definition rewrite_inline_path :: "JsonPath \<Rightarrow> DslError \<Rightarrow> DslError" where
  "rewrite_inline_path loc e =
     (case strip_prefix (''/predicates/'' @ synthetic_name) (path_display (err_path e)) of
        None \<Rightarrow> e
      | Some remainder \<Rightarrow>
          e\<lparr>err_path := foldl path_key loc (filter (\<lambda>s. s \<noteq> []) (str_split (CHR ''/'') remainder))\<rparr>)"

definition validate_watch_when :: "WatchWhen \<Rightarrow> PredicateKind btree \<Rightarrow> JsonPath \<Rightarrow> DslError + unit" where
  "validate_watch_when w P loc =
     (case w of
        ByName name \<Rightarrow>
          (if \<not> btree_contains P name
           then Inl (dsl_err (UnknownWatchName name (did_you_mean name (btree_keys P))) loc)
           else Inr ())
      | Inline p \<Rightarrow>
          (if btree_contains P synthetic_name
           then Inl (dsl_err (CanonicalizationFailed
                  ''reserved name __vcli_inline__ collides with a user predicate'') loc)
           else (case validate_predicate_graph (btree_insert synthetic_name p P) of
                   Inl e \<Rightarrow> Inl (rewrite_inline_path loc e)
                 | Inr _ \<Rightarrow> Inr ())))"

definition validate_lifetime :: "Lifetime \<Rightarrow> PredicateKind btree \<Rightarrow> JsonPath \<Rightarrow> DslError + unit" where
  "validate_lifetime l P loc =
     (case l of
        UntilPredicate name \<Rightarrow>
          (if \<not> btree_contains P name
           then Inl (dsl_err (UnknownPredicateName name (did_you_mean name (btree_keys P))) (path_key loc ''name''))
           else Inr ())
      | _ \<Rightarrow> Inr ())"

definition validate_watch :: "PredicateKind btree \<Rightarrow> nat \<Rightarrow> Watch \<Rightarrow> DslError + unit" where
  "validate_watch P i w =
     (let loc = path_index (path_key path_root ''watches'') i
      in case validate_watch_when (when_cond w) P (path_key loc ''when'') of
           Inl e \<Rightarrow> Inl e
         | Inr _ \<Rightarrow> (case validate_watch_steps (watch_steps w) P (path_key loc ''do'') of
             Inl e \<Rightarrow> Inl e
           | Inr _ \<Rightarrow> validate_lifetime (lifetime w) P (path_key loc ''lifetime'')))"

definition validate_watches :: "Watch list \<Rightarrow> PredicateKind btree \<Rightarrow> DslError + unit" where
  "validate_watches ws P = try_each (validate_watch P) 0 ws"

section \<open>Hash table and entry points\<close>

definition compute_predicate_hashes :: "DslExt \<Rightarrow> PredicateKind btree \<Rightarrow> string btree" where
  "compute_predicate_hashes D P =
     fold (\<lambda>(name, pred) out. btree_insert name (predicate_hash (dsl_canon D) (predicate_to_value pred)) out) P []"

record Validated =
  val_program :: Program
  val_hashes :: "string btree"

definition finish :: "DslExt \<Rightarrow> Program \<Rightarrow> DslError + Validated" where
  "finish D p =
     (case validate_predicate_graph (predicates p) of Inl e \<Rightarrow> Inl e | Inr _ \<Rightarrow>
      (case validate_trigger (trigger p) (predicates p) of Inl e \<Rightarrow> Inl e | Inr _ \<Rightarrow>
      (case validate_watches (watches p) (predicates p) of Inl e \<Rightarrow> Inl e | Inr _ \<Rightarrow>
      (case validate_body_steps (body p) (predicates p) (path_key path_root ''body'') of
         Inl e \<Rightarrow> Inl e
       | Inr _ \<Rightarrow> Inr \<lparr>val_program = p, val_hashes = compute_predicate_hashes D (predicates p)\<rparr>))))"

definition validate_str :: "DslExt \<Rightarrow> string \<Rightarrow> DslError + Validated" where
  "validate_str D src = (case parse_envelope_str D src of Inl e \<Rightarrow> Inl e | Inr p \<Rightarrow> finish D p)"

definition validate_value :: "DslExt \<Rightarrow> JsonValue \<Rightarrow> DslError + Validated" where
  "validate_value D v = (case parse_envelope_value D v of Inl e \<Rightarrow> Inl e | Inr p \<Rightarrow> finish D p)"

section \<open>Declarative reading\<close>

fun is_logical :: "PredicateKind \<Rightarrow> bool" where
  "is_logical (AllOf _) = True"
| "is_logical (AnyOf _) = True"
| "is_logical (NotOf _) = True"
| "is_logical (ElapsedMsSinceTrue _ _) = True"
| "is_logical _ = False"

definition target_ok :: "PredicateKind btree \<Rightarrow> Target \<Rightarrow> bool" where
  "target_ok P t =
     (case t of
        AbsoluteTarget p \<Rightarrow> 0 \<le> pt_x p \<and> 0 \<le> pt_y p
      | Expression raw \<Rightarrow>
          (\<exists>n a q. is_valid_name n \<and> raw = CHR ''$'' # n @ CHR ''.'' # ''match'' @ CHR ''.'' # accessor_str a
             \<and> map_of P n = Some q \<and> \<not> is_logical q))"

fun step_ok :: "PredicateKind btree \<Rightarrow> bool \<Rightarrow> Step \<Rightarrow> bool" where
  "step_ok P in_watch (Move t) = target_ok P t"
| "step_ok P in_watch (Click t _) = target_ok P t"
| "step_ok P in_watch (Scroll t _ _) = target_ok P t"
| "step_ok P in_watch (TypeText _) = True"
| "step_ok P in_watch (Key _ _) = True"
| "step_ok P in_watch (WaitFor p _ _) = (\<not> in_watch \<and> map_of P p \<noteq> None)"
| "step_ok P in_watch (Assert p _) = (\<not> in_watch \<and> map_of P p \<noteq> None)"
| "step_ok P in_watch (SleepMs _) = (\<not> in_watch)"

definition graph_ok :: "PredicateKind btree \<Rightarrow> bool" where
  "graph_ok P \<longleftrightarrow> well_shaped P \<and> acyclic (dep_rel P)"

definition when_ok :: "PredicateKind btree \<Rightarrow> WatchWhen \<Rightarrow> bool" where
  "when_ok P w = (case w of ByName n \<Rightarrow> map_of P n \<noteq> None
     | Inline p \<Rightarrow> map_of P synthetic_name = None \<and> graph_ok (btree_insert synthetic_name p P))"

definition lifetime_ok :: "PredicateKind btree \<Rightarrow> Lifetime \<Rightarrow> bool" where
  "lifetime_ok P l = (case l of UntilPredicate n \<Rightarrow> map_of P n \<noteq> None | _ \<Rightarrow> True)"

definition program_ok :: "Program \<Rightarrow> bool" where
  "program_ok p \<longleftrightarrow>
     graph_ok (predicates p) \<and>
     (\<forall>n. trigger p = OnPredicate n \<longrightarrow> map_of (predicates p) n \<noteq> None) \<and>
     (\<forall>w \<in> set (watches p). when_ok (predicates p) (when_cond w)
        \<and> (\<forall>s \<in> set (watch_steps w). step_ok (predicates p) True s)
        \<and> lifetime_ok (predicates p) (lifetime w)) \<and>
     (\<forall>s \<in> set (body p). step_ok (predicates p) False s)"

lemma validate_target_ok: "validate_target t P loc = Inr () \<longleftrightarrow> target_ok P t"
proof (cases t)
  case (AbsoluteTarget p)
  then show ?thesis by (auto simp: validate_target_def target_ok_def)
next
  case (Expression raw)
  show ?thesis
  proof (cases "expression_parse raw loc")
    case (Inl e)
    then have "\<not> target_ok P t"
      using Expression expression_parse_grammar [of raw loc "\<lparr>expr_name = n, expr_accessor = a\<rparr>" for n a]
      by (auto simp: target_ok_def)
    with Inl Expression show ?thesis by (simp add: validate_target_def)
  next
    case (Inr ex)
    from Inr have g: "is_valid_name (expr_name ex)"
      "raw = CHR ''$'' # expr_name ex @ CHR ''.'' # ''match'' @ CHR ''.'' # accessor_str (expr_accessor ex)"
      by (simp_all add: expression_parse_grammar)
    have uniq: "n = expr_name ex" if "is_valid_name n"
      "raw = CHR ''$'' # n @ CHR ''.'' # ''match'' @ CHR ''.'' # accessor_str a" for n a
      using that Inr expression_parse_grammar [of raw loc "\<lparr>expr_name = n, expr_accessor = a\<rparr>"] by auto
    have t: "target_ok P t \<longleftrightarrow> (\<exists>q. map_of P (expr_name ex) = Some q \<and> \<not> is_logical q)"
      using g uniq Expression unfolding target_ok_def by (simp del: append.simps) blast
    have v: "validate_target t P loc = Inr () \<longleftrightarrow> (\<exists>q. map_of P (expr_name ex) = Some q \<and> \<not> is_logical q)"
      using Inr Expression by (simp add: validate_target_def split: option.splits PredicateKind.splits)
    from t v show ?thesis by simp
  qed
qed

lemma validate_step_ok: "validate_step s P w loc = Inr () \<longleftrightarrow> step_ok P w s"
  by (cases s) (auto simp: validate_target_ok resolve_step_name_def btree_contains_def)

lemma validate_steps_ok:
  "validate_body_steps ss P b = Inr () \<longleftrightarrow> (\<forall>s \<in> set ss. step_ok P False s)"
  "validate_watch_steps ss P b = Inr () \<longleftrightarrow> (\<forall>s \<in> set ss. step_ok P True s)"
  by (auto simp: validate_body_steps_def validate_watch_steps_def try_each_ok validate_step_ok all_set_conv_all_nth)

lemma validate_graph_ok: "validate_predicate_graph P = Inr () \<longleftrightarrow> graph_ok P"
  by (simp add: graph_ok_def validate_graph_iff)

lemma case_seq_ok: "(case r of Inl e \<Rightarrow> Inl (g e) | Inr _ \<Rightarrow> k) = Inr v \<longleftrightarrow> r = Inr () \<and> k = Inr v"
  by (cases r) auto

lemma validate_watch_when_ok: "validate_watch_when c P l = Inr () \<longleftrightarrow> when_ok P c"
  by (auto simp: validate_watch_when_def when_ok_def btree_contains_def case_seq_ok validate_graph_ok
      split: WatchWhen.splits)

lemma validate_lifetime_ok: "validate_lifetime x P l = Inr () \<longleftrightarrow> lifetime_ok P x"
  by (auto simp: validate_lifetime_def lifetime_ok_def btree_contains_def split: Lifetime.splits)

lemma validate_watch_ok:
  "validate_watch P i w = Inr () \<longleftrightarrow>
     when_ok P (when_cond w) \<and> (\<forall>s \<in> set (watch_steps w). step_ok P True s) \<and> lifetime_ok P (lifetime w)"
  by (simp add: validate_watch_def Let_def case_seq_ok validate_watch_when_ok validate_lifetime_ok
      validate_steps_ok)

lemma validate_trigger_ok:
  "validate_trigger t P = Inr () \<longleftrightarrow> (\<forall>n. t = OnPredicate n \<longrightarrow> map_of P n \<noteq> None)"
  by (auto simp: validate_trigger_def btree_contains_def split: Trigger.splits)

lemma validate_watches_ok:
  "validate_watches ws P = Inr () \<longleftrightarrow>
     (\<forall>w \<in> set ws. when_ok P (when_cond w) \<and> (\<forall>s \<in> set (watch_steps w). step_ok P True s)
        \<and> lifetime_ok P (lifetime w))"
  by (simp add: validate_watches_def try_each_ok validate_watch_ok all_set_conv_all_nth)

lemma finish_ok: "(\<exists>v. finish D p = Inr v) \<longleftrightarrow> program_ok p"
  unfolding program_ok_def finish_def
  by (simp only: case_seq_ok validate_graph_ok validate_trigger_ok validate_watches_ok validate_steps_ok) simp

lemma finish_program: "finish D p = Inr v \<Longrightarrow> val_program v = p"
  by (auto simp: finish_def split: sum.splits)

end
