(* ===== verification/Perception.thy ===== *)
theory Perception
  imports Frame_View Serde Dsl_Validate
begin

text \<open>
  The predicate evaluators of crate \<open>vcli-perception\<close>: per-tick result cache (\<open>cache.rs\<close>),
  cross-tick state (\<open>state.rs\<close>), the seven evaluators (\<open>color_at.rs\<close>, \<open>pixel_diff.rs\<close>,
  \<open>template.rs\<close>, \<open>logical.rs\<close>, \<open>elapsed.rs\<close>) and the facade (\<open>perception.rs\<close>).

  An evaluation is a state transformer \<open>peval\<close>; \<open>None\<close> means that the thread does not
  return: a panic, or a recursion deeper than the stack.  The stack is the \<open>fuel\<close> argument
  of \<open>evaluate_named_with_depth\<close>, one unit per nested call.  The image crates are
  parameters (\<open>PerceptionExt\<close>).
\<close>

unbundle bit_operations_syntax

record PerceptionExt =
  canon :: CanonExt
  load_luma8 :: "bytes \<Rightarrow> string + 8 word Image"
  grayscale :: "Rgb Image \<Rightarrow> 8 word Image"
  resize_9x8 :: "8 word Image \<Rightarrow> 8 word Image"
  match_best :: "8 word Image \<Rightarrow> 8 word Image \<Rightarrow> f64 \<times> nat \<times> nat"

section \<open>Cache and cross-tick state\<close>

record PriorSnapshot =
  dhash_bits :: "64 word"
  snap_at_ms :: UnixMs

record Perception =
  cache :: "string \<rightharpoonup> PredicateResult"
  prior_snapshots :: "string \<rightharpoonup> PriorSnapshot"
  first_true :: "(ProgramId \<times> string) \<rightharpoonup> UnixMs"

definition perception_new :: Perception where
  "perception_new = \<lparr>cache = Map.empty, prior_snapshots = Map.empty, first_true = Map.empty\<rparr>"

definition cache_get :: "string \<Rightarrow> Perception \<Rightarrow> PredicateResult option" where
  "cache_get h s = cache s h"

definition cache_insert :: "string \<Rightarrow> PredicateResult \<Rightarrow> Perception \<Rightarrow> Perception" where
  "cache_insert h r s = s\<lparr>cache := (cache s)(h \<mapsto> r)\<rparr>"

definition perception_clear :: "Perception \<Rightarrow> Perception" where
  "perception_clear s = s\<lparr>cache := Map.empty\<rparr>"

definition record_snapshot :: "string \<Rightarrow> PriorSnapshot \<Rightarrow> Perception \<Rightarrow> Perception" where
  "record_snapshot h snap s = s\<lparr>prior_snapshots := (prior_snapshots s)(h \<mapsto> snap)\<rparr>"

definition set_first_true_at :: "ProgramId \<times> string \<Rightarrow> UnixMs \<Rightarrow> Perception \<Rightarrow> Perception" where
  "set_first_true_at key at_ms s =
     (case first_true s key of
        Some _ \<Rightarrow> s
      | None \<Rightarrow> s\<lparr>first_true := (first_true s)(key \<mapsto> at_ms)\<rparr>)"

definition clear_first_true_at :: "ProgramId \<times> string \<Rightarrow> Perception \<Rightarrow> Perception" where
  "clear_first_true_at key s = s\<lparr>first_true := (first_true s)(key := None)\<rparr>"

section \<open>Evaluation context\<close>

record EvalCtx =
  ctx_frame :: Frame
  ctx_now_ms :: UnixMs
  ctx_predicates :: "PredicateKind btree"
  ctx_assets :: "bytes btree"
  ctx_program :: "ProgramId option"

type_synonym 'a peval = "Perception \<Rightarrow> ((PerceptionError + 'a) \<times> Perception) option"

definition plain_result :: "bool \<Rightarrow> EvalCtx \<Rightarrow> PredicateResult" where
  "plain_result b c = \<lparr>truthy = b, match_data = None, pr_at = ctx_now_ms c\<rparr>"

text \<open>Sequencing with the \<open>?\<close> operator: errors and aborts end the evaluation.\<close>

definition pe_bind :: "'a peval \<Rightarrow> ('a \<Rightarrow> 'b peval) \<Rightarrow> 'b peval" where
  "pe_bind m k s =
     (case m s of
        None \<Rightarrow> None
      | Some (Inl e, s') \<Rightarrow> Some (Inl e, s')
      | Some (Inr a, s') \<Rightarrow> k a s')"

definition pe_ok :: "'a \<Rightarrow> 'a peval" where "pe_ok a s = Some (Inr a, s)"
definition pe_err :: "PerceptionError \<Rightarrow> 'a peval" where "pe_err e s = Some (Inl e, s)"
definition pe_pure :: "'a fallible \<Rightarrow> 'a peval" where "pe_pure r s = map_option (\<lambda>x. (x, s)) r"

section \<open>Leaf evaluators\<close>

definition color_at_evaluate :: "EvalCtx \<Rightarrow> Point \<Rightarrow> Rgb \<Rightarrow> nat \<Rightarrow> PredicateResult fallible" where
  "color_at_evaluate c point rgb tolerance =
     (let fb = fr_bounds (ctx_frame c);
          fx = i32_sub (pt_x point) (rect_x fb);
          fy = i32_sub (pt_y point) (rect_y fb)
      in map_option (map_sum id (\<lambda>b. plain_result b c)) (color_sample (ctx_frame c) fx fy rgb tolerance))"

definition dhash_bit :: "8 word Image \<Rightarrow> nat \<Rightarrow> nat \<Rightarrow> bool option" where
  "dhash_bit im x y =
     (case get_pixel im x y of None \<Rightarrow> None | Some l \<Rightarrow>
      (case get_pixel im (x + 1) y of None \<Rightarrow> None | Some r \<Rightarrow> Some (r < l)))"

fun dhash_loop :: "8 word Image \<Rightarrow> (nat \<times> nat) list \<Rightarrow> 64 word \<Rightarrow> 64 word option" where
  "dhash_loop im [] h = Some h"
| "dhash_loop im ((x, y) # ps) h =
     (case dhash_bit im x y of
        None \<Rightarrow> None
      | Some b \<Rightarrow> dhash_loop im ps (if b then push_bit 1 h OR 1 else push_bit 1 h))"

definition dhash :: "PerceptionExt \<Rightarrow> 8 word Image \<Rightarrow> 64 word option" where
  "dhash X gray = dhash_loop (resize_9x8 X gray) (raster 8 8) 0"

definition hamming :: "64 word \<Rightarrow> 64 word \<Rightarrow> nat" where
  "hamming a b = length (filter (\<lambda>i. bit (a XOR b) i) [0..<64])"

definition pixel_diff_key :: "PerceptionExt \<Rightarrow> string \<Rightarrow> Rect \<Rightarrow> string" where
  "pixel_diff_key X baseline r =
     predicate_hash (canon X)
       (json_obj [(''kind'', JString ''pixel_diff_state''), (''baseline'', JString baseline),
                  (''rect'', JArray [jint (rect_x r), jint (rect_y r), jint (rect_w r), jint (rect_h r)])])"

definition pixel_diff_evaluate ::
  "PerceptionExt \<Rightarrow> EvalCtx \<Rightarrow> Region \<Rightarrow> string \<Rightarrow> f64 \<Rightarrow> PredicateResult peval" where
  "pixel_diff_evaluate X c region baseline threshold =
     (case region of
        Absolute rect \<Rightarrow>
          pe_bind (pe_pure (crop_rgb (ctx_frame c) rect)) (\<lambda>crop s.
            (case dhash X (grayscale X crop) of
               None \<Rightarrow> None
             | Some current_hash \<Rightarrow>
                 (let key = pixel_diff_key X baseline rect;
                      s' = record_snapshot key \<lparr>dhash_bits = current_hash, snap_at_ms = ctx_now_ms c\<rparr> s
                  in case prior_snapshots s key of
                       None \<Rightarrow> pe_ok (plain_result False c) s'
                     | Some prev \<Rightarrow>
                         pe_ok (plain_result
                           (of_nat (hamming current_hash (dhash_bits prev)) / 64 \<ge> threshold) c) s')))
      | _ \<Rightarrow> pe_ok (plain_result False c))"

definition decode_gray :: "PerceptionExt \<Rightarrow> bytes \<Rightarrow> PerceptionError + 8 word Image" where
  "decode_gray X b = (case load_luma8 X b of Inl e \<Rightarrow> Inl (AssetDecode e) | Inr im \<Rightarrow> Inr im)"

definition template_haystack :: "EvalCtx \<Rightarrow> Region \<Rightarrow> (Rgb Image \<times> i32 \<times> i32) fallible" where
  "template_haystack c region =
     (let f = ctx_frame c; fb = fr_bounds f
      in case region of
           Absolute rect \<Rightarrow>
             map_option (map_sum id (\<lambda>crop. (crop, max (rect_x rect) (rect_x fb), max (rect_y rect) (rect_y fb))))
               (crop_rgb f rect)
         | _ \<Rightarrow> map_option (map_sum id (\<lambda>im. (im, rect_x fb, rect_y fb))) (frame_to_rgb f))"

definition template_evaluate ::
  "PerceptionExt \<Rightarrow> EvalCtx \<Rightarrow> string \<Rightarrow> Confidence \<Rightarrow> Region \<Rightarrow> PredicateResult fallible" where
  "template_evaluate X c image_ref threshold region =
     (let key = (case strip_prefix ''sha256:'' image_ref of Some k \<Rightarrow> k | None \<Rightarrow> image_ref)
      in case btree_get (ctx_assets c) key of
           None \<Rightarrow> Some (Inl (AssetNotMaterialized image_ref))
         | Some bs \<Rightarrow>
            (case decode_gray X bs of
               Inl e \<Rightarrow> Some (Inl e)
             | Inr tmpl \<Rightarrow>
                (case template_haystack c region of
                   None \<Rightarrow> None
                 | Some (Inl e) \<Rightarrow> Some (Inl e)
                 | Some (Inr (rgb, ox, oy)) \<Rightarrow>
                    (let hay = grayscale X rgb
                     in if img_w hay < img_w tmpl \<or> img_h hay < img_h tmpl
                        then Some (Inr (plain_result False c))
                        else (case match_best X hay tmpl of (best, bx, by') \<Rightarrow>
                          (if best < threshold then Some (Inr (plain_result False c))
                           else Some (Inr \<lparr>truthy = True,
                                  match_data = Some \<lparr>bbox = \<lparr>rect_x = i32_add ox (i32_of_u32 bx),
                                                             rect_y = i32_add oy (i32_of_u32 by'),
                                                             rect_w = i32_of_u32 (img_w tmpl),
                                                             rect_h = i32_of_u32 (img_h tmpl)\<rparr>,
                                                     confidence = best\<rparr>,
                                  pr_at = ctx_now_ms c\<rparr>)))))))"

section \<open>Logical evaluators\<close>

text \<open>The child evaluator is an argument: the recursion ties the knot below.\<close>

fun eval_all_of :: "(string \<Rightarrow> PredicateResult peval) \<Rightarrow> EvalCtx \<Rightarrow> string list \<Rightarrow> PredicateResult peval" where
  "eval_all_of ev c [] = pe_ok (plain_result True c)"
| "eval_all_of ev c (n # ns) =
     pe_bind (ev n) (\<lambda>r. if truthy r then eval_all_of ev c ns else pe_ok (plain_result False c))"

fun eval_any_of :: "(string \<Rightarrow> PredicateResult peval) \<Rightarrow> EvalCtx \<Rightarrow> string list \<Rightarrow> PredicateResult peval" where
  "eval_any_of ev c [] = pe_ok (plain_result False c)"
| "eval_any_of ev c (n # ns) =
     pe_bind (ev n) (\<lambda>r. if truthy r then pe_ok (plain_result True c) else eval_any_of ev c ns)"

definition eval_not :: "(string \<Rightarrow> PredicateResult peval) \<Rightarrow> EvalCtx \<Rightarrow> string \<Rightarrow> PredicateResult peval" where
  "eval_not ev c n = pe_bind (ev n) (\<lambda>r. pe_ok (plain_result (\<not> truthy r) c))"

definition elapsed_update :: "EvalCtx \<Rightarrow> ProgramId \<Rightarrow> string \<Rightarrow> u32 \<Rightarrow> PredicateResult \<Rightarrow> PredicateResult peval" where
  "elapsed_update c program child_name ms child s =
     (let key = (program, child_name); now = ctx_now_ms c
      in if truthy child
         then (let s' = set_first_true_at key now s;
                   first = (case first_true s' key of Some t \<Rightarrow> t | None \<Rightarrow> now);
                   elapsed = i64_sat_sub now first
               in pe_ok (plain_result (elapsed \<ge> int ms) c) s')
         else pe_ok (plain_result False c) (clear_first_true_at key s))"

definition elapsed_evaluate ::
  "(string \<Rightarrow> PredicateResult peval) \<Rightarrow> EvalCtx \<Rightarrow> string \<Rightarrow> u32 \<Rightarrow> PredicateResult peval" where
  "elapsed_evaluate ev c child_name ms =
     (case ctx_program c of
        None \<Rightarrow> pe_err (AssetDecode ''elapsed_ms_since_true evaluated outside program context'')
      | Some program \<Rightarrow> pe_bind (ev child_name) (elapsed_update c program child_name ms))"

definition MAX_RECURSION_DEPTH :: nat where "MAX_RECURSION_DEPTH = 32"

text \<open>\<open>dispatch_leaf\<close>; its logical arm falls back to \<open>dispatch\<close>, which starts at depth 0.\<close>

definition dispatch_leaf ::
  "PerceptionExt \<Rightarrow> EvalCtx \<Rightarrow> (string \<Rightarrow> PredicateResult peval) \<Rightarrow> PredicateKind \<Rightarrow> PredicateResult peval" where
  "dispatch_leaf X c ev0 p =
     (case p of
        ColorAt point rgb tol \<Rightarrow> pe_pure (color_at_evaluate c point rgb tol)
      | PixelDiff region baseline thr \<Rightarrow> pixel_diff_evaluate X c region baseline thr
      | Template ref conf region _ \<Rightarrow> pe_pure (template_evaluate X c ref conf region)
      | ElapsedMsSinceTrue child ms \<Rightarrow> elapsed_evaluate ev0 c child ms
      | AllOf ns \<Rightarrow> eval_all_of ev0 c ns
      | AnyOf ns \<Rightarrow> eval_any_of ev0 c ns
      | NotOf n \<Rightarrow> eval_not ev0 c n)"

fun evaluate_named_with_depth ::
  "PerceptionExt \<Rightarrow> EvalCtx \<Rightarrow> nat \<Rightarrow> string \<Rightarrow> nat \<Rightarrow> PredicateResult peval" where
  "evaluate_named_with_depth X c 0 name depth s = None"
| "evaluate_named_with_depth X c (Suc fuel) name depth s =
     (if depth \<ge> MAX_RECURSION_DEPTH then pe_err (Cycle name) s
      else (case btree_get (ctx_predicates c) name of
        None \<Rightarrow> pe_err (UnknownPredicate name) s
      | Some pred \<Rightarrow>
          (let h = hash_predicate (canon X) pred
           in case cache_get h s of
                Some cached \<Rightarrow> pe_ok cached s
              | None \<Rightarrow>
                  pe_bind
                    (case pred of
                       AllOf ns \<Rightarrow> eval_all_of (\<lambda>n. evaluate_named_with_depth X c fuel n (depth + 1)) c ns
                     | AnyOf ns \<Rightarrow> eval_any_of (\<lambda>n. evaluate_named_with_depth X c fuel n (depth + 1)) c ns
                     | NotOf n \<Rightarrow> eval_not (\<lambda>n. evaluate_named_with_depth X c fuel n (depth + 1)) c n
                     | _ \<Rightarrow> dispatch_leaf X c (\<lambda>n. evaluate_named_with_depth X c fuel n 0) pred)
                    (\<lambda>r s'. pe_ok r (cache_insert h r s')) s)))"

section \<open>Facade\<close>

definition dispatch :: "PerceptionExt \<Rightarrow> EvalCtx \<Rightarrow> nat \<Rightarrow> PredicateKind \<Rightarrow> PredicateResult peval" where
  "dispatch X c fuel p = dispatch_leaf X c (\<lambda>n. evaluate_named_with_depth X c fuel n 0) p"

definition evaluate_named :: "PerceptionExt \<Rightarrow> nat \<Rightarrow> string \<Rightarrow> EvalCtx \<Rightarrow> PredicateResult peval" where
  "evaluate_named X fuel name c s =
     (case btree_get (ctx_predicates c) name of
        None \<Rightarrow> pe_err (UnknownPredicate name) s
      | Some pred \<Rightarrow>
          (let h = hash_predicate (canon X) pred
           in case cache_get h s of
                Some cached \<Rightarrow> pe_ok cached s
              | None \<Rightarrow> pe_bind (dispatch X c fuel pred) (\<lambda>r s'. pe_ok r (cache_insert h r s')) s))"

section \<open>Evaluation returns\<close>

text \<open>What the code relies on of \<open>image::imageops::resize(_, 9, 8, _)\<close>: the size asked for.\<close>

definition resize_ok :: "PerceptionExt \<Rightarrow> bool" where
  "resize_ok X \<longleftrightarrow> (\<forall>g. img_w (resize_9x8 X g) = 9 \<and> img_h (resize_9x8 X g) = 8 \<and>
                       length (img_px (resize_9x8 X g)) = 72)"

named_theorems peval_simps

lemma pe_bind_None [peval_simps]:
  "pe_bind m k s = None \<longleftrightarrow> m s = None \<or> (\<exists>a s'. m s = Some (Inr a, s') \<and> k a s' = None)"
  by (auto simp: pe_bind_def split: option.splits sum.splits)

lemma pe_bind_Inr [peval_simps]:
  "pe_bind m k s = Some (Inr b, s') \<longleftrightarrow> (\<exists>a t. m s = Some (Inr a, t) \<and> k a t = Some (Inr b, s'))"
  by (auto simp: pe_bind_def split: option.splits sum.splits)

lemma pe_bind_Inl [peval_simps]:
  "pe_bind m k s = Some (Inl e, s') \<longleftrightarrow>
     m s = Some (Inl e, s') \<or> (\<exists>a t. m s = Some (Inr a, t) \<and> k a t = Some (Inl e, s'))"
  by (auto simp: pe_bind_def split: option.splits sum.splits)

lemma pe_ok_simps [peval_simps]:
  "pe_ok a s = Some (x, s') \<longleftrightarrow> x = Inr a \<and> s' = s" "pe_ok a s \<noteq> None"
  "pe_err e s = Some (x, s') \<longleftrightarrow> x = Inl e \<and> s' = s" "pe_err e s \<noteq> None"
  "pe_pure f s = Some (x, s') \<longleftrightarrow> f = Some x \<and> s' = s" "pe_pure f s = None \<longleftrightarrow> f = None"
  by (auto simp: pe_ok_def pe_err_def pe_pure_def)

lemma eval_all_of_returns:
  "(\<And>n s. n \<in> set ns \<Longrightarrow> ev n s \<noteq> None) \<Longrightarrow> eval_all_of ev c ns s \<noteq> None"
  by (induction ns arbitrary: s) (auto simp: peval_simps simp del: not_None_eq)

lemma eval_any_of_returns:
  "(\<And>n s. n \<in> set ns \<Longrightarrow> ev n s \<noteq> None) \<Longrightarrow> eval_any_of ev c ns s \<noteq> None"
  by (induction ns arbitrary: s) (auto simp: peval_simps simp del: not_None_eq)

lemma dhash_returns: "resize_ok X \<Longrightarrow> dhash X g \<noteq> None"
proof -
  assume r: "resize_ok X"
  have b: "dhash_bit (resize_9x8 X g) x y \<noteq> None" if "x < 8" "y < 8" for x y
  proof -
    have "y * 9 + Suc x < 72" using that by linarith
    with r that show ?thesis by (simp add: resize_ok_def dhash_bit_def get_pixel_def)
  qed
  have "dhash_loop (resize_9x8 X g) ps h \<noteq> None" if "\<forall>(x, y) \<in> set ps. x < 8 \<and> y < 8" for ps h
    using that
  proof (induction ps arbitrary: h)
    case (Cons p ps)
    obtain x y where "p = (x, y)" by fastforce
    with Cons b [of x y] show ?case by (auto split: option.splits)
  qed simp
  then show ?thesis by (auto simp: dhash_def)
qed

lemma dispatch_leaf_returns:
  assumes "resize_ok X" "frame_wf (ctx_frame c)"
    and "\<And>n s. n \<in> set (edges_of p) \<Longrightarrow> ev n s \<noteq> None"
  shows "dispatch_leaf X c ev p s \<noteq> None"
proof (cases p)
  case (PixelDiff region baseline thr)
  then show ?thesis
    using dhash_returns [OF assms(1)] crop_rgb_no_panic [OF assms(2)]
    by (auto simp: dispatch_leaf_def pixel_diff_evaluate_def peval_simps Let_def simp del: not_None_eq
        split: Region.split option.splits)
next
  case (ColorAt pt rgb tol)
  then show ?thesis using pixel_rgb_no_panic [OF assms(2)]
    by (auto simp: dispatch_leaf_def color_at_evaluate_def color_sample_def Let_def peval_simps
        simp del: not_None_eq split: option.splits sum.splits) (cases rgb, simp)
next
  case (Template ref conf region thr)
  have "template_haystack c region \<noteq> None"
    using crop_rgb_no_panic [OF assms(2)] frame_to_rgb_no_panic [OF assms(2)]
    by (auto simp: template_haystack_def Let_def split: Region.splits)
  with Template show ?thesis
    by (auto simp: dispatch_leaf_def template_evaluate_def Let_def peval_simps
        simp del: not_None_eq split: option.splits sum.splits prod.splits)
next
  case (ElapsedMsSinceTrue n ms)
  with assms(3) [of n] show ?thesis
    by (auto simp: dispatch_leaf_def elapsed_evaluate_def elapsed_update_def Let_def peval_simps
        simp del: not_None_eq split: option.splits)
qed (use assms(3) in \<open>auto simp: dispatch_leaf_def eval_not_def peval_simps eval_all_of_returns
  eval_any_of_returns simp del: not_None_eq\<close>)

text \<open>Both recursion schemes are one dispatch whose children run at a depth that depends on the kind.\<close>

definition child_depth :: "PredicateKind \<Rightarrow> nat \<Rightarrow> nat" where
  "child_depth p depth = (case p of AllOf _ \<Rightarrow> depth + 1 | AnyOf _ \<Rightarrow> depth + 1 | NotOf _ \<Rightarrow> depth + 1 | _ \<Rightarrow> 0)"

lemma eval_named_Suc:
  "evaluate_named_with_depth X c (Suc fuel) name depth s =
     (if depth \<ge> MAX_RECURSION_DEPTH then pe_err (Cycle name) s
      else (case map_of (ctx_predicates c) name of
        None \<Rightarrow> pe_err (UnknownPredicate name) s
      | Some pred \<Rightarrow>
          (case cache_get (hash_predicate (canon X) pred) s of
             Some cached \<Rightarrow> pe_ok cached s
           | None \<Rightarrow> pe_bind
               (dispatch_leaf X c (\<lambda>n. evaluate_named_with_depth X c fuel n (child_depth pred depth)) pred)
               (\<lambda>r s'. pe_ok r (cache_insert (hash_predicate (canon X) pred) r s')) s)))"
proof -
  have "(case pred of
           AllOf ns \<Rightarrow> eval_all_of (\<lambda>n. evaluate_named_with_depth X c fuel n (depth + 1)) c ns
         | AnyOf ns \<Rightarrow> eval_any_of (\<lambda>n. evaluate_named_with_depth X c fuel n (depth + 1)) c ns
         | NotOf n \<Rightarrow> eval_not (\<lambda>n. evaluate_named_with_depth X c fuel n (depth + 1)) c n
         | _ \<Rightarrow> dispatch_leaf X c (\<lambda>n. evaluate_named_with_depth X c fuel n 0) pred) =
      dispatch_leaf X c (\<lambda>n. evaluate_named_with_depth X c fuel n (child_depth pred depth)) pred" for pred
    by (cases pred) (simp_all add: dispatch_leaf_def child_depth_def)
  note eq = this
  show ?thesis unfolding evaluate_named_with_depth.simps Let_def eq ..
qed

declare evaluate_named_with_depth.simps(2) [simp del]

lemma graph_child:
  assumes "graph_ok P" "map_of P a = Some p" "b \<in> set (edges_of p)"
  shows "map_of P b \<noteq> None" "dep_rank P b < dep_rank P a"
proof -
  from assms have "b \<in> set (map fst P)"
    by (fastforce simp: graph_ok_def well_shaped_def dest: map_of_SomeD)
  then show *: "map_of P b \<noteq> None" by (simp add: map_of_eq_None_iff)
  with assms have "(a, b) \<in> dep_rel P" by (auto simp: dep_rel_def)
  with assms(1) show "dep_rank P b < dep_rank P a" by (auto simp: graph_ok_def intro: dep_rank_less)
qed

lemma eval_with_depth_returns:
  assumes "resize_ok X" "frame_wf (ctx_frame c)" "graph_ok (ctx_predicates c)"
  shows "dep_rank (ctx_predicates c) name < fuel \<Longrightarrow> evaluate_named_with_depth X c fuel name depth s \<noteq> None"
proof (induction fuel arbitrary: name depth s)
  case (Suc fuel)
  show ?case
  proof (cases "map_of (ctx_predicates c) name")
    case (Some pred)
    have ch: "evaluate_named_with_depth X c fuel n d t \<noteq> None" if "n \<in> set (edges_of pred)" for n d t
      using graph_child(2) [OF assms(3) Some that] Suc.prems by (intro Suc.IH) simp
    have "dispatch_leaf X c (\<lambda>n. evaluate_named_with_depth X c fuel n (child_depth pred depth)) pred s \<noteq> None"
      by (rule dispatch_leaf_returns [OF assms(1,2)]) (rule ch)
    with Some show ?thesis
      by (auto simp: eval_named_Suc peval_simps simp del: not_None_eq split: option.splits)
  qed (simp add: eval_named_Suc peval_simps)
qed simp

lemma evaluate_named_returns:
  assumes "resize_ok X" "frame_wf (ctx_frame c)" "graph_ok (ctx_predicates c)"
    and "length (ctx_predicates c) \<le> fuel"
  shows "evaluate_named X fuel name c s \<noteq> None"
proof (cases "map_of (ctx_predicates c) name")
  case (Some pred)
  have ch: "evaluate_named_with_depth X c fuel n d t \<noteq> None" if "n \<in> set (edges_of pred)" for n d t
    using graph_child(2) [OF assms(3) Some that] dep_rank_bound [of "ctx_predicates c" name] assms(4)
    by (intro eval_with_depth_returns [OF assms(1-3)]) simp
  have "dispatch_leaf X c (\<lambda>n. evaluate_named_with_depth X c fuel n 0) pred s \<noteq> None"
    by (rule dispatch_leaf_returns [OF assms(1,2)]) (rule ch)
  with Some show ?thesis
    by (auto simp: evaluate_named_def dispatch_def peval_simps Let_def simp del: not_None_eq split: option.splits)
qed (simp add: evaluate_named_def peval_simps)

section \<open>Which errors a validated program can see\<close>

definition leaf_error :: "PerceptionError \<Rightarrow> bool" where
  "leaf_error e = (case e of UnknownPredicate _ \<Rightarrow> False | Cycle _ \<Rightarrow> False | _ \<Rightarrow> True)"

lemma eval_all_of_error:
  "eval_all_of ev c ns s = Some (Inl e, s') \<Longrightarrow> \<exists>n \<in> set ns. \<exists>t t'. ev n t = Some (Inl e, t')"
  by (induction ns arbitrary: s) (fastforce simp: peval_simps split: if_splits)+

lemma eval_any_of_error:
  "eval_any_of ev c ns s = Some (Inl e, s') \<Longrightarrow> \<exists>n \<in> set ns. \<exists>t t'. ev n t = Some (Inl e, t')"
  by (induction ns arbitrary: s) (fastforce simp: peval_simps split: if_splits)+

lemma map_sum_Inl: "map_sum id g x = Inl e \<longleftrightarrow> x = Inl e"
  by (cases x) simp_all

lemma dispatch_leaf_error:
  assumes "dispatch_leaf X c ev p s = Some (Inl e, s')"
  shows "leaf_error e \<or> (\<exists>n \<in> set (edges_of p). \<exists>t t'. ev n t = Some (Inl e, t'))"
proof (cases p)
  case (PixelDiff region baseline thr)
  with assms show ?thesis
    by (auto simp: dispatch_leaf_def pixel_diff_evaluate_def peval_simps Let_def leaf_error_def
        dest!: crop_rgb_err split: Region.splits option.splits)
next
  case (ColorAt pt rgb tol)
  with assms show ?thesis
    by (auto simp: dispatch_leaf_def color_at_evaluate_def color_sample_def Let_def peval_simps leaf_error_def
        dest!: pixel_rgb_error split: option.splits sum.splits prod.splits)
next
  case (Template ref conf region thr)
  have "leaf_error e" if "template_haystack c region = Some (Inl e)"
    using that by (auto simp: template_haystack_def Let_def leaf_error_def map_sum_Inl
        dest!: crop_rgb_err frame_to_rgb_err split: Region.splits)
  with Template assms show ?thesis
    by (auto simp: dispatch_leaf_def template_evaluate_def Let_def peval_simps decode_gray_def leaf_error_def
        map_sum_Inl split: option.splits sum.splits prod.splits if_splits)
next
  case (ElapsedMsSinceTrue n ms)
  with assms show ?thesis
    by (auto simp: dispatch_leaf_def elapsed_evaluate_def elapsed_update_def Let_def peval_simps leaf_error_def
        split: option.splits if_splits)
qed (use assms in \<open>auto simp: dispatch_leaf_def eval_not_def peval_simps
      dest: eval_all_of_error eval_any_of_error\<close>)

lemma eval_with_depth_error:
  assumes "graph_ok (ctx_predicates c)"
    and "evaluate_named_with_depth X c fuel name depth s = Some (Inl e, s')"
    and "map_of (ctx_predicates c) name \<noteq> None"
    and "depth + dep_rank (ctx_predicates c) name < MAX_RECURSION_DEPTH"
  shows "leaf_error e"
  using assms(2-4)
proof (induction fuel arbitrary: name depth s s')
  case (Suc fuel)
  from Suc.prems obtain pred where p: "map_of (ctx_predicates c) name = Some pred" by auto
  from Suc.prems p have "dispatch_leaf X c (\<lambda>n. evaluate_named_with_depth X c fuel n (child_depth pred depth)) pred s
      = Some (Inl e, s')"
    by (auto simp: eval_named_Suc peval_simps split: if_splits option.splits)
  from dispatch_leaf_error [OF this] show ?case
  proof
    assume "\<exists>n \<in> set (edges_of pred). \<exists>t t'.
      evaluate_named_with_depth X c fuel n (child_depth pred depth) t = Some (Inl e, t')"
    then obtain n t t' where n: "n \<in> set (edges_of pred)"
      and ev: "evaluate_named_with_depth X c fuel n (child_depth pred depth) t = Some (Inl e, t')" by blast
    note ch = graph_child [OF assms(1) p n]
    have "child_depth pred depth \<le> depth + 1" by (cases pred) (simp_all add: child_depth_def)
    with ch Suc.prems(3) show ?thesis by (intro Suc.IH [OF ev]) auto
  qed
qed simp

lemma dep_rank_strict: "acyclic (dep_rel P) \<Longrightarrow> map_of P n \<noteq> None \<Longrightarrow> dep_rank P n < length P"
proof -
  assume a: "acyclic (dep_rel P)" and n: "map_of P n \<noteq> None"
  from n have "n \<in> set (map fst P)" by (simp add: map_of_eq_None_iff)
  moreover have "n \<notin> (dep_rel P)\<^sup>+ `` {n}" using a by (simp add: acyclic_def)
  ultimately have "(dep_rel P)\<^sup>+ `` {n} \<subset> set (map fst P)" using dep_rel_range [of P n] by blast
  then have "dep_rank P n < card (set (map fst P))" unfolding dep_rank_def by (intro psubset_card_mono) auto
  also have "\<dots> \<le> length P" using card_length [of "map fst P"] by simp
  finally show ?thesis .
qed

lemma evaluate_named_error:
  assumes "graph_ok (ctx_predicates c)" "map_of (ctx_predicates c) name \<noteq> None"
    and "length (ctx_predicates c) \<le> MAX_RECURSION_DEPTH"
    and "evaluate_named X fuel name c s = Some (Inl e, s')"
  shows "leaf_error e"
proof -
  from assms(2) obtain pred where p: "map_of (ctx_predicates c) name = Some pred" by auto
  with assms(4) have "dispatch_leaf X c (\<lambda>n. evaluate_named_with_depth X c fuel n 0) pred s = Some (Inl e, s')"
    by (auto simp: evaluate_named_def dispatch_def Let_def peval_simps split: option.splits)
  from dispatch_leaf_error [OF this] show ?thesis
  proof
    assume "\<exists>n \<in> set (edges_of pred). \<exists>t t'. evaluate_named_with_depth X c fuel n 0 t = Some (Inl e, t')"
    then obtain n t t' where n: "n \<in> set (edges_of pred)"
      and ev: "evaluate_named_with_depth X c fuel n 0 t = Some (Inl e, t')" by blast
    note ch = graph_child [OF assms(1) p n]
    have "dep_rank (ctx_predicates c) n < length (ctx_predicates c)"
      using assms(1) ch by (intro dep_rank_strict) (auto simp: graph_ok_def)
    with assms(3) ch show ?thesis by (intro eval_with_depth_error [OF assms(1) ev]) auto
  qed
qed

section \<open>Meaning of a predicate and soundness of the memo\<close>

text \<open>
  The meaning of a predicate on one frame, without cache, recursion limit or evaluation
  order: a conjunction is false as soon as some conjunct is, and so on.
\<close>

inductive sem :: "PerceptionExt \<Rightarrow> EvalCtx \<Rightarrow> PredicateKind \<Rightarrow> PredicateResult \<Rightarrow> bool" for X c where
  sem_color: "color_at_evaluate c pt rgb tol = Some (Inr r) \<Longrightarrow> sem X c (ColorAt pt rgb tol) r"
| sem_template: "template_evaluate X c ref conf region = Some (Inr r) \<Longrightarrow> sem X c (Template ref conf region thr) r"
| sem_all_true: "\<forall>n \<in> set ns. \<exists>p r. map_of (ctx_predicates c) n = Some p \<and> sem X c p r \<and> truthy r \<Longrightarrow>
    sem X c (AllOf ns) (plain_result True c)"
| sem_all_false: "n \<in> set ns \<Longrightarrow> map_of (ctx_predicates c) n = Some p \<Longrightarrow> sem X c p r \<Longrightarrow> \<not> truthy r \<Longrightarrow>
    sem X c (AllOf ns) (plain_result False c)"
| sem_any_true: "n \<in> set ns \<Longrightarrow> map_of (ctx_predicates c) n = Some p \<Longrightarrow> sem X c p r \<Longrightarrow> truthy r \<Longrightarrow>
    sem X c (AnyOf ns) (plain_result True c)"
| sem_any_false: "\<forall>n \<in> set ns. \<exists>p r. map_of (ctx_predicates c) n = Some p \<and> sem X c p r \<and> \<not> truthy r \<Longrightarrow>
    sem X c (AnyOf ns) (plain_result False c)"
| sem_not: "map_of (ctx_predicates c) n = Some p \<Longrightarrow> sem X c p r \<Longrightarrow>
    sem X c (NotOf n) (plain_result (\<not> truthy r) c)"

inductive_cases sem_ColorAtE: "sem X c (ColorAt pt rgb tol) r"
inductive_cases sem_TemplateE: "sem X c (Template ref conf region thr) r"
inductive_cases sem_AllOfE: "sem X c (AllOf ns) r"
inductive_cases sem_AnyOfE: "sem X c (AnyOf ns) r"
inductive_cases sem_NotOfE: "sem X c (NotOf n) r"

lemma plain_result_eq [simp]: "plain_result a c = plain_result b c \<longleftrightarrow> a = b" "truthy (plain_result a c) = a"
  by (auto simp: plain_result_def)

lemma sem_deterministic: "sem X c p r \<Longrightarrow> sem X c p r' \<Longrightarrow> r = r'"
proof (induction arbitrary: r' rule: sem.induct)
  case (sem_all_true ns)
  have "truthy r" if "n \<in> set ns" "map_of (ctx_predicates c) n = Some p" "sem X c p r" for n p r
    using sem_all_true(1) that by fastforce
  with sem_all_true(2) show ?case by (auto elim!: sem_AllOfE)
next
  case (sem_all_false n ns p r)
  from sem_all_false(1,2,4) have "\<not> (\<forall>n \<in> set ns. \<exists>p r. map_of (ctx_predicates c) n = Some p \<and> sem X c p r \<and> truthy r)"
    using sem_all_false.IH by fastforce
  with sem_all_false.prems show ?case by (auto elim!: sem_AllOfE)
next
  case (sem_any_true n ns p r)
  from sem_any_true(1,2,4) have "\<not> (\<forall>n \<in> set ns. \<exists>p r. map_of (ctx_predicates c) n = Some p \<and> sem X c p r \<and> \<not> truthy r)"
    using sem_any_true.IH by fastforce
  with sem_any_true.prems show ?case by (auto elim!: sem_AnyOfE)
next
  case (sem_any_false ns)
  have "\<not> truthy r" if "n \<in> set ns" "map_of (ctx_predicates c) n = Some p" "sem X c p r" for n p r
    using sem_any_false(1) that by fastforce
  with sem_any_false(2) show ?case by (auto elim!: sem_AnyOfE)
next
  case (sem_not n p r)
  from sem_not.prems show ?case
    by (rule sem_NotOfE) (use sem_not.hyps sem_not.IH in auto)
qed (auto elim: sem_ColorAtE sem_TemplateE)

lemma sem_AllOf_Cons:
  assumes "map_of (ctx_predicates c) n = Some p" "sem X c p r" "truthy r" "sem X c (AllOf ns) r'"
  shows "sem X c (AllOf (n # ns)) r'"
proof -
  have t: "sem X c (AllOf (n # ns)) (plain_result True c)"
    if "\<forall>n \<in> set ns. \<exists>p r. map_of (ctx_predicates c) n = Some p \<and> sem X c p r \<and> truthy r"
    by (rule sem_all_true) (use that assms(1-3) in auto)
  have f: "sem X c (AllOf (n # ns)) (plain_result False c)"
    if "m \<in> set ns" "map_of (ctx_predicates c) m = Some q" "sem X c q u" "\<not> truthy u" for m q u
    by (rule sem_all_false [OF _ that(2-4)]) (use that(1) in simp)
  from assms(4) t f show ?thesis by (elim sem_AllOfE) auto
qed

lemma sem_AnyOf_Cons:
  assumes "map_of (ctx_predicates c) n = Some p" "sem X c p r" "\<not> truthy r" "sem X c (AnyOf ns) r'"
  shows "sem X c (AnyOf (n # ns)) r'"
proof -
  have f: "sem X c (AnyOf (n # ns)) (plain_result False c)"
    if "\<forall>n \<in> set ns. \<exists>p r. map_of (ctx_predicates c) n = Some p \<and> sem X c p r \<and> \<not> truthy r"
    by (rule sem_any_false) (use that assms(1-3) in auto)
  have t: "sem X c (AnyOf (n # ns)) (plain_result True c)"
    if "m \<in> set ns" "map_of (ctx_predicates c) m = Some q" "sem X c q u" "truthy u" for m q u
    by (rule sem_any_true [OF _ that(2-4)]) (use that(1) in simp)
  from assms(4) t f show ?thesis by (elim sem_AnyOfE) auto
qed

text \<open>Predicates whose value depends on the current frame only.\<close>

fun stateless :: "PredicateKind \<Rightarrow> bool" where
  "stateless (PixelDiff _ _ _) = False"
| "stateless (ElapsedMsSinceTrue _ _) = False"
| "stateless _ = True"

definition coherent :: "PerceptionExt \<Rightarrow> EvalCtx \<Rightarrow> Perception \<Rightarrow> bool" where
  "coherent X c s \<longleftrightarrow>
     (\<forall>h r. cache s h = Some r \<longrightarrow>
        (\<exists>n p. map_of (ctx_predicates c) n = Some p \<and> hash_predicate (canon X) p = h \<and> sem X c p r))"

lemma coherent_insert:
  assumes "coherent X c s" "map_of (ctx_predicates c) n = Some p" "sem X c p r"
  shows "coherent X c (cache_insert (hash_predicate (canon X) p) r s)"
  using assms by (auto simp: coherent_def cache_insert_def)

definition sound_child :: "PerceptionExt \<Rightarrow> EvalCtx \<Rightarrow> (string \<Rightarrow> PredicateResult peval) \<Rightarrow> bool" where
  "sound_child X c ev \<longleftrightarrow> (\<forall>n s x s'. coherent X c s \<longrightarrow> ev n s = Some (x, s') \<longrightarrow>
     coherent X c s' \<and> (\<forall>r. x = Inr r \<longrightarrow> (\<exists>p. map_of (ctx_predicates c) n = Some p \<and> sem X c p r)))"

lemma sound_childD:
  assumes "sound_child X c ev" "coherent X c s" "ev n s = Some (x, s')"
  shows "coherent X c s'"
    and "x = Inr r \<Longrightarrow> \<exists>p. map_of (ctx_predicates c) n = Some p \<and> sem X c p r"
  using assms unfolding sound_child_def by blast+

lemma pe_bind_cases:
  assumes "pe_bind m k s = Some (x, s')"
  obtains (err) e where "m s = Some (Inl e, s')" "x = Inl e"
    | (ok) a t where "m s = Some (Inr a, t)" "k a t = Some (x, s')"
  using assms by (auto simp: pe_bind_def split: option.splits sum.splits)

text \<open>Both short-circuit loops are one loop that stops at a child of truth value \<open>stop\<close>.\<close>

lemma loop_sound:
  assumes ev: "sound_child X c ev"
    and nil: "loop [] = pe_ok (plain_result (\<not> stop) c)" "sem X c (K []) (plain_result (\<not> stop) c)"
    and cons: "\<And>n ns. loop (n # ns) = pe_bind (ev n) (\<lambda>r. if truthy r = stop then pe_ok (plain_result stop c) else loop ns)"
    and hit: "\<And>n ns p r. map_of (ctx_predicates c) n = Some p \<Longrightarrow> sem X c p r \<Longrightarrow> truthy r = stop \<Longrightarrow>
      sem X c (K (n # ns)) (plain_result stop c)"
    and miss: "\<And>n ns p r r'. map_of (ctx_predicates c) n = Some p \<Longrightarrow> sem X c p r \<Longrightarrow> truthy r = (\<not> stop) \<Longrightarrow>
      sem X c (K ns) r' \<Longrightarrow> sem X c (K (n # ns)) r'"
  shows "coherent X c s \<Longrightarrow> loop ns s = Some (x, s') \<Longrightarrow>
    coherent X c s' \<and> (\<forall>r. x = Inr r \<longrightarrow> sem X c (K ns) r)"
proof (induction ns arbitrary: s)
  case Nil
  then show ?case using nil by (auto simp: peval_simps)
next
  case (Cons n ns)
  from Cons.prems(2) show ?case unfolding cons
  proof (cases rule: pe_bind_cases)
    case (err e)
    with sound_childD(1) [OF ev Cons.prems(1)] show ?thesis by blast
  next
    case (ok r t)
    note c = sound_childD(1) [OF ev Cons.prems(1) ok(1)]
    from sound_childD(2) [OF ev Cons.prems(1) ok(1) refl]
    obtain p where p: "map_of (ctx_predicates c) n = Some p" "sem X c p r" by blast
    show ?thesis
    proof (cases "truthy r = stop")
      case True
      with ok(2) c hit [OF p] show ?thesis by (auto simp: peval_simps)
    next
      case False
      with ok(2) Cons.IH [OF c] miss [OF p] show ?thesis by auto
    qed
  qed
qed

lemma eval_all_of_sound:
  assumes "sound_child X c ev" "coherent X c s" "eval_all_of ev c ns s = Some (x, s')"
  shows "coherent X c s' \<and> (\<forall>r. x = Inr r \<longrightarrow> sem X c (AllOf ns) r)"
proof (rule loop_sound [where stop = False and loop = "eval_all_of ev c", OF assms(1) _ _ _ _ _ assms(2,3)])
  show "eval_all_of ev c (n # ns) = pe_bind (ev n)
      (\<lambda>r. if truthy r = False then pe_ok (plain_result False c) else eval_all_of ev c ns)" for n ns
  proof -
    have eq: "(\<lambda>r. if truthy r then eval_all_of ev c ns else pe_ok (plain_result False c)) =
        (\<lambda>r. if truthy r = False then pe_ok (plain_result False c) else eval_all_of ev c ns)" by auto
    show ?thesis unfolding eval_all_of.simps eq ..
  qed
qed (auto intro: sem_all_true sem_all_false sem_AllOf_Cons)

lemma eval_any_of_sound:
  assumes "sound_child X c ev" "coherent X c s" "eval_any_of ev c ns s = Some (x, s')"
  shows "coherent X c s' \<and> (\<forall>r. x = Inr r \<longrightarrow> sem X c (AnyOf ns) r)"
  by (rule loop_sound [where stop = True and loop = "eval_any_of ev c", OF assms(1) _ _ _ _ _ assms(2,3)])
    (auto intro: sem_any_true sem_any_false sem_AnyOf_Cons)

lemma dispatch_leaf_sound:
  assumes "sound_child X c ev" "coherent X c s" "stateless p" "dispatch_leaf X c ev p s = Some (x, s')"
  shows "coherent X c s' \<and> (\<forall>r. x = Inr r \<longrightarrow> sem X c p r)"
proof (cases p)
  case (NotOf n)
  with assms(4) have "pe_bind (ev n) (\<lambda>r. pe_ok (plain_result (\<not> truthy r) c)) s = Some (x, s')"
    by (simp add: dispatch_leaf_def eval_not_def)
  then show ?thesis
    by (cases rule: pe_bind_cases)
      (use sound_childD [OF assms(1,2)] NotOf in \<open>fastforce simp: peval_simps intro: sem_not\<close>)+
next
  case (AllOf ns)
  with assms(4) eval_all_of_sound [OF assms(1,2)] show ?thesis by (simp add: dispatch_leaf_def)
next
  case (AnyOf ns)
  with assms(4) eval_any_of_sound [OF assms(1,2)] show ?thesis by (simp add: dispatch_leaf_def)
next
  case (ColorAt pt rgb tol)
  with assms(2,4) show ?thesis by (auto simp: dispatch_leaf_def peval_simps intro: sem_color)
next
  case (Template ref conf region thr)
  with assms(2,4) show ?thesis by (auto simp: dispatch_leaf_def peval_simps intro: sem_template)
qed (use assms(3) in simp_all)

text \<open>
  Evaluation within one program: whatever the cache holds from earlier evaluations of the
  tick, a result that is returned is the meaning of the predicate.
\<close>

definition memo_ok :: "PerceptionExt \<Rightarrow> EvalCtx \<Rightarrow> bool" where
  "memo_ok X c \<longleftrightarrow> (\<forall>p \<in> ran (map_of (ctx_predicates c)). stateless p) \<and>
     inj_on (hash_predicate (canon X)) (ran (map_of (ctx_predicates c)))"

lemma coherent_hit:
  assumes "memo_ok X c" "coherent X c s" "map_of (ctx_predicates c) n = Some p"
    and "cache_get (hash_predicate (canon X) p) s = Some r"
  shows "sem X c p r"
proof -
  from assms(2,4) obtain m q where q: "map_of (ctx_predicates c) m = Some q"
    "hash_predicate (canon X) q = hash_predicate (canon X) p" "sem X c q r"
    unfolding coherent_def cache_get_def by blast
  with assms(1,3) have "q = p" unfolding memo_ok_def by (meson inj_onD ranI)
  with q show ?thesis by simp
qed

lemma memo_step_sound:
  assumes "memo_ok X c" "sound_child X c ev" "coherent X c s" "map_of (ctx_predicates c) n = Some p"
    and "(case cache_get (hash_predicate (canon X) p) s of
             Some cached \<Rightarrow> pe_ok cached s
           | None \<Rightarrow> pe_bind (dispatch_leaf X c ev p)
               (\<lambda>r s'. pe_ok r (cache_insert (hash_predicate (canon X) p) r s')) s) = Some (x, s')"
  shows "coherent X c s' \<and> (\<forall>r. x = Inr r \<longrightarrow> sem X c p r)"
proof (cases "cache_get (hash_predicate (canon X) p) s")
  case None
  from assms(1,4) have st: "stateless p" by (auto simp: memo_ok_def ran_def)
  from None assms(5) have "pe_bind (dispatch_leaf X c ev p)
      (\<lambda>r s'. pe_ok r (cache_insert (hash_predicate (canon X) p) r s')) s = Some (x, s')" by simp
  then show ?thesis
    by (cases rule: pe_bind_cases)
      (use dispatch_leaf_sound [OF assms(2,3) st] coherent_insert [OF _ assms(4)] in \<open>fastforce simp: peval_simps\<close>)+
next
  case (Some r)
  with assms coherent_hit [OF assms(1,3,4)] show ?thesis by (auto simp: peval_simps)
qed

lemma eval_with_depth_sound:
  assumes "memo_ok X c"
  shows "sound_child X c (\<lambda>n. evaluate_named_with_depth X c fuel n depth)"
proof (induction fuel arbitrary: depth)
  case (Suc fuel)
  show ?case unfolding sound_child_def
  proof (intro allI impI)
    fix n s x s'
    assume s: "coherent X c s" and ev: "evaluate_named_with_depth X c (Suc fuel) n depth s = Some (x, s')"
    show "coherent X c s' \<and> (\<forall>r. x = Inr r \<longrightarrow> (\<exists>p. map_of (ctx_predicates c) n = Some p \<and> sem X c p r))"
    proof (cases "depth \<ge> MAX_RECURSION_DEPTH \<or> map_of (ctx_predicates c) n = None")
      case True
      with ev s show ?thesis by (auto simp: eval_named_Suc peval_simps split: if_splits)
    next
      case False
      then obtain p where p: "map_of (ctx_predicates c) n = Some p" by auto
      with False ev memo_step_sound [OF assms Suc.IH s p] show ?thesis by (simp add: eval_named_Suc)
    qed
  qed
qed (simp add: sound_child_def)

lemma evaluate_named_sound:
  assumes "memo_ok X c" "coherent X c s" "evaluate_named X fuel n c s = Some (x, s')"
  shows "coherent X c s' \<and> (\<forall>r. x = Inr r \<longrightarrow> (\<exists>p. map_of (ctx_predicates c) n = Some p \<and> sem X c p r))"
proof (cases "map_of (ctx_predicates c) n")
  case None
  with assms(2,3) show ?thesis by (auto simp: evaluate_named_def peval_simps)
next
  case (Some p)
  from assms(3) Some have "(case cache_get (hash_predicate (canon X) p) s of
      Some cached \<Rightarrow> pe_ok cached s
    | None \<Rightarrow> pe_bind (dispatch_leaf X c (\<lambda>n. evaluate_named_with_depth X c fuel n 0) p)
        (\<lambda>r s'. pe_ok r (cache_insert (hash_predicate (canon X) p) r s')) s) = Some (x, s')"
    unfolding evaluate_named_def dispatch_def Let_def by simp
  from memo_step_sound [OF assms(1) eval_with_depth_sound [OF assms(1)] assms(2) Some this] Some
  show ?thesis by simp
qed

section \<open>The memo across programs\<close>

lemma evaluate_named_cached:
  assumes "evaluate_named X fuel n c s = Some (Inr r, s')"
    and "map_of (ctx_predicates c) n = Some p" "map_of (ctx_predicates c') n' = Some p"
  shows "evaluate_named X fuel' n' c' s' = Some (Inr r, s')"
proof -
  have "cache_get (hash_predicate (canon X) p) s' = Some r"
    using assms(1,2)
    by (auto simp: evaluate_named_def Let_def peval_simps cache_insert_def cache_get_def split: option.splits)
  with assms(3) show ?thesis by (simp add: evaluate_named_def Let_def peval_simps)
qed

definition white_pixel :: Frame where
  "white_pixel = \<lparr>fr_format = Rgba8, fr_bounds = \<lparr>rect_x = 0, rect_y = 0, rect_w = 1, rect_h = 1\<rparr>,
     fr_stride = 4, fr_pixels = [255, 255, 255, 255], fr_captured_at_ns = 0\<rparr>"

definition probe_ctx :: "Rgb \<Rightarrow> ProgramId \<Rightarrow> EvalCtx" where
  "probe_ctx rgb pid = \<lparr>ctx_frame = white_pixel, ctx_now_ms = 0,
     ctx_predicates = [(''a'', ColorAt \<lparr>pt_x = 0, pt_y = 0\<rparr> rgb 0), (''n'', NotOf ''a'')],
     ctx_assets = [], ctx_program = Some pid\<rparr>"

lemma white_pixel_wf: "frame_wf white_pixel"
  by (simp add: frame_wf_def white_pixel_def frame_width_def frame_height_def is_i32_def)

lemma probe_color:
  "color_at_evaluate (probe_ctx rgb pid) \<lparr>pt_x = 0, pt_y = 0\<rparr> rgb 0 =
     Some (Inr (plain_result (rgb = (255, 255, 255)) (probe_ctx rgb pid)))"
proof -
  have px: "pixel_rgb white_pixel 0 0 = Some (Inr (255, 255, 255))"
    by (simp add: pixel_rgb_def white_pixel_def frame_width_def frame_height_def)
  note d = color_dist_zero [of "(255, 255, 255)" rgb]
  show ?thesis
    using color_sample_dist [OF px, of rgb 0] d
    by (auto simp: color_at_evaluate_def probe_ctx_def i32_sub_def wrap_i32_def white_pixel_def)
qed

section \<open>Elapsed time over a sequence of ticks\<close>

definition elapsed_ticks ::
  "EvalCtx \<Rightarrow> ProgramId \<Rightarrow> string \<Rightarrow> u32 \<Rightarrow> (UnixMs \<times> bool) list \<Rightarrow> Perception \<Rightarrow> Perception" where
  "elapsed_ticks c pid child ms hist s =
     foldl (\<lambda>s (t, b). snd (the (elapsed_update (c\<lparr>ctx_now_ms := t\<rparr>) pid child ms (plain_result b c) s))) s hist"

text \<open>The time at which the child's current uninterrupted run of truth began.\<close>

definition run_start :: "(UnixMs \<times> bool) list \<Rightarrow> UnixMs option" where
  "run_start hist = (case takeWhile snd (rev hist) of [] \<Rightarrow> None | x # xs \<Rightarrow> Some (fst (last (x # xs))))"

lemma run_start_snoc:
  "run_start (hist @ [(t, b)]) = (if b then Some (case run_start hist of None \<Rightarrow> t | Some t0 \<Rightarrow> t0) else None)"
  by (auto simp: run_start_def split: list.splits)

lemma elapsed_ticks_first:
  assumes "first_true s (pid, child) = None"
  shows "first_true (elapsed_ticks c pid child ms hist s) (pid, child) = run_start hist"
proof (induction hist rule: rev_induct)
  case Nil
  then show ?case using assms by (simp add: elapsed_ticks_def run_start_def)
next
  case (snoc x hist)
  obtain t b where x: "x = (t, b)" by fastforce
  from snoc show ?case
    by (auto simp: x run_start_snoc elapsed_ticks_def elapsed_update_def Let_def pe_ok_def
        set_first_true_at_def clear_first_true_at_def split: option.splits)
qed

lemma elapsed_update_history:
  assumes "first_true s (pid, child) = None" "ms \<le> u32_max"
    and "elapsed_update (c\<lparr>ctx_now_ms := now\<rparr>) pid child ms r (elapsed_ticks c pid child ms hist s) = Some (Inr r', s')"
  shows "truthy r' \<longleftrightarrow> (\<exists>t0. run_start (hist @ [(now, truthy r)]) = Some t0 \<and> now - t0 \<ge> int ms)"
  using assms(3) elapsed_ticks_first [OF assms(1), of c ms hist] assms(2)
  by (auto simp: elapsed_update_def Let_def peval_simps run_start_snoc set_first_true_at_def sat_sub_ge_iff
      split: if_splits option.splits)

end
