(* ===== verification/Input.thy ===== *)
theory Input
  imports Core_Types
begin

text \<open>
  Crate \<open>vcli-input\<close> without its operating-system backends: error values, the kill switch,
  the \<open>InputSink\<close> interface, the recording sink \<open>MockInputSink\<close> and the key-name parser.
  A sink is a state \<open>'i\<close> and one function from calls to results.  The locale \<open>input_sink\<close>
  states what the trait documents: an engaged kill switch halts every call before anything
  is posted, a failing call posts nothing, a call that succeeds posts itself.
\<close>

datatype InputError =
    Halted
  | InputPermissionDenied string
  | Backend string
  | UnknownKey string
  | InvalidArgument string
  | Unimplemented

definition to_error_code :: "InputError \<Rightarrow> ErrorCode" where
  "to_error_code e =
     (case e of
        Halted \<Rightarrow> Internal | Backend _ \<Rightarrow> Internal | Unimplemented \<Rightarrow> Internal
      | InputPermissionDenied _ \<Rightarrow> PermissionDenied
      | UnknownKey _ \<Rightarrow> InvalidProgram | InvalidArgument _ \<Rightarrow> InvalidProgram)"

section \<open>Kill switch\<close>

record KillSwitch =
  ks_engaged :: bool
  ks_engaged_at_ns :: nat

definition kill_new :: KillSwitch where
  "kill_new = \<lparr>ks_engaged = False, ks_engaged_at_ns = 0\<rparr>"

definition engage :: "nat \<Rightarrow> KillSwitch \<Rightarrow> KillSwitch" where
  "engage now_ns k =
     k\<lparr>ks_engaged_at_ns := (if ks_engaged_at_ns k = 0 then now_ns else ks_engaged_at_ns k),
       ks_engaged := True\<rparr>"

definition disengage :: "KillSwitch \<Rightarrow> KillSwitch" where
  "disengage k = k\<lparr>ks_engaged := False, ks_engaged_at_ns := 0\<rparr>"

definition is_engaged :: "KillSwitch \<Rightarrow> bool" where "is_engaged k = ks_engaged k"

section \<open>Sinks\<close>

record DragSegment =
  seg_to :: Point
  seg_duration_ns :: nat

datatype SinkCall =
    MouseMove Point
  | ClickCall Point Button "Modifier list" u32
  | DoubleClick Point Button
  | Drag Point "DragSegment list" Button
  | TypeCall string
  | KeyCombo "Modifier list" string

type_synonym 'i sink = "'i \<Rightarrow> SinkCall \<Rightarrow> (InputError + unit) \<times> 'i"

datatype MockCall =
    MockAction InputAction
  | MockDoubleClick Point Button
  | MockDrag Point "Point list" Button
  | ClickDetailed Point Button "Modifier list" u32

record MockInputSink =
  mock_log :: "MockCall list"
  mock_kill :: KillSwitch
  forced_error :: "string option"

definition mock_new :: "KillSwitch \<Rightarrow> MockInputSink" where
  "mock_new kill = \<lparr>mock_log = [], mock_kill = kill, forced_error = None\<rparr>"

definition fail_with :: "string \<Rightarrow> MockInputSink \<Rightarrow> MockInputSink" where
  "fail_with detail m = m\<lparr>forced_error := Some detail\<rparr>"

definition drain_calls :: "MockInputSink \<Rightarrow> MockCall list \<times> MockInputSink" where
  "drain_calls m = (mock_log m, m\<lparr>mock_log := []\<rparr>)"

definition mock_check :: "MockInputSink \<Rightarrow> InputError + unit" where
  "mock_check m =
     (if is_engaged (mock_kill m) then Inl Halted
      else (case forced_error m of Some d \<Rightarrow> Inl (Backend d) | None \<Rightarrow> Inr ()))"

definition push_call :: "MockCall \<Rightarrow> MockInputSink \<Rightarrow> MockInputSink" where
  "push_call c m = m\<lparr>mock_log := mock_log m @ [c]\<rparr>"

fun mock_entry :: "SinkCall \<Rightarrow> MockCall" where
  "mock_entry (MouseMove to) = MockAction (Act_Move to)"
| "mock_entry (ClickCall p b ms hold) = ClickDetailed p b ms hold"
| "mock_entry (DoubleClick p b) = MockDoubleClick p b"
| "mock_entry (Drag from segs b) = MockDrag from (map seg_to segs) b"
| "mock_entry (TypeCall t) = MockAction (Act_Type t)"
| "mock_entry (KeyCombo ms k) = MockAction (Act_Key k ms)"

definition mock_call :: "MockInputSink sink" where
  "mock_call m call =
     (case mock_check m of
        Inl e \<Rightarrow> (Inl e, m)
      | Inr _ \<Rightarrow>
         (case call of
            Drag _ [] _ \<Rightarrow> (Inl (InvalidArgument ''drag segments must be non-empty''), m)
          | _ \<Rightarrow> (Inr (), push_call (mock_entry call) m)))"

text \<open>What every sink promises its callers.\<close>

locale input_sink =
  fixes call :: "'i sink" and posted :: "'i \<Rightarrow> 'e list" and halted :: "'i \<Rightarrow> bool" and entry :: "SinkCall \<Rightarrow> 'e"
  assumes halt_first: "halted i \<Longrightarrow> fst (call i c) = Inl Halted"
    and error_posts_nothing: "fst (call i c) = Inl e \<Longrightarrow> posted (snd (call i c)) = posted i"
    and success_posts: "fst (call i c) = Inr u \<Longrightarrow> posted (snd (call i c)) = posted i @ [entry c]"
    and halted_stays: "halted (snd (call i c)) = halted i"
begin

fun calls :: "SinkCall list \<Rightarrow> 'i \<Rightarrow> 'i" where
  "calls [] i = i"
| "calls (c # cs) i = calls cs (snd (call i c))"

lemma halted_calls: "halted i \<Longrightarrow> posted (calls cs i) = posted i"
  by (induction cs arbitrary: i) (auto simp: halted_stays error_posts_nothing [OF halt_first])

lemma posted_step: "posted (snd (call i c)) = posted i \<or> posted (snd (call i c)) = posted i @ [entry c]"
  by (cases "fst (call i c)") (auto dest: error_posts_nothing success_posts)

lemma posted_grows: "\<exists>es. posted (calls cs i) = posted i @ es \<and> set es \<subseteq> entry ` set cs \<and> length es \<le> length cs"
proof (induction cs arbitrary: i)
  case (Cons c cs)
  obtain es where es: "posted (calls cs (snd (call i c))) = posted (snd (call i c)) @ es"
    "set es \<subseteq> entry ` set cs" "length es \<le> length cs" using Cons by blast
  from posted_step [of i c] es show ?case
    by (elim disjE) (force intro: exI [of _ es], force intro: exI [of _ "entry c # es"])
qed simp

end

interpretation mock: input_sink mock_call mock_log "\<lambda>m. is_engaged (mock_kill m)" mock_entry
  by unfold_locales
    (auto simp: mock_call_def mock_check_def push_call_def split: if_splits option.splits SinkCall.splits
      list.splits)

section \<open>Key names\<close>

datatype NamedKey =
    Return | Tab | Space | Escape | Backspace | Delete | LeftKey | RightKey | UpKey | DownKey
  | Home | End | PageUp | PageDown | Function nat

datatype CanonicalKey = CharKey string | Named NamedKey

text \<open>UTF-8 groups of the characters with the Unicode property \<open>White_Space\<close>.\<close>

definition is_whitespace :: "string \<Rightarrow> bool" where
  "is_whitespace g \<longleftrightarrow>
     g \<in> {[CHR 0x09], [CHR 0x0A], [CHR 0x0B], [CHR 0x0C], [CHR 0x0D], [CHR 0x20],
          [CHR 0xC2, CHR 0x85], [CHR 0xC2, CHR 0xA0], [CHR 0xE1, CHR 0x9A, CHR 0x80],
          [CHR 0xE2, CHR 0x80, CHR 0xA8], [CHR 0xE2, CHR 0x80, CHR 0xA9], [CHR 0xE2, CHR 0x80, CHR 0xAF],
          [CHR 0xE2, CHR 0x81, CHR 0x9F], [CHR 0xE3, CHR 0x80, CHR 0x80]} \<or>
     (\<exists>b \<in> set [0x80, 0x81, 0x82, 0x83, 0x84, 0x85, 0x86, 0x87, 0x88, 0x89, 0x8A :: nat].
        g = [CHR 0xE2, CHR 0x80, char_of b])"

definition str_trim :: "string \<Rightarrow> string" where
  "str_trim s = concat (rev (dropWhile is_whitespace (rev (dropWhile is_whitespace (str_chars s)))))"

definition ascii_lower :: "char \<Rightarrow> char" where
  "ascii_lower c = (let n = of_char c :: nat in if 65 \<le> n \<and> n \<le> 90 then char_of (n + 32) else c)"

text \<open>\<open>str::parse::<u8>\<close>: an optional plus sign and at least one digit, value at most 255.\<close>

definition parse_u8 :: "string \<Rightarrow> nat option" where
  "parse_u8 s =
     (let ds = (case s of [] \<Rightarrow> [] | c # cs \<Rightarrow> if c = CHR ''+'' then cs else s)
      in if ds \<noteq> [] \<and> (\<forall>c \<in> set ds. 48 \<le> (of_char c :: nat) \<and> (of_char c :: nat) \<le> 57)
         then (let v = foldl (\<lambda>v c. v * 10 + (of_char c - 48)) 0 ds in if v \<le> 255 then Some v else None)
         else None)"

definition key_named :: "string \<Rightarrow> NamedKey option" where
  "key_named n =
     (if n \<in> {''return'', ''enter''} then Some Return
      else if n = ''tab'' then Some Tab
      else if n = ''space'' then Some Space
      else if n \<in> {''escape'', ''esc''} then Some Escape
      else if n = ''backspace'' then Some Backspace
      else if n \<in> {''delete'', ''forward_delete''} then Some Delete
      else if n = ''left'' then Some LeftKey
      else if n = ''right'' then Some RightKey
      else if n = ''up'' then Some UpKey
      else if n = ''down'' then Some DownKey
      else if n = ''home'' then Some Home
      else if n = ''end'' then Some End
      else if n \<in> {''page_up'', ''pageup''} then Some PageUp
      else if n \<in> {''page_down'', ''pagedown''} then Some PageDown
      else None)"

definition key_parse :: "string \<Rightarrow> InputError + CanonicalKey" where
  "key_parse name =
     (let n = map ascii_lower (str_trim name);
          named = (case key_named n of
                     Some k \<Rightarrow> Inr (Named k)
                   | None \<Rightarrow> (if length (str_chars n) = 1 then Inr (CharKey (hd (str_chars n)))
                              else Inl (UnknownKey name)))
      in if n = [] then Inl (UnknownKey name)
         else (case strip_prefix ''f'' n of
                 None \<Rightarrow> named
               | Some rest \<Rightarrow>
                   (case parse_u8 rest of
                      None \<Rightarrow> named
                    | Some num \<Rightarrow> if 1 \<le> num \<and> num \<le> 12 then Inr (Named (Function num)) else named)))"

definition ascii_keycodes :: "(char \<times> nat) list" where
  "ascii_keycodes =
     [(CHR ''a'', 0x00), (CHR ''s'', 0x01), (CHR ''d'', 0x02), (CHR ''f'', 0x03), (CHR ''h'', 0x04),
      (CHR ''g'', 0x05), (CHR ''z'', 0x06), (CHR ''x'', 0x07), (CHR ''c'', 0x08), (CHR ''v'', 0x09),
      (CHR ''b'', 0x0B), (CHR ''q'', 0x0C), (CHR ''w'', 0x0D), (CHR ''e'', 0x0E), (CHR ''r'', 0x0F),
      (CHR ''y'', 0x10), (CHR ''t'', 0x11), (CHR ''1'', 0x12), (CHR ''2'', 0x13), (CHR ''3'', 0x14),
      (CHR ''4'', 0x15), (CHR ''6'', 0x16), (CHR ''5'', 0x17), (CHR ''='', 0x18), (CHR ''9'', 0x19),
      (CHR ''7'', 0x1A), (CHR ''-'', 0x1B), (CHR ''8'', 0x1C), (CHR ''0'', 0x1D), (CHR '']'', 0x1E),
      (CHR ''o'', 0x1F), (CHR ''u'', 0x20), (CHR ''['', 0x21), (CHR ''i'', 0x22), (CHR ''p'', 0x23),
      (CHR ''l'', 0x25), (CHR ''j'', 0x26), (CHR 0x27, 0x27), (CHR ''k'', 0x28), (CHR '';'', 0x29),
      (CHR 0x5C, 0x2A), (CHR '','', 0x2B), (CHR ''/'', 0x2C), (CHR ''n'', 0x2D), (CHR ''m'', 0x2E),
      (CHR ''.'', 0x2F), (CHR 0x60, 0x32)]"

definition ascii_to_macos_keycode :: "string \<Rightarrow> nat option" where
  "ascii_to_macos_keycode g = (case g of [c] \<Rightarrow> map_of ascii_keycodes c | _ \<Rightarrow> None)"

definition function_keycodes :: "(nat \<times> nat) list" where
  "function_keycodes = [(1, 0x7A), (2, 0x78), (3, 0x63), (4, 0x76), (5, 0x60), (6, 0x61), (7, 0x62),
     (8, 0x64), (9, 0x65), (10, 0x6D), (11, 0x67), (12, 0x6F)]"

fun macos_keycode :: "CanonicalKey \<Rightarrow> nat option" where
  "macos_keycode (Named Return) = Some 0x24"
| "macos_keycode (Named Tab) = Some 0x30"
| "macos_keycode (Named Space) = Some 0x31"
| "macos_keycode (Named Backspace) = Some 0x33"
| "macos_keycode (Named Escape) = Some 0x35"
| "macos_keycode (Named Delete) = Some 0x75"
| "macos_keycode (Named Home) = Some 0x73"
| "macos_keycode (Named End) = Some 0x77"
| "macos_keycode (Named PageUp) = Some 0x74"
| "macos_keycode (Named PageDown) = Some 0x79"
| "macos_keycode (Named LeftKey) = Some 0x7B"
| "macos_keycode (Named RightKey) = Some 0x7C"
| "macos_keycode (Named DownKey) = Some 0x7D"
| "macos_keycode (Named UpKey) = Some 0x7E"
| "macos_keycode (Named (Function n)) = map_of function_keycodes n"
| "macos_keycode (CharKey c) = ascii_to_macos_keycode c"

lemma map_of_inj:
  assumes "distinct (map snd xs)" "map_of xs a = Some v" "map_of xs b = Some v"
  shows "a = b"
proof -
  have "(a, v) \<in> set xs" "(b, v) \<in> set xs" using assms(2,3) by (auto dest: map_of_SomeD)
  moreover have "inj_on snd (set xs)" using assms(1) by (simp add: distinct_map)
  ultimately show ?thesis using inj_onD [of snd "set xs" "(a, v)" "(b, v)"] by simp
qed

lemma char_codes_range: "\<forall>v \<in> set (map snd ascii_keycodes). v < 0x33 \<and> v \<notin> {0x24, 0x30, 0x31}"
  by (simp add: ascii_keycodes_def)

lemma function_codes_range: "\<forall>v \<in> set (map snd function_keycodes). v \<in> {0x60..0x7A} \<and> v \<notin> {0x73, 0x74, 0x75, 0x77, 0x79}"
  by (simp add: function_keycodes_def)

lemma char_code: "ascii_to_macos_keycode g = Some v \<Longrightarrow> v < 0x33 \<and> v \<notin> {0x24, 0x30, 0x31}"
  using char_codes_range
  by (fastforce simp: ascii_to_macos_keycode_def split: list.splits dest!: map_of_SomeD)

lemma function_code: "map_of function_keycodes n = Some v \<Longrightarrow> v \<in> {0x60..0x7A} \<and> v \<notin> {0x73, 0x74, 0x75, 0x77, 0x79}"
  using function_codes_range by (fastforce dest!: map_of_SomeD)

lemma function_code_inj: "map_of function_keycodes a = Some v \<Longrightarrow> map_of function_keycodes b = Some v \<Longrightarrow> a = b"
  by (rule map_of_inj [of function_keycodes]) (simp_all add: function_keycodes_def)

lemma char_code_inj: "ascii_to_macos_keycode g = Some v \<Longrightarrow> ascii_to_macos_keycode h = Some v \<Longrightarrow> g = h"
proof -
  have d: "distinct (map snd ascii_keycodes)" by (simp add: ascii_keycodes_def)
  assume "ascii_to_macos_keycode g = Some v" "ascii_to_macos_keycode h = Some v"
  then show "g = h"
    by (auto simp: ascii_to_macos_keycode_def split: list.splits dest: map_of_inj [OF d])
qed

lemma char_function_disjoint:
  "ascii_to_macos_keycode g = Some v \<Longrightarrow> map_of function_keycodes n = Some v \<Longrightarrow> False"
  using char_code [of g v] function_code [of n v] by simp

lemma macos_keycode_inj: "macos_keycode a = Some v \<Longrightarrow> macos_keycode b = Some v \<Longrightarrow> a = b"
  by (cases a rule: macos_keycode.cases; cases b rule: macos_keycode.cases)
    (auto dest: function_code_inj char_code_inj function_code char_code char_function_disjoint)

end
