(* ===== verification/Runtime_Base.thy ===== *)
theory Runtime_Base
  imports Perception Input "HOL-Library.AList"
begin

text \<open>
  The pure parts of crate \<open>vcli-runtime\<close>: error codes (\<open>error.rs\<close>), the in-memory program
  (\<open>program.rs\<close>), watch decisions (\<open>watches.rs\<close>), arbitration (\<open>arbiter.rs\<close>), runtime
  expressions (\<open>expr.rs\<close>), triggers (\<open>triggers.rs\<close>) and the body executor (\<open>body.rs\<close>).
  Operations that evaluate predicates or call the input sink thread both states and return
  \<open>None\<close> when the evaluation does not return.
\<close>

section \<open>Errors\<close>

datatype RtErrorCode =
    RtCaptureFailed | RtInputFailed | RtPerceptionFailed | RtWaitForTimeout | RtAssertFailed
  | RtProgramTimeout | RtNoveltyTimeout | RtExpressionUnresolved | RtDaemonRestart | RtInternal

fun rt_code_as_str :: "RtErrorCode \<Rightarrow> string" where
  "rt_code_as_str RtCaptureFailed = ''capture_failed''"
| "rt_code_as_str RtInputFailed = ''input_failed''"
| "rt_code_as_str RtPerceptionFailed = ''perception_failed''"
| "rt_code_as_str RtWaitForTimeout = ''wait_for_timeout''"
| "rt_code_as_str RtAssertFailed = ''assert_failed''"
| "rt_code_as_str RtProgramTimeout = ''program_timeout''"
| "rt_code_as_str RtNoveltyTimeout = ''novelty_timeout''"
| "rt_code_as_str RtExpressionUnresolved = ''expression_unresolved''"
| "rt_code_as_str RtDaemonRestart = ''daemon_restart''"
| "rt_code_as_str RtInternal = ''internal''"

datatype RuntimeError =
    ErrCapture string
  | ErrInput string
  | ErrPerception string
  | ErrWaitForTimeout string u32
  | ErrAssertFailed string
  | ErrProgramTimeout u32
  | ErrNoveltyTimeout u32
  | ErrExpressionUnresolved string
  | ErrInternal string

fun rt_code :: "RuntimeError \<Rightarrow> RtErrorCode" where
  "rt_code (ErrCapture _) = RtCaptureFailed"
| "rt_code (ErrInput _) = RtInputFailed"
| "rt_code (ErrPerception _) = RtPerceptionFailed"
| "rt_code (ErrWaitForTimeout _ _) = RtWaitForTimeout"
| "rt_code (ErrAssertFailed _) = RtAssertFailed"
| "rt_code (ErrProgramTimeout _) = RtProgramTimeout"
| "rt_code (ErrNoveltyTimeout _) = RtNoveltyTimeout"
| "rt_code (ErrExpressionUnresolved _) = RtExpressionUnresolved"
| "rt_code (ErrInternal _) = RtInternal"

fun perception_display :: "PerceptionError \<Rightarrow> string" where
  "perception_display (UnknownPredicate n) = ''unknown predicate reference: '' @ n"
| "perception_display (Cycle n) = ''cycle detected at predicate: '' @ n"
| "perception_display (AssetDecode m) = ''asset decode: '' @ m"
| "perception_display RegionOutOfBounds = ''region outside frame bounds''"
| "perception_display (AssetNotMaterialized r) = ''asset bytes not materialized for reference: '' @ r"

fun input_display :: "InputError \<Rightarrow> string" where
  "input_display Halted = ''input halted: kill switch is engaged''"
| "input_display (InputPermissionDenied d) = ''input permission denied: '' @ d"
| "input_display (Backend d) = ''backend failure: '' @ d"
| "input_display (UnknownKey k) = ''unknown key: '' @ k"
| "input_display (InvalidArgument a) = ''invalid input argument: '' @ a"
| "input_display Unimplemented = ''not implemented on this platform''"

section \<open>Programs in memory\<close>

record WatchRuntime =
  last_fired_ms :: "UnixMs option"
  last_truthy :: bool
  retired :: bool

definition watch_default :: WatchRuntime where
  "watch_default = \<lparr>last_fired_ms = None, last_truthy = False, retired = False\<rparr>"

datatype BodyDefer =
    Sleep UnixMs
  | WaitForDefer string UnixMs OnTimeout

record RunningProgram =
  rp_program :: Program
  rp_assets :: "bytes btree"
  rp_state :: ProgramState
  running_since_ms :: "UnixMs option"
  body_cursor :: "u32 option"
  watch_state :: "(u32 \<times> WatchRuntime) list"
  resumed_from :: "u32 option"
  deferred :: "BodyDefer option"

definition pending_with_assets :: "Program \<Rightarrow> bytes btree \<Rightarrow> RunningProgram" where
  "pending_with_assets p assets =
     \<lparr>rp_program = p, rp_assets = assets, rp_state = Pending, running_since_ms = None,
      body_cursor = None, watch_state = [], resumed_from = None, deferred = None\<rparr>"

definition body_complete :: "RunningProgram \<Rightarrow> bool" where
  "body_complete rp =
     (case body_cursor rp of
        Some n \<Rightarrow> n \<ge> length (body (rp_program rp))
      | None \<Rightarrow> body (rp_program rp) = [])"

definition active_watch_count :: "RunningProgram \<Rightarrow> nat" where
  "active_watch_count rp = length (filter (\<lambda>(_, w). \<not> retired w) (watch_state rp))"

text \<open>\<open>watch_state.entry(idx).or_default()\<close> followed by an update in place.\<close>

definition watch_entry :: "u32 \<Rightarrow> (WatchRuntime \<Rightarrow> WatchRuntime) \<Rightarrow> RunningProgram \<Rightarrow> RunningProgram" where
  "watch_entry idx f rp =
     rp\<lparr>watch_state := AList.update idx
          (f (case map_of (watch_state rp) idx of Some w \<Rightarrow> w | None \<Rightarrow> watch_default)) (watch_state rp)\<rparr>"

section \<open>Watch decisions\<close>

datatype WatchDecision = Skip | Fire | Retire

definition decide :: "Watch \<Rightarrow> WatchRuntime \<Rightarrow> bool \<Rightarrow> UnixMs \<Rightarrow> UnixMs \<Rightarrow> WatchDecision" where
  "decide watch st truthy_now now_ms running_since =
     (if retired st then Skip
      else if (case lifetime watch of
                 TimeoutMs ms \<Rightarrow> i64_sat_sub now_ms running_since \<ge> int ms | _ \<Rightarrow> False) then Retire
      else if last_truthy st \<or> \<not> truthy_now then Skip
      else (case last_fired_ms st of
              Some fired \<Rightarrow> (if i64_sat_sub now_ms fired < int (throttle_ms watch) then Skip else Fire)
            | None \<Rightarrow> Fire))"

definition is_one_shot :: "Watch \<Rightarrow> bool" where
  "is_one_shot w \<longleftrightarrow> lifetime w = OneShot"

definition after_fire :: "Watch \<Rightarrow> UnixMs \<Rightarrow> WatchRuntime \<Rightarrow> WatchRuntime" where
  "after_fire watch now_ms st =
     (let st' = st\<lparr>last_fired_ms := Some now_ms\<rparr>
      in if is_one_shot watch then st'\<lparr>retired := True\<rparr> else st')"

section \<open>Arbitration\<close>

record 'p Candidate =
  cand_program :: ProgramId
  cand_priority :: Priority
  cand_payload :: 'p

record 'p Decision =
  dec_program :: ProgramId
  dec_payload :: 'p
  dec_dispatch :: bool
  loser_of :: "ProgramId option"

text \<open>\<open>Iterator::max_by\<close> keeps the last of equal maxima.\<close>

definition cand_le :: "'p Candidate \<Rightarrow> 'p Candidate \<Rightarrow> bool" where
  "cand_le a b \<longleftrightarrow> cand_priority a < cand_priority b \<or>
     (cand_priority a = cand_priority b \<and> cand_program a \<le> cand_program b)"

fun max_by :: "('a \<Rightarrow> 'a \<Rightarrow> bool) \<Rightarrow> 'a \<Rightarrow> 'a list \<Rightarrow> 'a" where
  "max_by le m [] = m"
| "max_by le m (x # xs) = max_by le (if le m x then x else m) xs"

definition resolve :: "'p Candidate list \<Rightarrow> 'p Decision list" where
  "resolve cs =
     (case cs of
        [] \<Rightarrow> []
      | [c] \<Rightarrow> [\<lparr>dec_program = cand_program c, dec_payload = cand_payload c, dec_dispatch = True, loser_of = None\<rparr>]
      | c # d # rest \<Rightarrow>
          (let winner = cand_program (max_by cand_le c (d # rest))
           in map (\<lambda>c. let is_winner = (cand_program c = winner)
                       in \<lparr>dec_program = cand_program c, dec_payload = cand_payload c, dec_dispatch = is_winner,
                           loser_of = (if is_winner then None else Some winner)\<rparr>) (c # d # rest)))"

section \<open>Runtime expressions\<close>

datatype RtAccessor = RtMatchCenter | RtMatchBbox

definition expr_parse :: "string \<Rightarrow> RuntimeError + (string \<times> RtAccessor)" where
  "expr_parse s =
     (case strip_prefix ''$'' s of
        None \<Rightarrow> Inl (ErrExpressionUnresolved (''expected '' @ [CHR 0x27] @ ''$'' @ [CHR 0x27] @ '' prefix: '' @ s))
      | Some rest \<Rightarrow>
         (case split_once (CHR ''.'') rest of
            None \<Rightarrow> Inl (ErrExpressionUnresolved
                      (''expected '' @ [CHR 0x27] @ ''.<accessor>'' @ [CHR 0x27] @ '': '' @ s))
          | Some (pred, tail) \<Rightarrow>
             (if pred = [] then Inl (ErrExpressionUnresolved (''empty predicate name: '' @ s))
              else if tail = ''match.center'' then Inr (pred, RtMatchCenter)
              else if tail = ''match.bbox'' then Inr (pred, RtMatchBbox)
              else Inl (ErrExpressionUnresolved (''unknown accessor '' @ [CHR 0x27] @ tail @ [CHR 0x27])))))"

definition resolve_bbox :: "PredicateResult \<Rightarrow> RuntimeError + Rect" where
  "resolve_bbox r = (case match_data r of
     None \<Rightarrow> Inl (ErrExpressionUnresolved ''predicate has no match_data'') | Some md \<Rightarrow> Inr (bbox md))"

definition resolve_center :: "PredicateResult \<Rightarrow> RuntimeError + Point" where
  "resolve_center r =
     (case match_data r of
        None \<Rightarrow> Inl (ErrExpressionUnresolved ''predicate has no match_data'')
      | Some md \<Rightarrow>
         (let w1 = nat (max (rect_w (bbox md)) 1 - 1); h1 = nat (max (rect_h (bbox md)) 1 - 1)
          in Inr \<lparr>pt_x = i32_add (rect_x (bbox md)) (int (w1 div 2)),
                  pt_y = i32_add (rect_y (bbox md)) (int (h1 div 2))\<rparr>))"

section \<open>Triggers\<close>

definition rt_evaluate ::
  "PerceptionExt \<Rightarrow> nat \<Rightarrow> string \<Rightarrow> EvalCtx \<Rightarrow> Perception \<Rightarrow> ((RuntimeError + PredicateResult) \<times> Perception) option" where
  "rt_evaluate X fuel name c s =
     map_option (\<lambda>(r, s'). (map_sum (ErrPerception \<circ> perception_display) id r, s')) (evaluate_named X fuel name c s)"

definition trigger_fires ::
  "PerceptionExt \<Rightarrow> nat \<Rightarrow> Trigger \<Rightarrow> EvalCtx \<Rightarrow> Perception \<Rightarrow> ((RuntimeError + bool) \<times> Perception) option" where
  "trigger_fires X fuel trig c s =
     (case trig of
        OnSubmit \<Rightarrow> Some (Inr True, s)
      | Manual \<Rightarrow> Some (Inr False, s)
      | OnPredicate name \<Rightarrow>
          map_option (\<lambda>(r, s'). (map_sum id truthy r, s')) (rt_evaluate X fuel name c s))"

section \<open>Body steps\<close>

datatype StepOutcome = Advanced | Stalled | BodyComplete | StepFailed RuntimeError

definition resolve_target ::
  "PerceptionExt \<Rightarrow> nat \<Rightarrow> EvalCtx \<Rightarrow> Target \<Rightarrow> Perception \<Rightarrow> ((RuntimeError + Point) \<times> Perception) option" where
  "resolve_target X fuel c target s =
     (case target of
        AbsoluteTarget p \<Rightarrow> Some (Inr p, s)
      | Expression e \<Rightarrow>
         (case expr_parse e of
            Inl err \<Rightarrow> Some (Inl err, s)
          | Inr (pred, acc) \<Rightarrow>
             (case rt_evaluate X fuel pred c s of
                None \<Rightarrow> None
              | Some (Inl err, s') \<Rightarrow> Some (Inl err, s')
              | Some (Inr r, s') \<Rightarrow>
                  (case acc of
                     RtMatchCenter \<Rightarrow> Some (resolve_center r, s')
                   | RtMatchBbox \<Rightarrow>
                       Some (map_sum id (\<lambda>bx. \<lparr>pt_x = rect_x bx, pt_y = rect_y bx\<rparr>) (resolve_bbox r), s')))))"

text \<open>A sink call with its error mapped to \<open>RuntimeError::Input\<close>.\<close>

definition rt_call :: "'i sink \<Rightarrow> SinkCall \<Rightarrow> 'i \<Rightarrow> (RuntimeError + unit) \<times> 'i" where
  "rt_call snk call i = map_prod (map_sum (ErrInput \<circ> input_display) id) id (snk i call)"

definition act_at ::
  "PerceptionExt \<Rightarrow> nat \<Rightarrow> 'i sink \<Rightarrow> EvalCtx \<Rightarrow> Target \<Rightarrow> (Point \<Rightarrow> SinkCall) \<Rightarrow> Perception \<times> 'i
     \<Rightarrow> ((RuntimeError + unit) \<times> Perception \<times> 'i) option" where
  "act_at X fuel snk c target f w =
     (case w of (s, i) \<Rightarrow>
       (case resolve_target X fuel c target s of
          None \<Rightarrow> None
        | Some (Inl e, s') \<Rightarrow> Some (Inl e, s', i)
        | Some (Inr p, s') \<Rightarrow> (case rt_call snk (f p) i of (r, i') \<Rightarrow> Some (r, s', i'))))"

definition dispatch_action ::
  "PerceptionExt \<Rightarrow> nat \<Rightarrow> 'i sink \<Rightarrow> EvalCtx \<Rightarrow> Step \<Rightarrow> Perception \<times> 'i
     \<Rightarrow> ((RuntimeError + unit) \<times> Perception \<times> 'i) option" where
  "dispatch_action X fuel snk c step w =
     (case step of
        Move t \<Rightarrow> act_at X fuel snk c t MouseMove w
      | Click t b \<Rightarrow> act_at X fuel snk c t (\<lambda>p. ClickCall p b [] 0) w
      | Scroll t dx dy \<Rightarrow> act_at X fuel snk c t MouseMove w
      | TypeText txt \<Rightarrow> (case rt_call snk (TypeCall txt) (snd w) of (r, i') \<Rightarrow> Some (r, fst w, i'))
      | Key k ms \<Rightarrow> (case rt_call snk (KeyCombo ms k) (snd w) of (r, i') \<Rightarrow> Some (r, fst w, i'))
      | SleepMs _ \<Rightarrow> Some (Inl (ErrInternal ''body-only step used in watch''), w)
      | WaitFor _ _ _ \<Rightarrow> Some (Inl (ErrInternal ''body-only step used in watch''), w)
      | Assert _ _ \<Rightarrow> Some (Inl (ErrInternal ''body-only step used in watch''), w))"

definition outcome_of :: "RuntimeError + unit \<Rightarrow> StepOutcome" where
  "outcome_of r = (case r of Inl e \<Rightarrow> StepFailed e | Inr _ \<Rightarrow> Advanced)"

definition dispatch_at ::
  "PerceptionExt \<Rightarrow> nat \<Rightarrow> 'i sink \<Rightarrow> EvalCtx \<Rightarrow> Target \<Rightarrow> (Point \<Rightarrow> SinkCall) \<Rightarrow> Perception \<times> 'i
     \<Rightarrow> (StepOutcome \<times> BodyDefer option \<times> Perception \<times> 'i) option" where
  "dispatch_at X fuel snk c target f w =
     map_option (\<lambda>(r, w'). (outcome_of r, None, w')) (act_at X fuel snk c target f w)"

text \<open>One body step: outcome, the deferral that remains, and the two states.\<close>

definition step_deferred ::
  "PerceptionExt \<Rightarrow> nat \<Rightarrow> EvalCtx \<Rightarrow> BodyDefer \<Rightarrow> Perception \<Rightarrow> (StepOutcome \<times> BodyDefer option \<times> Perception) option" where
  "step_deferred X fuel c def s =
     (case def of
        Sleep wake_at_ms \<Rightarrow>
          (if ctx_now_ms c \<ge> wake_at_ms then Some (Advanced, None, s) else Some (Stalled, Some def, s))
      | WaitForDefer predicate deadline_ms on_timeout \<Rightarrow>
          (case rt_evaluate X fuel predicate c s of
             None \<Rightarrow> None
           | Some (Inl e, s') \<Rightarrow> Some (StepFailed e, Some def, s')
           | Some (Inr r, s') \<Rightarrow>
               (if truthy r then Some (Advanced, None, s')
                else if ctx_now_ms c \<ge> deadline_ms
                then Some (case on_timeout of
                             Timeout_Fail \<Rightarrow> StepFailed (ErrWaitForTimeout predicate 0)
                           | _ \<Rightarrow> Advanced, None, s')
                else Some (Stalled, Some def, s'))))"

definition step_once ::
  "PerceptionExt \<Rightarrow> nat \<Rightarrow> 'i sink \<Rightarrow> EvalCtx \<Rightarrow> Step list \<Rightarrow> u32 \<Rightarrow> BodyDefer option \<Rightarrow> Perception \<times> 'i
     \<Rightarrow> (StepOutcome \<times> BodyDefer option \<times> Perception \<times> 'i) option" where
  "step_once X fuel snk c bdy cursor def w =
     (case def of
        Some d \<Rightarrow> map_option (\<lambda>(out, d', s'). (out, d', s', snd w)) (step_deferred X fuel c d (fst w))
      | None \<Rightarrow>
         (if cursor < length bdy
          then (case bdy ! cursor of
                  SleepMs ms \<Rightarrow> Some (Stalled, Some (Sleep (i64_sat_add (ctx_now_ms c) (int ms))), w)
                | WaitFor p timeout ot \<Rightarrow>
                    Some (Stalled, Some (WaitForDefer p (i64_sat_add (ctx_now_ms c) (int timeout)) ot), w)
                | Assert p mode \<Rightarrow>
                    (case rt_evaluate X fuel p c (fst w) of
                       None \<Rightarrow> None
                     | Some (Inl e, s') \<Rightarrow> Some (StepFailed e, None, s', snd w)
                     | Some (Inr r, s') \<Rightarrow>
                         Some (if truthy r then Advanced
                               else (case mode of Assert_Continue \<Rightarrow> Advanced
                                               | Assert_Fail \<Rightarrow> StepFailed (ErrAssertFailed p)),
                               None, s', snd w))
                | Move t \<Rightarrow> dispatch_at X fuel snk c t MouseMove w
                | Click t b \<Rightarrow> dispatch_at X fuel snk c t (\<lambda>p. ClickCall p b [] 0) w
                | Scroll t dx dy \<Rightarrow> dispatch_at X fuel snk c t MouseMove w
                | TypeText txt \<Rightarrow>
                    (case rt_call snk (TypeCall txt) (snd w) of (r, i') \<Rightarrow> Some (outcome_of r, None, fst w, i'))
                | Key k ms \<Rightarrow>
                    (case rt_call snk (KeyCombo ms k) (snd w) of (r, i') \<Rightarrow> Some (outcome_of r, None, fst w, i')))
          else Some (BodyComplete, None, w)))"

end
