(* ===== verification/Scheduler.thy ===== *)
theory Scheduler
  imports Runtime_Base
begin

text \<open>
  The scheduler of crate \<open>vcli-runtime\<close> (\<open>scheduler.rs\<close>, \<open>command.rs\<close>, \<open>event.rs\<close>): draining
  commands and one tick, phase by phase in the order of the source.

  The environment \<open>Env\<close> holds what the scheduler thread is given: the image crates, the
  stack bound of the evaluator, the input sink and the clock, an arbitrary stream of
  readings of which each read consumes one.  The result of \<open>grab_screen\<close> and the iteration
  order of the program \<open>HashMap\<close> are arguments of a tick; the order is the same in both
  iterations of a tick because the map's key set does not change in between.  Events are
  appended in the order in which they are sent.  \<open>None\<close> is a tick that does not return
  (a panic or a stack overflow).
\<close>

record SchedulerConfig =
  tick_interval_ms :: u32
  tick_budget_ms :: u32
  max_inflight :: nat

definition config_default :: SchedulerConfig where
  "config_default = \<lparr>tick_interval_ms = 100, tick_budget_ms = 90, max_inflight = 256\<rparr>"

datatype SchedulerCommand =
    SubmitValidated ProgramId Program "bytes btree"
  | CancelCmd ProgramId string
  | StartCmd ProgramId
  | ResumeRunning ProgramId u32 Program "bytes btree"
  | ShutdownCmd

record 'i Env =
  env_ext :: PerceptionExt
  env_stack :: nat
  env_sink :: "'i sink"
  env_clock :: "nat \<Rightarrow> UnixMs"

record 'i Sched =
  sch_input :: 'i
  sch_perception :: Perception
  sch_programs :: "ProgramId \<rightharpoonup> RunningProgram"
  sch_events :: "Event list"
  sch_clock_reads :: nat

definition sched_new :: "'i \<Rightarrow> Perception \<Rightarrow> 'i Sched" where
  "sched_new input perception =
     \<lparr>sch_input = input, sch_perception = perception, sch_programs = Map.empty, sch_events = [],
      sch_clock_reads = 0\<rparr>"

definition clock_now :: "'i Env \<Rightarrow> 'i Sched \<Rightarrow> UnixMs \<times> 'i Sched" where
  "clock_now E s = (env_clock E (sch_clock_reads s), s\<lparr>sch_clock_reads := sch_clock_reads s + 1\<rparr>)"

definition emit :: "'i Env \<Rightarrow> EventData \<Rightarrow> 'i Sched \<Rightarrow> 'i Sched" where
  "emit E d s =
     (case clock_now E s of (t, s') \<Rightarrow> s'\<lparr>sch_events := sch_events s' @ [\<lparr>ev_at = t, ev_data = d\<rparr>]\<rparr>)"

definition put_program :: "ProgramId \<Rightarrow> RunningProgram \<Rightarrow> 'i Sched \<Rightarrow> 'i Sched" where
  "put_program pid rp s = s\<lparr>sch_programs := (sch_programs s)(pid \<mapsto> rp)\<rparr>"

section \<open>Commands\<close>

definition exec_command :: "'i Env \<Rightarrow> SchedulerCommand \<Rightarrow> 'i Sched \<Rightarrow> 'i Sched" where
  "exec_command E cmd s =
     (case cmd of
        ShutdownCmd \<Rightarrow> s
      | SubmitValidated pid p assets \<Rightarrow>
          (let rp = (pending_with_assets p assets)\<lparr>rp_state := Waiting\<rparr>;
               s1 = emit E (ProgramSubmitted pid (prog_name p)) s;
               s2 = emit E (ProgramStateChanged pid Pending Waiting ''submitted'') s1
           in put_program pid rp s2)
      | CancelCmd pid reason \<Rightarrow>
          (case sch_programs s pid of
             None \<Rightarrow> s
           | Some rp \<Rightarrow>
               emit E (ProgramStateChanged pid (rp_state rp) Cancelled reason)
                 (put_program pid (rp\<lparr>rp_state := Cancelled\<rparr>) s))
      | StartCmd pid \<Rightarrow>
          (case sch_programs s pid of
             None \<Rightarrow> s
           | Some rp \<Rightarrow>
               (case clock_now E s of (t, s1) \<Rightarrow>
                  emit E (ProgramStateChanged pid (rp_state rp) Running ''start'')
                    (put_program pid (rp\<lparr>rp_state := Running, running_since_ms := Some t\<rparr>) s1)))
      | ResumeRunning pid from_step p assets \<Rightarrow>
          (case clock_now E s of (t, s1) \<Rightarrow>
             (let rp = (pending_with_assets p assets)
                         \<lparr>rp_state := Running, running_since_ms := Some t,
                          body_cursor := Some from_step, resumed_from := Some from_step\<rparr>;
                  s2 = emit E (ProgramStateChanged pid Failed Running ''resume'') s1;
                  s3 = emit E (ProgramResumed pid from_step) s2
              in put_program pid rp s3)))"

text \<open>Returns whether a shutdown was seen, and the commands left in the channel.\<close>

fun drain_commands :: "'i Env \<Rightarrow> SchedulerCommand list \<Rightarrow> 'i Sched \<Rightarrow> bool \<times> SchedulerCommand list \<times> 'i Sched" where
  "drain_commands E [] s = (False, [], s)"
| "drain_commands E (ShutdownCmd # cs) s = (True, cs, s)"
| "drain_commands E (c # cs) s = drain_commands E cs (exec_command E c s)"

section \<open>Tick: triggers\<close>

text \<open>Loops over program ids; an aborted iteration ends the tick.\<close>

fun each_id :: "(ProgramId \<Rightarrow> 's \<Rightarrow> 's option) \<Rightarrow> ProgramId list \<Rightarrow> 's \<Rightarrow> 's option" where
  "each_id f [] s = Some s"
| "each_id f (i # is) s = (case f i s of None \<Rightarrow> None | Some s' \<Rightarrow> each_id f is s')"

definition eval_ctx :: "Frame \<Rightarrow> UnixMs \<Rightarrow> RunningProgram \<Rightarrow> ProgramId \<Rightarrow> EvalCtx" where
  "eval_ctx frame now rp pid =
     \<lparr>ctx_frame = frame, ctx_now_ms = now, ctx_predicates = predicates (rp_program rp),
      ctx_assets = rp_assets rp, ctx_program = Some pid\<rparr>"

definition start_running :: "UnixMs \<Rightarrow> RunningProgram \<Rightarrow> RunningProgram" where
  "start_running now rp =
     rp\<lparr>rp_state := Running, running_since_ms := Some now, body_cursor := Some 0,
        watch_state := fold (\<lambda>i. AList.update (u32_of_usize i) watch_default)
                         [0..<length (watches (rp_program rp))] (watch_state rp)\<rparr>"

definition trigger_one :: "'i Env \<Rightarrow> Frame \<Rightarrow> UnixMs \<Rightarrow> ProgramId \<Rightarrow> 'i Sched \<Rightarrow> 'i Sched option" where
  "trigger_one E frame now pid s =
     (case sch_programs s pid of
        None \<Rightarrow> None
      | Some rp \<Rightarrow>
         (case trigger_fires (env_ext E) (env_stack E) (trigger (rp_program rp)) (eval_ctx frame now rp pid)
                 (sch_perception s) of
            None \<Rightarrow> None
          | Some (fire, per) \<Rightarrow>
             (let s1 = s\<lparr>sch_perception := per\<rparr>
              in case fire of
                   Inr True \<Rightarrow>
                     Some (emit E (ProgramStateChanged pid Waiting Running ''trigger_fired'')
                             (put_program pid (start_running now rp) s1))
                 | Inr False \<Rightarrow> Some s1
                 | Inl e \<Rightarrow>
                     Some (emit E (ProgramFailed pid (rt_code_as_str (rt_code e)) None None)
                             (put_program pid (rp\<lparr>rp_state := Failed\<rparr>) s1)))))"

definition ids_in_state :: "ProgramState \<Rightarrow> ProgramId list \<Rightarrow> 'i Sched \<Rightarrow> ProgramId list" where
  "ids_in_state st it s =
     filter (\<lambda>pid. case sch_programs s pid of None \<Rightarrow> False | Some rp \<Rightarrow> rp_state rp = st) it"

definition trigger_phase :: "'i Env \<Rightarrow> Frame \<Rightarrow> UnixMs \<Rightarrow> ProgramId list \<Rightarrow> 'i Sched \<Rightarrow> 'i Sched option" where
  "trigger_phase E frame now it s = each_id (trigger_one E frame now) (ids_in_state Waiting it s) s"

section \<open>Tick: watches\<close>

type_synonym WatchFirePayload = "u32 \<times> Step list \<times> bool"

record WatchAcc =
  wa_truthies :: "(u32 \<times> bool) list"
  wa_fires :: "WatchFirePayload list"
  wa_retires :: "u32 list"

definition inline_key :: "nat \<Rightarrow> string" where
  "inline_key idx = ''__inline_'' @ nat_str idx"

text \<open>Whether the terminator of an \<open>until_predicate\<close> lifetime tripped; errors are only logged.\<close>

definition until_tripped :: "'i Env \<Rightarrow> EvalCtx \<Rightarrow> Lifetime \<Rightarrow> Perception \<Rightarrow> (bool \<times> Perception) option" where
  "until_tripped E c l per =
     (case l of
        UntilPredicate name \<Rightarrow>
          map_option (\<lambda>(r, per'). (case r of Inr res \<Rightarrow> truthy res | Inl _ \<Rightarrow> False, per'))
            (evaluate_named (env_ext E) (env_stack E) name c per)
      | _ \<Rightarrow> Some (False, per))"

text \<open>Truth of the watch condition, or \<open>None\<close> inside when the evaluation failed.\<close>

definition when_truth :: "'i Env \<Rightarrow> EvalCtx \<Rightarrow> nat \<Rightarrow> WatchWhen \<Rightarrow> Perception \<Rightarrow> (bool option \<times> Perception) option" where
  "when_truth E c idx w per =
     (let result = (\<lambda>(r, per'). (case r of Inr res \<Rightarrow> Some (truthy res) | Inl _ \<Rightarrow> None, per'))
      in case w of
           ByName n \<Rightarrow> map_option result (evaluate_named (env_ext E) (env_stack E) n c per)
         | Inline p \<Rightarrow>
             map_option result
               (evaluate_named (env_ext E) (env_stack E) (inline_key idx)
                  (c\<lparr>ctx_predicates := btree_insert (inline_key idx) p (ctx_predicates c)\<rparr>) per))"

definition eval_watch ::
  "'i Env \<Rightarrow> EvalCtx \<Rightarrow> RunningProgram \<Rightarrow> nat \<Rightarrow> Watch \<Rightarrow> WatchAcc \<times> Perception \<Rightarrow> (WatchAcc \<times> Perception) option" where
  "eval_watch E c rp idx w ap =
     (case ap of (acc, per) \<Rightarrow>
       (let i = u32_of_usize idx;
            st = (case map_of (watch_state rp) i of Some st \<Rightarrow> st | None \<Rightarrow> watch_default);
            now = ctx_now_ms c;
            since = (case running_since_ms rp of Some t \<Rightarrow> t | None \<Rightarrow> now)
        in if retired st then Some (acc, per)
           else (case until_tripped E c (lifetime w) per of
              None \<Rightarrow> None
            | Some (True, per1) \<Rightarrow> Some (acc\<lparr>wa_retires := wa_retires acc @ [i]\<rparr>, per1)
            | Some (False, per1) \<Rightarrow>
               (case when_truth E c idx (when_cond w) per1 of
                  None \<Rightarrow> None
                | Some (None, per2) \<Rightarrow> Some (acc, per2)
                | Some (Some t, per2) \<Rightarrow>
                   (let acc1 = acc\<lparr>wa_truthies := wa_truthies acc @ [(i, t)]\<rparr>
                    in Some (case decide w st t now since of
                               Fire \<Rightarrow> acc1\<lparr>wa_fires := wa_fires acc1 @ [(i, watch_steps w, is_one_shot w)]\<rparr>
                             | Skip \<Rightarrow> acc1
                             | Retire \<Rightarrow> acc1\<lparr>wa_retires := wa_retires acc1 @ [i]\<rparr>, per2))))))"

fun eval_watches ::
  "'i Env \<Rightarrow> EvalCtx \<Rightarrow> RunningProgram \<Rightarrow> nat \<Rightarrow> Watch list \<Rightarrow> WatchAcc \<times> Perception \<Rightarrow> (WatchAcc \<times> Perception) option" where
  "eval_watches E c rp idx [] ap = Some ap"
| "eval_watches E c rp idx (w # ws) ap =
     (case eval_watch E c rp idx w ap of None \<Rightarrow> None | Some ap' \<Rightarrow> eval_watches E c rp (Suc idx) ws ap')"

record 'i TickAcc =
  ta_sched :: "'i Sched"
  ta_evals :: "(ProgramId \<times> (u32 \<times> bool) list \<times> u32 list) list"
  ta_candidates :: "WatchFirePayload Candidate list"
  ta_direct :: "(ProgramId \<times> u32) list"

definition watch_one :: "'i Env \<Rightarrow> Frame \<Rightarrow> UnixMs \<Rightarrow> ProgramId \<Rightarrow> 'i TickAcc \<Rightarrow> 'i TickAcc option" where
  "watch_one E frame now pid a =
     (case sch_programs (ta_sched a) pid of
        None \<Rightarrow> None
      | Some rp \<Rightarrow>
         (case eval_watches E (eval_ctx frame now rp pid) rp 0 (watches (rp_program rp))
                 (\<lparr>wa_truthies = [], wa_fires = [], wa_retires = []\<rparr>, sch_perception (ta_sched a)) of
            None \<Rightarrow> None
          | Some (acc, per) \<Rightarrow>
             (let a1 = a\<lparr>ta_sched := (ta_sched a)\<lparr>sch_perception := per\<rparr>,
                         ta_evals := ta_evals a @ [(pid, wa_truthies acc, wa_retires acc)]\<rparr>
              in Some (case wa_fires acc of
                   [] \<Rightarrow> a1
                 | (idx, steps, one_shot) # _ \<Rightarrow>
                     (if steps = [] then a1\<lparr>ta_direct := ta_direct a1 @ [(pid, idx)]\<rparr>
                      else a1\<lparr>ta_candidates := ta_candidates a1 @
                               [\<lparr>cand_program = pid, cand_priority = priority (rp_program rp),
                                 cand_payload = (idx, steps, one_shot)\<rparr>]\<rparr>)))))"

definition watch_phase :: "'i Env \<Rightarrow> Frame \<Rightarrow> UnixMs \<Rightarrow> ProgramId list \<Rightarrow> 'i Sched \<Rightarrow> 'i TickAcc option" where
  "watch_phase E frame now running s =
     each_id (watch_one E frame now) running
       \<lparr>ta_sched = s, ta_evals = [], ta_candidates = [], ta_direct = []\<rparr>"

section \<open>Tick: dispatch of winning watches\<close>

record 'i DispatchAcc =
  da_sched :: "'i Sched"
  da_fired :: "(ProgramId \<times> u32) list"
  da_failed :: "ProgramId list"

definition direct_fire :: "'i Env \<Rightarrow> ProgramId \<times> u32 \<Rightarrow> 'i DispatchAcc \<Rightarrow> 'i DispatchAcc" where
  "direct_fire E f a =
     a\<lparr>da_sched := emit E (WatchFired (fst f) (snd f) ''watch'') (da_sched a), da_fired := da_fired a @ [f]\<rparr>"

fun run_steps ::
  "'i Env \<Rightarrow> EvalCtx \<Rightarrow> ProgramId \<Rightarrow> Step list \<Rightarrow> 'i Sched \<Rightarrow> (RuntimeError option \<times> 'i Sched) option" where
  "run_steps E c pid [] s = Some (None, s)"
| "run_steps E c pid (st # sts) s =
     (let s1 = emit E (ActionDispatched pid (step_to_value st) None) s
      in case dispatch_action (env_ext E) (env_stack E) (env_sink E) c st (sch_perception s1, sch_input s1) of
           None \<Rightarrow> None
         | Some (r, per, inp) \<Rightarrow>
            (let s2 = s1\<lparr>sch_perception := per, sch_input := inp\<rparr>
             in case r of Inl e \<Rightarrow> Some (Some e, s2) | Inr _ \<Rightarrow> run_steps E c pid sts s2))"

definition dispatch_one ::
  "'i Env \<Rightarrow> Frame \<Rightarrow> UnixMs \<Rightarrow> WatchFirePayload Decision \<Rightarrow> 'i DispatchAcc \<Rightarrow> 'i DispatchAcc option" where
  "dispatch_one E frame now d a =
     (let pid = dec_program d; s = da_sched a
      in case dec_payload d of (idx, steps, one_shot) \<Rightarrow>
        (if dec_dispatch d
         then (case sch_programs s pid of
            None \<Rightarrow> None
          | Some rp \<Rightarrow>
             (case run_steps E (eval_ctx frame now rp pid) pid steps s of
                None \<Rightarrow> None
              | Some (Some e, s1) \<Rightarrow>
                  Some (a\<lparr>da_failed := pid # da_failed a,
                          da_sched := emit E (ProgramFailed pid (rt_code_as_str (rt_code e))
                                          (Some (''watch['' @ nat_str idx @ '']'')) (on_fail (rp_program rp)))
                                        (put_program pid (rp\<lparr>rp_state := Failed\<rparr>) s1)\<rparr>)
              | Some (None, s1) \<Rightarrow>
                  Some (a\<lparr>da_sched := emit E (WatchFired pid idx ''watch'') s1, da_fired := da_fired a @ [(pid, idx)]\<rparr>)))
         else (case loser_of d of
            None \<Rightarrow> Some a
          | Some w \<Rightarrow>
              Some (a\<lparr>da_sched := emit E (ActionDeferred pid (JArray (map step_to_value steps))
                        (json_obj [(''conflict_with'', JString w)])) s\<rparr>))))"

fun dispatch_all ::
  "'i Env \<Rightarrow> Frame \<Rightarrow> UnixMs \<Rightarrow> WatchFirePayload Decision list \<Rightarrow> 'i DispatchAcc \<Rightarrow> 'i DispatchAcc option" where
  "dispatch_all E frame now [] a = Some a"
| "dispatch_all E frame now (d # ds) a =
     (case dispatch_one E frame now d a of None \<Rightarrow> None | Some a' \<Rightarrow> dispatch_all E frame now ds a')"

definition dispatch_phase :: "'i Env \<Rightarrow> Frame \<Rightarrow> UnixMs \<Rightarrow> 'i TickAcc \<Rightarrow> 'i DispatchAcc option" where
  "dispatch_phase E frame now a =
     dispatch_all E frame now (resolve (ta_candidates a))
       (fold (direct_fire E) (ta_direct a) \<lparr>da_sched = ta_sched a, da_fired = [], da_failed = []\<rparr>)"

section \<open>Tick: watch bookkeeping\<close>

definition apply_eval :: "ProgramId \<times> (u32 \<times> bool) list \<times> u32 list \<Rightarrow> 'i Sched \<Rightarrow> 'i Sched option" where
  "apply_eval ev s =
     (case ev of (pid, truthies, retires) \<Rightarrow>
       (case sch_programs s pid of
          None \<Rightarrow> None
        | Some rp \<Rightarrow>
            Some (put_program pid
              (fold (\<lambda>idx. watch_entry idx (\<lambda>w. w\<lparr>retired := True\<rparr>)) retires
                (fold (\<lambda>(idx, t). watch_entry idx (\<lambda>w. w\<lparr>last_truthy := t\<rparr>)) truthies rp)) s)))"

definition apply_fire :: "UnixMs \<Rightarrow> ProgramId \<times> u32 \<Rightarrow> 'i Sched \<Rightarrow> 'i Sched option" where
  "apply_fire now f s =
     (case sch_programs s (fst f) of
        None \<Rightarrow> None
      | Some rp \<Rightarrow>
         (if snd f < length (watches (rp_program rp))
          then Some (put_program (fst f)
                 (watch_entry (snd f) (after_fire (watches (rp_program rp) ! snd f) now) rp) s)
          else None))"

fun each_opt :: "('a \<Rightarrow> 's \<Rightarrow> 's option) \<Rightarrow> 'a list \<Rightarrow> 's \<Rightarrow> 's option" where
  "each_opt f [] s = Some s"
| "each_opt f (x # xs) s = (case f x s of None \<Rightarrow> None | Some s' \<Rightarrow> each_opt f xs s')"

definition bookkeeping_phase ::
  "UnixMs \<Rightarrow> (ProgramId \<times> (u32 \<times> bool) list \<times> u32 list) list \<Rightarrow> (ProgramId \<times> u32) list \<Rightarrow> 'i Sched \<Rightarrow> 'i Sched option" where
  "bookkeeping_phase now evals fired s =
     (case each_opt apply_eval evals s of None \<Rightarrow> None | Some s1 \<Rightarrow> each_opt (apply_fire now) fired s1)"

section \<open>Tick: bodies\<close>

definition complete_program :: "'i Env \<Rightarrow> ProgramId \<Rightarrow> RunningProgram \<Rightarrow> 'i Sched \<Rightarrow> 'i Sched" where
  "complete_program E pid rp s =
     emit E (ProgramCompleted pid (on_complete (rp_program rp)))
       (emit E (ProgramStateChanged pid Running Completed ''body_complete'')
          (put_program pid (rp\<lparr>rp_state := Completed\<rparr>) s))"

definition body_one ::
  "'i Env \<Rightarrow> Frame \<Rightarrow> UnixMs \<Rightarrow> ProgramId list \<Rightarrow> ProgramId \<Rightarrow> 'i Sched \<Rightarrow> 'i Sched option" where
  "body_one E frame now dispatch_failed pid s =
     (if pid \<in> set dispatch_failed then Some s
      else (case sch_programs s pid of
        None \<Rightarrow> None
      | Some rp \<Rightarrow>
         (if rp_state rp \<noteq> Running then Some s
          else (let cursor = (case body_cursor rp of Some n \<Rightarrow> n | None \<Rightarrow> 0)
                in case step_once (env_ext E) (env_stack E) (env_sink E) (eval_ctx frame now rp pid)
                          (body (rp_program rp)) cursor (deferred rp) (sch_perception s, sch_input s) of
                     None \<Rightarrow> None
                   | Some (outcome, def, per, inp) \<Rightarrow>
                      (let s1 = s\<lparr>sch_perception := per, sch_input := inp\<rparr>;
                           rp1 = rp\<lparr>deferred := def\<rparr>
                       in Some (case outcome of
                            Advanced \<Rightarrow>
                              (let rp2 = rp1\<lparr>body_cursor := Some (u32_succ cursor)\<rparr>
                               in if body_complete rp2 \<and> active_watch_count rp2 = 0
                                  then complete_program E pid rp2 s1 else put_program pid rp2 s1)
                          | Stalled \<Rightarrow> put_program pid rp1 s1
                          | BodyComplete \<Rightarrow>
                              (if active_watch_count rp1 = 0
                               then complete_program E pid rp1 s1 else put_program pid rp1 s1)
                          | StepFailed e \<Rightarrow>
                              emit E (ProgramFailed pid (rt_code_as_str (rt_code e))
                                  (Some (''body['' @ nat_str cursor @ '']'')) (on_fail (rp_program rp1)))
                                (put_program pid (rp1\<lparr>rp_state := Failed\<rparr>) s1)))))))"

section \<open>Tick\<close>

text \<open>\<open>None\<close> as capture result is the failure of \<open>grab_screen\<close>.\<close>

definition tick_once :: "'i Env \<Rightarrow> Frame option \<Rightarrow> ProgramId list \<Rightarrow> 'i Sched \<Rightarrow> 'i Sched option" where
  "tick_once E capture it s =
     (case capture of
        None \<Rightarrow> Some (emit E (TickFrameSkipped ''capture_failed'') s)
      | Some frame \<Rightarrow>
         (case clock_now E (s\<lparr>sch_perception := perception_clear (sch_perception s)\<rparr>) of (now, s0) \<Rightarrow>
           (case trigger_phase E frame now it s0 of
              None \<Rightarrow> None
            | Some s1 \<Rightarrow>
               (let running = ids_in_state Running it s1
                in case watch_phase E frame now running s1 of
                     None \<Rightarrow> None
                   | Some ta \<Rightarrow>
                      (case dispatch_phase E frame now ta of
                         None \<Rightarrow> None
                       | Some da \<Rightarrow>
                          (case bookkeeping_phase now (ta_evals ta) (da_fired da) (da_sched da) of
                             None \<Rightarrow> None
                           | Some s2 \<Rightarrow> each_id (body_one E frame now (da_failed da)) running s2))))))"

section \<open>Main loop\<close>

text \<open>
  One turn of \<open>run_until_shutdown\<close>, and the loop over a finite script of turns: the commands
  waiting in the channel, the capture result and the iteration order of each turn.
\<close>

type_synonym turn = "SchedulerCommand list \<times> Frame option \<times> ProgramId list"

fun run_until_shutdown :: "'i Env \<Rightarrow> turn list \<Rightarrow> 'i Sched \<Rightarrow> (bool \<times> 'i Sched) option" where
  "run_until_shutdown E [] s = Some (False, s)"
| "run_until_shutdown E ((cmds, cap, it) # ts) s =
     (case drain_commands E cmds s of
        (True, _, s1) \<Rightarrow> Some (True, s1)
      | (False, _, s1) \<Rightarrow>
          (case tick_once E cap it s1 of None \<Rightarrow> None | Some s2 \<Rightarrow> run_until_shutdown E ts s2))"

end
