(* ===== verification/Runtime_Lemmas.thy ===== *)
theory Runtime_Lemmas
  imports Runtime_Base
begin

text \<open>
  Facts about the pure parts of the runtime: the arbiter picks the greatest candidate, watch
  decisions are rising edges limited by throttle and lifetime, sleeps and waits end exactly
  when their deadlines say, and one step makes at most one sink call.
\<close>

section \<open>Arbitration\<close>

locale max_order =
  fixes le :: "'a \<Rightarrow> 'a \<Rightarrow> bool"
  assumes total: "le a b \<or> le b a"
    and trans: "le a b \<Longrightarrow> le b c \<Longrightarrow> le a c"
begin

lemma refl: "le a a"
  using total [of a a] by blast

lemma max_by_mem: "max_by le m xs \<in> set (m # xs)"
proof (induction xs arbitrary: m)
  case (Cons y ys)
  from Cons [of "if le m y then y else m"] show ?case by (auto split: if_splits)
qed simp

lemma max_by_greatest: "x \<in> set (m # xs) \<Longrightarrow> le x (max_by le m xs)"
proof (induction xs arbitrary: m x)
  case Nil
  then show ?case by (simp add: refl)
next
  case (Cons y ys)
  let ?m = "if le m y then y else m"
  have top: "le ?m (max_by le ?m ys)" using Cons.IH [of ?m ?m] by simp
  have "le m ?m" "le y ?m" using refl total by auto
  with top have "le m (max_by le ?m ys)" "le y (max_by le ?m ys)" by (blast intro: trans)+
  with Cons show ?case by auto
qed

end

interpretation cand: max_order "cand_le :: 'p Candidate \<Rightarrow> 'p Candidate \<Rightarrow> bool"
  by unfold_locales (auto simp: cand_le_def)

lemma cand_le_antisym: "cand_le a b \<Longrightarrow> cand_le b a \<Longrightarrow> cand_program a = cand_program b"
  by (auto simp: cand_le_def)

definition winner :: "'p Candidate list \<Rightarrow> 'p Candidate" where
  "winner cs = max_by cand_le (hd cs) (tl cs)"

lemma winner_mem: "cs \<noteq> [] \<Longrightarrow> winner cs \<in> set cs"
  using cand.max_by_mem [of "hd cs" "tl cs"] by (cases cs) (simp_all add: winner_def)

lemma winner_greatest: "c \<in> set cs \<Longrightarrow> cand_le c (winner cs)"
  using cand.max_by_greatest [of c "hd cs" "tl cs"] by (cases cs) (simp_all add: winner_def)

lemma resolve_map:
  "resolve cs = map (\<lambda>c. let is_winner = (cand_program c = cand_program (winner cs))
       in \<lparr>dec_program = cand_program c, dec_payload = cand_payload c, dec_dispatch = is_winner,
           loser_of = (if is_winner then None else Some (cand_program (winner cs)))\<rparr>) cs"
  by (auto simp: resolve_def winner_def Let_def split: list.splits)

lemma resolve_programs: "map dec_program (resolve cs) = map cand_program cs"
  by (simp add: resolve_map Let_def)

lemma filter_one:
  "distinct (map f xs) \<Longrightarrow> x \<in> set xs \<Longrightarrow> filter (\<lambda>y. f y = f x) xs = [x]"
proof (induction xs)
  case (Cons y ys)
  show ?case
  proof (cases "f y = f x")
    case True
    with Cons.prems have "x = y" by (auto simp: image_iff)
    moreover have "filter (\<lambda>y. f y = f x) ys = []"
      using Cons.prems(1) by (auto simp: filter_empty_conv True [symmetric] image_iff)
    ultimately show ?thesis by simp
  next
    case False
    with Cons show ?thesis by auto
  qed
qed simp

lemma resolve_one_dispatch:
  assumes "cs \<noteq> []" "distinct (map cand_program cs)"
  shows "filter dec_dispatch (resolve cs) =
     [\<lparr>dec_program = cand_program (winner cs), dec_payload = cand_payload (winner cs),
       dec_dispatch = True, loser_of = None\<rparr>]"
proof -
  have "filter dec_dispatch (resolve cs) =
      map (\<lambda>c. \<lparr>dec_program = cand_program c, dec_payload = cand_payload c, dec_dispatch = True, loser_of = None\<rparr>)
        (filter (\<lambda>c. cand_program c = cand_program (winner cs)) cs)"
    by (simp add: resolve_map Let_def filter_map comp_def)
  then show ?thesis by (simp add: filter_one [OF assms(2) winner_mem [OF assms(1)]])
qed

section \<open>Watch decisions\<close>

lemma decide_fire_iff:
  assumes "throttle_ms w \<le> u32_max" "\<And>ms. lifetime w = TimeoutMs ms \<Longrightarrow> ms \<le> u32_max"
  shows "decide w st t now since = Fire \<longleftrightarrow>
     \<not> retired st \<and> t \<and> \<not> last_truthy st \<and>
     (\<forall>ms. lifetime w = TimeoutMs ms \<longrightarrow> now - since < int ms) \<and>
     (\<forall>fired. last_fired_ms st = Some fired \<longrightarrow> now - fired \<ge> int (throttle_ms w))"
  using assms
  by (auto simp: decide_def sat_sub_ge_iff sat_sub_less_iff not_le split: Lifetime.splits option.splits)

lemma decide_retire_iff:
  assumes "\<And>ms. lifetime w = TimeoutMs ms \<Longrightarrow> ms \<le> u32_max"
  shows "decide w st t now since = Retire \<longleftrightarrow>
     \<not> retired st \<and> (\<exists>ms. lifetime w = TimeoutMs ms \<and> now - since \<ge> int ms)"
  using assms
  by (auto simp: decide_def sat_sub_ge_iff split: Lifetime.splits option.splits)

section \<open>Body steps\<close>

lemma step_once_sleep:
  assumes "cursor < length bdy" "bdy ! cursor = SleepMs ms"
  shows "step_once X fuel snk c bdy cursor None w =
    Some (Stalled, Some (Sleep (i64_sat_add (ctx_now_ms c) (int ms))), w)"
  using assms by (simp add: step_once_def)

lemma step_once_sleeping:
  "step_once X fuel snk c bdy cursor (Some (Sleep t)) w =
     Some (if ctx_now_ms c \<ge> t then (Advanced, None, w) else (Stalled, Some (Sleep t), w))"
  by (cases w) (simp add: step_once_def step_deferred_def)

text \<open>The sink calls a step can make: at most one, after its target is resolved.\<close>

lemma rt_call_snd: "snd (rt_call snk call i) = snd (snk i call)"
  by (cases "snk i call") (simp add: rt_call_def)

lemma act_at_calls:
  assumes "act_at X fuel snk c t f (s, i) = Some (r, s', i')"
  shows "i' = i \<or> (\<exists>call. i' = snd (snk i call))"
  using assms by (auto simp: act_at_def split_beta rt_call_snd split: option.splits sum.splits)

lemma dispatch_action_calls:
  assumes "dispatch_action X fuel snk c st (s, i) = Some (r, s', i')"
  shows "i' = i \<or> (\<exists>call. i' = snd (snk i call))"
proof (cases st)
  case (TypeText t)
  with assms show ?thesis by (auto simp: dispatch_action_def split_beta rt_call_snd)
next
  case (Key k ms)
  with assms show ?thesis by (auto simp: dispatch_action_def split_beta rt_call_snd)
qed (use assms in \<open>auto simp: dispatch_action_def dest!: act_at_calls\<close>)

lemma step_once_calls:
  assumes "step_once X fuel snk c bdy cursor def (s, i) = Some (out, def', s', i')"
  shows "i' = i \<or> (\<exists>call. i' = snd (snk i call))"
proof (cases def)
  case None
  show ?thesis
  proof (cases "cursor < length bdy")
    case True
    show ?thesis
    proof (cases "bdy ! cursor")
      case (Assert p m)
      with assms None True show ?thesis
        by (auto simp: step_once_def split: option.splits sum.splits)
    next
      case (TypeText t)
      with assms None True show ?thesis by (auto simp: step_once_def split_beta rt_call_snd)
    next
      case (Key k ms)
      with assms None True show ?thesis by (auto simp: step_once_def split_beta rt_call_snd)
    qed (use assms None True in \<open>auto simp: step_once_def dispatch_at_def dest!: act_at_calls\<close>)
  qed (use assms None in \<open>simp add: step_once_def\<close>)
qed (use assms in \<open>auto simp: step_once_def\<close>)

text \<open>No step of a validated watch reaches the arm that reports an internal error.\<close>

lemma rt_evaluate_code:
  assumes "rt_evaluate X fuel n c s = Some (Inl e, s')"
  shows "rt_code e = RtPerceptionFailed"
proof -
  from assms obtain r where "map_sum (ErrPerception \<circ> perception_display) id r = (Inl e :: RuntimeError + PredicateResult)"
    by (auto simp: rt_evaluate_def)
  then show ?thesis by (cases r) auto
qed

lemma expr_parse_code: "expr_parse t = Inl e \<Longrightarrow> rt_code e = RtExpressionUnresolved"
  by (auto simp: expr_parse_def split: option.splits if_splits prod.splits)

end
