(* ===== verification/Scheduler_Lemmas.thy ===== *)
theory Scheduler_Lemmas
  imports Scheduler Runtime_Lemmas
begin

text \<open>
  What one tick does to the scheduler.  \<open>tick_rel\<close> collects it: programs and assets stay,
  the input sink only moves by sink calls, and the emitted events are a legal trace that
  explains the new states exactly.  Every phase satisfies the relation, and it is
  reflexive and transitive, so the whole tick does.
\<close>

section \<open>Observations\<close>

definition states :: "'i Sched \<Rightarrow> ProgramId \<rightharpoonup> ProgramState" where
  "states s pid = map_option rp_state (sch_programs s pid)"

definition statics :: "'i Sched \<Rightarrow> ProgramId \<rightharpoonup> Program \<times> bytes btree" where
  "statics s pid = map_option (\<lambda>rp. (rp_program rp, rp_assets rp)) (sch_programs s pid)"

text \<open>The program states as an observer of the event stream computes them.\<close>

fun apply_event :: "EventData \<Rightarrow> (ProgramId \<rightharpoonup> ProgramState) \<Rightarrow> (ProgramId \<rightharpoonup> ProgramState)" where
  "apply_event (ProgramStateChanged pid _ to _) m = m(pid \<mapsto> to)"
| "apply_event (ProgramFailed pid _ _ _) m = m(pid \<mapsto> Failed)"
| "apply_event _ m = m"

definition replay :: "Event list \<Rightarrow> (ProgramId \<rightharpoonup> ProgramState) \<Rightarrow> (ProgramId \<rightharpoonup> ProgramState)" where
  "replay es = fold (apply_event \<circ> ev_data) es"

lemma replay_simps [simp]: "replay [] m = m" "replay (es @ fs) m = replay fs (replay es m)"
  "replay (e # es) m = replay es (apply_event (ev_data e) m)"
  by (simp_all add: replay_def)

text \<open>The events a tick may send, given the states just before each of them.\<close>

fun tick_event_ok :: "(ProgramId \<rightharpoonup> ProgramState) \<Rightarrow> EventData \<Rightarrow> bool" where
  "tick_event_ok st (ProgramStateChanged pid from to _) =
     (st pid = Some from \<and> (from, to) \<in> {(Waiting, Running), (Running, Completed)})"
| "tick_event_ok st (ProgramFailed pid _ _ _) = (st pid = Some Waiting \<or> st pid = Some Running)"
| "tick_event_ok st (ProgramCompleted pid _) = (st pid = Some Completed)"
| "tick_event_ok st (ProgramSubmitted _ _) = False"
| "tick_event_ok st (ProgramResumed _ _) = False"
| "tick_event_ok st _ = True"

fun trace_ok :: "(ProgramId \<rightharpoonup> ProgramState) \<Rightarrow> Event list \<Rightarrow> bool" where
  "trace_ok st [] = True"
| "trace_ok st (e # es) = (tick_event_ok st (ev_data e) \<and> trace_ok (apply_event (ev_data e) st) es)"

lemma trace_ok_append [simp]: "trace_ok st (es @ fs) \<longleftrightarrow> trace_ok st es \<and> trace_ok (replay es st) fs"
  by (induction es arbitrary: st) auto

inductive sink_reach :: "'i sink \<Rightarrow> 'i \<Rightarrow> 'i \<Rightarrow> bool" for snk where
  sink_refl: "sink_reach snk i i"
| sink_call: "sink_reach snk i j \<Longrightarrow> sink_reach snk i (snd (snk j c))"

lemma sink_reach_trans: "sink_reach snk j k \<Longrightarrow> sink_reach snk i j \<Longrightarrow> sink_reach snk i k"
  by (induction rule: sink_reach.induct) (auto intro: sink_reach.intros)

definition tick_rel :: "'i Env \<Rightarrow> 'i Sched \<Rightarrow> 'i Sched \<Rightarrow> bool" where
  "tick_rel E s s' \<longleftrightarrow>
     statics s' = statics s \<and> sink_reach (env_sink E) (sch_input s) (sch_input s') \<and>
     (\<exists>es. sch_events s' = sch_events s @ es \<and> states s' = replay es (states s) \<and> trace_ok (states s) es)"

lemma tick_rel_refl [simp]: "tick_rel E s s"
  unfolding tick_rel_def by (auto intro: sink_refl exI [of _ "[]"])

lemma tick_rel_trans [trans]:
  assumes "tick_rel E s t" "tick_rel E t u"
  shows "tick_rel E s u"
proof -
  from assms(1) obtain es where es: "sch_events t = sch_events s @ es" "states t = replay es (states s)"
    "trace_ok (states s) es" unfolding tick_rel_def by blast
  from assms(2) obtain fs where fs: "sch_events u = sch_events t @ fs" "states u = replay fs (states t)"
    "trace_ok (states t) fs" unfolding tick_rel_def by blast
  have "sch_events u = sch_events s @ (es @ fs)" "states u = replay (es @ fs) (states s)"
    "trace_ok (states s) (es @ fs)" using es fs by simp_all
  with assms show ?thesis unfolding tick_rel_def by (auto intro: sink_reach_trans)
qed

section \<open>Elementary updates\<close>

named_theorems sched_simps

lemma emit_simps [sched_simps]:
  "sch_programs (emit E d s) = sch_programs s" "sch_input (emit E d s) = sch_input s"
  "sch_perception (emit E d s) = sch_perception s"
  "sch_events (emit E d s) = sch_events s @ [\<lparr>ev_at = env_clock E (sch_clock_reads s), ev_data = d\<rparr>]"
  "states (emit E d s) = states s" "statics (emit E d s) = statics s"
  by (simp_all add: emit_def clock_now_def states_def [abs_def] statics_def [abs_def])

lemma put_simps [sched_simps]:
  "sch_programs (put_program pid rp s) = (sch_programs s)(pid \<mapsto> rp)"
  "sch_input (put_program pid rp s) = sch_input s" "sch_perception (put_program pid rp s) = sch_perception s"
  "sch_events (put_program pid rp s) = sch_events s"
  "states (put_program pid rp s) = (states s)(pid \<mapsto> rp_state rp)"
  "statics (put_program pid rp s) = (statics s)(pid \<mapsto> (rp_program rp, rp_assets rp))"
  by (auto simp: put_program_def states_def [abs_def] statics_def [abs_def])

lemma update_simps [sched_simps]:
  "states (s\<lparr>sch_perception := per\<rparr>) = states s" "states (s\<lparr>sch_input := i\<rparr>) = states s"
  "statics (s\<lparr>sch_perception := per\<rparr>) = statics s" "statics (s\<lparr>sch_input := i\<rparr>) = statics s"
  "states (s\<lparr>sch_clock_reads := n\<rparr>) = states s" "statics (s\<lparr>sch_clock_reads := n\<rparr>) = statics s"
  by (auto simp: states_def [abs_def] statics_def [abs_def])

lemma states_Some: "states s pid = Some st \<longleftrightarrow> (\<exists>rp. sch_programs s pid = Some rp \<and> rp_state rp = st)"
  by (auto simp: states_def)

lemma tick_rel_perception: "tick_rel E s (s\<lparr>sch_perception := per\<rparr>)"
  unfolding tick_rel_def by (auto simp: sched_simps intro: sink_refl exI [of _ "[]"])

lemma tick_rel_io:
  assumes "sink_reach (env_sink E) (sch_input s) i"
  shows "tick_rel E s (s\<lparr>sch_perception := per, sch_input := i\<rparr>)"
  using assms unfolding tick_rel_def by (auto simp: sched_simps intro: exI [of _ "[]"])

lemma tick_rel_emit:
  assumes "tick_event_ok (states s) d" "apply_event d (states s) = states s"
  shows "tick_rel E s (emit E d s)"
  using assms unfolding tick_rel_def by (auto simp: sched_simps intro: sink_refl)

text \<open>Updates that keep a program's code and assets.\<close>

definition same_code :: "RunningProgram \<Rightarrow> RunningProgram \<Rightarrow> bool" where
  "same_code rp rp' \<longleftrightarrow> rp_program rp' = rp_program rp \<and> rp_assets rp' = rp_assets rp"

lemma statics_put:
  "sch_programs s pid = Some rp \<Longrightarrow> same_code rp rp' \<Longrightarrow> statics (put_program pid rp' s) = statics s"
  by (auto simp: sched_simps statics_def fun_eq_iff same_code_def)

lemma tick_rel_put:
  assumes "sch_programs s pid = Some rp" "same_code rp rp'" "rp_state rp' = rp_state rp"
  shows "tick_rel E s (put_program pid rp' s)"
proof -
  have "states (put_program pid rp' s) = states s"
    using assms by (auto simp: sched_simps states_def)
  with statics_put [OF assms(1,2)] show ?thesis
    unfolding tick_rel_def by (auto simp: sched_simps intro: sink_refl exI [of _ "[]"])
qed

lemma tick_rel_put_emit:
  assumes "sch_programs s pid = Some rp" "same_code rp rp'"
    and "tick_event_ok (states s) d" "apply_event d (states s) = (states s)(pid \<mapsto> rp_state rp')"
  shows "tick_rel E s (emit E d (put_program pid rp' s))"
  using assms(3,4) statics_put [OF assms(1,2)] unfolding tick_rel_def
  by (auto simp: sched_simps intro: sink_refl)

lemma watch_entry_code [simp]: "same_code rp (watch_entry i f rp)" "rp_state (watch_entry i f rp) = rp_state rp"
  "rp_program (watch_entry i f rp) = rp_program rp" "rp_assets (watch_entry i f rp) = rp_assets rp"
  by (simp_all add: watch_entry_def same_code_def)

lemma start_running_simps [simp]: "rp_state (start_running now rp) = Running"
  "rp_program (start_running now rp) = rp_program rp" "rp_assets (start_running now rp) = rp_assets rp"
  by (simp_all add: start_running_def)

section \<open>Loops over programs\<close>

text \<open>A loop body that relates states by \<open>R\<close> and leaves the other programs' precondition alone.\<close>

lemma each_id_rel:
  assumes refl: "\<And>s. R s s" and trans: "\<And>s t u. R s t \<Longrightarrow> R t u \<Longrightarrow> R s u"
    and step: "\<And>q s s'. P q s \<Longrightarrow> f q s = Some s' \<Longrightarrow> R s s' \<and> (\<forall>p. p \<noteq> q \<longrightarrow> P p s \<longrightarrow> P p s')"
  shows "distinct qs \<Longrightarrow> \<forall>q \<in> set qs. P q s \<Longrightarrow> each_id f qs s = Some s' \<Longrightarrow> R s s'"
proof (induction qs arbitrary: s)
  case Nil
  then show ?case by (simp add: refl)
next
  case (Cons q qs)
  from Cons.prems(3) obtain t where t: "f q s = Some t" "each_id f qs t = Some s'"
    by (auto split: option.splits)
  from step [OF _ t(1)] Cons.prems(2) have "R s t" "\<forall>p. p \<noteq> q \<longrightarrow> P p s \<longrightarrow> P p t" by simp_all
  moreover from this Cons.prems have "R t s'" by (intro Cons.IH t(2)) auto
  ultimately show ?case by (blast intro: trans)
qed

lemma each_opt_rel:
  assumes refl: "\<And>s. R s s" and trans: "\<And>s t u. R s t \<Longrightarrow> R t u \<Longrightarrow> R s u"
    and step: "\<And>x s s'. f x s = Some s' \<Longrightarrow> R s s'"
  shows "each_opt f xs s = Some s' \<Longrightarrow> R s s'"
proof (induction xs arbitrary: s)
  case (Cons x xs)
  then show ?case by (auto split: option.splits intro: trans dest: step)
qed (simp add: refl)

section \<open>Phases\<close>

lemma trigger_one_rel:
  assumes "states s pid = Some Waiting" "trigger_one E frame now pid s = Some s'"
  shows "tick_rel E s s'" "q \<noteq> pid \<Longrightarrow> sch_programs s' q = sch_programs s q"
proof -
  from assms(1) obtain rp where rp: "sch_programs s pid = Some rp" "rp_state rp = Waiting"
    by (auto simp: states_Some)
  with assms(2) obtain fire per where f: "trigger_fires (env_ext E) (env_stack E) (trigger (rp_program rp))
      (eval_ctx frame now rp pid) (sch_perception s) = Some (fire, per)"
    by (auto simp: trigger_one_def split: option.splits)
  let ?t = "s\<lparr>sch_perception := per\<rparr>"
  have start: "tick_rel E ?t (emit E (ProgramStateChanged pid Waiting Running ''trigger_fired'')
      (put_program pid (start_running now rp) ?t))"
    using rp by (intro tick_rel_put_emit) (auto simp: same_code_def sched_simps states_Some)
  have fail: "tick_rel E ?t (emit E (ProgramFailed pid r None None) (put_program pid (rp\<lparr>rp_state := Failed\<rparr>) ?t))" for r
    using rp by (intro tick_rel_put_emit) (auto simp: same_code_def sched_simps states_Some)
  show "tick_rel E s s'"
    using assms(2) rp f tick_rel_trans [OF tick_rel_perception start] tick_rel_trans [OF tick_rel_perception fail]
    by (auto simp: trigger_one_def Let_def tick_rel_perception split: sum.splits bool.splits)
  show "sch_programs s' q = sch_programs s q" if "q \<noteq> pid"
    using assms(2) rp f that
    by (auto simp: trigger_one_def Let_def sched_simps split: sum.splits bool.splits)
qed

lemma ids_in_state_set: "pid \<in> set (ids_in_state st it s) \<longleftrightarrow> pid \<in> set it \<and> states s pid = Some st"
  by (auto simp: ids_in_state_def states_def split: option.splits)

lemma ids_in_state_distinct: "distinct it \<Longrightarrow> distinct (ids_in_state st it s)"
  by (simp add: ids_in_state_def)

lemma trigger_phase_rel:
  assumes "distinct it" "trigger_phase E frame now it s = Some s'"
  shows "tick_rel E s s'"
proof (rule each_id_rel [where P = "\<lambda>q s. states s q = Some Waiting"])
  show "each_id (trigger_one E frame now) (ids_in_state Waiting it s) s = Some s'"
    using assms(2) by (simp add: trigger_phase_def)
  show "tick_rel E s s' \<and> (\<forall>p. p \<noteq> q \<longrightarrow> states s p = Some Waiting \<longrightarrow> states s' p = Some Waiting)"
    if "states s q = Some Waiting" "trigger_one E frame now q s = Some s'" for q s s'
    using trigger_one_rel [OF that] by (auto simp: states_def)
qed (auto intro: tick_rel_trans simp: assms(1) ids_in_state_distinct ids_in_state_set)

text \<open>
  A fired watch is a watch of its program whose condition evaluated to true on the tick's
  frame and whose decision was to fire; the payload repeats its steps.
\<close>

definition watch_of :: "RunningProgram \<Rightarrow> u32 \<Rightarrow> WatchRuntime" where
  "watch_of rp i = (case map_of (watch_state rp) i of Some st \<Rightarrow> st | None \<Rightarrow> watch_default)"

definition since_running :: "UnixMs \<Rightarrow> RunningProgram \<Rightarrow> UnixMs" where
  "since_running now rp = (case running_since_ms rp of Some t \<Rightarrow> t | None \<Rightarrow> now)"

definition condition_held :: "'i Env \<Rightarrow> Frame \<Rightarrow> UnixMs \<Rightarrow> RunningProgram \<Rightarrow> nat \<Rightarrow> WatchWhen \<Rightarrow> bool" where
  "condition_held E frame now rp i w \<longleftrightarrow> (\<exists>c per per'. ctx_frame c = frame \<and> ctx_now_ms c = now \<and>
     ctx_predicates c = predicates (rp_program rp) \<and> ctx_assets c = rp_assets rp \<and>
     when_truth E c i w per = Some (Some True, per'))"

definition fire_ok :: "'i Env \<Rightarrow> Frame \<Rightarrow> UnixMs \<Rightarrow> RunningProgram \<Rightarrow> WatchFirePayload \<Rightarrow> bool" where
  "fire_ok E frame now rp f \<longleftrightarrow> (let ws = watches (rp_program rp)
     in fst f < length ws \<and> fst (snd f) = watch_steps (ws ! fst f) \<and> snd (snd f) = is_one_shot (ws ! fst f) \<and>
        condition_held E frame now rp (fst f) (when_cond (ws ! fst f)) \<and>
        decide (ws ! fst f) (watch_of rp (fst f)) True now (since_running now rp) = Fire)"

definition small_watches :: "Watch list \<Rightarrow> bool" where
  "small_watches ws \<longleftrightarrow> length ws \<le> u32_max"

lemma decide_fire_true: "decide w st t now sn = Fire \<Longrightarrow> t"
  by (auto simp: decide_def split: if_splits Lifetime.splits option.splits)

lemma eval_watch_fires:
  assumes "eval_watch E c rp idx w (acc, per) = Some (acc', per')" "idx \<le> u32_max"
  shows "wa_fires acc' = wa_fires acc \<or>
     (wa_fires acc' = wa_fires acc @ [(idx, watch_steps w, is_one_shot w)] \<and>
      (\<exists>per1 per2. when_truth E c idx (when_cond w) per1 = Some (Some True, per2)) \<and>
      decide w (watch_of rp idx) True (ctx_now_ms c) (since_running (ctx_now_ms c) rp) = Fire)"
proof -
  have t: "t = True" if "decide w st t now sn = Fire" for st t now sn
    using decide_fire_true [OF that] by simp
  from assms show ?thesis
    by (auto simp: eval_watch_def Let_def u32_of_usize_def watch_of_def [symmetric] since_running_def [symmetric]
        split: if_splits option.splits bool.splits WatchDecision.splits) (use t in blast)+
qed

lemma eval_watches_fires:
  assumes "eval_watches E c rp idx ws ap = Some ap'" "ws = drop idx (watches (rp_program rp))"
    and "small_watches (watches (rp_program rp))" "\<forall>f \<in> set (wa_fires (fst ap)). fire_ok E (ctx_frame c) (ctx_now_ms c) rp f"
    and "ctx_predicates c = predicates (rp_program rp)" "ctx_assets c = rp_assets rp"
  shows "\<forall>f \<in> set (wa_fires (fst ap')). fire_ok E (ctx_frame c) (ctx_now_ms c) rp f"
  using assms
proof (induction E c rp idx ws ap rule: eval_watches.induct)
  case (2 E c rp idx w ws ap)
  let ?all = "watches (rp_program rp)"
  from 2(2) obtain ap1 where ap1: "eval_watch E c rp idx w ap = Some ap1"
    "eval_watches E c rp (Suc idx) ws ap1 = Some ap'" by (auto split: option.splits)
  have idx: "idx < length ?all" using 2(3) by (metis drop_eq_Nil list.distinct(1) not_le)
  then have w: "?all ! idx = w" "drop (Suc idx) ?all = ws" using 2(3)
    by (metis nth_via_drop, metis Cons_nth_drop_Suc list.inject)
  obtain acc per acc1 per1 where ap: "ap = (acc, per)" "ap1 = (acc1, per1)" by (cases ap; cases ap1) auto
  have small: "idx \<le> u32_max" using idx 2(4) by (simp add: small_watches_def)
  have held: "condition_held E (ctx_frame c) (ctx_now_ms c) rp idx (when_cond w)"
    if "when_truth E c idx (when_cond w) p1 = Some (Some True, p2)" for p1 p2
    using that 2(6,7) unfolding condition_held_def by blast
  have "wa_fires acc1 = wa_fires acc \<or> (wa_fires acc1 = wa_fires acc @ [(idx, watch_steps w, is_one_shot w)] \<and>
      condition_held E (ctx_frame c) (ctx_now_ms c) rp idx (when_cond w) \<and>
      decide w (watch_of rp idx) True (ctx_now_ms c) (since_running (ctx_now_ms c) rp) = Fire)"
    using eval_watch_fires [of E c rp idx w acc per acc1 per1, OF _ small] ap1(1) ap held by auto
  with 2(5) w idx have "\<forall>f \<in> set (wa_fires (fst ap1)). fire_ok E (ctx_frame c) (ctx_now_ms c) rp f"
    by (auto simp: ap fire_ok_def)
  from 2(1) [OF ap1(1) ap1(2) w(2) [symmetric] 2(4) this 2(6,7)] show ?case .
qed simp

text \<open>What the watch phase hands over to dispatch and bookkeeping.\<close>

definition cand_ok :: "'i Env \<Rightarrow> Frame \<Rightarrow> UnixMs \<Rightarrow> 'i Sched \<Rightarrow> WatchFirePayload Candidate \<Rightarrow> bool" where
  "cand_ok E frame now s c \<longleftrightarrow> (\<exists>rp. sch_programs s (cand_program c) = Some rp \<and> cand_priority c = priority (rp_program rp) \<and>
     fire_ok E frame now rp (cand_payload c) \<and> fst (snd (cand_payload c)) \<noteq> [])"

definition direct_ok :: "'i Env \<Rightarrow> Frame \<Rightarrow> UnixMs \<Rightarrow> 'i Sched \<Rightarrow> ProgramId \<times> u32 \<Rightarrow> bool" where
  "direct_ok E frame now s f \<longleftrightarrow> (\<exists>rp os. sch_programs s (fst f) = Some rp \<and> fire_ok E frame now rp (snd f, [], os))"

definition acc_ok :: "'i Env \<Rightarrow> Frame \<Rightarrow> UnixMs \<Rightarrow> 'i Sched \<Rightarrow> ProgramId list \<Rightarrow> 'i TickAcc \<Rightarrow> bool" where
  "acc_ok E frame now s seen a \<longleftrightarrow>
     (\<exists>per. ta_sched a = s\<lparr>sch_perception := per\<rparr>) \<and> map fst (ta_evals a) = seen \<and>
     (\<forall>c \<in> set (ta_candidates a). cand_program c \<in> set seen \<and> cand_ok E frame now s c) \<and>
     (\<forall>f \<in> set (ta_direct a). fst f \<in> set seen \<and> direct_ok E frame now s f) \<and>
     distinct (map cand_program (ta_candidates a) @ map fst (ta_direct a))"

definition all_small :: "'i Sched \<Rightarrow> bool" where
  "all_small s \<longleftrightarrow> (\<forall>pid rp. sch_programs s pid = Some rp \<longrightarrow> small_watches (watches (rp_program rp)))"

lemma watch_one_acc:
  assumes "acc_ok E frame now s seen a" "pid \<notin> set seen" "all_small s" "watch_one E frame now pid a = Some a'"
  shows "acc_ok E frame now s (seen @ [pid]) a'"
proof -
  from assms(1) obtain per where per: "ta_sched a = s\<lparr>sch_perception := per\<rparr>" by (auto simp: acc_ok_def)
  from assms(4) per obtain rp acc per' where rp: "sch_programs s pid = Some rp"
    and ev: "eval_watches E (eval_ctx frame now rp pid) rp 0 (watches (rp_program rp))
       (\<lparr>wa_truthies = [], wa_fires = [], wa_retires = []\<rparr>, per) = Some (acc, per')"
    by (auto simp: watch_one_def split: option.splits)
  have "small_watches (watches (rp_program rp))" using assms(3) rp by (auto simp: all_small_def)
  from eval_watches_fires [OF ev _ this] have fires: "\<forall>f \<in> set (wa_fires acc). fire_ok E frame now rp f"
    by (simp add: eval_ctx_def)
  let ?b = "a\<lparr>ta_sched := (ta_sched a)\<lparr>sch_perception := per'\<rparr>,
              ta_evals := ta_evals a @ [(pid, wa_truthies acc, wa_retires acc)]\<rparr>"
  have b: "acc_ok E frame now s (seen @ [pid]) ?b" using assms(1) per by (auto simp: acc_ok_def)
  have fresh: "pid \<notin> cand_program ` set (ta_candidates a)" "pid \<notin> fst ` set (ta_direct a)"
    using assms(1,2) unfolding acc_ok_def by blast+
  show ?thesis
  proof (cases "wa_fires acc")
    case Nil
    with assms(4) rp ev per b show ?thesis by (simp add: watch_one_def)
  next
    case (Cons f fs)
    obtain idx steps os where f: "f = (idx, steps, os)" by (cases f) auto
    with fires Cons have ok: "fire_ok E frame now rp (idx, steps, os)" by simp
    show ?thesis
    proof (cases "steps = []")
      case True
      with assms(4) rp ev per Cons f have "a' = ?b\<lparr>ta_direct := ta_direct a @ [(pid, idx)]\<rparr>"
        by (simp add: watch_one_def)
      with b ok [unfolded True] rp fresh show ?thesis by (auto simp: acc_ok_def direct_ok_def)
    next
      case False
      with assms(4) rp ev per Cons f have "a' = ?b\<lparr>ta_candidates := ta_candidates a @
          [\<lparr>cand_program = pid, cand_priority = priority (rp_program rp), cand_payload = (idx, steps, os)\<rparr>]\<rparr>"
        by (simp add: watch_one_def)
      with b ok rp False fresh show ?thesis by (auto simp: acc_ok_def cand_ok_def)
    qed
  qed
qed

lemma watch_loop_acc:
  assumes "all_small s"
  shows "acc_ok E frame now s seen a \<Longrightarrow> distinct (seen @ qs) \<Longrightarrow> each_id (watch_one E frame now) qs a = Some a' \<Longrightarrow>
    acc_ok E frame now s (seen @ qs) a'"
proof (induction qs arbitrary: seen a)
  case (Cons q qs)
  from Cons.prems(3) obtain b where b: "watch_one E frame now q a = Some b"
    "each_id (watch_one E frame now) qs b = Some a'" by (auto split: option.splits)
  from watch_one_acc [OF Cons.prems(1) _ assms b(1)] Cons.prems(2) have "acc_ok E frame now s (seen @ [q]) b" by simp
  from Cons.IH [OF this _ b(2)] Cons.prems(2) show ?case by simp
qed simp

lemma watch_phase_acc:
  assumes "all_small s" "distinct running" "watch_phase E frame now running s = Some ta"
  shows "acc_ok E frame now s running ta"
proof -
  have "acc_ok E frame now s [] \<lparr>ta_sched = s, ta_evals = [], ta_candidates = [], ta_direct = []\<rparr>"
    by (auto simp: acc_ok_def intro: exI [of _ "sch_perception s"])
  from watch_loop_acc [OF assms(1) this, of running] assms(2,3) show ?thesis
    by (simp add: watch_phase_def)
qed

lemma call_reach: "i' = i \<or> (\<exists>call. i' = snd (snk i call)) \<Longrightarrow> sink_reach snk i i'"
  by (auto intro: sink_reach.intros)

lemma run_steps_rel:
  "run_steps E c pid sts s = Some (r, s') \<Longrightarrow> tick_rel E s s' \<and> sch_programs s' = sch_programs s"
proof (induction E c pid sts s rule: run_steps.induct)
  case (2 E c pid st sts s)
  let ?s1 = "emit E (ActionDispatched pid (step_to_value st) None) s"
  have e: "tick_rel E s ?s1" by (rule tick_rel_emit) simp_all
  from 2(2) obtain r1 per inp where d: "dispatch_action (env_ext E) (env_stack E) (env_sink E) c st
      (sch_perception ?s1, sch_input ?s1) = Some (r1, per, inp)"
    by (auto simp: Let_def split: option.splits)
  let ?s2 = "?s1\<lparr>sch_perception := per, sch_input := inp\<rparr>"
  have io: "tick_rel E ?s1 ?s2"
    by (rule tick_rel_io) (use dispatch_action_calls [OF d] in \<open>auto intro: call_reach\<close>)
  show ?case
  proof (cases r1)
    case (Inl e')
    with 2(2) d tick_rel_trans [OF e io] show ?thesis by (auto simp: Let_def sched_simps)
  next
    case (Inr u)
    with 2(2) d have rest: "run_steps E c pid sts ?s2 = Some (r, s')" by (simp add: Let_def)
    from 2(1) [OF refl d _ _ refl Inr rest] tick_rel_trans [OF e io] show ?thesis
      by (auto intro: tick_rel_trans simp: sched_simps)
  qed
qed simp

lemma dispatch_one_rel:
  assumes "dispatch_one E frame now d a = Some a'"
    and "dec_dispatch d \<Longrightarrow> states (da_sched a) (dec_program d) = Some Running"
  shows "tick_rel E (da_sched a) (da_sched a')"
    and "q \<noteq> dec_program d \<Longrightarrow> sch_programs (da_sched a') q = sch_programs (da_sched a) q"
proof -
  let ?s = "da_sched a" and ?p = "dec_program d"
  obtain idx steps os where pl: "dec_payload d = (idx, steps, os)" by (cases "dec_payload d") auto
  have "tick_rel E ?s (da_sched a') \<and> (q \<noteq> ?p \<longrightarrow> sch_programs (da_sched a') q = sch_programs ?s q)" for q
  proof (cases "dec_dispatch d")
    case True
    from assms(2) [OF True] obtain rp where rp: "sch_programs ?s ?p = Some rp" "rp_state rp = Running"
      by (auto simp: states_Some)
    from assms(1) True pl rp obtain r s1 where run: "run_steps E (eval_ctx frame now rp ?p) ?p steps ?s = Some (r, s1)"
      by (auto simp: dispatch_one_def Let_def split: option.splits)
    note rs = run_steps_rel [OF run]
    have fired: "tick_rel E s1 (emit E (WatchFired ?p idx ''watch'') s1)" by (rule tick_rel_emit) simp_all
    have failed: "tick_rel E s1 (emit E (ProgramFailed ?p c st em) (put_program ?p (rp\<lparr>rp_state := Failed\<rparr>) s1))" for c st em
      using rs rp by (intro tick_rel_put_emit) (auto simp: same_code_def sched_simps states_Some)
    show ?thesis
      using assms(1) True pl rp run rs tick_rel_trans [OF conjunct1 [OF rs] fired] tick_rel_trans [OF conjunct1 [OF rs] failed]
      by (auto simp: dispatch_one_def Let_def sched_simps split: option.splits)
  next
    case False
    have "tick_rel E ?s (emit E (ActionDeferred ?p x y) ?s)" for x y by (rule tick_rel_emit) simp_all
    with assms(1) False pl show ?thesis
      by (auto simp: dispatch_one_def Let_def sched_simps split: option.splits)
  qed
  then show "tick_rel E ?s (da_sched a')"
    and "q \<noteq> ?p \<Longrightarrow> sch_programs (da_sched a') q = sch_programs ?s q" by blast+
qed

lemma dispatch_all_rel:
  "dispatch_all E frame now ds a = Some a' \<Longrightarrow> distinct (map dec_program ds) \<Longrightarrow>
   \<forall>d \<in> set ds. states (da_sched a) (dec_program d) = Some Running \<Longrightarrow> tick_rel E (da_sched a) (da_sched a')"
proof (induction ds arbitrary: a)
  case (Cons d ds)
  from Cons.prems(1) obtain b where b: "dispatch_one E frame now d a = Some b" "dispatch_all E frame now ds b = Some a'"
    by (auto split: option.splits)
  note one = dispatch_one_rel [OF b(1)]
  have "tick_rel E (da_sched a) (da_sched b)" using one(1) Cons.prems(3) by simp
  moreover have "tick_rel E (da_sched b) (da_sched a')"
    using Cons.prems one(2) by (intro Cons.IH b(2)) (auto simp: states_def image_iff)
  ultimately show ?case by (rule tick_rel_trans)
qed simp

lemma direct_fires_rel:
  "tick_rel E (da_sched a) (da_sched (fold (direct_fire E) fs a)) \<and>
   sch_programs (da_sched (fold (direct_fire E) fs a)) = sch_programs (da_sched a)"
proof (induction fs arbitrary: a)
  case (Cons f fs)
  have "tick_rel E (da_sched a) (da_sched (direct_fire E f a))"
    unfolding direct_fire_def by (simp, rule tick_rel_emit) simp_all
  with Cons [of "direct_fire E f a"] show ?case
    by (auto intro: tick_rel_trans simp: direct_fire_def sched_simps)
qed simp

lemma dispatch_phase_rel:
  assumes "acc_ok E frame now s running ta" "\<forall>q \<in> set running. states s q = Some Running"
    and "dispatch_phase E frame now ta = Some da"
  shows "tick_rel E s (da_sched da)"
proof -
  let ?a0 = "\<lparr>da_sched = ta_sched ta, da_fired = [], da_failed = []\<rparr>"
  let ?a1 = "fold (direct_fire E) (ta_direct ta) ?a0"
  from assms(1) obtain per where per: "ta_sched ta = s\<lparr>sch_perception := per\<rparr>" by (auto simp: acc_ok_def)
  note d = direct_fires_rel [of E ?a0 "ta_direct ta"]
  have st: "states (da_sched ?a1) = states s" using d per by (simp add: states_def [abs_def])
  have "tick_rel E (da_sched ?a1) (da_sched da)"
  proof (rule dispatch_all_rel)
    show "dispatch_all E frame now (resolve (ta_candidates ta)) ?a1 = Some da"
      using assms(3) by (simp add: dispatch_phase_def)
    show "distinct (map dec_program (resolve (ta_candidates ta)))"
      using assms(1) by (simp add: resolve_programs acc_ok_def)
    have "dec_program ` set (resolve (ta_candidates ta)) = cand_program ` set (ta_candidates ta)"
      by (simp add: resolve_programs [of "ta_candidates ta"] flip: set_map)
    moreover have "cand_program ` set (ta_candidates ta) \<subseteq> set running" using assms(1) by (auto simp: acc_ok_def)
    ultimately have "dec_program d \<in> set running" if "d \<in> set (resolve (ta_candidates ta))" for d
      using that by blast
    then show "\<forall>d \<in> set (resolve (ta_candidates ta)). states (da_sched ?a1) (dec_program d) = Some Running"
      using assms(2) by (simp add: st)
  qed
  with d per tick_rel_perception [of E s per] show ?thesis by (auto intro: tick_rel_trans)
qed

lemma fold_code:
  assumes "\<And>x rp. same_code rp (f x rp)" "\<And>x rp. rp_state (f x rp) = rp_state rp"
  shows "same_code rp (fold f xs rp) \<and> rp_state (fold f xs rp) = rp_state rp"
  by (induction xs arbitrary: rp) (use assms in \<open>auto simp: same_code_def\<close>)

lemma apply_eval_rel: "apply_eval ev s = Some s' \<Longrightarrow> tick_rel E s s'"
proof -
  assume a: "apply_eval ev s = Some s'"
  obtain pid ts rs where ev: "ev = (pid, ts, rs)" by (cases ev) auto
  let ?f = "fold (\<lambda>(idx, t). watch_entry idx (\<lambda>w. w\<lparr>last_truthy := t\<rparr>)) ts"
  let ?g = "fold (\<lambda>idx. watch_entry idx (\<lambda>w. w\<lparr>retired := True\<rparr>)) rs"
  have f: "same_code rp (?f rp) \<and> rp_state (?f rp) = rp_state rp" for rp by (rule fold_code) auto
  have g: "same_code rp (?g rp) \<and> rp_state (?g rp) = rp_state rp" for rp by (rule fold_code) auto
  from a ev obtain rp where "sch_programs s pid = Some rp" "s' = put_program pid (?g (?f rp)) s"
    by (auto simp: apply_eval_def split: option.splits)
  moreover have "same_code rp (?g (?f rp)) \<and> rp_state (?g (?f rp)) = rp_state rp"
    using f [of rp] g [of "?f rp"] by (simp add: same_code_def)
  ultimately show ?thesis by (auto intro: tick_rel_put)
qed

lemma apply_fire_rel: "apply_fire now f s = Some s' \<Longrightarrow> tick_rel E s s'"
  by (auto simp: apply_fire_def split: option.splits if_splits intro!: tick_rel_put)

lemma bookkeeping_rel: "bookkeeping_phase now evals fired s = Some s' \<Longrightarrow> tick_rel E s s'"
proof -
  assume "bookkeeping_phase now evals fired s = Some s'"
  then obtain t where t: "each_opt apply_eval evals s = Some t" "each_opt (apply_fire now) fired t = Some s'"
    by (auto simp: bookkeeping_phase_def split: option.splits)
  have "tick_rel E s t" by (rule each_opt_rel [OF _ _ _ t(1)]) (auto intro: tick_rel_trans apply_eval_rel)
  moreover have "tick_rel E t s'" by (rule each_opt_rel [OF _ _ _ t(2)]) (auto intro: tick_rel_trans apply_fire_rel)
  ultimately show ?thesis by (rule tick_rel_trans)
qed

lemma complete_program_rel:
  assumes "sch_programs s pid = Some rp" "rp_state rp = Running" "same_code rp rp'"
  shows "tick_rel E s (complete_program E pid rp' s)"
proof -
  let ?t = "emit E (ProgramStateChanged pid Running Completed ''body_complete'')
     (put_program pid (rp'\<lparr>rp_state := Completed\<rparr>) s)"
  have "tick_rel E s ?t"
    using assms by (intro tick_rel_put_emit) (auto simp: same_code_def sched_simps states_Some)
  moreover have "tick_rel E ?t (emit E (ProgramCompleted pid (on_complete (rp_program rp'))) ?t)"
    by (rule tick_rel_emit) (auto simp: sched_simps)
  ultimately show ?thesis unfolding complete_program_def by (rule tick_rel_trans)
qed

lemma body_one_rel:
  assumes "body_one E frame now failed pid s = Some s'"
  shows "tick_rel E s s'"
proof (cases "pid \<in> set failed \<or> states s pid \<noteq> Some Running")
  case True
  with assms show ?thesis by (auto simp: body_one_def states_def split: if_splits option.splits)
next
  case False
  then obtain rp where rp: "sch_programs s pid = Some rp" "rp_state rp = Running" and nf: "pid \<notin> set failed"
    by (auto simp: states_Some)
  define cursor where "cursor = (case body_cursor rp of Some n \<Rightarrow> n | None \<Rightarrow> 0)"
  from assms rp nf obtain out def per inp where st: "step_once (env_ext E) (env_stack E) (env_sink E)
      (eval_ctx frame now rp pid) (body (rp_program rp)) cursor (deferred rp) (sch_perception s, sch_input s)
      = Some (out, def, per, inp)"
    by (auto simp: body_one_def cursor_def Let_def split: option.splits)
  let ?s1 = "s\<lparr>sch_perception := per, sch_input := inp\<rparr>" and ?rp1 = "rp\<lparr>deferred := def\<rparr>"
  let ?rp2 = "?rp1\<lparr>body_cursor := Some (u32_succ cursor)\<rparr>"
  have io: "tick_rel E s ?s1"
    by (rule tick_rel_io) (use step_once_calls [OF st] in \<open>auto intro: call_reach\<close>)
  have put: "tick_rel E ?s1 (put_program pid r ?s1)" if "same_code rp r" "rp_state r = Running" for r
    using rp that by (intro tick_rel_put [of _ _ rp]) auto
  have comp: "tick_rel E ?s1 (complete_program E pid r ?s1)" if "same_code rp r" for r
    using rp that by (intro complete_program_rel) auto
  have fail: "tick_rel E ?s1 (emit E (ProgramFailed pid c st em) (put_program pid (?rp1\<lparr>rp_state := Failed\<rparr>) ?s1))" for c st em
    using rp by (intro tick_rel_put_emit) (auto simp: same_code_def sched_simps states_Some)
  have codes: "same_code rp ?rp1" "same_code rp ?rp2" "rp_state ?rp1 = Running" "rp_state ?rp2 = Running"
    using rp by (simp_all add: same_code_def)
  have "tick_rel E ?s1 s'"
    using assms rp nf st put [OF codes(1,3)] put [OF codes(2,4)] comp [OF codes(1)] comp [OF codes(2)] fail
    by (auto simp: body_one_def cursor_def [symmetric] Let_def split: StepOutcome.splits if_splits)
  with io show ?thesis by (rule tick_rel_trans)
qed

text \<open>The whole tick.\<close>

lemma statics_code:
  assumes "statics s' = statics s" "sch_programs s' pid = Some rp'"
  shows "\<exists>rp. sch_programs s pid = Some rp \<and> same_code rp rp'"
proof -
  from assms(1) have "statics s' pid = statics s pid" by simp
  with assms(2) show ?thesis by (cases "sch_programs s pid") (auto simp: statics_def same_code_def)
qed

lemma statics_small: "statics s' = statics s \<Longrightarrow> all_small s \<Longrightarrow> all_small s'"
  unfolding all_small_def by (metis same_code_def statics_code)

lemma clock_now_rel: "clock_now E s = (now, s') \<Longrightarrow> tick_rel E s s'"
  by (auto simp: clock_now_def tick_rel_def sched_simps intro: sink_refl exI [of _ "[]"])

lemma tick_once_rel:
  assumes "distinct it" "all_small s" "tick_once E cap it s = Some s'"
  shows "tick_rel E s s'"
proof (cases cap)
  case None
  with assms(3) show ?thesis by (auto simp: tick_once_def intro: tick_rel_emit)
next
  case (Some frame)
  obtain now s0 where c: "clock_now E (s\<lparr>sch_perception := perception_clear (sch_perception s)\<rparr>) = (now, s0)"
    by fastforce
  from assms(3) Some c obtain s1 where s1: "trigger_phase E frame now it s0 = Some s1"
    by (auto simp: tick_once_def split: option.splits)
  let ?run = "ids_in_state Running it s1"
  from assms(3) Some c s1 obtain ta da s2 where w: "watch_phase E frame now ?run s1 = Some ta"
    and d: "dispatch_phase E frame now ta = Some da"
    and b: "bookkeeping_phase now (ta_evals ta) (da_fired da) (da_sched da) = Some s2"
    and bd: "each_id (body_one E frame now (da_failed da)) ?run s2 = Some s'"
    by (auto simp: tick_once_def Let_def split: option.splits)
  have r1: "tick_rel E s s1"
    using tick_rel_perception clock_now_rel [OF c] trigger_phase_rel [OF assms(1) s1] by (blast intro: tick_rel_trans)
  then have sm: "all_small s1" using assms(2) statics_small by (auto simp: tick_rel_def)
  have acc: "acc_ok E frame now s1 ?run ta" by (rule watch_phase_acc [OF sm ids_in_state_distinct [OF assms(1)] w])
  have r2: "tick_rel E s1 (da_sched da)" by (rule dispatch_phase_rel [OF acc _ d]) (simp add: ids_in_state_set)
  have r3: "tick_rel E s2 s'"
    by (rule each_id_rel [where P = "\<lambda>_ _. True", OF _ _ _ _ _ bd])
      (auto intro: tick_rel_trans body_one_rel simp: ids_in_state_distinct assms(1))
  from r1 r2 bookkeeping_rel [OF b] r3 show ?thesis by (blast intro: tick_rel_trans)
qed

end
