(* ===== verification/Scheduler_Safety.thy ===== *)
theory Scheduler_Safety
  imports Scheduler_Lemmas
begin

text \<open>
  Reachable schedulers.  Commands carry programs that the validator accepted; from there on
  no tick panics or exhausts the evaluator's stack, and the event stream determines every
  program's state.
\<close>

section \<open>Programs that the scheduler runs\<close>

text \<open>
  The runtime evaluates an inline condition under the key \<open>__inline_<idx>\<close>, the validator
  under another name; \<open>inline_free\<close> says that the program does not use the runtime's keys.
\<close>

definition inline_free :: "Program \<Rightarrow> bool" where
  "inline_free p \<longleftrightarrow> (\<forall>i < length (watches p). map_of (predicates p) (inline_key i) = None)"

definition prog_ok :: "nat \<Rightarrow> Program \<Rightarrow> bool" where
  "prog_ok stack p \<longleftrightarrow> program_ok p \<and> inline_free p \<and> length (predicates p) < stack \<and> small_watches (watches p)"

definition sched_ok :: "'i Env \<Rightarrow> 'i Sched \<Rightarrow> bool" where
  "sched_ok E s \<longleftrightarrow> (\<forall>pid rp. sch_programs s pid = Some rp \<longrightarrow> prog_ok (env_stack E) (rp_program rp))"

definition env_ok :: "'i Env \<Rightarrow> bool" where
  "env_ok E \<longleftrightarrow> resize_ok (env_ext E)"

lemma sched_ok_statics: "sched_ok E s \<Longrightarrow> statics s' = statics s \<Longrightarrow> sched_ok E s'"
  unfolding sched_ok_def by (metis same_code_def statics_code)

lemma sched_ok_small: "sched_ok E s \<Longrightarrow> all_small s"
  by (auto simp: sched_ok_def all_small_def prog_ok_def)

section \<open>Inline conditions\<close>

lemma well_shaped_edges:
  "well_shaped P \<Longrightarrow> map_of P a = Some q \<Longrightarrow> b \<in> set (edges_of q) \<Longrightarrow> b \<in> set (map fst P)"
  by (fastforce simp: well_shaped_def dest: map_of_SomeD)

lemma map_of_keys: "b \<in> set (map fst P) \<longleftrightarrow> (\<exists>q. map_of P b = Some q)"
  by (metis map_of_eq_None_iff not_None_eq set_map)

lemma btree_insert_set: "(a, q) \<in> set (btree_insert k p P) \<Longrightarrow> (a, q) = (k, p) \<or> (a, q) \<in> set P"
  by (induction k p P rule: btree_insert.induct) (auto split: if_splits)

lemma graph_ok_insert:
  assumes ok: "graph_ok P" and k: "map_of P k = None"
    and p: "logical_nonempty p" "set (edges_of p) \<subseteq> set (map fst P)"
  shows "graph_ok (btree_insert k p P)"
proof -
  let ?Q = "btree_insert k p P" and ?B = "set (map fst P)"
  have ws: "well_shaped P" and ac: "acyclic (dep_rel P)" using ok by (simp_all add: graph_ok_def)
  have kB: "k \<notin> ?B" using k by (simp add: map_of_eq_None_iff)
  have dom: "\<And>b. b \<in> ?B \<longleftrightarrow> (\<exists>q. map_of P b = Some q)" by (rule map_of_keys)
  have mQ: "map_of ?Q = (map_of P)(k \<mapsto> p)" by (rule map_of_btree_insert)
  have old: "dep_rel ?Q \<inter> ?B \<times> UNIV = dep_rel P"
  proof (rule set_eqI, clarify)
    fix a b
    show "(a, b) \<in> dep_rel ?Q \<inter> ?B \<times> UNIV \<longleftrightarrow> (a, b) \<in> dep_rel P"
    proof
      assume h: "(a, b) \<in> dep_rel ?Q \<inter> ?B \<times> UNIV"
      then have a: "a \<in> ?B" "a \<noteq> k" using kB by auto
      with h obtain q where q: "map_of P a = Some q" "b \<in> set (edges_of q)" by (auto simp: dep_rel_def mQ)
      with well_shaped_edges [OF ws] have "b \<in> ?B" by blast
      with q dom show "(a, b) \<in> dep_rel P" by (auto simp: dep_rel_def)
    next
      assume "(a, b) \<in> dep_rel P"
      then obtain q r where "map_of P a = Some q" "b \<in> set (edges_of q)" "map_of P b = Some r"
        by (auto simp: dep_rel_def)
      moreover from this have "a \<in> ?B" "a \<noteq> k" "b \<noteq> k" using dom k by auto
      ultimately show "(a, b) \<in> dep_rel ?Q \<inter> ?B \<times> UNIV" by (auto simp: dep_rel_def mQ)
    qed
  qed
  have "acyclic (dep_rel ?Q \<inter> insert k ?B \<times> UNIV)"
  proof (rule acyclic_add_source)
    show "acyclic (dep_rel ?Q \<inter> ?B \<times> UNIV)" using ac old by simp
    show "b \<in> ?B" if "(a, b) \<in> dep_rel ?Q" "a \<in> ?B" for a b
      using that kB well_shaped_edges [OF ws, of a] by (auto simp: dep_rel_def mQ split: if_splits)
    show "b \<in> ?B" if "(k, b) \<in> dep_rel ?Q" for b
      using that p(2) by (auto simp: dep_rel_def mQ)
  qed
  moreover have "dep_rel ?Q \<subseteq> insert k ?B \<times> UNIV" using dom by (auto simp: dep_rel_def mQ split: if_splits)
  ultimately have ac': "acyclic (dep_rel ?Q)" by (simp add: Int_absorb2)
  have "logical_nonempty q \<and> set (edges_of q) \<subseteq> set (map fst ?Q)" if "(a, q) \<in> set ?Q" for a q
  proof -
    have "logical_nonempty q \<and> set (edges_of q) \<subseteq> ?B"
      using btree_insert_set [OF that] ws p by (auto simp: well_shaped_def simp del: set_map)
    then show ?thesis unfolding btree_keys_insert by blast
  qed
  then have "well_shaped ?Q" unfolding well_shaped_def by blast
  with ac' show ?thesis by (simp add: graph_ok_def)
qed

lemma inline_graph_ok:
  assumes "graph_ok P" "when_ok P (Inline p)" "map_of P k = None"
  shows "graph_ok (btree_insert k p P)"
proof (rule graph_ok_insert [OF assms(1,3)])
  let ?Q = "btree_insert synthetic_name p P"
  from assms(2) have Q: "graph_ok ?Q" "map_of ?Q synthetic_name = Some p"
    by (simp_all add: when_ok_def map_of_btree_insert)
  then have ws: "well_shaped ?Q" by (simp add: graph_ok_def)
  from map_of_SomeD [OF Q(2)] ws show "logical_nonempty p" by (auto simp: well_shaped_def)
  show "set (edges_of p) \<subseteq> set (map fst P)"
  proof
    fix b
    assume b: "b \<in> set (edges_of p)"
    have "b \<noteq> synthetic_name"
    proof
      assume "b = synthetic_name"
      with b Q(2) have "(synthetic_name, synthetic_name) \<in> dep_rel ?Q" by (auto simp: dep_rel_def)
      with Q(1) show False by (auto simp: graph_ok_def acyclic_def)
    qed
    with well_shaped_edges [OF ws Q(2) b] btree_keys_insert [of synthetic_name p P]
    show "b \<in> set (map fst P)" by auto
  qed
qed

lemma btree_insert_length: "length (btree_insert k p P) \<le> Suc (length P)"
  by (induction k p P rule: btree_insert.induct) auto

section \<open>No tick gets stuck\<close>

definition ctx_ok :: "'i Env \<Rightarrow> EvalCtx \<Rightarrow> bool" where
  "ctx_ok E c \<longleftrightarrow> frame_wf (ctx_frame c) \<and> graph_ok (ctx_predicates c) \<and> length (ctx_predicates c) \<le> env_stack E"

lemma evaluate_returns: "env_ok E \<Longrightarrow> ctx_ok E c \<Longrightarrow> evaluate_named (env_ext E) (env_stack E) n c per \<noteq> None"
  unfolding env_ok_def ctx_ok_def by (intro evaluate_named_returns) auto

lemma rt_evaluate_returns: "env_ok E \<Longrightarrow> ctx_ok E c \<Longrightarrow> rt_evaluate (env_ext E) (env_stack E) n c per \<noteq> None"
  using evaluate_returns by (auto simp: rt_evaluate_def)

lemma resolve_target_returns:
  "env_ok E \<Longrightarrow> ctx_ok E c \<Longrightarrow> resolve_target (env_ext E) (env_stack E) c t per \<noteq> None"
  using rt_evaluate_returns [of E c]
  by (auto simp: resolve_target_def simp del: not_None_eq split: Target.splits sum.splits option.splits RtAccessor.splits)

lemma act_at_returns: "env_ok E \<Longrightarrow> ctx_ok E c \<Longrightarrow> act_at (env_ext E) (env_stack E) snk c t f w \<noteq> None"
  using resolve_target_returns [of E c]
  by (auto simp: act_at_def simp del: not_None_eq split: option.splits sum.splits prod.splits)

lemma dispatch_action_returns:
  assumes "env_ok E" "ctx_ok E c"
  shows "dispatch_action (env_ext E) (env_stack E) snk c st w \<noteq> None"
  using act_at_returns [OF assms]
  by (cases st) (simp_all add: dispatch_action_def split_beta del: not_None_eq)

lemma step_once_returns:
  assumes "env_ok E" "ctx_ok E c"
  shows "step_once (env_ext E) (env_stack E) snk c bdy cursor def w \<noteq> None"
proof (cases def)
  case (Some d)
  then show ?thesis using rt_evaluate_returns [OF assms]
    by (auto simp: step_once_def step_deferred_def simp del: not_None_eq split: BodyDefer.splits option.splits sum.splits)
next
  case None
  show ?thesis
  proof (cases "bdy ! cursor")
    case (Assert p m)
    with None rt_evaluate_returns [OF assms] show ?thesis
      by (auto simp: step_once_def simp del: not_None_eq split: option.splits sum.splits)
  qed (simp_all add: None act_at_returns [OF assms] step_once_def dispatch_at_def split_beta del: not_None_eq)
qed

lemma eval_ctx_ok:
  assumes "prog_ok (env_stack E) (rp_program rp)" "frame_wf frame"
  shows "ctx_ok E (eval_ctx frame now rp pid)"
  using assms by (auto simp: ctx_ok_def eval_ctx_def prog_ok_def program_ok_def)

lemma trigger_one_returns:
  assumes "env_ok E" "frame_wf frame" "sched_ok E s" "sch_programs s pid \<noteq> None"
  shows "trigger_one E frame now pid s \<noteq> None"
proof -
  from assms(4) obtain rp where rp: "sch_programs s pid = Some rp" by auto
  with assms(3) have "prog_ok (env_stack E) (rp_program rp)" by (auto simp: sched_ok_def)
  from rt_evaluate_returns [OF assms(1) eval_ctx_ok [OF this assms(2)]] rp show ?thesis
    by (auto simp: trigger_one_def trigger_fires_def Let_def simp del: not_None_eq
        split: option.splits Trigger.splits sum.splits bool.splits)
qed

lemma eval_watch_returns:
  assumes "env_ok E" "ctx_ok E c" "\<And>p. when_cond w = Inline p \<Longrightarrow>
      ctx_ok E (c\<lparr>ctx_predicates := btree_insert (inline_key idx) p (ctx_predicates c)\<rparr>)"
  shows "eval_watch E c rp idx w ap \<noteq> None"
proof -
  have u: "until_tripped E c l per \<noteq> None" for l per
    using evaluate_returns [OF assms(1,2)] by (cases l) (simp_all add: until_tripped_def del: not_None_eq)
  have t: "when_truth E c idx (when_cond w) per \<noteq> None" for per
    using evaluate_returns [OF assms(1,2)] evaluate_returns [OF assms(1) assms(3)]
    by (cases "when_cond w") (simp_all add: when_truth_def del: not_None_eq)
  show ?thesis
    using u t by (auto simp: eval_watch_def Let_def simp del: not_None_eq
        split: prod.splits option.splits bool.splits)
qed

lemma eval_watches_returns:
  assumes "env_ok E" "frame_wf frame" "prog_ok (env_stack E) (rp_program rp)"
    and "ws = drop idx (watches (rp_program rp))"
  shows "eval_watches E (eval_ctx frame now rp pid) rp idx ws ap \<noteq> None"
  using assms(4)
proof (induction ws arbitrary: idx ap)
  case (Cons w ws)
  let ?P = "predicates (rp_program rp)" and ?c = "eval_ctx frame now rp pid"
  have idx: "idx < length (watches (rp_program rp))" using Cons.prems by (metis drop_eq_Nil list.distinct(1) not_le)
  with Cons.prems have w: "w \<in> set (watches (rp_program rp))" "ws = drop (Suc idx) (watches (rp_program rp))"
    by (metis in_set_dropD list.set_intros(1), metis Cons_nth_drop_Suc list.inject)
  have "eval_watch E ?c rp idx w ap' \<noteq> None" for ap'
  proof (rule eval_watch_returns [OF assms(1) eval_ctx_ok [OF assms(3,2)]])
    fix p
    assume "when_cond w = Inline p"
    with w(1) assms(3) have "when_ok ?P (Inline p)" by (auto simp: prog_ok_def program_ok_def)
    moreover have "map_of ?P (inline_key idx) = None" using assms(3) idx by (auto simp: prog_ok_def inline_free_def)
    ultimately have "graph_ok (btree_insert (inline_key idx) p ?P)"
      using assms(3) by (intro inline_graph_ok) (auto simp: prog_ok_def program_ok_def)
    with assms(2,3) btree_insert_length [of "inline_key idx" p ?P]
    show "ctx_ok E (?c\<lparr>ctx_predicates := btree_insert (inline_key idx) p (ctx_predicates ?c)\<rparr>)"
      by (simp add: ctx_ok_def eval_ctx_def prog_ok_def)
  qed
  with Cons.IH [OF w(2)] show ?case by (auto simp del: not_None_eq split: option.splits)
qed simp

lemma watch_phase_returns:
  assumes "env_ok E" "frame_wf frame" "sched_ok E s" "\<forall>q \<in> set running. sch_programs s q \<noteq> None"
  shows "watch_phase E frame now running s \<noteq> None"
proof -
  have "each_id (watch_one E frame now) qs a \<noteq> None"
    if "sch_programs (ta_sched a) = sch_programs s" "\<forall>q \<in> set qs. sch_programs s q \<noteq> None" for qs a
    using that
  proof (induction qs arbitrary: a)
    case (Cons q qs)
    then obtain rp where rp: "sch_programs s q = Some rp" by auto
    with assms(3) have "prog_ok (env_stack E) (rp_program rp)" by (auto simp: sched_ok_def)
    from eval_watches_returns [OF assms(1,2) this, of _ 0] rp Cons.prems(1)
    obtain b where b: "watch_one E frame now q a = Some b"
      by (fastforce simp: watch_one_def Let_def split: option.splits)
    have "sch_programs (ta_sched b) = sch_programs s"
      using b Cons.prems(1) by (auto simp: watch_one_def Let_def split: option.splits list.splits if_splits)
    from Cons.IH [OF this] Cons.prems(2) b show ?case by simp
  qed simp
  with assms(4) show ?thesis by (simp add: watch_phase_def)
qed

lemma run_steps_returns:
  assumes "env_ok E" "ctx_ok E c"
  shows "run_steps E c pid sts s \<noteq> None"
proof (induction sts arbitrary: s)
  case (Cons st sts)
  then show ?case using dispatch_action_returns [OF assms, of "env_sink E" st]
    by (auto simp: Let_def simp del: not_None_eq split: option.splits sum.splits)
qed simp

lemma dispatch_all_returns:
  assumes "env_ok E" "frame_wf frame"
  shows "sched_ok E (da_sched a) \<Longrightarrow> distinct (map dec_program ds) \<Longrightarrow>
    \<forall>d \<in> set ds. states (da_sched a) (dec_program d) = Some Running \<Longrightarrow> dispatch_all E frame now ds a \<noteq> None"
proof (induction ds arbitrary: a)
  case (Cons d ds)
  from Cons.prems(3) obtain rp where rp: "sch_programs (da_sched a) (dec_program d) = Some rp"
    by (auto simp: states_Some)
  with Cons.prems(1) have ok: "prog_ok (env_stack E) (rp_program rp)" by (auto simp: sched_ok_def)
  have "dispatch_one E frame now d a \<noteq> None"
    using run_steps_returns [OF assms(1) eval_ctx_ok [OF ok assms(2)]] rp
    by (auto simp: dispatch_one_def Let_def simp del: not_None_eq split: option.splits prod.splits)
  then obtain b where b: "dispatch_one E frame now d a = Some b" by auto
  note one = dispatch_one_rel [OF b]
  have "tick_rel E (da_sched a) (da_sched b)" using one(1) Cons.prems(3) by simp
  then have "sched_ok E (da_sched b)" using Cons.prems(1) by (auto simp: tick_rel_def intro: sched_ok_statics)
  moreover have "\<forall>e \<in> set ds. states (da_sched b) (dec_program e) = Some Running"
    using Cons.prems(2,3) one(2) by (auto simp: states_def image_iff)
  ultimately have "dispatch_all E frame now ds b \<noteq> None" using Cons.prems(2) by (intro Cons.IH) auto
  with b show ?case by simp
qed simp

text \<open>Watches reported as fired exist, so bookkeeping finds them.\<close>

definition fired_ok :: "'i Sched \<Rightarrow> ProgramId \<times> u32 \<Rightarrow> bool" where
  "fired_ok s f \<longleftrightarrow> (\<exists>p as. statics s (fst f) = Some (p, as) \<and> snd f < length (watches p))"

definition due :: "'i Env \<Rightarrow> Frame \<Rightarrow> UnixMs \<Rightarrow> 'i Sched \<Rightarrow> ProgramId \<times> u32 \<Rightarrow> bool" where
  "due E frame now s f \<longleftrightarrow> (\<exists>rp st os. sch_programs s (fst f) = Some rp \<and> fire_ok E frame now rp (snd f, st, os))"

lemma due_fired: "due E frame now s f \<Longrightarrow> fired_ok s f"
  by (auto simp: due_def fired_ok_def statics_def fire_ok_def Let_def)

lemma dispatch_one_fired:
  assumes "dispatch_one E frame now d a = Some a'"
  shows "set (da_fired a') \<subseteq> insert (dec_program d, fst (dec_payload d)) (set (da_fired a))"
  using assms by (auto simp: dispatch_one_def Let_def split: prod.splits if_splits option.splits)

lemma dispatch_all_fired:
  "dispatch_all E frame now ds a = Some a' \<Longrightarrow>
     set (da_fired a') \<subseteq> set (da_fired a) \<union> (\<lambda>d. (dec_program d, fst (dec_payload d))) ` set ds"
proof (induction ds arbitrary: a)
  case (Cons d ds)
  from Cons.prems obtain b where b: "dispatch_one E frame now d a = Some b" "dispatch_all E frame now ds b = Some a'"
    by (auto split: option.splits)
  from Cons.IH [OF b(2)] dispatch_one_fired [OF b(1)] show ?case by auto
qed simp

lemma direct_fired: "da_fired (fold (direct_fire E) fs a) = da_fired a @ fs"
  by (induction fs arbitrary: a) (auto simp: direct_fire_def)

lemma resolve_pairs:
  "(\<lambda>d. (dec_program d, dec_payload d)) ` set (resolve cs) = (\<lambda>c. (cand_program c, cand_payload c)) ` set cs"
  by (force simp: resolve_map Let_def image_iff)

lemma dispatch_phase_fired:
  assumes "acc_ok E frame now s running ta" "dispatch_phase E frame now ta = Some da"
  shows "\<forall>f \<in> set (da_fired da). due E frame now s f"
proof
  fix f
  assume "f \<in> set (da_fired da)"
  moreover from assms(2) have "dispatch_all E frame now (resolve (ta_candidates ta))
      (fold (direct_fire E) (ta_direct ta) \<lparr>da_sched = ta_sched ta, da_fired = [], da_failed = []\<rparr>) = Some da"
    by (simp add: dispatch_phase_def)
  from dispatch_all_fired [OF this] have "set (da_fired da) \<subseteq> set (ta_direct ta) \<union>
      (\<lambda>d. (dec_program d, fst (dec_payload d))) ` set (resolve (ta_candidates ta))"
    by (simp add: direct_fired)
  ultimately consider "f \<in> set (ta_direct ta)" |
    d where "d \<in> set (resolve (ta_candidates ta))" "f = (dec_program d, fst (dec_payload d))" by blast
  then show "due E frame now s f"
  proof cases
    case 1
    with assms(1) have "direct_ok E frame now s f" by (simp add: acc_ok_def)
    then show ?thesis unfolding direct_ok_def due_def by blast
  next
    case 2
    then have "(dec_program d, dec_payload d) \<in> (\<lambda>d. (dec_program d, dec_payload d)) ` set (resolve (ta_candidates ta))"
      by blast
    then obtain c where c: "c \<in> set (ta_candidates ta)" "f = (cand_program c, fst (cand_payload c))"
      unfolding resolve_pairs using 2 by auto
    with assms(1) have "cand_ok E frame now s c" by (auto simp: acc_ok_def)
    then obtain rp where "sch_programs s (cand_program c) = Some rp" "fire_ok E frame now rp (cand_payload c)"
      by (auto simp: cand_ok_def)
    then have "sch_programs s (fst f) = Some rp \<and> fire_ok E frame now rp (snd f, fst (snd (cand_payload c)), snd (snd (cand_payload c)))"
      using c(2) by simp
    then show ?thesis unfolding due_def by blast
  qed
qed

lemma each_opt_returns:
  assumes "\<And>x s. P x s \<Longrightarrow> \<exists>s'. f x s = Some s' \<and> (\<forall>y. P y s \<longrightarrow> P y s')"
  shows "\<forall>x \<in> set xs. P x s \<Longrightarrow> each_opt f xs s \<noteq> None"
proof (induction xs arbitrary: s)
  case (Cons x xs)
  from assms [of x s] Cons.prems obtain s' where s': "f x s = Some s'" "\<forall>y. P y s \<longrightarrow> P y s'" by auto
  then have "each_opt f xs s' \<noteq> None" using Cons.prems by (intro Cons.IH) auto
  with s'(1) show ?case by simp
qed simp

lemma statics_dom: "statics s q = None \<longleftrightarrow> sch_programs s q = None"
  by (simp add: statics_def)

lemma bookkeeping_returns:
  assumes "\<forall>e \<in> set evals. sch_programs s (fst e) \<noteq> None" "\<forall>f \<in> set fired. fired_ok s f"
  shows "bookkeeping_phase now evals fired s \<noteq> None"
proof -
  have "each_opt apply_eval evals s \<noteq> None"
  proof (rule each_opt_returns [where P = "\<lambda>e s. statics s (fst e) \<noteq> None"])
    show "\<exists>s'. apply_eval e s = Some s' \<and> (\<forall>y. statics s (fst y) \<noteq> None \<longrightarrow> statics s' (fst y) \<noteq> None)"
      if "statics s (fst e) \<noteq> None" for e s
    proof -
      from that obtain s' where s': "apply_eval e s = Some s'"
        by (cases e) (auto simp: apply_eval_def statics_def)
      have "statics s' = statics s" using apply_eval_rel [OF s'] by (simp add: tick_rel_def)
      with s' show ?thesis by auto
    qed
  qed (use assms(1) in \<open>simp add: statics_dom\<close>)
  then obtain t where t: "each_opt apply_eval evals s = Some t" by auto
  have st: "statics t = statics s"
    by (rule each_opt_rel [where R = "\<lambda>s s'. statics s' = statics s", OF _ _ _ t]) (auto dest: apply_eval_rel simp: tick_rel_def)
  have "each_opt (apply_fire now) fired t \<noteq> None"
  proof (rule each_opt_returns [where P = "\<lambda>f s. fired_ok s f"])
    show "\<exists>s'. apply_fire now f s = Some s' \<and> (\<forall>y. fired_ok s y \<longrightarrow> fired_ok s' y)" if "fired_ok s f" for f s
    proof -
      from that obtain s' where s': "apply_fire now f s = Some s'"
        by (auto simp: apply_fire_def fired_ok_def statics_def split: option.splits)
      have "statics s' = statics s" using apply_fire_rel [OF s'] by (simp add: tick_rel_def)
      with s' show ?thesis by (auto simp: fired_ok_def)
    qed
  qed (use assms(2) st in \<open>simp add: fired_ok_def\<close>)
  with t show ?thesis by (simp add: bookkeeping_phase_def)
qed

lemma body_one_returns:
  assumes "env_ok E" "frame_wf frame" "sched_ok E s" "sch_programs s pid \<noteq> None"
  shows "body_one E frame now failed pid s \<noteq> None"
proof -
  from assms(4) obtain rp where rp: "sch_programs s pid = Some rp" by auto
  with assms(3) have "prog_ok (env_stack E) (rp_program rp)" by (auto simp: sched_ok_def)
  from step_once_returns [OF assms(1) eval_ctx_ok [OF this assms(2)], of "env_sink E"] rp show ?thesis
    by (auto simp: body_one_def Let_def simp del: not_None_eq split: option.splits prod.splits)
qed

text \<open>A loop over programs returns when its body does and keeps programs and assets.\<close>

lemma each_id_returns:
  assumes "\<And>q s. sched_ok E s \<Longrightarrow> sch_programs s q \<noteq> None \<Longrightarrow> P q s \<Longrightarrow> f q s \<noteq> None"
    and "\<And>q s s'. P q s \<Longrightarrow> f q s = Some s' \<Longrightarrow> tick_rel E s s' \<and> (\<forall>p. p \<noteq> q \<longrightarrow> P p s \<longrightarrow> P p s')"
  shows "sched_ok E s \<Longrightarrow> distinct qs \<Longrightarrow> \<forall>q \<in> set qs. sch_programs s q \<noteq> None \<and> P q s \<Longrightarrow> each_id f qs s \<noteq> None"
proof (induction qs arbitrary: s)
  case (Cons q qs)
  from Cons.prems obtain s' where s': "f q s = Some s'" using assms(1) [of s q] by auto
  with assms(2) [OF _ s'] Cons.prems have r: "tick_rel E s s'" "\<forall>p. p \<noteq> q \<longrightarrow> P p s \<longrightarrow> P p s'" by simp_all
  have st: "statics s' = statics s" using r(1) by (simp add: tick_rel_def)
  have "sched_ok E s'" using Cons.prems(1) st by (rule sched_ok_statics)
  moreover have "\<forall>p \<in> set qs. sch_programs s' p \<noteq> None \<and> P p s'"
    using Cons.prems(2,3) r(2) st statics_dom by (metis distinct.simps(2) list.set_intros(2))
  ultimately have "each_id f qs s' \<noteq> None" using Cons.prems(2) by (intro Cons.IH) auto
  with s' show ?case by simp
qed simp

lemma tick_once_returns:
  assumes E: "env_ok E" and s: "sched_ok E s" and it: "distinct it"
    and cap: "\<And>f. cap = Some f \<Longrightarrow> frame_wf f"
  shows "tick_once E cap it s \<noteq> None"
proof (cases cap)
  case None
  then show ?thesis by (simp add: tick_once_def)
next
  case (Some frame)
  note fw = cap [OF Some]
  obtain now s0 where c: "clock_now E (s\<lparr>sch_perception := perception_clear (sch_perception s)\<rparr>) = (now, s0)"
    by fastforce
  have r0: "tick_rel E s s0" using tick_rel_perception clock_now_rel [OF c] by (blast intro: tick_rel_trans)
  then have ok0: "sched_ok E s0" using s by (auto simp: tick_rel_def intro: sched_ok_statics)
  have "trigger_phase E frame now it s0 \<noteq> None"
    unfolding trigger_phase_def
  proof (rule each_id_returns [where P = "\<lambda>q s. states s q = Some Waiting", OF _ _ ok0])
    show "tick_rel E s s' \<and> (\<forall>p. p \<noteq> q \<longrightarrow> states s p = Some Waiting \<longrightarrow> states s' p = Some Waiting)"
      if "states s q = Some Waiting" "trigger_one E frame now q s = Some s'" for q s s'
      using trigger_one_rel [OF that] by (auto simp: states_def)
  qed (use trigger_one_returns [OF E fw] in \<open>auto simp: it ids_in_state_distinct ids_in_state_set states_def\<close>)
  then obtain s1 where s1: "trigger_phase E frame now it s0 = Some s1" by auto
  let ?run = "ids_in_state Running it s1"
  have ok1: "sched_ok E s1" using ok0 trigger_phase_rel [OF it s1] by (auto simp: tick_rel_def intro: sched_ok_statics)
  have run: "\<forall>q \<in> set ?run. sch_programs s1 q \<noteq> None" by (auto simp: ids_in_state_set states_def)
  obtain ta where w: "watch_phase E frame now ?run s1 = Some ta"
    using watch_phase_returns [OF E fw ok1 run] by auto
  have acc: "acc_ok E frame now s1 ?run ta" by (rule watch_phase_acc [OF sched_ok_small [OF ok1] ids_in_state_distinct [OF it] w])
  let ?a1 = "fold (direct_fire E) (ta_direct ta) \<lparr>da_sched = ta_sched ta, da_fired = [], da_failed = []\<rparr>"
  have pr: "sch_programs (da_sched ?a1) = sch_programs s1"
    using direct_fires_rel [of E "\<lparr>da_sched = ta_sched ta, da_fired = [], da_failed = []\<rparr>" "ta_direct ta"] acc
    by (auto simp: acc_ok_def)
  have "dispatch_phase E frame now ta \<noteq> None"
    unfolding dispatch_phase_def
  proof (rule dispatch_all_returns [OF E fw])
    show "sched_ok E (da_sched ?a1)" using ok1 pr by (simp add: sched_ok_def)
    show "distinct (map dec_program (resolve (ta_candidates ta)))" using acc by (simp add: resolve_programs acc_ok_def)
    have "dec_program ` set (resolve (ta_candidates ta)) = cand_program ` set (ta_candidates ta)"
      by (simp add: resolve_programs flip: set_map)
    moreover have "cand_program ` set (ta_candidates ta) \<subseteq> set ?run" using acc by (auto simp: acc_ok_def)
    ultimately have "dec_program d \<in> set ?run" if "d \<in> set (resolve (ta_candidates ta))" for d
      using that by blast
    then show "\<forall>d \<in> set (resolve (ta_candidates ta)). states (da_sched ?a1) (dec_program d) = Some Running"
      by (auto simp: ids_in_state_set states_def pr)
  qed
  then obtain da where d: "dispatch_phase E frame now ta = Some da" by auto
  have r2: "tick_rel E s1 (da_sched da)" by (rule dispatch_phase_rel [OF acc _ d]) (simp add: ids_in_state_set)
  have st2: "statics (da_sched da) = statics s1" using r2 by (simp add: tick_rel_def)
  have "bookkeeping_phase now (ta_evals ta) (da_fired da) (da_sched da) \<noteq> None"
  proof (rule bookkeeping_returns)
    have "fst ` set (ta_evals ta) = set ?run" using acc by (simp add: acc_ok_def flip: set_map)
    then show "\<forall>e \<in> set (ta_evals ta). sch_programs (da_sched da) (fst e) \<noteq> None"
      using run st2 statics_dom by (metis image_eqI)
    show "\<forall>f \<in> set (da_fired da). fired_ok (da_sched da) f"
      using dispatch_phase_fired [OF acc d] due_fired [of E frame now s1] unfolding fired_ok_def st2 by blast
  qed
  then obtain s2 where b: "bookkeeping_phase now (ta_evals ta) (da_fired da) (da_sched da) = Some s2" by auto
  have st3: "statics s2 = statics s1" using bookkeeping_rel [OF b, of E] st2 by (simp add: tick_rel_def)
  have "each_id (body_one E frame now (da_failed da)) ?run s2 \<noteq> None"
  proof (rule each_id_returns [where P = "\<lambda>_ _. True", OF _ _ sched_ok_statics [OF ok1 st3]])
    show "\<forall>q \<in> set ?run. sch_programs s2 q \<noteq> None \<and> True"
      using run by (simp add: st3 flip: statics_dom)
  qed (auto simp: ids_in_state_distinct it body_one_returns [OF E fw] simp del: not_None_eq intro: body_one_rel)
  with Some c s1 w d b show ?thesis by (simp add: tick_once_def Let_def)
qed

section \<open>Reachable schedulers\<close>

definition cmd_ok :: "'i Env \<Rightarrow> SchedulerCommand \<Rightarrow> bool" where
  "cmd_ok E c = (case c of SubmitValidated _ p _ \<Rightarrow> prog_ok (env_stack E) p
     | ResumeRunning _ _ p _ \<Rightarrow> prog_ok (env_stack E) p | _ \<Rightarrow> True)"

inductive reachable :: "'i Env \<Rightarrow> 'i Sched \<Rightarrow> bool" for E where
  reach_init: "reachable E (sched_new i perception_new)"
| reach_cmd: "reachable E s \<Longrightarrow> cmd_ok E c \<Longrightarrow> reachable E (exec_command E c s)"
| reach_tick: "reachable E s \<Longrightarrow> distinct it \<Longrightarrow> set it = dom (sch_programs s) \<Longrightarrow>
    tick_once E cap it s = Some s' \<Longrightarrow> reachable E s'"

lemma clock_now_simps [sched_simps]:
  "sch_programs (snd (clock_now E s)) = sch_programs s" "sch_events (snd (clock_now E s)) = sch_events s"
  "states (snd (clock_now E s)) = states s" "sch_input (snd (clock_now E s)) = sch_input s"
  by (simp_all add: clock_now_def sched_simps)

lemma pending_simps [simp]: "rp_program (pending_with_assets p as) = p" "rp_assets (pending_with_assets p as) = as"
  by (simp_all add: pending_with_assets_def)

lemma exec_command_programs:
  "sched_ok E s \<Longrightarrow> cmd_ok E c \<Longrightarrow> sched_ok E (exec_command E c s)"
  by (cases c) (auto simp: exec_command_def sched_ok_def cmd_ok_def Let_def sched_simps split_beta
      split: option.splits if_splits)

text \<open>Commands, too, announce every state change.\<close>

lemma exec_command_mirror:
  "\<exists>es. sch_events (exec_command E c s) = sch_events s @ es \<and> states (exec_command E c s) = replay es (states s)"
proof (cases c)
  case (SubmitValidated pid p as)
  then show ?thesis by (auto simp: exec_command_def Let_def sched_simps)
next
  case (CancelCmd pid reason)
  then show ?thesis
    by (cases "sch_programs s pid") (auto simp: exec_command_def sched_simps intro: exI [of _ "[]"])
next
  case (StartCmd pid)
  then show ?thesis
    by (cases "sch_programs s pid") (auto simp: exec_command_def split_beta sched_simps intro: exI [of _ "[]"])
next
  case (ResumeRunning pid n p as)
  then show ?thesis by (auto simp: exec_command_def Let_def split_beta sched_simps)
next
  case ShutdownCmd
  then show ?thesis by (auto simp: exec_command_def intro: exI [of _ "[]"])
qed

lemma reachable_inv: "reachable E s \<Longrightarrow> sched_ok E s \<and> states s = replay (sch_events s) Map.empty"
proof (induction rule: reachable.induct)
  case (reach_init i)
  show ?case by (auto simp: sched_new_def sched_ok_def states_def)
next
  case (reach_cmd s c)
  obtain es where "sch_events (exec_command E c s) = sch_events s @ es" "states (exec_command E c s) = replay es (states s)"
    using exec_command_mirror by blast
  with reach_cmd exec_command_programs show ?case by auto
next
  case (reach_tick s it cap s')
  have "tick_rel E s s'"
    using reach_tick by (intro tick_once_rel) (auto intro: sched_ok_small)
  then obtain es where "sch_events s' = sch_events s @ es" "states s' = replay es (states s)" "statics s' = statics s"
    unfolding tick_rel_def by blast
  with reach_tick show ?case by (auto intro: sched_ok_statics)
qed

lemma reachable_tick_returns:
  assumes "reachable E s" "env_ok E" "distinct it" "\<And>f. cap = Some f \<Longrightarrow> frame_wf f"
  shows "\<exists>s'. tick_once E cap it s = Some s'"
  using tick_once_returns [OF assms(2) conjunct1 [OF reachable_inv [OF assms(1)]] assms(3), of cap] assms(4)
  by blast

section \<open>The kill switch\<close>

context input_sink
begin

lemma reach_halted: "sink_reach call i j \<Longrightarrow> halted i \<Longrightarrow> posted j = posted i \<and> halted j"
  by (induction rule: sink_reach.induct) (auto simp: halted_stays error_posts_nothing [OF halt_first])

lemma tick_halted:
  assumes "env_sink E = call" "distinct it" "all_small s" "tick_once E cap it s = Some s'" "halted (sch_input s)"
  shows "posted (sch_input s') = posted (sch_input s)"
  using tick_once_rel [OF assms(2-4)] assms(1,5) reach_halted by (auto simp: tick_rel_def)

end

section \<open>Traces of a tick\<close>

text \<open>In a legal trace a terminal program stays as it is and only running programs complete.\<close>

lemma trace_terminal:
  "trace_ok st es \<Longrightarrow> st pid = Some x \<Longrightarrow> is_terminal x \<Longrightarrow> replay es st pid = Some x"
proof (induction es arbitrary: st)
  case (Cons e es)
  have "apply_event (ev_data e) st pid = Some x"
    using Cons.prems by (cases "ev_data e") (auto split: if_splits)
  with Cons show ?case by simp
qed simp

lemma trace_no_events:
  "trace_ok st es \<Longrightarrow> st pid = Some x \<Longrightarrow> is_terminal x \<Longrightarrow> x \<noteq> Completed \<Longrightarrow> e \<in> set es \<Longrightarrow>
   (\<forall>f t r. ev_data e \<noteq> ProgramStateChanged pid f t r) \<and> (\<forall>r s m. ev_data e \<noteq> ProgramFailed pid r s m)"
proof (induction es arbitrary: st)
  case (Cons a es)
  have "apply_event (ev_data a) st pid = Some x"
    using Cons.prems by (cases "ev_data a") (auto split: if_splits)
  with Cons show ?case by auto
qed simp

lemma trace_moves:
  "trace_ok st es \<Longrightarrow> st pid = Some x \<Longrightarrow> \<exists>y. replay es st pid = Some y \<and>
     (y = x \<or> (x = Waiting \<and> y \<in> {Running, Completed, Failed}) \<or> (x = Running \<and> y \<in> {Completed, Failed}))"
proof (induction es arbitrary: st x)
  case (Cons e es)
  have "\<exists>z. apply_event (ev_data e) st pid = Some z \<and>
      (z = x \<or> (x = Waiting \<and> z \<in> {Running, Failed}) \<or> (x = Running \<and> z \<in> {Completed, Failed}))"
    using Cons.prems by (cases "ev_data e") (auto split: if_split)
  then obtain z where z: "apply_event (ev_data e) st pid = Some z"
    "z = x \<or> (x = Waiting \<and> z \<in> {Running, Failed}) \<or> (x = Running \<and> z \<in> {Completed, Failed})" by blast
  from Cons.IH [of "apply_event (ev_data e) st" z] Cons.prems(1) z show ?case by auto
qed auto

end
