(* ===== verification/Scheduler_Watch.thy ===== *)
theory Scheduler_Watch
  imports Scheduler_Safety
begin

text \<open>
  Watches and bodies across ticks: a body advances by at most one step per tick, a watch
  that fires was due, is stamped with the tick's time and, when one-shot, retires for good;
  watch actions of one tick all belong to the arbiter's winner.
\<close>

section \<open>The phases of a tick\<close>

lemma tick_phases:
  assumes "tick_once E (Some frame) it s = Some s'"
  obtains now s0 s1 ta da s2 where
    "clock_now E (s\<lparr>sch_perception := perception_clear (sch_perception s)\<rparr>) = (now, s0)"
    "trigger_phase E frame now it s0 = Some s1"
    "watch_phase E frame now (ids_in_state Running it s1) s1 = Some ta"
    "dispatch_phase E frame now ta = Some da"
    "bookkeeping_phase now (ta_evals ta) (da_fired da) (da_sched da) = Some s2"
    "each_id (body_one E frame now (da_failed da)) (ids_in_state Running it s1) s2 = Some s'"
  using assms by (auto simp: tick_once_def Let_def split: option.splits prod.splits)

lemma clock_now_same:
  assumes "clock_now E (s\<lparr>sch_perception := p\<rparr>) = (now, s0)"
  shows "sch_programs s0 = sch_programs s" "sch_events s0 = sch_events s" "states s0 = states s" "statics s0 = statics s"
  using assms by (auto simp: clock_now_def sched_simps)

text \<open>Each phase in turn, seen through one field \<open>f\<close> of the programs.\<close>

definition keeps :: "(RunningProgram \<Rightarrow> 'a) \<Rightarrow> 'i Sched \<Rightarrow> 'i Sched \<Rightarrow> bool" where
  "keeps f s s' \<longleftrightarrow> (\<forall>q. map_option f (sch_programs s' q) = map_option f (sch_programs s q))"

lemma keeps_trans: "keeps f s t \<Longrightarrow> keeps f t u \<Longrightarrow> keeps f s u"
  by (simp add: keeps_def)

lemma keeps_refl [simp]: "keeps f s s"
  by (simp add: keeps_def)

lemma keeps_put: "sch_programs s pid = Some rp \<Longrightarrow> f rp' = f rp \<Longrightarrow> sch_programs t = sch_programs s \<Longrightarrow>
    keeps f s (put_program pid rp' t)"
  by (auto simp: keeps_def sched_simps)

lemma keepsD: "keeps f s s' \<Longrightarrow> sch_programs s q = Some rp \<Longrightarrow> \<exists>rp'. sch_programs s' q = Some rp' \<and> f rp' = f rp"
  unfolding keeps_def by (metis (no_types, lifting) map_option_eq_Some option.simps(9))

lemma keeps_same: "sch_programs t = sch_programs s \<Longrightarrow> keeps f s t"
  by (simp add: keeps_def)

lemma trigger_phase_others:
  assumes "distinct it" "trigger_phase E frame now it s = Some s'" "states s q \<noteq> Some Waiting"
  shows "sch_programs s' q = sch_programs s q"
proof -
  have "distinct ps \<Longrightarrow> \<forall>p \<in> set ps. states s p = Some Waiting \<Longrightarrow> q \<notin> set ps \<Longrightarrow>
      each_id (trigger_one E frame now) ps s = Some s' \<Longrightarrow> sch_programs s' q = sch_programs s q" for ps s
  proof (induction ps arbitrary: s)
    case (Cons p ps)
    from Cons.prems(4) obtain t where t: "trigger_one E frame now p s = Some t"
      "each_id (trigger_one E frame now) ps t = Some s'" by (auto split: option.splits)
    have other: "sch_programs t r = sch_programs s r" if "r \<noteq> p" for r
      using trigger_one_rel(2) [OF _ t(1) that] Cons.prems(2) by simp
    then have "states t r = states s r" if "r \<noteq> p" for r using that by (simp add: states_def)
    then have "\<forall>r \<in> set ps. states t r = Some Waiting" using Cons.prems(1,2) by (metis distinct.simps(2) list.set_intros(2))
    with Cons.IH [OF _ this _ t(2)] Cons.prems(1,3) other show ?case by auto
  qed simp
  from this [of "ids_in_state Waiting it s" s] assms show ?thesis
    by (simp add: trigger_phase_def ids_in_state_set ids_in_state_distinct)
qed

lemma dispatch_one_keeps:
  assumes "dispatch_one E frame now d a = Some a'" "\<And>rp. f (rp\<lparr>rp_state := Failed\<rparr>) = f rp"
  shows "keeps f (da_sched a) (da_sched a')"
proof -
  obtain idx steps os where pl: "dec_payload d = (idx, steps, os)" by (cases "dec_payload d") auto
  have r: "sch_programs s1 = sch_programs s" if "run_steps E c pid sts s = Some (r, s1)" for c pid sts s r s1
    using run_steps_rel [OF that] by simp
  from assms(1) pl show ?thesis
    by (auto simp: dispatch_one_def Let_def sched_simps keeps_def assms(2) dest!: r split: if_splits option.splits)
qed

lemma dispatch_phase_keeps:
  assumes "dispatch_phase E frame now ta = Some da" "\<And>rp. f (rp\<lparr>rp_state := Failed\<rparr>) = f rp"
    and "sch_programs (ta_sched ta) = sch_programs s"
  shows "keeps f s (da_sched da)"
proof -
  have "dispatch_all E frame now ds a = Some a' \<Longrightarrow> keeps f (da_sched a) (da_sched a')" for ds a a'
  proof (induction ds arbitrary: a)
    case (Cons d ds)
    from Cons.prems obtain b where b: "dispatch_one E frame now d a = Some b" "dispatch_all E frame now ds b = Some a'"
      by (auto split: option.splits)
    from dispatch_one_keeps [OF b(1)] assms(2) Cons.IH [OF b(2)] show ?case by (blast intro: keeps_trans)
  qed simp
  from this [OF assms(1) [unfolded dispatch_phase_def]] show ?thesis
    using direct_fires_rel [of E "\<lparr>da_sched = ta_sched ta, da_fired = [], da_failed = []\<rparr>" "ta_direct ta"] assms(3)
    by (auto simp: keeps_def)
qed

lemma fold_keeps: "(\<And>x rp. f (g x rp) = f rp) \<Longrightarrow> f (fold g xs rp) = f rp"
  by (induction xs arbitrary: rp) auto

lemma bookkeeping_keeps:
  assumes "bookkeeping_phase now evals fired s = Some s'" "\<And>i g rp. f (watch_entry i g rp) = f rp"
  shows "keeps f s s'"
proof -
  have ev: "keeps f s t" if "apply_eval e s = Some t" for e s t
  proof -
    obtain pid ts rs where e: "e = (pid, ts, rs)" by (cases e) auto
    let ?g1 = "\<lambda>(idx, t). watch_entry idx (\<lambda>w. w\<lparr>last_truthy := t\<rparr>)"
    let ?g2 = "\<lambda>idx. watch_entry idx (\<lambda>w. w\<lparr>retired := True\<rparr>)"
    have "f (fold ?g2 rs (fold ?g1 ts rp)) = f rp" for rp
      using fold_keeps [of f ?g2] fold_keeps [of f ?g1] assms(2) by (auto split: prod.splits)
    with that e show ?thesis
      by (auto simp: apply_eval_def keeps_def sched_simps split: option.splits)
  qed
  have fi: "keeps f s t" if "apply_fire now x s = Some t" for x s t
    using that assms(2) by (auto simp: apply_fire_def keeps_def sched_simps split: option.splits if_splits)
  obtain t where t: "each_opt apply_eval evals s = Some t" "each_opt (apply_fire now) fired t = Some s'"
    using assms(1) by (auto simp: bookkeeping_phase_def split: option.splits)
  have "keeps f s t" by (rule each_opt_rel [OF _ _ _ t(1)]) (auto intro: keeps_trans ev)
  moreover have "keeps f t s'" by (rule each_opt_rel [OF _ _ _ t(2)]) (auto intro: keeps_trans fi)
  ultimately show ?thesis by (rule keeps_trans)
qed

section \<open>One body step per tick\<close>

definition cursor_of :: "RunningProgram \<Rightarrow> u32" where
  "cursor_of rp = (case body_cursor rp of Some n \<Rightarrow> n | None \<Rightarrow> 0)"

definition cursor_step :: "RunningProgram \<Rightarrow> RunningProgram \<Rightarrow> bool" where
  "cursor_step rp rp' \<longleftrightarrow> body_cursor rp' = body_cursor rp \<or> body_cursor rp' = Some (u32_succ (cursor_of rp))"

lemma complete_simps [sched_simps]:
  "sch_programs (complete_program E pid rp s) = (sch_programs s)(pid \<mapsto> rp\<lparr>rp_state := Completed\<rparr>)"
  by (simp add: complete_program_def sched_simps)

lemma body_one_effect:
  assumes "body_one E frame now failed pid s = Some s'"
  shows "q \<noteq> pid \<Longrightarrow> sch_programs s' q = sch_programs s q"
    and "sch_programs s pid = Some rp \<Longrightarrow> \<exists>rp'. sch_programs s' pid = Some rp' \<and> cursor_step rp rp' \<and>
           watch_state rp' = watch_state rp"
  using assms
  by (auto simp: body_one_def Let_def sched_simps cursor_step_def cursor_of_def
      split: if_splits option.splits StepOutcome.splits)

lemma body_loop_effect:
  assumes "each_id (body_one E frame now failed) ps s = Some s'" "distinct ps" "sch_programs s q = Some rp"
  shows "\<exists>rp'. sch_programs s' q = Some rp' \<and> cursor_step rp rp' \<and> watch_state rp' = watch_state rp"
  using assms
proof (induction ps arbitrary: s rp)
  case Nil
  then show ?case by (simp add: cursor_step_def)
next
  case (Cons p ps)
  from Cons.prems(1) obtain t where t: "body_one E frame now failed p s = Some t"
    "each_id (body_one E frame now failed) ps t = Some s'" by (auto split: option.splits)
  have skip: "sch_programs u q = sch_programs t q"
    if "each_id (body_one E frame now failed) qs t = Some u" "q \<notin> set qs" for qs t u
    using that by (induction qs arbitrary: t) (auto split: option.splits dest: body_one_effect(1))
  show ?case
  proof (cases "q = p")
    case True
    from body_one_effect(2) [OF t(1), of rp] Cons.prems(3) True skip [OF t(2)] Cons.prems(2) show ?thesis by auto
  next
    case False
    with body_one_effect(1) [OF t(1), of q] Cons.prems(3) have "sch_programs t q = Some rp" by simp
    from Cons.IH [OF t(2) _ this] Cons.prems(2) show ?thesis by simp
  qed
qed

lemma watch_phase_programs:
  assumes "acc_ok E frame now s running ta"
  shows "sch_programs (ta_sched ta) = sch_programs s" "sch_events (ta_sched ta) = sch_events s"
  using assms by (auto simp: acc_ok_def)

lemma tick_cursor:
  assumes "distinct it" "all_small s" "tick_once E (Some frame) it s = Some s'"
    and "sch_programs s q = Some rp" "rp_state rp \<noteq> Waiting"
  shows "\<exists>rp'. sch_programs s' q = Some rp' \<and> cursor_step rp rp'"
proof -
  from assms(3) obtain now s0 s1 ta da s2 where ph:
    "clock_now E (s\<lparr>sch_perception := perception_clear (sch_perception s)\<rparr>) = (now, s0)"
    "trigger_phase E frame now it s0 = Some s1"
    "watch_phase E frame now (ids_in_state Running it s1) s1 = Some ta"
    "dispatch_phase E frame now ta = Some da"
    "bookkeeping_phase now (ta_evals ta) (da_fired da) (da_sched da) = Some s2"
    "each_id (body_one E frame now (da_failed da)) (ids_in_state Running it s1) s2 = Some s'"
    by (rule tick_phases)
  have q1: "sch_programs s1 q = Some rp"
    using trigger_phase_others [OF assms(1) ph(2)] clock_now_same [OF ph(1)] assms(4,5) by (simp add: states_def)
  have sm: "all_small s1"
    using trigger_phase_rel [OF assms(1) ph(2)] clock_now_same [OF ph(1)] assms(2) statics_small
    by (auto simp: tick_rel_def)
  note acc = watch_phase_acc [OF sm ids_in_state_distinct [OF assms(1)] ph(3)]
  have "keeps body_cursor s1 (da_sched da)"
    by (rule dispatch_phase_keeps [OF ph(4) _ watch_phase_programs(1) [OF acc]]) simp
  moreover have "keeps body_cursor (da_sched da) s2"
    by (rule bookkeeping_keeps [OF ph(5)]) (simp add: watch_entry_def)
  ultimately obtain rp2 where "sch_programs s2 q = Some rp2" "body_cursor rp2 = body_cursor rp"
    using keepsD [OF keeps_trans q1] by blast
  moreover from body_loop_effect [OF ph(6) ids_in_state_distinct [OF assms(1)] this(1)]
  obtain rp' where "sch_programs s' q = Some rp'" "cursor_step rp2 rp'" by blast
  ultimately show ?thesis by (auto simp: cursor_step_def cursor_of_def)
qed

section \<open>Watch firings\<close>

fun fire_of :: "EventData \<Rightarrow> (ProgramId \<times> u32) option" where
  "fire_of (WatchFired pid idx _) = Some (pid, idx)"
| "fire_of _ = None"

fun action_of :: "EventData \<Rightarrow> ProgramId option" where
  "action_of (ActionDispatched pid _ _) = Some pid"
| "action_of _ = None"

definition fires :: "Event list \<Rightarrow> (ProgramId \<times> u32) list" where
  "fires es = List.map_filter (fire_of \<circ> ev_data) es"

definition actors :: "Event list \<Rightarrow> ProgramId set" where
  "actors es = {pid. \<exists>e \<in> set es. action_of (ev_data e) = Some pid}"

lemma fires_simps [simp]: "fires [] = []" "fires (es @ fs) = fires es @ fires fs"
  "fires [e] = (case fire_of (ev_data e) of None \<Rightarrow> [] | Some f \<Rightarrow> [f])"
  "actors [] = {}" "actors (es @ fs) = actors es \<union> actors fs"
  "actors [e] = (case action_of (ev_data e) of None \<Rightarrow> {} | Some p \<Rightarrow> {p})"
  by (auto simp: fires_def actors_def List.map_filter_def split: option.splits)

text \<open>New events between two states: which watches fired and who acted.\<close>

definition adds :: "(ProgramId \<times> u32) list \<Rightarrow> ProgramId set \<Rightarrow> 'i Sched \<Rightarrow> 'i Sched \<Rightarrow> bool" where
  "adds F A s s' \<longleftrightarrow> (\<exists>es. sch_events s' = sch_events s @ es \<and> fires es = F \<and> actors es \<subseteq> A)"

lemma adds_trans: "adds F A s t \<Longrightarrow> adds G B t u \<Longrightarrow> adds (F @ G) (A \<union> B) s u"
  unfolding adds_def
proof (elim exE conjE)
  fix es fs
  assume "sch_events t = sch_events s @ es" "fires es = F" "actors es \<subseteq> A"
    "sch_events u = sch_events t @ fs" "fires fs = G" "actors fs \<subseteq> B"
  then have "sch_events u = sch_events s @ (es @ fs)" "fires (es @ fs) = F @ G" "actors (es @ fs) \<subseteq> A \<union> B" by auto
  then show "\<exists>es. sch_events u = sch_events s @ es \<and> fires es = F @ G \<and> actors es \<subseteq> A \<union> B" by blast
qed

lemma adds_quiet_trans: "adds [] {} s t \<Longrightarrow> adds [] {} t u \<Longrightarrow> adds [] {} s u"
  using adds_trans [of "[]" "{}" s t "[]" "{}" u] by simp

lemma adds_mono: "adds F A s t \<Longrightarrow> A \<subseteq> B \<Longrightarrow> adds F B s t"
  unfolding adds_def by blast

lemma adds_same: "sch_events t = sch_events s \<Longrightarrow> adds [] {} s t"
  unfolding adds_def by (auto intro: exI [of _ "[]"])

lemma adds_emit:
  "adds (case fire_of d of None \<Rightarrow> [] | Some f \<Rightarrow> [f]) (case action_of d of None \<Rightarrow> {} | Some p \<Rightarrow> {p}) s (emit E d s)"
  unfolding adds_def by (auto simp: sched_simps split: option.splits)

lemma adds_quiet:
  "sch_events s' = sch_events s @ es \<Longrightarrow> \<forall>e \<in> set es. fire_of (ev_data e) = None \<and> action_of (ev_data e) = None \<Longrightarrow>
   adds [] {} s s'"
  unfolding adds_def by (auto simp: fires_def actors_def List.map_filter_def intro!: exI [of _ es])

lemma adds_emit_quiet:
  "adds [] {} s t \<Longrightarrow> fire_of d = None \<Longrightarrow> action_of d = None \<Longrightarrow> adds [] {} s (emit E d t)"
  using adds_trans [OF _ adds_emit [of d t E], of "[]" "{}" s] by simp

lemma adds_updates:
  "adds [] {} s t \<Longrightarrow> adds [] {} s (put_program pid rp t)"
  "adds [] {} s t \<Longrightarrow> adds [] {} s (t\<lparr>sch_perception := per\<rparr>)"
  "adds [] {} s t \<Longrightarrow> adds [] {} s (t\<lparr>sch_perception := per, sch_input := inp\<rparr>)"
  by (simp_all add: adds_def sched_simps)

lemmas adds_intros = adds_emit_quiet adds_updates adds_same [OF refl]

lemma trigger_one_adds: "trigger_one E frame now pid s = Some s' \<Longrightarrow> adds [] {} s s'"
  by (auto simp: trigger_one_def Let_def intro!: adds_intros split: option.splits sum.splits bool.splits if_splits)

lemma body_one_adds: "body_one E frame now failed pid s = Some s' \<Longrightarrow> adds [] {} s s'"
  by (auto simp: body_one_def complete_program_def Let_def intro!: adds_intros
      split: option.splits StepOutcome.splits if_splits)

lemma each_id_adds:
  assumes "\<And>q s s'. f q s = Some s' \<Longrightarrow> adds [] {} s s'" "each_id f qs s = Some s'"
  shows "adds [] {} s s'"
  using assms(2)
proof (induction qs arbitrary: s)
  case (Cons q qs)
  then obtain t where "f q s = Some t" "each_id f qs t = Some s'" by (auto split: option.splits)
  with assms(1) Cons.IH show ?case by (blast intro: adds_quiet_trans)
qed (simp add: adds_same)

lemma bookkeeping_events: "bookkeeping_phase now evals fired s = Some s' \<Longrightarrow> sch_events s' = sch_events s"
proof -
  assume "bookkeeping_phase now evals fired s = Some s'"
  then obtain t where t: "each_opt apply_eval evals s = Some t" "each_opt (apply_fire now) fired t = Some s'"
    by (auto simp: bookkeeping_phase_def split: option.splits)
  have "sch_events t = sch_events s"
    by (rule each_opt_rel [where R = "\<lambda>s t. sch_events t = sch_events s", OF _ _ _ t(1)])
      (auto simp: apply_eval_def sched_simps split: option.splits prod.splits)
  moreover have "sch_events s' = sch_events t"
    by (rule each_opt_rel [where R = "\<lambda>s t. sch_events t = sch_events s", OF _ _ _ t(2)])
      (auto simp: apply_fire_def sched_simps split: option.splits if_splits)
  ultimately show ?thesis by simp
qed

lemma run_steps_adds: "run_steps E c pid sts s = Some (r, s') \<Longrightarrow> adds [] {pid} s s'"
proof (induction E c pid sts s rule: run_steps.induct)
  case (1 E c pid s)
  then show ?case by (auto intro: adds_mono [OF adds_same])
next
  case (2 E c pid st sts s)
  let ?s1 = "emit E (ActionDispatched pid (step_to_value st) None) s"
  have e: "adds [] {pid} s ?s1" using adds_emit [of "ActionDispatched pid (step_to_value st) None" s E] by simp
  from 2(2) obtain r1 per inp where d: "dispatch_action (env_ext E) (env_stack E) (env_sink E) c st
      (sch_perception ?s1, sch_input ?s1) = Some (r1, per, inp)"
    by (auto simp: Let_def split: option.splits)
  let ?s2 = "?s1\<lparr>sch_perception := per, sch_input := inp\<rparr>"
  have io: "adds [] {pid} s ?s2" using e by (simp add: adds_def)
  show ?case
  proof (cases r1)
    case (Inl e')
    with 2(2) d io show ?thesis by (auto simp: Let_def)
  next
    case (Inr u)
    with 2(2) d have rest: "run_steps E c pid sts ?s2 = Some (r, s')" by (simp add: Let_def)
    from 2(1) [OF refl d _ _ refl Inr rest] adds_trans [OF io, of "[]" "{pid}" s'] show ?thesis by simp
  qed
qed

lemma dispatch_one_adds:
  assumes "dispatch_one E frame now d a = Some a'"
  shows "\<exists>F. da_fired a' = da_fired a @ F \<and> set F \<subseteq> {(dec_program d, fst (dec_payload d))} \<and> length F \<le> 1 \<and>
     adds F (if dec_dispatch d then {dec_program d} else {}) (da_sched a) (da_sched a')"
proof -
  let ?p = "dec_program d" and ?s = "da_sched a"
  obtain idx steps os where pl: "dec_payload d = (idx, steps, os)" by (cases "dec_payload d") auto
  show ?thesis
  proof (cases "dec_dispatch d")
    case True
    from assms True pl obtain rp r s1 where rp: "sch_programs ?s ?p = Some rp"
      and run: "run_steps E (eval_ctx frame now rp ?p) ?p steps ?s = Some (r, s1)"
      by (auto simp: dispatch_one_def Let_def split: option.splits)
    show ?thesis
    proof (cases r)
      case None
      with assms True pl rp run have "a' = a\<lparr>da_sched := emit E (WatchFired ?p idx ''watch'') s1,
          da_fired := da_fired a @ [(?p, idx)]\<rparr>" by (simp add: dispatch_one_def Let_def)
      moreover have "adds [(?p, idx)] {?p} ?s (emit E (WatchFired ?p idx ''watch'') s1)"
        using adds_trans [OF run_steps_adds [OF run] adds_emit [of "WatchFired ?p idx ''watch''" s1 E]] by simp
      ultimately show ?thesis using True pl by (intro exI [of _ "[(?p, idx)]"]) simp
    next
      case (Some e)
      let ?ev = "ProgramFailed ?p (rt_code_as_str (rt_code e)) (Some (''watch['' @ nat_str idx @ '']'')) (on_fail (rp_program rp))"
      from Some assms True pl rp run have "da_fired a' = da_fired a"
        "da_sched a' = emit E ?ev (put_program ?p (rp\<lparr>rp_state := Failed\<rparr>) s1)" by (auto simp: dispatch_one_def Let_def)
      moreover have "adds [] {?p} ?s (emit E ?ev (put_program ?p (rp\<lparr>rp_state := Failed\<rparr>) s1))"
        using adds_trans [OF run_steps_adds [OF run] adds_quiet [of "emit E ?ev (put_program ?p (rp\<lparr>rp_state := Failed\<rparr>) s1)" s1]]
        by (simp add: sched_simps)
      ultimately show ?thesis using True by (intro exI [of _ "[]"]) simp
    qed
  next
    case False
    show ?thesis
    proof (cases "loser_of d")
      case None
      with assms False pl show ?thesis by (auto simp: dispatch_one_def intro: adds_same)
    next
      case (Some w)
      with assms False pl have "da_fired a' = da_fired a" "da_sched a' = emit E (ActionDeferred ?p
          (JArray (map step_to_value steps)) (json_obj [(''conflict_with'', JString w)])) ?s"
        by (auto simp: dispatch_one_def Let_def)
      with False show ?thesis
        using adds_emit [of "ActionDeferred ?p (JArray (map step_to_value steps)) (json_obj [(''conflict_with'', JString w)])" ?s E]
        by (intro exI [of _ "[]"]) simp
    qed
  qed
qed

lemma dispatch_all_adds:
  "dispatch_all E frame now ds a = Some a' \<Longrightarrow>
   \<exists>F. da_fired a' = da_fired a @ F \<and> set (map fst F) \<subseteq> dec_program ` set ds \<and>
     (distinct (map dec_program ds) \<longrightarrow> distinct (map fst F)) \<and>
     adds F (dec_program ` {d \<in> set ds. dec_dispatch d}) (da_sched a) (da_sched a')"
proof (induction ds arbitrary: a)
  case Nil
  then show ?case by (auto intro: adds_same)
next
  case (Cons d ds)
  from Cons.prems obtain b where b: "dispatch_one E frame now d a = Some b" "dispatch_all E frame now ds b = Some a'"
    by (auto split: option.splits)
  from dispatch_one_adds [OF b(1)] obtain F where F: "da_fired b = da_fired a @ F"
    "set F \<subseteq> {(dec_program d, fst (dec_payload d))}" "length F \<le> 1"
    "adds F (if dec_dispatch d then {dec_program d} else {}) (da_sched a) (da_sched b)" by blast
  from Cons.IH [OF b(2)] obtain G where G: "da_fired a' = da_fired b @ G" "set (map fst G) \<subseteq> dec_program ` set ds"
    "distinct (map dec_program ds) \<longrightarrow> distinct (map fst G)"
    "adds G (dec_program ` {d \<in> set ds. dec_dispatch d}) (da_sched b) (da_sched a')" by blast
  have "distinct F" using F(3) by (cases F) auto
  have dF: "distinct (map fst F)" using F(3) by (cases F) auto
  have sub: "set (map fst F) \<subseteq> {dec_program d}" using F(2) by auto
  have "(if dec_dispatch d then {dec_program d} else {}) \<union> dec_program ` {d \<in> set ds. dec_dispatch d} =
      dec_program ` {e \<in> set (d # ds). dec_dispatch e}" by auto
  then have "adds (F @ G) (dec_program ` {e \<in> set (d # ds). dec_dispatch e}) (da_sched a) (da_sched a')"
    using adds_trans [OF F(4) G(4)] by simp
  moreover have "distinct (map dec_program (d # ds)) \<longrightarrow> distinct (map fst (F @ G))"
  proof
    assume d: "distinct (map dec_program (d # ds))"
    then have "set (map fst F) \<inter> set (map fst G) = {}" using sub G(2) by (fastforce simp: image_iff)
    with d dF G(3) show "distinct (map fst (F @ G))" by simp
  qed
  moreover have "da_fired a' = da_fired a @ (F @ G)" using F(1) G(1) by simp
  moreover have "set (map fst (F @ G)) \<subseteq> dec_program ` set (d # ds)" using sub G(2) by auto
  ultimately show ?case by blast
qed

lemma direct_adds: "adds fs {} (da_sched a) (da_sched (fold (direct_fire E) fs a))"
proof (induction fs arbitrary: a)
  case Nil
  then show ?case by (simp add: adds_same)
next
  case (Cons f fs)
  have "adds [f] {} (da_sched a) (da_sched (direct_fire E f a))"
    using adds_emit [of "WatchFired (fst f) (snd f) ''watch''" "da_sched a" E] by (simp add: direct_fire_def)
  from adds_trans [OF this Cons [of "direct_fire E f a"]] show ?case by simp
qed

lemma winner_only:
  "dec_program ` {d \<in> set (resolve cs). dec_dispatch d} \<subseteq> {cand_program (winner cs)}"
  by (auto simp: resolve_map Let_def)

lemma dispatch_phase_adds:
  assumes "acc_ok E frame now s running ta" "dispatch_phase E frame now ta = Some da"
  shows "adds (da_fired da) {cand_program (winner (ta_candidates ta))} s (da_sched da) \<and> distinct (map fst (da_fired da))"
proof -
  let ?a0 = "\<lparr>da_sched = ta_sched ta, da_fired = [], da_failed = []\<rparr>"
  let ?a1 = "fold (direct_fire E) (ta_direct ta) ?a0"
  have dir: "adds (ta_direct ta) {} s (da_sched ?a1)"
    using direct_adds [of "ta_direct ta" ?a0 E] watch_phase_programs(2) [OF assms(1)] by (simp add: adds_def)
  from assms(2) have "dispatch_all E frame now (resolve (ta_candidates ta)) ?a1 = Some da"
    by (simp add: dispatch_phase_def)
  from dispatch_all_adds [OF this] obtain F where F: "da_fired da = da_fired ?a1 @ F"
    "set (map fst F) \<subseteq> dec_program ` set (resolve (ta_candidates ta))"
    "distinct (map dec_program (resolve (ta_candidates ta))) \<longrightarrow> distinct (map fst F)"
    "adds F (dec_program ` {d \<in> set (resolve (ta_candidates ta)). dec_dispatch d}) (da_sched ?a1) (da_sched da)" by blast
  have fired: "da_fired da = ta_direct ta @ F" using F(1) by (simp add: direct_fired)
  have progs: "dec_program ` set (resolve (ta_candidates ta)) = cand_program ` set (ta_candidates ta)"
    by (simp add: resolve_programs flip: set_map)
  have d: "distinct (map cand_program (ta_candidates ta) @ map fst (ta_direct ta))" using assms(1) by (simp add: acc_ok_def)
  have "adds (da_fired da) {cand_program (winner (ta_candidates ta))} s (da_sched da)"
    using adds_mono [OF adds_trans [OF dir F(4)]] winner_only [of "ta_candidates ta"] fired by simp
  moreover have "distinct (map fst F)" using F(3) d by (simp add: resolve_programs)
  moreover have "set (map fst F) \<inter> set (map fst (ta_direct ta)) = {}" using F(2) progs d by auto
  ultimately show ?thesis using fired d by (auto simp del: set_map)
qed

section \<open>Bookkeeping\<close>

lemma watch_of_entry: "watch_of (watch_entry i g rp) j = (if i = j then g (watch_of rp i) else watch_of rp j)"
  by (simp add: watch_of_def watch_entry_def update_conv')

definition stamped :: "UnixMs \<Rightarrow> RunningProgram \<Rightarrow> u32 \<Rightarrow> bool" where
  "stamped now rp i \<longleftrightarrow> last_fired_ms (watch_of rp i) = Some now \<and>
     (is_one_shot (watches (rp_program rp) ! i) \<longrightarrow> retired (watch_of rp i))"

lemma after_fire_simps [simp]:
  "last_fired_ms (after_fire w now st) = Some now"
  "retired (after_fire w now st) \<longleftrightarrow> retired st \<or> is_one_shot w"
  "last_truthy (after_fire w now st) = last_truthy st"
  by (auto simp: after_fire_def Let_def)

lemma apply_fire_stamped:
  assumes "apply_fire now f s = Some s'"
  shows "\<exists>rp'. sch_programs s' (fst f) = Some rp' \<and> stamped now rp' (snd f)"
    and "sch_programs s q = Some rp \<Longrightarrow> stamped now rp i \<Longrightarrow> \<exists>rp'. sch_programs s' q = Some rp' \<and> stamped now rp' i"
  using assms
  by (auto simp: apply_fire_def sched_simps stamped_def watch_of_entry split: option.splits if_splits)

lemma fires_stamped:
  "each_opt (apply_fire now) fs s = Some s' \<Longrightarrow>
   (\<forall>f \<in> set fs. \<exists>rp'. sch_programs s' (fst f) = Some rp' \<and> stamped now rp' (snd f)) \<and>
   (\<forall>q rp i. sch_programs s q = Some rp \<longrightarrow> stamped now rp i \<longrightarrow> (\<exists>rp'. sch_programs s' q = Some rp' \<and> stamped now rp' i))"
proof (induction fs arbitrary: s)
  case (Cons f fs)
  from Cons.prems obtain t where t: "apply_fire now f s = Some t" "each_opt (apply_fire now) fs t = Some s'"
    by (auto split: option.splits)
  note IH = Cons.IH [OF t(2)]
  obtain rp where rp: "sch_programs t (fst f) = Some rp" "stamped now rp (snd f)" using apply_fire_stamped(1) [OF t(1)] by blast
  with IH have "\<exists>rp'. sch_programs s' (fst f) = Some rp' \<and> stamped now rp' (snd f)" by blast
  moreover have "\<exists>rp'. sch_programs s' q = Some rp' \<and> stamped now rp' i"
    if h: "sch_programs s q = Some r" "stamped now r i" for q r i
  proof -
    obtain r' where "sch_programs t q = Some r'" "stamped now r' i" using apply_fire_stamped(2) [OF t(1) h] by blast
    with IH show ?thesis by blast
  qed
  ultimately show ?case using IH by auto
qed simp

text \<open>Retirement is permanent for a program that keeps running.\<close>

definition retire_mono :: "'i Sched \<Rightarrow> 'i Sched \<Rightarrow> bool" where
  "retire_mono s s' \<longleftrightarrow> (\<forall>q rp. sch_programs s q = Some rp \<longrightarrow>
     (\<exists>rp'. sch_programs s' q = Some rp' \<and> (\<forall>i. retired (watch_of rp i) \<longrightarrow> retired (watch_of rp' i))))"

lemma retire_mono_trans: "retire_mono s t \<Longrightarrow> retire_mono t u \<Longrightarrow> retire_mono s u"
  unfolding retire_mono_def by metis

lemma retire_mono_keeps: "keeps watch_state s t \<Longrightarrow> retire_mono s t"
  unfolding retire_mono_def by (auto simp: watch_of_def dest!: keepsD)

lemma retired_fold:
  "(\<And>x rp. retired (watch_of rp i) \<Longrightarrow> retired (watch_of (g x rp) i)) \<Longrightarrow>
   retired (watch_of rp i) \<Longrightarrow> retired (watch_of (fold g xs rp) i)"
  by (induction xs arbitrary: rp) auto

lemma apply_eval_retire: "apply_eval e s = Some s' \<Longrightarrow> retire_mono s s'"
proof -
  assume a: "apply_eval e s = Some s'"
  obtain pid ts rs where e: "e = (pid, ts, rs)" by (cases e) auto
  let ?g1 = "\<lambda>(idx, t). watch_entry idx (\<lambda>w. w\<lparr>last_truthy := t\<rparr>)"
  let ?g2 = "\<lambda>idx. watch_entry idx (\<lambda>w. w\<lparr>retired := True\<rparr>)"
  have "retired (watch_of (fold ?g2 rs (fold ?g1 ts rp)) i)" if "retired (watch_of rp i)" for rp i
    by (rule retired_fold, simp add: watch_of_entry, rule retired_fold)
      (auto simp: watch_of_entry that split: prod.splits)
  with a e show ?thesis by (auto simp: apply_eval_def retire_mono_def sched_simps split: option.splits)
qed

lemma apply_fire_retire: "apply_fire now f s = Some s' \<Longrightarrow> retire_mono s s'"
  by (auto simp: apply_fire_def retire_mono_def sched_simps watch_of_entry split: option.splits if_splits)

lemma bookkeeping_effect:
  assumes "bookkeeping_phase now evals fired s = Some s'"
  shows "retire_mono s s'" and "f \<in> set fired \<Longrightarrow> \<exists>rp'. sch_programs s' (fst f) = Some rp' \<and> stamped now rp' (snd f)"
proof -
  obtain t where t: "each_opt apply_eval evals s = Some t" "each_opt (apply_fire now) fired t = Some s'"
    using assms by (auto simp: bookkeeping_phase_def split: option.splits)
  have refl: "retire_mono s s" for s :: "'b Sched" by (simp add: retire_mono_def)
  have "retire_mono s t" by (rule each_opt_rel [OF _ _ _ t(1)]) (auto intro: retire_mono_trans apply_eval_retire refl)
  moreover have "retire_mono t s'"
    by (rule each_opt_rel [OF _ _ _ t(2)]) (auto intro: retire_mono_trans apply_fire_retire refl)
  ultimately show "retire_mono s s'" by (rule retire_mono_trans)
  show "\<exists>rp'. sch_programs s' (fst f) = Some rp' \<and> stamped now rp' (snd f)" if "f \<in> set fired"
    using fires_stamped [OF t(2)] that by blast
qed

section \<open>Firings of a tick\<close>

definition tick_fires :: "'i Env \<Rightarrow> Frame \<Rightarrow> (ProgramId \<times> u32) list \<Rightarrow> UnixMs \<Rightarrow> 'i Sched \<Rightarrow> 'i Sched \<Rightarrow> bool" where
  "tick_fires E frame F now s s' \<longleftrightarrow> (\<exists>w. adds F {w} s s') \<and> distinct (map fst F) \<and>
     (\<forall>f \<in> set F. \<forall>rp. sch_programs s (fst f) = Some rp \<longrightarrow> rp_state rp \<noteq> Waiting \<longrightarrow>
        (\<exists>st os. fire_ok E frame now rp (snd f, st, os))) \<and>
     (\<forall>f \<in> set F. \<exists>rp'. sch_programs s' (fst f) = Some rp' \<and> stamped now rp' (snd f)) \<and>
     (\<forall>q rp. sch_programs s q = Some rp \<longrightarrow> rp_state rp \<noteq> Waiting \<longrightarrow>
        (\<exists>rp'. sch_programs s' q = Some rp' \<and> (\<forall>i. retired (watch_of rp i) \<longrightarrow> retired (watch_of rp' i))))"

lemma stamped_watch_state:
  "watch_state rp' = watch_state rp \<Longrightarrow> rp_program rp' = rp_program rp \<Longrightarrow> stamped now rp i \<Longrightarrow> stamped now rp' i"
  by (simp add: stamped_def watch_of_def)

lemma tick_once_fires:
  assumes "distinct it" "all_small s" "tick_once E (Some frame) it s = Some s'"
  shows "\<exists>F. tick_fires E frame F (env_clock E (sch_clock_reads s)) s s'"
proof -
  from assms(3) obtain now s0 s1 ta da s2 where ph:
    "clock_now E (s\<lparr>sch_perception := perception_clear (sch_perception s)\<rparr>) = (now, s0)"
    "trigger_phase E frame now it s0 = Some s1"
    "watch_phase E frame now (ids_in_state Running it s1) s1 = Some ta"
    "dispatch_phase E frame now ta = Some da"
    "bookkeeping_phase now (ta_evals ta) (da_fired da) (da_sched da) = Some s2"
    "each_id (body_one E frame now (da_failed da)) (ids_in_state Running it s1) s2 = Some s'"
    by (rule tick_phases)
  note same = clock_now_same [OF ph(1)]
  have q1: "sch_programs s1 q = Some rp" if "sch_programs s q = Some rp" "rp_state rp \<noteq> Waiting" for q rp
    using trigger_phase_others [OF assms(1) ph(2)] same that by (simp add: states_def)
  have sm: "all_small s1"
    using trigger_phase_rel [OF assms(1) ph(2)] same assms(2) statics_small by (auto simp: tick_rel_def)
  note acc = watch_phase_acc [OF sm ids_in_state_distinct [OF assms(1)] ph(3)]
  let ?w = "cand_program (winner (ta_candidates ta))"
  have a1: "adds [] {} s s1"
    using each_id_adds [OF trigger_one_adds ph(2) [unfolded trigger_phase_def]] same(2) by (simp add: adds_def)
  have a2: "adds (da_fired da) {?w} s1 s2" "distinct (map fst (da_fired da))"
    using dispatch_phase_adds [OF acc ph(4)] bookkeeping_events [OF ph(5)] by (simp_all add: adds_def)
  have a3: "adds [] {} s2 s'" by (rule each_id_adds [OF body_one_adds ph(6)])
  have adds: "adds (da_fired da) {?w} s s'" using adds_trans [OF adds_trans [OF a1 a2(1)] a3] by simp
  have body: "\<exists>rp'. sch_programs s' q = Some rp' \<and> watch_state rp' = watch_state rp"
    if "sch_programs s2 q = Some rp" for q rp
    using body_loop_effect [OF ph(6) ids_in_state_distinct [OF assms(1)] that] by blast
  have code: "rp_program rp' = rp_program rp" if "sch_programs s2 q = Some rp" "sch_programs s' q = Some rp'" for q rp rp'
  proof -
    have "tick_rel E s2 s'"
      by (rule each_id_rel [where P = "\<lambda>_ _. True", OF _ _ _ _ _ ph(6)])
        (auto intro: tick_rel_trans body_one_rel simp: ids_in_state_distinct assms(1))
    then have "statics s' = statics s2" by (simp add: tick_rel_def)
    from statics_code [OF this that(2)] that(1) show ?thesis by (auto simp: same_code_def)
  qed
  have due: "\<exists>st os. fire_ok E frame now rp (snd f, st, os)"
    if h: "f \<in> set (da_fired da)" "sch_programs s (fst f) = Some rp" "rp_state rp \<noteq> Waiting" for f rp
  proof -
    obtain r st os where "sch_programs s1 (fst f) = Some r" "fire_ok E frame now r (snd f, st, os)"
      using dispatch_phase_fired [OF acc ph(4)] h(1) unfolding due_def by blast
    with q1 [OF h(2,3)] show ?thesis by auto
  qed
  have st: "\<exists>rp'. sch_programs s' (fst f) = Some rp' \<and> stamped now rp' (snd f)" if f: "f \<in> set (da_fired da)" for f
  proof -
    obtain rp where rp: "sch_programs s2 (fst f) = Some rp" "stamped now rp (snd f)"
      using bookkeeping_effect(2) [OF ph(5) f] by blast
    from body [OF rp(1)] code [OF rp(1)] rp(2) show ?thesis by (blast intro: stamped_watch_state)
  qed
  have "keeps watch_state s1 (da_sched da)"
    by (rule dispatch_phase_keeps [OF ph(4) _ watch_phase_programs(1) [OF acc]]) simp
  with bookkeeping_effect(1) [OF ph(5)] have m: "retire_mono s1 s2" by (blast intro: retire_mono_trans retire_mono_keeps)
  have mono: "\<exists>rp'. sch_programs s' q = Some rp' \<and> (\<forall>i. retired (watch_of rp i) \<longrightarrow> retired (watch_of rp' i))"
    if h: "sch_programs s q = Some rp" "rp_state rp \<noteq> Waiting" for q rp
  proof -
    obtain rp2 where rp2: "sch_programs s2 q = Some rp2" "\<forall>i. retired (watch_of rp i) \<longrightarrow> retired (watch_of rp2 i)"
      using m q1 [OF h] unfolding retire_mono_def by blast
    from body [OF rp2(1)] rp2(2) show ?thesis by (auto simp: watch_of_def)
  qed
  have "now = env_clock E (sch_clock_reads s)" using ph(1) by (simp add: clock_now_def)
  with adds a2(2) due st mono show ?thesis unfolding tick_fires_def by blast
qed

section \<open>One-shot watches over a run of ticks\<close>

fun ticks :: "'i Env \<Rightarrow> (Frame option \<times> ProgramId list) list \<Rightarrow> 'i Sched \<Rightarrow> 'i Sched option" where
  "ticks E [] s = Some s"
| "ticks E ((cap, it) # ts) s = (case tick_once E cap it s of None \<Rightarrow> None | Some s' \<Rightarrow> ticks E ts s')"

definition firings :: "'i Sched \<Rightarrow> 'i Sched \<Rightarrow> (ProgramId \<times> u32) list" where
  "firings s s' = fires (drop (length (sch_events s)) (sch_events s'))"

lemma firings_adds: "adds F A s s' \<Longrightarrow> firings s s' = F"
  by (auto simp: adds_def firings_def)

lemma firings_trans: "adds F A s t \<Longrightarrow> adds G B t u \<Longrightarrow> firings s u = F @ firings t u"
  using adds_trans [of F A s t G B u] by (simp add: firings_adds)

lemma tick_once_adds:
  assumes "distinct it" "all_small s" "tick_once E cap it s = Some s'"
  shows "\<exists>F A. adds F A s s'"
proof (cases cap)
  case None
  with assms(3) have "s' = emit E (TickFrameSkipped ''capture_failed'') s" by (simp add: tick_once_def)
  with adds_emit [of "TickFrameSkipped ''capture_failed''" s E] show ?thesis by auto
next
  case (Some f)
  with tick_once_fires [OF assms(1,2), of E f s'] assms(3) show ?thesis by (auto simp: tick_fires_def)
qed

lemma ticks_adds:
  "ticks E ts s = Some s' \<Longrightarrow> \<forall>(c, it) \<in> set ts. distinct it \<Longrightarrow> all_small s \<Longrightarrow> \<exists>F A. adds F A s s'"
proof (induction ts arbitrary: s)
  case Nil
  then show ?case by (auto intro: adds_same)
next
  case (Cons t ts)
  obtain cap it where t: "t = (cap, it)" by fastforce
  with Cons.prems obtain u where u: "tick_once E cap it s = Some u" "ticks E ts u = Some s'" by (auto split: option.splits)
  have d: "distinct it" using Cons.prems(2) t by auto
  have "all_small u" using tick_once_rel [OF d Cons.prems(3) u(1)] Cons.prems(3) statics_small by (auto simp: tick_rel_def)
  with Cons.IH [OF u(2)] Cons.prems(2) tick_once_adds [OF d Cons.prems(3) u(1)] show ?case by (auto dest: adds_trans)
qed

lemma tick_program:
  assumes "distinct it" "all_small s" "tick_once E cap it s = Some s'" "sch_programs s pid = Some rp" "rp_state rp \<noteq> Waiting"
  shows "\<exists>rp'. sch_programs s' pid = Some rp' \<and> rp_program rp' = rp_program rp \<and> rp_state rp' \<noteq> Waiting"
proof -
  have r: "tick_rel E s s'" by (rule tick_once_rel [OF assms(1-3)])
  then obtain es where es: "states s' = replay es (states s)" "trace_ok (states s) es" "statics s' = statics s"
    by (auto simp: tick_rel_def)
  have "states s pid = Some (rp_state rp)" using assms(4) by (simp add: states_def)
  from trace_moves [OF es(2) this] es(1) assms(5) obtain y where "states s' pid = Some y" "y \<noteq> Waiting" by auto
  then obtain rp' where rp': "sch_programs s' pid = Some rp'" "rp_state rp' \<noteq> Waiting" by (auto simp: states_Some)
  with statics_code [OF es(3) rp'(1)] assms(4) show ?thesis by (auto simp: same_code_def)
qed

lemma fire_not_retired: "fire_ok E frame now rp (i, st, os) \<Longrightarrow> \<not> retired (watch_of rp i)"
  by (auto simp: fire_ok_def Let_def decide_def split: if_splits)

lemma distinct_fst_count: "distinct (map fst F) \<Longrightarrow> count_list F x \<le> 1"
  by (induction F) (auto simp: count_list_0_iff rev_image_eqI)

lemma one_shot_tick:
  assumes "distinct it" "all_small s" "tick_once E cap it s = Some s'" "sch_programs s pid = Some rp"
    and "rp_state rp \<noteq> Waiting" "is_one_shot (watches (rp_program rp) ! idx)"
  shows "\<exists>F A rp'. adds F A s s' \<and> sch_programs s' pid = Some rp' \<and> rp_program rp' = rp_program rp \<and> rp_state rp' \<noteq> Waiting \<and>
     count_list F (pid, idx) \<le> 1 \<and>
     (retired (watch_of rp idx) \<longrightarrow> retired (watch_of rp' idx) \<and> count_list F (pid, idx) = 0) \<and>
     (0 < count_list F (pid, idx) \<longrightarrow> retired (watch_of rp' idx))"
proof -
  obtain rp' where rp': "sch_programs s' pid = Some rp'" "rp_program rp' = rp_program rp" "rp_state rp' \<noteq> Waiting"
    using tick_program [OF assms(1-5)] by blast
  show ?thesis
  proof (cases cap)
    case None
    with assms(3) have s': "s' = emit E (TickFrameSkipped ''capture_failed'') s" by (simp add: tick_once_def)
    with assms(4) rp'(1) have "rp' = rp" by (simp add: sched_simps)
    moreover have "adds [] {} s s'" unfolding s' by (intro adds_intros) simp_all
    ultimately show ?thesis using rp' by (intro exI [of _ "[]"]) auto
  next
    case (Some f)
    from tick_once_fires [OF assms(1,2), of E f s'] assms(3) Some obtain F now where F: "tick_fires E f F now s s'" by blast
    then obtain w where w: "adds F {w} s s'" "distinct (map fst F)" by (auto simp: tick_fires_def)
    have mono: "retired (watch_of rp idx) \<Longrightarrow> retired (watch_of rp' idx)"
      using F assms(4,5) rp'(1) unfolding tick_fires_def by fastforce
    have due: "\<not> retired (watch_of rp idx)" if "(pid, idx) \<in> set F"
      using F assms(4,5) that fire_not_retired unfolding tick_fires_def by fastforce
    have st: "retired (watch_of rp' idx)" if "(pid, idx) \<in> set F"
      using F that rp' assms(6) unfolding tick_fires_def by (fastforce simp: stamped_def)
    have c: "0 < count_list F (pid, idx) \<longleftrightarrow> (pid, idx) \<in> set F" by (simp add: count_list_0_iff flip: neq0_conv)
    from w rp' mono due st c distinct_fst_count [OF w(2)] show ?thesis by (metis neq0_conv)
  qed
qed

lemma one_shot_run:
  "ticks E ts s = Some s' \<Longrightarrow> \<forall>(c, it) \<in> set ts. distinct it \<Longrightarrow> all_small s \<Longrightarrow>
   sch_programs s pid = Some rp \<Longrightarrow> rp_state rp \<noteq> Waiting \<Longrightarrow> is_one_shot (watches (rp_program rp) ! idx) \<Longrightarrow>
   count_list (firings s s') (pid, idx) \<le> 1 \<and> (retired (watch_of rp idx) \<longrightarrow> count_list (firings s s') (pid, idx) = 0)"
proof (induction ts arbitrary: s rp)
  case Nil
  then show ?case by (simp add: firings_def)
next
  case (Cons t ts)
  obtain cap it where t: "t = (cap, it)" by fastforce
  with Cons.prems obtain u where u: "tick_once E cap it s = Some u" "ticks E ts u = Some s'" by (auto split: option.splits)
  have d: "distinct it" "\<forall>(c, it) \<in> set ts. distinct it" using Cons.prems(2) t by auto
  have sm: "all_small u"
    using tick_once_rel [OF d(1) Cons.prems(3) u(1)] Cons.prems(3) statics_small by (auto simp: tick_rel_def)
  obtain F A rp' where one: "adds F A s u" "sch_programs u pid = Some rp'" "rp_program rp' = rp_program rp"
    "rp_state rp' \<noteq> Waiting" "count_list F (pid, idx) \<le> 1"
    "retired (watch_of rp idx) \<longrightarrow> retired (watch_of rp' idx) \<and> count_list F (pid, idx) = 0"
    "0 < count_list F (pid, idx) \<longrightarrow> retired (watch_of rp' idx)"
    using one_shot_tick [OF d(1) Cons.prems(3) u(1) Cons.prems(4-6)] by (elim exE conjE) (rule that; assumption)
  obtain G B where G: "adds G B u s'" using ticks_adds [OF u(2) d(2) sm] by blast
  have f: "firings s s' = F @ firings u s'" by (rule firings_trans [OF one(1) G])
  from Cons.IH [OF u(2) d(2) sm one(2,4)] one(3) Cons.prems(6)
  have IH: "count_list (firings u s') (pid, idx) \<le> 1"
    "retired (watch_of rp' idx) \<longrightarrow> count_list (firings u s') (pid, idx) = 0" by simp_all
  show ?case
  proof (cases "0 < count_list F (pid, idx)")
    case True
    with IH one f show ?thesis by auto
  next
    case False
    with IH one f show ?thesis by auto
  qed
qed

end
