(* ===== verification/Scheduler_Runs.thy ===== *)
theory Scheduler_Runs
  imports Scheduler_Watch
begin

text \<open>
  Whole runs: every tick from a well-formed scheduler returns a well-formed scheduler, so
  sequences of ticks and the main loop return; programs that are neither waiting nor running
  are left alone by a tick.
\<close>

section \<open>Totality\<close>

definition capture_ok :: "Frame option \<Rightarrow> bool" where
  "capture_ok cap \<longleftrightarrow> (\<forall>f. cap = Some f \<longrightarrow> frame_wf f)"

lemma tick_total:
  assumes "sched_ok E s" "env_ok E" "distinct it" "capture_ok cap"
  obtains s' where "tick_once E cap it s = Some s'" "tick_rel E s s'" "sched_ok E s'"
proof -
  obtain s' where s': "tick_once E cap it s = Some s'"
    using tick_once_returns [OF assms(2,1,3), of cap] assms(4) by (auto simp: capture_ok_def)
  have r: "tick_rel E s s'" by (rule tick_once_rel [OF assms(3) sched_ok_small [OF assms(1)] s'])
  then have "sched_ok E s'" using assms(1) by (auto simp: tick_rel_def intro: sched_ok_statics)
  with s' r that show ?thesis by blast
qed

definition turns_ok :: "(Frame option \<times> ProgramId list) list \<Rightarrow> bool" where
  "turns_ok ts \<longleftrightarrow> (\<forall>(cap, it) \<in> set ts. capture_ok cap \<and> distinct it)"

lemma ticks_total:
  "sched_ok E s \<Longrightarrow> env_ok E \<Longrightarrow> turns_ok ts \<Longrightarrow> \<exists>s'. ticks E ts s = Some s' \<and> tick_rel E s s' \<and> sched_ok E s'"
proof (induction ts arbitrary: s)
  case (Cons t ts)
  obtain cap it where t: "t = (cap, it)" by (cases t) auto
  with Cons.prems have ok: "capture_ok cap" "distinct it" "turns_ok ts" by (auto simp: turns_ok_def)
  obtain u where u: "tick_once E cap it s = Some u" "tick_rel E s u" "sched_ok E u"
    using tick_total [OF Cons.prems(1,2) ok(2,1)] by blast
  from Cons.IH [OF u(3) Cons.prems(2) ok(3)] obtain v where "ticks E ts u = Some v" "tick_rel E u v" "sched_ok E v"
    by blast
  with u t show ?case by (auto intro: tick_rel_trans)
qed simp

text \<open>Commands before a shutdown are executed in order, the others stay in the channel.\<close>

lemma drain_commands_split:
  "drain_commands E cmds s =
     (ShutdownCmd \<in> set cmds, drop 1 (dropWhile (\<lambda>c. c \<noteq> ShutdownCmd) cmds),
      fold (exec_command E) (takeWhile (\<lambda>c. c \<noteq> ShutdownCmd) cmds) s)"
  by (induction E cmds s rule: drain_commands.induct) auto

lemma commands_ok: "sched_ok E s \<Longrightarrow> \<forall>c \<in> set cs. cmd_ok E c \<Longrightarrow> sched_ok E (fold (exec_command E) cs s)"
  by (induction cs arbitrary: s) (auto intro: exec_command_programs)

definition script_ok :: "'i Env \<Rightarrow> turn list \<Rightarrow> bool" where
  "script_ok E ts \<longleftrightarrow> (\<forall>(cmds, cap, it) \<in> set ts. (\<forall>c \<in> set cmds. cmd_ok E c) \<and> capture_ok cap \<and> distinct it)"

lemma run_total:
  "sched_ok E s \<Longrightarrow> env_ok E \<Longrightarrow> script_ok E ts \<Longrightarrow>
   \<exists>s'. run_until_shutdown E ts s = Some (\<exists>(cmds, _) \<in> set ts. ShutdownCmd \<in> set cmds, s') \<and> sched_ok E s'"
proof (induction ts arbitrary: s)
  case (Cons t ts)
  obtain cmds cap it where t: "t = (cmds, cap, it)" by (cases t) auto
  let ?s1 = "fold (exec_command E) (takeWhile (\<lambda>c. c \<noteq> ShutdownCmd) cmds) s"
  have ok: "\<forall>c \<in> set cmds. cmd_ok E c" "capture_ok cap" "distinct it" "script_ok E ts"
    using Cons.prems(3) t by (auto simp: script_ok_def)
  have s1: "sched_ok E ?s1" using ok(1) set_takeWhileD by (intro commands_ok [OF Cons.prems(1)]) fastforce
  show ?case
  proof (cases "ShutdownCmd \<in> set cmds")
    case True
    with t s1 show ?thesis by (auto simp: drain_commands_split)
  next
    case False
    obtain u where u: "tick_once E cap it ?s1 = Some u" "sched_ok E u"
      using tick_total [OF s1 Cons.prems(2) ok(3,2)] by blast
    from Cons.IH [OF u(2) Cons.prems(2) ok(4)] u False t show ?thesis by (simp add: drain_commands_split)
  qed
qed simp

section \<open>Programs that a tick leaves alone\<close>

lemma each_opt_other:
  assumes "\<And>x s s'. f x s = Some s' \<Longrightarrow> fst x \<noteq> q \<Longrightarrow> sch_programs s' q = sch_programs s q"
  shows "each_opt f xs s = Some s' \<Longrightarrow> q \<notin> fst ` set xs \<Longrightarrow> sch_programs s' q = sch_programs s q"
proof (induction xs arbitrary: s)
  case (Cons x xs)
  from Cons.prems obtain t where t: "f x s = Some t" "each_opt f xs t = Some s'" by (auto split: option.splits)
  from Cons.IH [OF t(2)] assms [OF t(1)] Cons.prems(2) show ?case by auto
qed simp

lemma each_id_other:
  assumes "\<And>p s s'. f p s = Some s' \<Longrightarrow> p \<noteq> q \<Longrightarrow> sch_programs s' q = sch_programs s q"
  shows "each_id f ps s = Some s' \<Longrightarrow> q \<notin> set ps \<Longrightarrow> sch_programs s' q = sch_programs s q"
proof (induction ps arbitrary: s)
  case (Cons p ps)
  from Cons.prems obtain t where t: "f p s = Some t" "each_id f ps t = Some s'" by (auto split: option.splits)
  from Cons.IH [OF t(2)] assms [OF t(1)] Cons.prems(2) show ?case by auto
qed simp

lemma bookkeeping_other:
  assumes "bookkeeping_phase now evals fired s = Some s'" "q \<notin> fst ` set evals" "q \<notin> fst ` set fired"
  shows "sch_programs s' q = sch_programs s q"
proof -
  from assms(1) obtain t where t: "each_opt apply_eval evals s = Some t" "each_opt (apply_fire now) fired t = Some s'"
    by (auto simp: bookkeeping_phase_def split: option.splits)
  have "sch_programs t q = sch_programs s q"
    by (rule each_opt_other [OF _ t(1) assms(2)])
      (auto simp: apply_eval_def sched_simps split: option.splits)
  moreover have "sch_programs s' q = sch_programs t q"
    by (rule each_opt_other [OF _ t(2) assms(3)])
      (auto simp: apply_fire_def sched_simps split: option.splits if_splits)
  ultimately show ?thesis by simp
qed

lemma dispatch_other:
  assumes "dispatch_phase E frame now ta = Some da" "q \<notin> cand_program ` set (ta_candidates ta)"
  shows "sch_programs (da_sched da) q = sch_programs (ta_sched ta) q"
proof -
  have all: "dispatch_all E frame now ds a = Some a' \<Longrightarrow> q \<notin> dec_program ` set ds \<Longrightarrow>
    sch_programs (da_sched a') q = sch_programs (da_sched a) q" for ds a a'
  proof (induction ds arbitrary: a)
    case (Cons d ds)
    from Cons.prems obtain b where b: "dispatch_one E frame now d a = Some b" "dispatch_all E frame now ds b = Some a'"
      by (auto split: option.splits)
    have "run_steps E c p sts s = Some (r, s1) \<Longrightarrow> sch_programs s1 = sch_programs s" for c p sts s r s1
      using run_steps_rel by blast
    then have "sch_programs (da_sched b) q = sch_programs (da_sched a) q"
      using b(1) Cons.prems(2)
      by (auto simp: dispatch_one_def Let_def sched_simps split: option.splits prod.splits if_splits)
    with Cons.IH [OF b(2)] Cons.prems(2) show ?case by simp
  qed simp
  have "dec_program ` set (resolve (ta_candidates ta)) = cand_program ` set (ta_candidates ta)"
    by (simp add: resolve_programs flip: set_map)
  with all [OF assms(1) [unfolded dispatch_phase_def]] assms(2)
    direct_fires_rel [of E "\<lparr>da_sched = ta_sched ta, da_fired = [], da_failed = []\<rparr>" "ta_direct ta"]
  show ?thesis by simp
qed

lemma dispatch_fired_from:
  assumes "dispatch_phase E frame now ta = Some da"
  shows "fst ` set (da_fired da) \<subseteq> fst ` set (ta_direct ta) \<union> cand_program ` set (ta_candidates ta)"
proof -
  let ?g = "\<lambda>d. (dec_program d, fst (dec_payload d))"
  have "set (da_fired da) \<subseteq> set (ta_direct ta) \<union> ?g ` set (resolve (ta_candidates ta))"
    using dispatch_all_fired [OF assms [unfolded dispatch_phase_def]] by (simp add: direct_fired)
  then have "fst ` set (da_fired da) \<subseteq> fst ` (set (ta_direct ta) \<union> ?g ` set (resolve (ta_candidates ta)))"
    by (rule image_mono)
  moreover have "fst ` ?g ` set (resolve (ta_candidates ta)) = cand_program ` set (ta_candidates ta)"
    by (simp add: comp_def resolve_programs flip: set_map)
  ultimately show ?thesis by (simp add: image_Un)
qed

lemma tick_frozen:
  assumes "distinct it" "all_small s" "tick_once E cap it s = Some s'"
    and "states s q \<noteq> Some Waiting" "states s q \<noteq> Some Running"
  shows "sch_programs s' q = sch_programs s q"
proof (cases cap)
  case None
  with assms(3) show ?thesis by (auto simp: tick_once_def sched_simps)
next
  case (Some frame)
  from assms(3) [unfolded Some] obtain now s0 s1 ta da s2 where ph:
    "clock_now E (s\<lparr>sch_perception := perception_clear (sch_perception s)\<rparr>) = (now, s0)"
    "trigger_phase E frame now it s0 = Some s1"
    "watch_phase E frame now (ids_in_state Running it s1) s1 = Some ta"
    "dispatch_phase E frame now ta = Some da"
    "bookkeeping_phase now (ta_evals ta) (da_fired da) (da_sched da) = Some s2"
    "each_id (body_one E frame now (da_failed da)) (ids_in_state Running it s1) s2 = Some s'"
    by (rule tick_phases)
  note same = clock_now_same [OF ph(1)]
  have sm: "all_small s1"
    using trigger_phase_rel [OF assms(1) ph(2)] same assms(2) statics_small by (auto simp: tick_rel_def)
  let ?run = "ids_in_state Running it s1"
  note acc = watch_phase_acc [OF sm ids_in_state_distinct [OF assms(1)] ph(3)]
  have q1: "sch_programs s1 q = sch_programs s q"
    using trigger_phase_others [OF assms(1) ph(2)] same assms(4) by simp
  then have run: "q \<notin> set ?run" using assms(5) by (simp add: ids_in_state_set states_def)
  have sub: "q \<notin> fst ` set (ta_evals ta)" "q \<notin> cand_program ` set (ta_candidates ta)" "q \<notin> fst ` set (ta_direct ta)"
    using acc run unfolding acc_ok_def by (metis list.set_map, blast, blast)
  have "fst ` set (da_fired da) \<subseteq> fst ` set (ta_direct ta) \<union> cand_program ` set (ta_candidates ta)"
    by (rule dispatch_fired_from [OF ph(4)])
  with sub have fired: "q \<notin> fst ` set (da_fired da)" by blast
  have "sch_programs s' q = sch_programs s2 q"
    by (rule each_id_other [OF _ ph(6) run]) (auto intro: body_one_effect(1))
  also have "\<dots> = sch_programs (da_sched da) q" by (rule bookkeeping_other [OF ph(5) sub(1) fired])
  also have "\<dots> = sch_programs s1 q" using dispatch_other [OF ph(4) sub(2)] watch_phase_programs [OF acc] by simp
  finally show ?thesis using q1 by simp
qed

end
