(* ===== verification/Demo.thy ===== *)
theory Demo
  imports Scheduler_Runs
begin

text \<open>
  A small concrete system on which the properties are instantiated: fixed stand-ins for the
  image crates, the recording input sink, a clock that advances 100 ms per reading, and one
  program that clicks once when the only pixel of the screen is white and then sleeps.
\<close>

definition demo_canon :: CanonExt where
  "demo_canon = \<lparr>nfc = (\<lambda>s. s), ryu = (\<lambda>_. ''0.5'')\<rparr>"

definition demo_ext :: PerceptionExt where
  "demo_ext = \<lparr>canon = demo_canon, load_luma8 = (\<lambda>_. Inl ''no decoder''),
     grayscale = (\<lambda>im. \<lparr>img_w = img_w im, img_h = img_h im, img_px = map fst (img_px im)\<rparr>),
     resize_9x8 = (\<lambda>_. \<lparr>img_w = 9, img_h = 8, img_px = replicate 72 0\<rparr>),
     match_best = (\<lambda>_ _. (0, 0, 0))\<rparr>"

definition demo_env :: "MockInputSink Env" where
  "demo_env = \<lparr>env_ext = demo_ext, env_stack = 8, env_sink = mock_call, env_clock = (\<lambda>n. int n * 100)\<rparr>"

definition demo_watch :: Watch where
  "demo_watch = \<lparr>when_cond = ByName ''go'',
     watch_steps = [Click (AbsoluteTarget \<lparr>pt_x = 0, pt_y = 0\<rparr>) LeftButton], throttle_ms = 50, lifetime = OneShot\<rparr>"

definition demo_program :: Program where
  "demo_program = \<lparr>version = ''0.1'', prog_name = ''demo'', prog_id = None, trigger = OnSubmit,
     predicates = [(''go'', ColorAt \<lparr>pt_x = 0, pt_y = 0\<rparr> (255, 255, 255) 10)],
     watches = [demo_watch], body = [SleepMs 20], on_complete = None, on_fail = None,
     timeout_ms = None, labels = [], priority = 0\<rparr>"

definition demo_start :: "MockInputSink Sched" where
  "demo_start = sched_new (mock_new kill_new) perception_new"

text \<open>The demo program resumed at its first step, hence already running.\<close>

definition demo_sched :: "MockInputSink Sched" where
  "demo_sched = exec_command demo_env (ResumeRunning ''p1'' 0 demo_program []) demo_start"

text \<open>The same program cancelled, and the scheduler with an engaged kill switch.\<close>

definition demo_cancelled :: "MockInputSink Sched" where
  "demo_cancelled = exec_command demo_env (CancelCmd ''p1'' ''user'') demo_sched"

definition demo_halted :: "MockInputSink Sched" where
  "demo_halted = exec_command demo_env (ResumeRunning ''p1'' 0 demo_program [])
     (sched_new (mock_new (engage 7 kill_new)) perception_new)"

text \<open>Two captured frames and one failed capture.\<close>

definition demo_turns :: "(Frame option \<times> ProgramId list) list" where
  "demo_turns = [(Some white_pixel, [''p1'']), (None, [''p1'']), (Some white_pixel, [''p1''])]"

definition demo_script :: "turn list" where
  "demo_script = [([SubmitValidated ''p1'' demo_program []], Some white_pixel, [''p1'']),
     ([CancelCmd ''p1'' ''user'', ShutdownCmd, StartCmd ''p1''], None, [])]"

definition demo_dsl :: DslExt where
  "demo_dsl = \<lparr>json_from_str = (\<lambda>_. Inl ''no parser''), program_from_value = (\<lambda>_. Inr demo_program),
     dsl_canon = demo_canon\<rparr>"

text \<open>A program whose only predicate has the name that the runtime gives to its inline condition.\<close>

definition collide_program :: Program where
  "collide_program = \<lparr>version = ''0.1'', prog_name = ''collide'', prog_id = None, trigger = OnSubmit,
     predicates = [(''__inline_0'', ColorAt \<lparr>pt_x = 0, pt_y = 0\<rparr> (255, 255, 255) 10)],
     watches = [\<lparr>when_cond = Inline (ElapsedMsSinceTrue ''__inline_0'' 100), watch_steps = [],
                 throttle_ms = 0, lifetime = Persistent\<rparr>],
     body = [], on_complete = None, on_fail = None, timeout_ms = None, labels = [], priority = 0\<rparr>"

lemma demo_env_ok: "env_ok demo_env"
  by (simp add: env_ok_def resize_ok_def demo_env_def demo_ext_def)

lemma demo_program_ok: "program_ok demo_program"
proof -
  have "validate_predicate_graph (predicates demo_program) = Inr ()" by code_simp
  then show ?thesis
    by (simp add: program_ok_def validate_graph_ok) (simp add: demo_program_def demo_watch_def when_ok_def
        target_ok_def lifetime_ok_def)
qed

lemma collide_program_ok: "program_ok collide_program"
proof -
  let ?P = "predicates collide_program"
  have "validate_predicate_graph ?P = Inr ()" by code_simp
  moreover have "validate_predicate_graph (btree_insert synthetic_name (ElapsedMsSinceTrue ''__inline_0'' 100) ?P) = Inr ()"
    by code_simp
  ultimately have "graph_ok ?P" "graph_ok (btree_insert synthetic_name (ElapsedMsSinceTrue ''__inline_0'' 100) ?P)"
    by (simp_all add: validate_graph_ok)
  then show ?thesis
    by (simp add: program_ok_def) (simp add: collide_program_def when_ok_def lifetime_ok_def synthetic_name_def)
qed

lemma demo_prog_ok: "prog_ok 8 demo_program"
  by (simp add: prog_ok_def demo_program_ok inline_free_def small_watches_def)
     (simp add: demo_program_def inline_key_def)

lemma demo_reachable: "reachable demo_env demo_sched"
  unfolding demo_sched_def demo_start_def
  by (intro reach_cmd reach_init) (simp add: cmd_ok_def demo_prog_ok demo_env_def)

lemma demo_more_reachable: "reachable demo_env demo_cancelled" "reachable demo_env demo_halted"
  unfolding demo_cancelled_def demo_halted_def
  by (intro reach_cmd reach_init demo_reachable; simp add: cmd_ok_def demo_prog_ok demo_env_def)+

lemma demo_capture_ok: "capture_ok (Some white_pixel)" "capture_ok None"
  by (simp_all add: capture_ok_def white_pixel_wf)

lemma demo_turns_ok: "turns_ok demo_turns" "script_ok demo_env demo_script"
  by (simp_all add: turns_ok_def script_ok_def demo_turns_def demo_script_def demo_capture_ok cmd_ok_def
      demo_prog_ok demo_env_def)

lemma demo_sched_ok: "sched_ok demo_env demo_sched"
  using reachable_inv [OF demo_reachable] by simp

lemma demo_running: "sch_programs demo_sched ''p1'' = Some ((pending_with_assets demo_program [])
   \<lparr>rp_state := Running, running_since_ms := Some 0, body_cursor := Some 0, resumed_from := Some 0\<rparr>)"
  by (simp add: demo_sched_def demo_start_def exec_command_def clock_now_def sched_simps sched_new_def demo_env_def)

lemma demo_running_state: "states demo_sched ''p1'' = Some Running"
  by (simp add: states_def demo_running)

lemma demo_cancelled_state: "states demo_cancelled ''p1'' = Some Cancelled"
  by (simp add: demo_cancelled_def exec_command_def demo_running sched_simps)

lemma demo_halted_kill: "is_engaged (mock_kill (sch_input demo_halted))"
  by (simp add: demo_halted_def exec_command_def clock_now_def sched_simps sched_new_def mock_new_def
      is_engaged_def engage_def Let_def)

end
