(* ===== verification/Sched_Props.thy ===== *)
theory Sched_Props
  imports Demo
begin

text \<open>
  The properties of the scheduler: it never gets stuck, its events tell the whole story of
  every program, one-shot watches fire once, one program acts per tick, and an engaged kill
  switch keeps a tick from posting input.
\<close>

section \<open>Ticks return\<close>





section \<open>Events and program states\<close>

text \<open>
  C2.  The event stream determines the program states: a listener that starts with no
  programs and applies the state changes and failures in the order they were sent holds
  exactly the states that the scheduler holds, for every command and tick history.
\<close>

theorem events_determine_states:
  assumes "reachable E s"
  shows "states s = replay (sch_events s) Map.empty"
  using reachable_inv [OF assms] by simp

theorem events_determine_states_witness:
  "replay (sch_events demo_cancelled) Map.empty ''p1'' = Some Cancelled"
  using events_determine_states [OF demo_more_reachable(1)] demo_cancelled_state by simp

text \<open>
  C13.  Every event that a tick sends is legal at the moment it is sent: a state change
  starts a waiting program or completes a running one, names the true previous state, a
  failure hits only a waiting or running program, and a completion is announced after the
  change to completed.  The new states are those that the sent events announce, and no
  program's code or assets change.
\<close>

theorem tick_trace_legal:
  assumes "reachable E s" "env_ok E" "distinct it" "capture_ok cap"
  shows "\<exists>s' es. tick_once E cap it s = Some s' \<and> sch_events s' = sch_events s @ es \<and>
     trace_ok (states s) es \<and> states s' = replay es (states s) \<and> statics s' = statics s"
  using tick_total [OF conjunct1 [OF reachable_inv [OF assms(1)]] assms(2-4)]
  unfolding tick_rel_def by metis

theorem tick_trace_legal_witness:
  "\<exists>s' es. tick_once demo_env (Some white_pixel) [''p1''] demo_sched = Some s' \<and>
     sch_events s' = sch_events demo_sched @ es \<and> trace_ok (states demo_sched) es \<and>
     states s' = replay es (states demo_sched) \<and> statics s' = statics demo_sched"
  by (rule tick_trace_legal [OF demo_reachable demo_env_ok]) (simp_all add: demo_capture_ok)

text \<open>
   A tick leaves a program in a terminal state, or one that is pending or blocked,
  exactly as it was, with its cursor, its watches and its deferral.
\<close>

theorem terminal_programs_frozen:
  assumes "reachable E s" "env_ok E" "distinct it" "capture_ok cap"
    and "states s q = Some st" "is_terminal st \<or> st = Pending \<or> st = Blocked"
  shows "\<exists>s'. tick_once E cap it s = Some s' \<and> sch_programs s' q = sch_programs s q"
proof -
  have ok: "sched_ok E s" using reachable_inv [OF assms(1)] by simp
  obtain s' where s': "tick_once E cap it s = Some s'" using tick_total [OF ok assms(2-4)] by blast
  have "states s q \<noteq> Some Waiting" "states s q \<noteq> Some Running" using assms(5,6) by auto
  from tick_frozen [OF assms(3) sched_ok_small [OF ok] s' this] s' show ?thesis by blast
qed

theorem terminal_programs_frozen_witness:
  "\<exists>s'. tick_once demo_env (Some white_pixel) [''p1''] demo_cancelled = Some s' \<and>
     sch_programs s' ''p1'' = sch_programs demo_cancelled ''p1''"
  by (rule terminal_programs_frozen [OF demo_more_reachable(1) demo_env_ok _ _ demo_cancelled_state])
    (simp_all add: demo_capture_ok)

section \<open>Watches\<close>

text \<open>
  C10.  A one-shot watch of a started program fires at most once over any sequence of ticks,
  whatever the frames, the clock and the other programs do, and never again once retired.
\<close>

theorem one_shot_fires_once:
  assumes "reachable E s" "env_ok E" "turns_ok ts" "sch_programs s pid = Some rp" "rp_state rp \<noteq> Waiting"
    and "is_one_shot (watches (rp_program rp) ! idx)"
  shows "\<exists>s'. ticks E ts s = Some s' \<and> count_list (firings s s') (pid, idx) \<le> (if retired (watch_of rp idx) then 0 else 1)"
proof -
  have ok: "sched_ok E s" using reachable_inv [OF assms(1)] by simp
  obtain s' where s': "ticks E ts s = Some s'" using ticks_total [OF ok assms(2,3)] by blast
  have d: "\<forall>(c, it) \<in> set ts. distinct it" using assms(3) by (auto simp: turns_ok_def)
  from one_shot_run [OF s' d sched_ok_small [OF ok] assms(4-6)] s' show ?thesis by auto
qed

theorem one_shot_fires_once_witness:
  "\<exists>s'. ticks demo_env demo_turns demo_sched = Some s' \<and> count_list (firings demo_sched s') (''p1'', 0) \<le> 1"
proof -
  have "is_one_shot (watches demo_program ! 0)" by (simp add: demo_program_def demo_watch_def is_one_shot_def)
  with one_shot_fires_once [OF demo_reachable demo_env_ok demo_turns_ok(1) demo_running, of 0] show ?thesis
    by (simp add: watch_of_def pending_with_assets_def watch_default_def)
qed



text \<open>
  C16.  At most one program acts through its watches in a tick: all \<open>ActionDispatched\<close>
  events of the tick carry the same program, however many watches came true.
\<close>

theorem one_actor_per_tick:
  assumes "reachable E s" "env_ok E" "distinct it" "frame_wf frame"
  shows "\<exists>s' es w. tick_once E (Some frame) it s = Some s' \<and> sch_events s' = sch_events s @ es \<and> actors es \<subseteq> {w}"
proof -
  have ok: "sched_ok E s" using reachable_inv [OF assms(1)] by simp
  obtain s' where s': "tick_once E (Some frame) it s = Some s'"
    using tick_total [OF ok assms(2,3), of "Some frame"] assms(4) by (auto simp: capture_ok_def)
  from tick_once_fires [OF assms(3) sched_ok_small [OF ok] s'] s' show ?thesis
    unfolding tick_fires_def adds_def by blast
qed

theorem one_actor_per_tick_witness:
  "\<exists>s' es w. tick_once demo_env (Some white_pixel) [''p1''] demo_sched = Some s' \<and>
     sch_events s' = sch_events demo_sched @ es \<and> actors es \<subseteq> {w}"
  by (rule one_actor_per_tick [OF demo_reachable demo_env_ok _ white_pixel_wf]) simp

section \<open>Bodies\<close>

text \<open>
   A tick executes at most one body step per program: the cursor of a program that is
  not waiting stays or moves to the next step.
\<close>

theorem body_moves_one_step:
  assumes "reachable E s" "env_ok E" "distinct it" "frame_wf frame"
    and "sch_programs s q = Some rp" "rp_state rp \<noteq> Waiting"
  shows "\<exists>s' rp'. tick_once E (Some frame) it s = Some s' \<and> sch_programs s' q = Some rp' \<and>
     (body_cursor rp' = body_cursor rp \<or> body_cursor rp' = Some (u32_succ (cursor_of rp)))"
proof -
  have ok: "sched_ok E s" using reachable_inv [OF assms(1)] by simp
  obtain s' where s': "tick_once E (Some frame) it s = Some s'"
    using tick_total [OF ok assms(2,3), of "Some frame"] assms(4) by (auto simp: capture_ok_def)
  from tick_cursor [OF assms(3) sched_ok_small [OF ok] s' assms(5,6)] s' show ?thesis
    unfolding cursor_step_def by blast
qed

theorem body_moves_one_step_witness:
  "\<exists>s' rp'. tick_once demo_env (Some white_pixel) [''p1''] demo_sched = Some s' \<and>
     sch_programs s' ''p1'' = Some rp' \<and> (body_cursor rp' = Some 0 \<or> body_cursor rp' = Some (u32_succ 0))"
  using body_moves_one_step [OF demo_reachable demo_env_ok _ white_pixel_wf demo_running, of "[''p1'']"]
  by (simp add: cursor_of_def)

section \<open>Kill switch\<close>

text \<open>
  C18.  With the kill switch engaged, a tick posts no input at all, whatever the programs
  ask for; the recording sink's log is unchanged.
\<close>

theorem kill_switch_silences_tick:
  assumes "reachable E s" "env_ok E" "env_sink E = mock_call" "distinct it" "capture_ok cap"
    and "is_engaged (mock_kill (sch_input s))"
  shows "\<exists>s'. tick_once E cap it s = Some s' \<and> mock_log (sch_input s') = mock_log (sch_input s)"
proof -
  have ok: "sched_ok E s" using reachable_inv [OF assms(1)] by simp
  obtain s' where s': "tick_once E cap it s = Some s'" using tick_total [OF ok assms(2,4,5)] by blast
  from mock.tick_halted [OF assms(3,4) sched_ok_small [OF ok] s' assms(6)] s' show ?thesis by blast
qed

theorem kill_switch_silences_tick_witness:
  "\<exists>s'. tick_once demo_env (Some white_pixel) [''p1''] demo_halted = Some s' \<and>
     mock_log (sch_input s') = mock_log (sch_input demo_halted)"
  by (rule kill_switch_silences_tick [OF demo_more_reachable(2) demo_env_ok _ _ _ demo_halted_kill])
    (simp_all add: demo_env_def demo_capture_ok)

section \<open>Commands\<close>

text \<open>
  Draining the command channel executes the commands before the first shutdown in
  the order they were sent, leaves those after it in the channel, and reports a shutdown
  exactly when there is one.
\<close>

theorem drain_commands_in_order:
  "drain_commands E cmds s =
     (ShutdownCmd \<in> set cmds, drop 1 (dropWhile (\<lambda>c. c \<noteq> ShutdownCmd) cmds),
      fold (exec_command E) (takeWhile (\<lambda>c. c \<noteq> ShutdownCmd) cmds) s)"
  by (rule drain_commands_split)

text \<open>
  A command announces what it does: the states after it are the states before it with
  the events it sent applied, and it never takes an event back.
\<close>

theorem command_announces_states:
  "\<exists>es. sch_events (exec_command E c s) = sch_events s @ es \<and> states (exec_command E c s) = replay es (states s)"
  by (rule exec_command_mirror)

section \<open>Divergences\<close>

text \<open>The evaluator under the colliding key calls itself at the same depth until the stack is gone.\<close>

lemma self_elapsed_diverges:
  assumes "map_of (ctx_predicates c) k = Some (ElapsedMsSinceTrue k ms)" "ctx_program c = Some pid"
    and "cache_get (hash_predicate (canon X) (ElapsedMsSinceTrue k ms)) s = None"
  shows "evaluate_named_with_depth X c fuel k 0 s = None"
proof (induction fuel)
  case (Suc fuel)
  from Suc assms show ?case
    by (simp add: eval_named_Suc child_depth_def dispatch_leaf_def elapsed_evaluate_def pe_bind_def MAX_RECURSION_DEPTH_def)
qed simp

lemma inline_key_diverges:
  "when_truth E (eval_ctx frame now rp pid) 0 (Inline (ElapsedMsSinceTrue ''__inline_0'' 100))
     (perception_clear perception_new) = None"
proof -
  let ?per = "perception_clear perception_new"
  let ?c = "(eval_ctx frame now rp pid)\<lparr>ctx_predicates := btree_insert ''__inline_0'' (ElapsedMsSinceTrue ''__inline_0'' 100)
     (predicates (rp_program rp))\<rparr>"
  have key: "inline_key 0 = ''__inline_0''" by code_simp
  have m: "map_of (ctx_predicates ?c) ''__inline_0'' = Some (ElapsedMsSinceTrue ''__inline_0'' 100)"
    by (simp add: map_of_btree_insert)
  have h: "cache_get h ?per = None" for h by (simp add: cache_get_def perception_clear_def)
  have "evaluate_named_with_depth X ?c fuel ''__inline_0'' 0 ?per = None" for X fuel
    by (rule self_elapsed_diverges [OF m _ h]) (simp add: eval_ctx_def)
  with m h show ?thesis
    by (simp add: when_truth_def key evaluate_named_def dispatch_def dispatch_leaf_def elapsed_evaluate_def
        pe_bind_def Let_def eval_ctx_def)
qed

text \<open>
   The runtime stores an inline condition under the key \<open>__inline_<idx>\<close>, which the
  validator does not reserve: the validator accepts a program that names a predicate so, and
  for every stack size the first tick after its submission never returns.
\<close>

theorem inline_key_collision:
  "(\<exists>v. finish D collide_program = Inr v) \<and>
   tick_once E (Some frame) [pid] (exec_command E (SubmitValidated pid collide_program []) (sched_new i perception_new)) = None"
proof
  show "\<exists>v. finish D collide_program = Inr v" using finish_ok collide_program_ok by blast
  let ?w = "\<lparr>when_cond = Inline (ElapsedMsSinceTrue ''__inline_0'' 100), watch_steps = [],
     throttle_ms = 0, lifetime = Persistent\<rparr> :: Watch"
  have ws: "watches collide_program = [?w]" by (simp add: collide_program_def)
  let ?per = "perception_clear perception_new"
  have w: "eval_watches E (eval_ctx frame now rp pid) rp 0 [?w] (acc, ?per) = None"
    if "watch_state rp = [(0, watch_default)]" for now rp acc
    using that
    by (simp add: inline_key_diverges eval_watch_def until_tripped_def watch_default_def u32_of_usize_def)
  let ?s = "exec_command E (SubmitValidated pid collide_program []) (sched_new i perception_new)"
  let ?rp = "(pending_with_assets collide_program [])\<lparr>rp_state := Waiting\<rparr>"
  obtain now s0 where c: "clock_now E (?s\<lparr>sch_perception := perception_clear (sch_perception ?s)\<rparr>) = (now, s0)"
    by fastforce
  have s0: "sch_programs s0 = [pid \<mapsto> ?rp]" "sch_perception s0 = ?per"
    using c by (auto simp: clock_now_def exec_command_def sched_new_def Let_def sched_simps)
  define s1 where "s1 = emit E (ProgramStateChanged pid Waiting Running ''trigger_fired'')
     (put_program pid (start_running now ?rp) (s0\<lparr>sch_perception := ?per\<rparr>))"
  have t: "trigger_phase E frame now [pid] s0 = Some s1"
    by (simp add: s1_def trigger_phase_def ids_in_state_def trigger_one_def s0 trigger_fires_def collide_program_def)
  have s1: "sch_programs s1 pid = Some (start_running now ?rp)" "sch_perception s1 = ?per"
    by (simp_all add: s1_def sched_simps s0)
  have "watch_state (start_running now ?rp) = [(0, watch_default)]"
    by (simp add: start_running_def ws pending_with_assets_def u32_of_usize_def)
  with s1 w ws have "watch_phase E frame now (ids_in_state Running [pid] s1) s1 = None"
    by (simp add: watch_phase_def ids_in_state_def watch_one_def)
  with c t show "tick_once E (Some frame) [pid] ?s = None" by (simp add: tick_once_def)
qed

end
