(* ===== verification/Canonical_Lemmas.thy ===== *)
theory Canonical_Lemmas
  imports Canonical "HOL-Library.Multiset"
begin

text \<open>
  Canonical JSON does not depend on the order in which an object's members are stored, and
  the digest pads its input as SHA-256 prescribes and prints 64 lower-case hex digits.
\<close>

lemma write_object_perm:
  assumes "distinct (map fst m)" "mset m = mset m'"
  shows "write_object_members X m = write_object_members X m'"
proof -
  have k: "mset (map fst m) = mset (map fst m')" using assms(2) by simp
  then have d: "distinct (map fst m')" using assms(1) mset_eq_imp_distinct_iff by blast
  have "set m = set m'" using assms(2) by (rule mset_eq_setD)
  with assms(1) d have "map_of m = map_of m'" by (simp add: map_of_inject_set)
  moreover have "sort (map fst m) = sort (map fst m')" using k by (metis mset_sort properties_for_sort sorted_sort)
  ultimately show ?thesis by (simp add: write_object_members_def)
qed

lemma write_value_perm:
  assumes "distinct (map fst m)" "mset m = mset m'"
  shows "write_value X (JObject m) = write_value X (JObject m')"
proof -
  let ?f = "\<lambda>(k, v). (k, write_value X v)"
  have "map fst (map ?f m) = map fst m" by (simp add: case_prod_beta comp_def)
  with assms(1) have "distinct (map fst (map ?f m))" by metis
  moreover have "mset (map ?f m) = mset (map ?f m')" using assms(2) by simp
  ultimately show ?thesis by (simp add: write_object_perm)
qed

section \<open>Digest\<close>

lemma sha_pad_zeros_form:
  "\<exists>k. sha_pad_zeros msg = msg @ replicate k (CHR 0x00) \<and> (length msg + k) mod 64 = 56"
proof (induction msg rule: sha_pad_zeros.induct)
  case (1 msg)
  show ?case
  proof (cases "length msg mod 64 = 56")
    case True
    then have "sha_pad_zeros msg = msg" by (simp add: sha_pad_zeros.simps)
    with True show ?thesis by (intro exI [of _ 0]) simp
  next
    case False
    with 1 obtain k where k: "sha_pad_zeros (msg @ [CHR 0x00]) = (msg @ [CHR 0x00]) @ replicate k (CHR 0x00)"
      "(length (msg @ [CHR 0x00]) + k) mod 64 = 56" by auto
    from False have "sha_pad_zeros msg = sha_pad_zeros (msg @ [CHR 0x00])" by (subst sha_pad_zeros.simps) simp
    with k show ?thesis by (intro exI [of _ "Suc k"]) simp
  qed
qed

lemma sha_padded_form:
  "\<exists>k. sha_padded data = data @ CHR 0x80 # replicate k (CHR 0x00) @ be_bytes_u64 (word_of_nat (length data) * 8) \<and>
       length (sha_padded data) mod 64 = 0"
proof -
  obtain k where k: "sha_pad_zeros (data @ [CHR 0x80]) = (data @ [CHR 0x80]) @ replicate k (CHR 0x00)"
    "(length (data @ [CHR 0x80]) + k) mod 64 = 56" using sha_pad_zeros_form by blast
  have b: "length (be_bytes_u64 n) = 8" for n by (simp add: be_bytes_u64_def)
  have "length (sha_padded data) = (length (data @ [CHR 0x80]) + k) + 8" by (simp add: sha_padded_def k(1) b)
  moreover have "(a + 8) mod 64 = 0" if "a mod 64 = 56" for a :: nat using that by presburger
  ultimately have "length (sha_padded data) mod 64 = 0" using k(2) by metis
  with k(1) show ?thesis by (intro exI [of _ k]) (simp add: sha_padded_def)
qed

lemma sha_rounds_length: "length h = 8 \<Longrightarrow> length (sha_rounds kw h) = 8"
  by (induction kw h rule: sha_rounds.induct) (simp_all add: sha_round_def Let_def)

lemma sha_chunk_length: "length st = 8 \<Longrightarrow> length (sha_chunk st c) = 8"
  by (simp add: sha_chunk_def Let_def sha_rounds_length)

lemma sha_state_length: "length st = 8 \<Longrightarrow> length (foldl sha_chunk st cs) = 8"
  by (induction cs arbitrary: st) (simp_all add: sha_chunk_length)

lemma hex_digit_range: "d < 16 \<Longrightarrow> hex_digit d \<in> set ''0123456789abcdef''"
proof -
  assume "d < 16"
  then have "d \<in> {0..<16}" by simp
  moreover have "{0..<16} = set [0..<16::nat]" by simp
  moreover have "\<forall>d \<in> set [0..<16]. hex_digit d \<in> set ''0123456789abcdef''"
    by code_simp
  ultimately show ?thesis by blast
qed

lemma sum_list_const: "(\<And>x. x \<in> set xs \<Longrightarrow> length (f x) = n) \<Longrightarrow> length (concat (map f xs)) = length xs * n"
  by (induction xs) auto

lemma sha256_hex_shape: "length (sha256_hex d) = 64 \<and> set (sha256_hex d) \<subseteq> set ''0123456789abcdef''"
proof
  let ?st = "foldl sha_chunk sha_init (chunks_exact 64 (sha_padded d))"
  have "length ?st = 8" by (rule sha_state_length) (simp add: sha_init_def hex_groups_def)
  moreover have "length (concat (map hex_word ?st)) = length ?st * 8"
    by (rule sum_list_const) (simp add: hex_word_def)
  ultimately show "length (sha256_hex d) = 64" by (simp add: sha256_hex_def)
  show "set (sha256_hex d) \<subseteq> set ''0123456789abcdef''"
    using hex_digit_range by (auto simp: sha256_hex_def hex_word_def simp del: list.set)
qed

end
