(* ===== verification/Dsl_Lemmas.thy ===== *)
theory Dsl_Lemmas
  imports Dsl_Validate
begin

text \<open>
  Further facts on the validator: the hash table beside an accepted program, the envelope,
  and how an error path is printed as a JSON pointer.
\<close>

section \<open>Hash table\<close>

lemma fold_insert_get:
  "map_of (fold (\<lambda>(n, p) out. btree_insert n (f p) out) P m) k =
     (case map_of (rev P) k of None \<Rightarrow> map_of m k | Some p \<Rightarrow> Some (f p))"
  by (induction P arbitrary: m)
    (auto simp: map_of_btree_insert map_add_def split: option.splits)

lemma btree_wf_rev: "btree_wf P \<Longrightarrow> map_of (rev P) = map_of P"
  by (rule map_of_inject_set [THEN iffD2]) (auto simp: rev_map [symmetric] dest: bt.keys_distinct)

lemma hashes_get:
  assumes "btree_wf P"
  shows "map_of (compute_predicate_hashes D P) k =
     map_option (\<lambda>p. predicate_hash (dsl_canon D) (predicate_to_value p)) (map_of P k)"
  using btree_wf_rev [OF assms]
  by (simp add: compute_predicate_hashes_def fold_insert_get split: option.splits)

section \<open>Envelope\<close>

lemma finish_result:
  "finish D p = Inr v \<longleftrightarrow> program_ok p \<and> v = \<lparr>val_program = p, val_hashes = compute_predicate_hashes D (predicates p)\<rparr>"
proof -
  have "finish D p = Inr v \<Longrightarrow> v = \<lparr>val_program = p, val_hashes = compute_predicate_hashes D (predicates p)\<rparr>" for v
    by (auto simp: finish_def split: sum.splits)
  then show ?thesis using finish_ok [of D p] by blast
qed

lemma envelope_ok:
  "parse_envelope_value D v = Inr p \<longleftrightarrow>
     (\<exists>m ver. v = JObject m \<and> map_of m ''version'' = Some (JString ver) \<and> dsl_major ver = ''0'' \<and>
        program_from_value D v = Inr p)"
  by (auto simp: parse_envelope_value_def SUPPORTED_DSL_MAJOR_def split: JsonValue.splits option.splits sum.splits if_splits)

section \<open>JSON pointers\<close>

fun segment_text :: "Segment \<Rightarrow> string" where
  "segment_text (SegKey k) = k"
| "segment_text (SegIndex i) = nat_str i"

lemma nat_str_digits: "c \<in> set (nat_str n) \<Longrightarrow> \<exists>d < 10. c = digit_char d"
proof (induction n rule: nat_str.induct)
  case (1 n)
  then show ?case by (cases "n < 10") (auto simp: nat_str.simps [of n] intro: exI [of _ "n mod 10"])
qed

lemma digit_char_plain: "d < 10 \<Longrightarrow> digit_char d \<noteq> CHR ''/'' \<and> digit_char d \<noteq> CHR ''~''"
proof -
  assume d: "d < 10"
  then have "of_char (digit_char d) = (48 + d :: nat)" by (simp add: digit_char_def)
  with d show ?thesis by auto
qed

lemma nat_str_plain: "CHR ''/'' \<notin> set (nat_str n)" "CHR ''~'' \<notin> set (nat_str n)"
  using nat_str_digits [of _ n] digit_char_plain by metis+

lemma unescape_plain: "CHR ''~'' \<notin> set s \<Longrightarrow> unescape_key s = s"
  by (induction s rule: unescape_key.induct) auto

lemma unescape_Nil [simp]: "unescape_key s = [] \<longleftrightarrow> s = []"
  by (induction s rule: unescape_key.induct) auto

lemma pointer_segments:
  "map unescape_key (str_split (CHR ''/'') (path_display p)) = '''' # map segment_text p"
proof (induction p)
  case (Cons g p)
  obtain t where t: "segment_display g = CHR ''/'' # t" "CHR ''/'' \<notin> set t" "unescape_key t = segment_text g"
    by (cases g) (simp_all add: escape_key_no_slash unescape_escape nat_str_plain unescape_plain)
  obtain r where r: "str_split (CHR ''/'') (path_display p) = [] # r" "map unescape_key r = map segment_text p"
    using Cons by (cases "str_split (CHR ''/'') (path_display p)") auto
  have d: "path_display p = [] \<or> (\<exists>q. path_display p = CHR ''/'' # q)"
    by (cases p; cases "hd p") (auto simp: path_display_def)
  have "str_split (CHR ''/'') (t @ path_display p) = t # r"
    using d r str_split_append [OF t(2)] str_split_no_sep [OF t(2)] by auto
  with t r show ?case by (simp add: path_display_def)
qed (simp add: path_display_def)

end
