(* ===== verification/Dsl_Props.thy ===== *)
theory Dsl_Props
  imports Demo Canonical_Lemmas Dsl_Lemmas
begin

text \<open>
  The properties of the program validator and of the canonical form: which programs are
  accepted, what a cycle report means, the expression grammar, suggestions, JSON pointers,
  state names, key order and the digest.
\<close>

section \<open>Validation\<close>

text \<open>
  C4.  The validator accepts a JSON value exactly when it is an object whose version has
  major \<open>0\<close>, it deserialises, and the program satisfies the declarative condition: predicate
  references resolve and are acyclic, logical predicates have operands, trigger, watches and
  lifetimes name existing predicates, targets are non-negative points or expressions over
  visual predicates, and no body-only step occurs in a watch.  The accepted program is
  returned unchanged.
\<close>

theorem validator_accepts_iff:
  "validate_value D v = Inr x \<longleftrightarrow>
     (\<exists>m ver p. v = JObject m \<and> map_of m ''version'' = Some (JString ver) \<and> dsl_major ver = ''0'' \<and>
        program_from_value D v = Inr p \<and> program_ok p \<and>
        x = \<lparr>val_program = p, val_hashes = compute_predicate_hashes D (predicates p)\<rparr>)"
proof -
  have "validate_value D v = Inr x \<longleftrightarrow> (\<exists>p. parse_envelope_value D v = Inr p \<and> finish D p = Inr x)"
    by (simp add: validate_value_def split: sum.splits)
  then show ?thesis unfolding envelope_ok finish_result by blast
qed

text \<open>
  The hash table beside an accepted program has an entry for exactly the program's
  predicates, the canonical hash of each.
\<close>

theorem hash_table_complete:
  assumes "finish D p = Inr v" "btree_wf (predicates p)"
  shows "map_of (val_hashes v) k =
     map_option (\<lambda>q. predicate_hash (dsl_canon D) (predicate_to_value q)) (map_of (predicates p) k)"
  using assms by (simp add: finish_result hashes_get)

theorem hash_table_complete_witness:
  "\<exists>v. finish demo_dsl demo_program = Inr v \<and> map_of (val_hashes v) ''stop'' = None"
proof -
  obtain v where v: "finish demo_dsl demo_program = Inr v" using finish_ok demo_program_ok by blast
  have "btree_wf (predicates demo_program)" by (simp add: demo_program_def btree_wf_def)
  from hash_table_complete [OF v this, of "''stop''"] v show ?thesis by (simp add: demo_program_def)
qed

text \<open>
  C22.  The three-colour search over the predicate graph accepts exactly the acyclic graphs
  whose references all resolve and whose logical predicates have operands.
\<close>

theorem graph_accepts_iff_acyclic:
  "validate_predicate_graph P = Inr () \<longleftrightarrow> well_shaped P \<and> acyclic (dep_rel P)"
  by (rule validate_graph_iff)

text \<open>
   On a cyclic graph the search reports a cycle that really exists: a list of predicate
  names in which each references the next and the first is repeated at the end.
\<close>

theorem cycle_report_is_a_cycle:
  assumes "well_shaped P" "\<not> acyclic (dep_rel P)"
  shows "\<exists>e cyc. validate_predicate_graph P = Inl e \<and> err_kind e = PredicateCycle cyc \<and>
     length cyc \<ge> 2 \<and> hd cyc = last cyc \<and>
     (\<forall>i < length cyc - 1. \<exists>q. map_of P (cyc ! i) = Some q \<and> cyc ! Suc i \<in> set (edges_of q))"
proof -
  obtain e where e: "validate_predicate_graph P = Inl e"
    using assms(2) validate_graph_iff [of P] by (cases "validate_predicate_graph P") auto
  from validate_graph_cycle [OF e assms(1)] obtain cyc where cyc: "err_kind e = PredicateCycle cyc" "closed_walk P cyc"
    by blast
  have "(cyc ! i, cyc ! Suc i) \<in> dep_rel P" if "i < length cyc - 1" for i
    using cyc(2) that unfolding closed_walk_def by (auto simp: successively_conv_nth)
  with e cyc show ?thesis unfolding closed_walk_def by (force simp: dep_rel_def)
qed

theorem cycle_report_is_a_cycle_witness:
  "\<exists>e cyc. validate_predicate_graph [(''a'', NotOf ''b''), (''b'', NotOf ''a'')] = Inl e \<and>
     err_kind e = PredicateCycle cyc \<and> hd cyc = last cyc"
proof -
  let ?P = "[(''a'', NotOf ''b''), (''b'', NotOf ''a'')]"
  have "(''a'', ''b'') \<in> dep_rel ?P" "(''b'', ''a'') \<in> dep_rel ?P" by (simp_all add: dep_rel_def)
  then have "\<not> acyclic (dep_rel ?P)" unfolding acyclic_def by (meson r_into_trancl trancl_trans)
  moreover have "well_shaped ?P" by (simp add: well_shaped_def)
  ultimately show ?thesis using cycle_report_is_a_cycle [of ?P] by blast
qed

section \<open>Expressions, suggestions and paths\<close>

text \<open>
   The expression parser accepts exactly \<open>$<name>.match.<accessor>\<close> with a valid
  predicate name and one of the four accessors, and returns the two parts.
\<close>

theorem expression_grammar:
  "expression_parse src loc = Inr e \<longleftrightarrow>
     is_valid_name (expr_name e) \<and>
     src = CHR ''$'' # expr_name e @ CHR ''.'' # ''match'' @ CHR ''.'' # accessor_str (expr_accessor e)"
  by (rule expression_parse_grammar)

text \<open>
   The optimised distance test agrees with its definition: two names are within
  distance one exactly when they are equal or one substitution, insertion or deletion apart.
\<close>

theorem distance_test_correct: "distance_at_most_1 a b \<longleftrightarrow> a = b \<or> one_edit a b"
  by (rule distance_at_most_1_iff)

text \<open>
  The suggestion for an unknown name is the first candidate one edit away, and there
  is none only when every candidate is further away.
\<close>

theorem suggestion_is_nearest:
  assumes "needle \<notin> set cs"
  shows "case did_you_mean needle cs of
       None \<Rightarrow> \<forall>c \<in> set cs. \<not> distance_at_most_1 (str_chars needle) (str_chars c)
     | Some c \<Rightarrow> \<exists>as bs. cs = as @ c # bs \<and> distance_at_most_1 (str_chars needle) (str_chars c) \<and>
         (\<forall>a \<in> set as. \<not> distance_at_most_1 (str_chars needle) (str_chars a))"
proof (cases "did_you_mean needle cs")
  case None
  then show ?thesis using did_you_mean_None [OF None assms] by simp
next
  case (Some c)
  from did_you_mean_Some [OF Some] Some show ?thesis by auto
qed

theorem suggestion_is_nearest_witness:
  "case did_you_mean ''serch'' [''other'', ''search''] of None \<Rightarrow> True | Some c \<Rightarrow> c \<in> {''other'', ''search''}"
  using suggestion_is_nearest [of "''serch''" "[''other'', ''search'']"]
  by (auto split: option.splits simp: Cons_eq_append_conv)

text \<open>
   An error path printed as a JSON pointer can be read back: splitting it at slashes
  and undoing the escapes gives the segments, whatever characters the keys contain.
\<close>

theorem pointer_round_trip:
  "map unescape_key (str_split (CHR ''/'') (path_display p)) = '''' # map segment_text p"
  by (rule pointer_segments)

text \<open>A state name parses to a state exactly when it is that state's printed name.\<close>

theorem state_name_round_trip: "state_from_str x = Inr s \<longleftrightarrow> x = state_as_str s"
  by (rule state_from_str_ok)

section \<open>Canonical form and digest\<close>

text \<open>Canonical JSON does not depend on the order in which an object's members are held.\<close>

theorem canonical_key_order:
  assumes "distinct (map fst m)" "mset m = mset m'"
  shows "canonicalize X (JObject m) = canonicalize X (JObject m')"
  using write_value_perm [OF assms] by (simp add: canonicalize_def)

theorem canonical_key_order_witness:
  "canonicalize demo_canon (JObject [(''b'', JNull), (''a'', JBool True)]) =
   canonicalize demo_canon (JObject [(''a'', JBool True), (''b'', JNull)])"
  by (rule canonical_key_order) simp_all

text \<open>
  The hash is SHA-256 on the standard's test message \<open>abc\<close>: message padding, schedule,
  all 64 rounds, the final addition and the hexadecimal printing.
\<close>

theorem sha256_abc:
  "sha256_hex ''abc'' = ''ba7816bf8f01cfea414140de5dae2223b00361a396177a9cb410ff61f20015ad''"
  by code_simp

text \<open>
  The padded message is the input, a one bit, zeros and the bit length, and fills whole
  64-byte chunks; the digest is always 64 lower-case hexadecimal digits.
\<close>

theorem digest_shape:
  "(\<exists>k. sha_padded data = data @ CHR 0x80 # replicate k (CHR 0x00) @ be_bytes_u64 (word_of_nat (length data) * 8) \<and>
        length (sha_padded data) mod 64 = 0) \<and>
   length (sha256_hex data) = 64 \<and> set (sha256_hex data) \<subseteq> set ''0123456789abcdef''"
  using sha_padded_form sha256_hex_shape by blast

end
