(* ===== verification/Perception_Props.thy ===== *)
theory Perception_Props
  imports Demo
begin

text \<open>
  The properties of the evaluators: they return, they compute the meaning of a predicate
  despite the memo, they report only errors of the leaf evaluators, and the image view under
  them is exact.
\<close>

section \<open>Evaluation\<close>

text \<open>
  Evaluating a predicate always returns: on an accepted predicate graph and a
  well-formed frame the evaluator never panics and never nests deeper than the number of
  predicates, whatever the cache and the cross-tick state hold.
\<close>

theorem evaluation_returns:
  assumes "resize_ok X" "frame_wf (ctx_frame c)" "graph_ok (ctx_predicates c)" "length (ctx_predicates c) \<le> fuel"
  shows "\<exists>x s'. evaluate_named X fuel name c s = Some (x, s')"
  using evaluate_named_returns [OF assms] by (metis option.exhaust surj_pair)

theorem evaluation_returns_witness:
  "\<exists>x s'. evaluate_named demo_ext 1 ''go'' (eval_ctx white_pixel 0 (pending_with_assets demo_program []) ''p'') perception_new
     = Some (x, s')"
proof (rule evaluation_returns)
  show "resize_ok demo_ext" using demo_env_ok by (simp add: env_ok_def demo_env_def)
  show "graph_ok (ctx_predicates (eval_ctx white_pixel 0 (pending_with_assets demo_program []) ''p''))"
    using demo_program_ok by (simp add: eval_ctx_def program_ok_def)
qed (simp_all add: eval_ctx_def white_pixel_wf demo_program_def)



text \<open>
   On an accepted graph of at most 32 predicates evaluation never reports a cycle or an
  unknown predicate: every error comes from a leaf evaluator.
\<close>

theorem only_leaf_errors:
  assumes "graph_ok (ctx_predicates c)" "map_of (ctx_predicates c) name \<noteq> None"
    and "length (ctx_predicates c) \<le> MAX_RECURSION_DEPTH"
  shows "evaluate_named X fuel name c s \<noteq> Some (Inl (Cycle n), s') \<and>
         evaluate_named X fuel name c s \<noteq> Some (Inl (UnknownPredicate n), s')"
  using evaluate_named_error [OF assms, of X fuel s "Cycle n" s']
    evaluate_named_error [OF assms, of X fuel s "UnknownPredicate n" s'] by (auto simp: leaf_error_def)

theorem only_leaf_errors_witness:
  "evaluate_named demo_ext 1 ''go'' (eval_ctx white_pixel 0 (pending_with_assets demo_program []) ''p'') perception_new
     \<noteq> Some (Inl (Cycle ''go''), perception_new)"
proof -
  let ?c = "eval_ctx white_pixel 0 (pending_with_assets demo_program []) ''p''"
  have "graph_ok (ctx_predicates ?c)" using demo_program_ok by (simp add: eval_ctx_def program_ok_def)
  moreover have "map_of (ctx_predicates ?c) ''go'' \<noteq> None" "length (ctx_predicates ?c) \<le> MAX_RECURSION_DEPTH"
    by (simp_all add: eval_ctx_def demo_program_def MAX_RECURSION_DEPTH_def)
  ultimately show ?thesis using only_leaf_errors [of ?c "''go''" demo_ext 1 perception_new] by blast
qed

text \<open>
   \<open>elapsed_ms_since_true\<close> measures the current run of truth: after any history of ticks
  it is true exactly when the child is true now and has been true at every tick since a tick
  at least the given number of milliseconds ago.
\<close>

theorem elapsed_measures_current_run:
  assumes "first_true s (pid, child) = None" "ms \<le> u32_max"
  shows "\<exists>r' s'. elapsed_update (c\<lparr>ctx_now_ms := now\<rparr>) pid child ms r (elapsed_ticks c pid child ms hist s) = Some (Inr r', s') \<and>
     (truthy r' \<longleftrightarrow> (\<exists>t0. run_start (hist @ [(now, truthy r)]) = Some t0 \<and> now - t0 \<ge> int ms))"
proof -
  obtain r' s' where u: "elapsed_update (c\<lparr>ctx_now_ms := now\<rparr>) pid child ms r (elapsed_ticks c pid child ms hist s) = Some (Inr r', s')"
    by (cases "truthy r") (auto simp: elapsed_update_def Let_def pe_ok_def)
  from elapsed_update_history [OF assms u] u show ?thesis by blast
qed

theorem elapsed_measures_current_run_witness:
  "\<exists>r' s'. elapsed_update ((probe_ctx (0, 0, 0) ''p'')\<lparr>ctx_now_ms := 900\<rparr>) ''p'' ''a'' 500 (plain_result True (probe_ctx (0, 0, 0) ''p''))
       (elapsed_ticks (probe_ctx (0, 0, 0) ''p'') ''p'' ''a'' 500 [(100, True), (200, False), (300, True)] perception_new)
       = Some (Inr r', s') \<and> truthy r'"
  using elapsed_measures_current_run [where s = perception_new and pid = "''p''" and child = "''a''" and ms = 500 and c = "probe_ctx (0, 0, 0) ''p''" and now = 900
      and r = "plain_result True (probe_ctx (0, 0, 0) ''p'')" and hist = "[(100, True), (200, False), (300, True)]"]
  by (auto simp: perception_new_def run_start_def)

section \<open>Frames\<close>

text \<open>
   A crop is exact: when the region meets the frame, cropping returns an image of the
  size of the overlap in which every pixel is the frame's pixel at the corresponding place;
  otherwise it reports a region out of bounds.  It never panics.
\<close>

theorem crop_is_exact:
  assumes "frame_wf f" "rect_i32 r"
  shows "if 0 < rect_w (overlap f r) \<and> 0 < rect_h (overlap f r)
     then \<exists>im. crop_rgb f r = Some (Inr im) \<and>
       img_w im = nat (rect_w (overlap f r)) \<and> img_h im = nat (rect_h (overlap f r)) \<and>
       (\<forall>x < img_w im. \<forall>y < img_h im. \<exists>v. get_pixel im x y = Some v \<and>
          pixel_rgb f (rect_x (overlap f r) - rect_x (fr_bounds f) + int x)
                      (rect_y (overlap f r) - rect_y (fr_bounds f) + int y) = Some (Inr v))
     else crop_rgb f r = Some (Inl RegionOutOfBounds)"
proof (cases "0 < rect_w (overlap f r) \<and> 0 < rect_h (overlap f r)")
  case True
  with crop_rgb_ok [OF assms] show ?thesis by simp
next
  case False
  with crop_rgb_unfold [OF assms] show ?thesis by auto
qed

theorem crop_is_exact_witness:
  "crop_rgb white_pixel \<lparr>rect_x = 5, rect_y = 0, rect_w = 2, rect_h = 2\<rparr> = Some (Inl RegionOutOfBounds)"
  using crop_is_exact [OF white_pixel_wf, of "\<lparr>rect_x = 5, rect_y = 0, rect_w = 2, rect_h = 2\<rparr>"]
  by (simp add: rect_i32_def is_i32_def overlap_def white_pixel_def)

text \<open>
   A colour sample compares squared distances: for a tolerance up to 46340 it is true
  exactly when the squared distance of the sampled pixel to the target colour is at most the
  squared tolerance; tolerance zero means equality.
\<close>

theorem color_sample_correct:
  assumes "pixel_rgb f x y = Some (Inr c)" "tol \<le> 46340"
  shows "color_sample f x y t tol = Some (Inr (color_dist_sq c t \<le> (int tol)\<^sup>2)) \<and>
    (tol = 0 \<longrightarrow> color_sample f x y t tol = Some (Inr (c = t)))"
  using color_sample_dist [OF assms(1), of t tol] tolerance_square [OF assms(2)] color_dist_zero [of c t] by auto

theorem color_sample_correct_witness:
  "color_sample white_pixel 0 0 (255, 255, 255) 0 = Some (Inr True)"
proof -
  have "pixel_rgb white_pixel 0 0 = Some (Inr (255, 255, 255))"
    by (simp add: pixel_rgb_def white_pixel_def frame_width_def frame_height_def)
  with color_sample_correct [of white_pixel 0 0 "(255, 255, 255)" 0 "(255, 255, 255)"] show ?thesis
    by (simp add: color_dist_zero)
qed

section \<open>Divergences\<close>

text \<open>
  A tolerance above 46340 does the opposite of what it says: the square wraps to a
  negative number, so with the largest tolerance even the exact colour does not match.
\<close>

theorem large_tolerance_never_matches:
  "color_sample white_pixel 0 0 (255, 255, 255) 65535 = Some (Inr False)"
proof -
  have px: "pixel_rgb white_pixel 0 0 = Some (Inr (255, 255, 255))"
    by (simp add: pixel_rgb_def white_pixel_def frame_width_def frame_height_def)
  have "\<not> color_dist_sq (255, 255, 255) (255, 255, 255) \<le> wrap_i32 ((int 65535)\<^sup>2)"
    by (simp add: color_dist_sq_def wrap_i32_def)
  with color_sample_dist [OF px, of "(255, 255, 255)" 65535] show ?thesis by simp
qed

text \<open>
  The cache is shared by all programs and keyed by the predicate alone, so a logical
  predicate of one program can be answered with the result that another program's operands
  gave: after the first program evaluated its \<open>not a\<close>, the second program gets that result
  although its own \<open>a\<close> is a different predicate with the opposite value on the same frame.
\<close>

theorem cache_crosses_programs:
  "\<exists>r s'. evaluate_named X (Suc (Suc 0)) ''n'' (probe_ctx (255, 255, 255) p1) perception_new = Some (Inr r, s') \<and>
     \<not> truthy r \<and> evaluate_named X (Suc (Suc 0)) ''n'' (probe_ctx (0, 0, 0) p2) s' = Some (Inr r, s') \<and>
     (\<exists>r2. sem X (probe_ctx (0, 0, 0) p2) (NotOf ''a'') r2 \<and> truthy r2)"
proof -
  let ?c = "probe_ctx (255, 255, 255) p1" and ?d = "probe_ctx (0, 0, 0) p2"
  have col: "color_at_evaluate ?c \<lparr>pt_x = 0, pt_y = 0\<rparr> (255, 255, 255) 0 = Some (Inr (plain_result True ?c))"
    using probe_color [of "(255, 255, 255)" p1] by simp
  have P: "map_of (ctx_predicates ?c) ''n'' = Some (NotOf ''a'')" "map_of (ctx_predicates ?d) ''n'' = Some (NotOf ''a'')"
    "map_of (ctx_predicates ?c) ''a'' = Some (ColorAt \<lparr>pt_x = 0, pt_y = 0\<rparr> (255, 255, 255) 0)"
    "map_of (ctx_predicates ?d) ''a'' = Some (ColorAt \<lparr>pt_x = 0, pt_y = 0\<rparr> (0, 0, 0) 0)"
    by (simp_all add: probe_ctx_def)
  obtain s' where ev: "evaluate_named X (Suc (Suc 0)) ''n'' ?c perception_new = Some (Inr (plain_result False ?c), s')"
    using P(1,3) col
    by (simp add: evaluate_named_def dispatch_def dispatch_leaf_def eval_not_def eval_named_Suc pe_bind_def pe_ok_def
        pe_pure_def cache_get_def perception_new_def MAX_RECURSION_DEPTH_def Let_def)
  have "sem X ?d (ColorAt \<lparr>pt_x = 0, pt_y = 0\<rparr> (0, 0, 0) 0) (plain_result False ?d)"
    using probe_color [of "(0, 0, 0)" p2] by (intro sem_color) simp
  from sem_not [OF P(4) this] have "sem X ?d (NotOf ''a'') (plain_result True ?d)" by simp
  moreover note evaluate_named_cached [OF ev P(1,2)]
  ultimately show ?thesis using ev by fastforce
qed

end
