(* ===== verification/Runtime_Props.thy ===== *)
theory Runtime_Props
  imports Demo
begin

text \<open>
  The properties of the runtime's decision rules: arbitration, watch decisions, waiting
  steps, error codes and the keyboard table.
\<close>

section \<open>Arbitration and decisions\<close>

text \<open>
   The arbiter lets exactly one candidate act: the one with the greatest priority, and
  among those the greatest program id; every other candidate is told who won.
\<close>

theorem arbiter_picks_greatest:
  assumes "cs \<noteq> []" "distinct (map cand_program cs)"
  shows "\<exists>w \<in> set cs. (\<forall>c \<in> set cs. cand_le c w) \<and>
     filter dec_dispatch (resolve cs) =
       [\<lparr>dec_program = cand_program w, dec_payload = cand_payload w, dec_dispatch = True, loser_of = None\<rparr>] \<and>
     (\<forall>d \<in> set (resolve cs). \<not> dec_dispatch d \<longrightarrow> loser_of d = Some (cand_program w)) \<and>
     map dec_program (resolve cs) = map cand_program cs"
  using winner_mem [OF assms(1)] winner_greatest [of _ cs] resolve_one_dispatch [OF assms] resolve_programs [of cs]
  by (intro bexI [of _ "winner cs"]) (auto simp: resolve_map Let_def)

theorem arbiter_picks_greatest_witness:
  "map dec_program (filter dec_dispatch (resolve [\<lparr>cand_program = ''a'', cand_priority = 1, cand_payload = ()\<rparr>,
       \<lparr>cand_program = ''b'', cand_priority = 2, cand_payload = ()\<rparr>])) = [''b'']"
proof -
  let ?cs = "[\<lparr>cand_program = ''a'', cand_priority = 1, cand_payload = ()\<rparr>,
       \<lparr>cand_program = ''b'', cand_priority = 2, cand_payload = ()\<rparr>]"
  have "?cs \<noteq> []" "distinct (map cand_program ?cs)" by simp_all
  from arbiter_picks_greatest [OF this] show ?thesis
  proof (elim bexE conjE)
    fix w
    assume w: "w \<in> set ?cs" "\<forall>c \<in> set ?cs. cand_le c w"
      and f: "filter dec_dispatch (resolve ?cs) = [\<lparr>dec_program = cand_program w, dec_payload = cand_payload w,
        dec_dispatch = True, loser_of = None\<rparr>]"
    from w have "cand_program w = ''b''" by (auto simp: cand_le_def)
    then show ?thesis unfolding f by simp
  qed
qed

text \<open>
   A watch fires exactly when it is not retired, its condition just became true, its
  timeout has not passed and its throttle interval since the last firing has; it retires
  exactly when it is not retired and its timeout has passed.  No clock value overflows.
\<close>

theorem decide_exact:
  assumes "throttle_ms w \<le> u32_max" "\<forall>ms. lifetime w = TimeoutMs ms \<longrightarrow> ms \<le> u32_max"
  shows "(decide w st t now started = Fire \<longleftrightarrow>
       \<not> retired st \<and> t \<and> \<not> last_truthy st \<and>
       (\<forall>ms. lifetime w = TimeoutMs ms \<longrightarrow> now - started < int ms) \<and>
       (\<forall>fired. last_fired_ms st = Some fired \<longrightarrow> now - fired \<ge> int (throttle_ms w))) \<and>
     (decide w st t now started = Retire \<longleftrightarrow>
       \<not> retired st \<and> (\<exists>ms. lifetime w = TimeoutMs ms \<and> now - started \<ge> int ms))"
  using decide_fire_iff [of w st t now started] decide_retire_iff [of w st t now started] assms by auto

theorem decide_exact_witness:
  "decide demo_watch watch_default True 500 0 = Fire \<and> decide demo_watch watch_default True 500 0 \<noteq> Retire"
  using decide_exact [of demo_watch watch_default True 500 0] by (simp add: demo_watch_def watch_default_def)

section \<open>Steps\<close>

text \<open>
   A sleep takes its time: the step defers without any input, and at a later tick the
  body advances exactly when the clock has reached the starting time plus the duration.
\<close>

theorem sleep_wakes_on_time:
  assumes "cursor < length bdy" "bdy ! cursor = SleepMs ms" "is_i64 (ctx_now_ms c + int ms)"
  shows "\<exists>def. step_once X fuel snk c bdy cursor None w = Some (Stalled, Some def, w) \<and>
     (\<forall>c' w'. step_once X fuel snk c' bdy cursor (Some def) w' =
        Some (if ctx_now_ms c' \<ge> ctx_now_ms c + int ms then (Advanced, None, w') else (Stalled, Some def, w')))"
  using step_once_sleep [OF assms(1,2), of X fuel snk c w] step_once_sleeping [of X fuel snk _ bdy cursor] assms(3)
  by (auto simp: i64_sat_add_def sat_i64_id)

theorem sleep_wakes_on_time_witness:
  "\<exists>def. step_once demo_ext 8 mock_call (probe_ctx (0, 0, 0) ''p'') [SleepMs 20] 0 None (perception_new, mock_new kill_new) =
     Some (Stalled, Some def, (perception_new, mock_new kill_new))"
  using sleep_wakes_on_time [of 0 "[SleepMs 20]" 20 "probe_ctx (0, 0, 0) ''p''" demo_ext 8 mock_call
      "(perception_new, mock_new kill_new)"] by (auto simp: probe_ctx_def is_i64_def)

lemma resolve_target_code:
  assumes "resolve_target X fuel c t s = Some (Inl e, s')"
  shows "rt_code e \<in> {RtExpressionUnresolved, RtPerceptionFailed}"
  using assms rt_evaluate_code [of X fuel _ c s _ s'] expr_parse_code
  by (fastforce simp: resolve_target_def resolve_center_def resolve_bbox_def Let_def map_sum_Inl
      split: Target.splits sum.splits option.splits RtAccessor.splits)

lemma rt_call_code: "rt_call snk call i = (Inl e, i') \<Longrightarrow> rt_code e = RtInputFailed"
  by (cases "fst (snk i call)"; cases "snk i call") (auto simp: rt_call_def)

lemma act_at_code:
  assumes "act_at X fuel snk c t f w = Some (Inl e, w')"
  shows "rt_code e \<in> {RtExpressionUnresolved, RtPerceptionFailed, RtInputFailed}"
  using assms resolve_target_code [of X fuel c t "fst w" e "fst w'"] rt_call_code [of snk _ _ e]
  by (cases w) (auto simp: act_at_def split: option.splits sum.splits prod.splits)

text \<open>
  A step that the validator allows in a watch never fails with the internal error of a
  misplaced step: a failing action is an unresolved expression, a failed evaluation or an
  input failure.
\<close>

theorem watch_step_error_codes:
  assumes "step_ok P True st" "dispatch_action X fuel snk c st w = Some (Inl e, w')"
  shows "rt_code e \<in> {RtExpressionUnresolved, RtPerceptionFailed, RtInputFailed}"
proof (cases st)
  case (Move t)
  with assms(2) act_at_code show ?thesis by (simp add: dispatch_action_def) blast
next
  case (Click t b)
  with assms(2) act_at_code show ?thesis by (simp add: dispatch_action_def) blast
next
  case (Scroll t x y)
  with assms(2) act_at_code show ?thesis by (simp add: dispatch_action_def) blast
qed (use assms rt_call_code [of snk _ "snd w" e] in \<open>auto simp: dispatch_action_def split: prod.splits\<close>)

theorem watch_step_error_codes_witness:
  "rt_code (ErrInput (input_display Halted)) \<in> {RtExpressionUnresolved, RtPerceptionFailed, RtInputFailed}"
proof (rule watch_step_error_codes)
  let ?w = "(perception_new, mock_new (engage 7 kill_new))"
  show "step_ok [] True (TypeText ''x'')" by simp
  show "dispatch_action demo_ext 8 mock_call (probe_ctx (0, 0, 0) ''p'') (TypeText ''x'') ?w =
      Some (Inl (ErrInput (input_display Halted)), ?w)"
    by (simp add: dispatch_action_def rt_call_def mock_call_def mock_check_def mock_new_def is_engaged_def engage_def)
qed

text \<open>
  The macOS key table is unambiguous: two different keys never share a virtual key
  code.
\<close>

theorem keycodes_unambiguous:
  assumes "macos_keycode a = Some v" "macos_keycode b = Some v"
  shows "a = b"
  using macos_keycode_inj [OF assms] .

theorem keycodes_unambiguous_witness:
  "\<exists>v. macos_keycode (Named Tab) = Some v \<and> (\<forall>b. macos_keycode b = Some v \<longrightarrow> b = Named Tab)"
proof -
  have "macos_keycode (Named Tab) \<noteq> None" by code_simp
  then obtain v where "macos_keycode (Named Tab) = Some v" by blast
  with keycodes_unambiguous [of "Named Tab" v] show ?thesis by metis
qed

section \<open>Divergences\<close>

text \<open>
  Validator and runtime disagree on expressions: of the four accessors that the
  validator accepts, the runtime resolves only \<open>center\<close>; the other three fail the program
  with an unresolved expression when they run.
\<close>

theorem accessor_mismatch:
  assumes "expression_parse src loc = Inr e"
  shows "(\<exists>r. expr_parse src = Inr r) \<longleftrightarrow> expr_accessor e = AccCenter"
proof -
  have "is_valid_name (expr_name e)"
    "src = CHR ''$'' # expr_name e @ CHR ''.'' # ''match'' @ CHR ''.'' # accessor_str (expr_accessor e)"
    using assms by (simp_all add: expression_parse_grammar)
  moreover from this have "split_once (CHR ''.'') (expr_name e @ CHR ''.'' # t) = Some (expr_name e, t)" for t
    using valid_name_no_dot by (simp add: split_once_Some)
  moreover have "strip_prefix ''$'' (CHR ''$'' # t) = Some t" for t by (simp add: strip_prefix_Some)
  ultimately show ?thesis by (cases "expr_accessor e"; cases "expr_name e") (simp_all add: expr_parse_def)
qed

theorem accessor_mismatch_witness:
  "(\<exists>e. expression_parse ''$p.match.box'' [] = Inr e) \<and> \<not> (\<exists>r. expr_parse ''$p.match.box'' = Inr r)"
proof -
  let ?e = "\<lparr>expr_name = ''p'', expr_accessor = AccBox\<rparr>"
  have e: "expression_parse ''$p.match.box'' [] = Inr ?e" by code_simp
  from accessor_mismatch [OF e] e show ?thesis by auto
qed

end
