(* ===== verification/Store_Paths.thy ===== *)
theory Store_Paths
  imports Frame_View "HOL-Library.AList"
begin

text \<open>
  The file system layout of the store (\<open>vcli-store/src/paths.rs\<close>) and the operations of
  \<open>std::path\<close> that the store and the daemon use.  A path is its text; components are the
  non-empty segments between slashes that are not a dot.  \<open>asset_blob_path\<close> asserts the
  length of the hash and slices it at byte offsets 2 and 4, so it is an \<open>option\<close> whose
  \<open>None\<close> is the panic.
\<close>

section \<open>Paths of the standard library\<close>

type_synonym path = string

abbreviation slash :: char where "slash \<equiv> CHR ''/''"
abbreviation dot :: char where "dot \<equiv> CHR ''.''"

definition is_absolute :: "path \<Rightarrow> bool" where
  "is_absolute p \<longleftrightarrow> p \<noteq> [] \<and> hd p = slash"

text \<open>\<open>Path::join\<close>: an absolute operand replaces the base.\<close>

definition path_join :: "path \<Rightarrow> path \<Rightarrow> path" where
  "path_join base p =
     (if is_absolute p then p
      else if base = [] \<or> last base = slash then base @ p
      else base @ slash # p)"

definition path_components :: "path \<Rightarrow> string list" where
  "path_components p = filter (\<lambda>s. s \<noteq> [] \<and> s \<noteq> [dot]) (str_split slash p)"

definition path_file_name :: "path \<Rightarrow> string option" where
  "path_file_name p =
     (case path_components p of [] \<Rightarrow> None
      | cs \<Rightarrow> if last cs = [dot, dot] then None else Some (last cs))"

text \<open>\<open>rsplitn(2, '.')\<close> on a file name: the part before and the part after the last dot.\<close>

definition rsplit_dot :: "string \<Rightarrow> (string \<times> string) option" where
  "rsplit_dot s = map_option (\<lambda>(a, b). (rev b, rev a)) (split_once dot (rev s))"

definition name_stem :: "string \<Rightarrow> string" where
  "name_stem s = (case rsplit_dot s of None \<Rightarrow> s
                  | Some (b, a) \<Rightarrow> if s = [dot, dot] \<or> b = [] then s else b)"

definition name_extension :: "string \<Rightarrow> string option" where
  "name_extension s = (case rsplit_dot s of None \<Rightarrow> None
                       | Some (b, a) \<Rightarrow> if s = [dot, dot] \<or> b = [] then None else Some a)"

definition path_file_stem :: "path \<Rightarrow> string option" where
  "path_file_stem p = map_option name_stem (path_file_name p)"

definition path_extension :: "path \<Rightarrow> string option" where
  "path_extension p = Option.bind (path_file_name p) name_extension"

text \<open>\<open>Path::with_extension\<close> replaces the extension of the last component.\<close>

definition with_extension :: "path \<Rightarrow> string \<Rightarrow> path" where
  "with_extension p e =
     (case dropWhile (\<lambda>s. s = [] \<or> s = [dot]) (rev (str_split slash p)) of
        [] \<Rightarrow> p
      | f # rest \<Rightarrow> if f = [dot, dot] then p
                    else str_join slash (rev ((name_stem f @ dot # e) # rest)))"

section \<open>Layout\<close>

definition db_path :: "path \<Rightarrow> path" where
  "db_path data_root = path_join data_root ''vcli.db''"

definition assets_root :: "path \<Rightarrow> path" where
  "assets_root data_root = path_join (path_join data_root ''assets'') ''sha256''"

text \<open>A byte offset is a character boundary when it is the end or starts a scalar value.\<close>

definition char_boundary :: "string \<Rightarrow> nat \<Rightarrow> bool" where
  "char_boundary s i \<longleftrightarrow> i = length s \<or> (i < length s \<and> \<not> is_cont (s ! i))"

definition blob_file_name :: "string \<Rightarrow> string option \<Rightarrow> string" where
  "blob_file_name hex_hash extension =
     (case extension of
        Some ext \<Rightarrow> if ext \<noteq> [] then hex_hash @ dot # ext else hex_hash
      | None \<Rightarrow> hex_hash)"

definition asset_blob_path :: "path \<Rightarrow> string \<Rightarrow> string option \<Rightarrow> path option" where
  "asset_blob_path data_root hex_hash extension =
     (if length hex_hash \<ge> 4 \<and> char_boundary hex_hash 2 \<and> char_boundary hex_hash 4
      then let root = assets_root data_root;
               xx = take 2 hex_hash;
               yy = take 2 (drop 2 hex_hash);
               file_name = blob_file_name hex_hash extension
           in Some (path_join (path_join (path_join root xx) yy) file_name)
      else None)"

section \<open>Lemmas\<close>

text \<open>A plain name: one path component with no dot in it, such as a hex digest.\<close>

definition plain_name :: "string \<Rightarrow> bool" where
  "plain_name s \<longleftrightarrow> s \<noteq> [] \<and> slash \<notin> set s \<and> dot \<notin> set s"

definition plain_ext :: "string option \<Rightarrow> bool" where
  "plain_ext e \<longleftrightarrow> (\<forall>s. e = Some s \<longrightarrow> slash \<notin> set s \<and> dot \<notin> set s)"

lemma rsplit_dot_Some:
  "rsplit_dot s = Some (b, a) \<longleftrightarrow> s = b @ dot # a \<and> dot \<notin> set a"
proof
  assume "rsplit_dot s = Some (b, a)"
  then obtain x y where "split_once dot (rev s) = Some (x, y)" "b = rev y" "a = rev x"
    by (auto simp: rsplit_dot_def)
  then show "s = b @ dot # a \<and> dot \<notin> set a"
    by (auto simp: split_once_Some rev_swap)
next
  assume "s = b @ dot # a \<and> dot \<notin> set a"
  then have "split_once dot (rev s) = Some (rev a, rev b)"
    by (simp add: split_once_Some)
  then show "rsplit_dot s = Some (b, a)" by (simp add: rsplit_dot_def)
qed

lemma rsplit_dot_None: "rsplit_dot s = None \<longleftrightarrow> dot \<notin> set s"
  by (simp add: rsplit_dot_def split_once_None)

lemma path_join_relative:
  "base \<noteq> [] \<Longrightarrow> last base \<noteq> slash \<Longrightarrow> \<not> is_absolute p \<Longrightarrow> path_join base p = base @ slash # p"
  by (simp add: path_join_def)

lemma str_split_last:
  "slash \<notin> set b \<Longrightarrow> str_split slash (a @ slash # b) = str_split slash a @ [b]"
proof (induction a)
  case Nil
  then show ?case by (simp add: str_split_no_sep)
next
  case (Cons c a)
  then show ?case by (auto split: list.splits)
qed

text \<open>The blob of a digest: its stem is the digest, whatever the extension.\<close>

lemma stem_of_blob_name:
  assumes "plain_name h" "plain_ext e"
  shows "name_stem (blob_file_name h e) = h"
proof (cases e)
  case None
  with assms show ?thesis
    by (auto simp: blob_file_name_def name_stem_def rsplit_dot_None plain_name_def split: option.splits
             dest: rsplit_dot_Some [THEN iffD1])
next
  case (Some x)
  show ?thesis
  proof (cases "x = []")
    case True
    with Some assms show ?thesis
      by (auto simp: blob_file_name_def name_stem_def plain_name_def split: option.splits
               dest: rsplit_dot_Some [THEN iffD1])
  next
    case False
    have "rsplit_dot (h @ dot # x) = Some (h, x)"
      using assms Some by (simp add: rsplit_dot_Some plain_ext_def)
    moreover have "h @ dot # x \<noteq> [dot, dot]"
      using assms by (cases h) (auto simp: plain_name_def)
    ultimately show ?thesis
      using False Some assms by (simp add: blob_file_name_def name_stem_def plain_name_def)
  qed
qed

lemma blob_name_component:
  assumes "plain_name h" "plain_ext e"
  shows "slash \<notin> set (blob_file_name h e)" "blob_file_name h e \<noteq> []"
    "blob_file_name h e \<noteq> [dot]" "blob_file_name h e \<noteq> [dot, dot]"
  using assms by (auto simp: plain_name_def plain_ext_def blob_file_name_def split: option.splits
    if_splits) (cases h; auto)+

lemma last_component:
  assumes "slash \<notin> set n" "n \<noteq> []" "n \<noteq> [dot]"
  shows "path_components (a @ slash # n) = path_components a @ [n]"
  using assms by (simp add: path_components_def str_split_last)

lemma file_name_last:
  assumes "slash \<notin> set n" "n \<noteq> []" "n \<noteq> [dot]" "n \<noteq> [dot, dot]"
  shows "path_file_name (a @ slash # n) = Some n"
  using assms by (cases "path_components a") (simp_all add: path_file_name_def last_component)

lemma path_join_name:
  assumes "slash \<notin> set n" "n \<noteq> []" "n \<noteq> [dot]" "n \<noteq> [dot, dot]"
  shows "path_file_name (path_join b n) = Some n"
proof -
  have rel: "\<not> is_absolute n" using assms by (auto simp: is_absolute_def dest: hd_in_set)
  consider (empty) "b = []" | (slash) c where "b = c @ [slash]" | (plain) "b \<noteq> []" "last b \<noteq> slash"
    by (metis append_butlast_last_id)
  then show ?thesis
  proof cases
    case empty
    with assms rel show ?thesis
      by (simp add: path_join_def path_file_name_def path_components_def str_split_no_sep)
  next
    case (slash c)
    with rel have "path_join b n = c @ slash # n" by (simp add: path_join_def)
    with assms show ?thesis
      by (simp add: file_name_last)
  next
    case plain
    with rel have "path_join b n = b @ slash # n" by (simp add: path_join_relative)
    with assms show ?thesis
      by (simp add: file_name_last)
  qed
qed

lemma blob_path_stem:
  assumes "asset_blob_path r h e = Some p" "plain_name h" "plain_ext e"
  shows "path_file_stem p = Some h"
proof -
  from assms(1) obtain d where "p = path_join d (blob_file_name h e)"
    by (auto simp: asset_blob_path_def Let_def split: if_splits)
  with blob_name_component [OF assms(2,3)] stem_of_blob_name [OF assms(2,3)] show ?thesis
    by (simp add: path_file_stem_def path_join_name)
qed

lemma blob_path_hash:
  "asset_blob_path r h e = Some p \<Longrightarrow> asset_blob_path r h' e' = Some p \<Longrightarrow> plain_name h \<Longrightarrow>
   plain_ext e \<Longrightarrow> plain_name h' \<Longrightarrow> plain_ext e' \<Longrightarrow> h = h'"
  by (drule (2) blob_path_stem, drule (2) blob_path_stem) simp

lemma with_extension_name:
  assumes "slash \<notin> set n" "n \<noteq> []" "n \<noteq> [dot]" "n \<noteq> [dot, dot]"
  shows "with_extension (d @ slash # n) e = d @ slash # name_stem n @ dot # e"
proof -
  have "str_join slash (ss @ [x]) = str_join slash ss @ slash # x" if "ss \<noteq> []" for ss x
    using that by (induction slash ss rule: str_join.induct) auto
  with assms show ?thesis
    by (simp add: with_extension_def str_split_last str_join_split)
qed

text \<open>The directory of a digest, and the path of its blob spelled out.\<close>

definition blob_dir :: "path \<Rightarrow> string \<Rightarrow> path" where
  "blob_dir r h = assets_root r @ slash # take 2 h @ slash # take 2 (drop 2 h)"

lemma assets_root_last: "assets_root r \<noteq> []" "last (assets_root r) = CHR ''6''"
  by (simp_all add: assets_root_def path_join_def is_absolute_def)

lemma plain_relative: "slash \<notin> set x \<Longrightarrow> \<not> is_absolute x"
  by (auto simp: is_absolute_def dest: hd_in_set)

lemma path_join_plain:
  "slash \<notin> set x \<Longrightarrow> b \<noteq> [] \<Longrightarrow> last b \<noteq> slash \<Longrightarrow> path_join b x = b @ slash # x"
  by (simp add: path_join_def plain_relative)

lemma blob_path_form:
  assumes "asset_blob_path r h e = Some p" "plain_name h" "plain_ext e"
  shows "p = blob_dir r h @ slash # blob_file_name h e"
proof -
  have len: "length h \<ge> 4" and p: "p = path_join (path_join (path_join (assets_root r) (take 2 h))
      (take 2 (drop 2 h))) (blob_file_name h e)"
    using assms(1) by (auto simp: asset_blob_path_def Let_def split: if_splits)
  have nos: "slash \<notin> set (take 2 h)" "slash \<notin> set (take 2 (drop 2 h))"
    using assms(2) by (auto simp: plain_name_def dest!: in_set_takeD in_set_dropD)
  have "take 2 (drop 2 h) \<noteq> []" using len by auto
  then have "last (take 2 (drop 2 h)) \<noteq> slash" using nos(2) last_in_set by metis
  moreover have "take 2 h \<noteq> []" using len by auto
  then have "last (take 2 h) \<noteq> slash" using nos(1) last_in_set by metis
  ultimately show ?thesis
    using p nos \<open>take 2 h \<noteq> []\<close> \<open>take 2 (drop 2 h) \<noteq> []\<close> assets_root_last [of r]
      blob_name_component(1) [OF assms(2,3)]
    by (simp add: path_join_plain blob_dir_def)
qed

text \<open>The temporary file of a blob: same directory, the digest with the extension \<open>tmp\<close>.\<close>

lemma blob_tmp_path:
  assumes "asset_blob_path r h e = Some p" "plain_name h" "plain_ext e"
  shows "with_extension p ''tmp'' = blob_dir r h @ slash # blob_file_name h (Some ''tmp'')"
  using blob_path_form [OF assms] blob_name_component [OF assms(2,3)] stem_of_blob_name [OF assms(2,3)]
  by (simp add: with_extension_name) (simp add: blob_file_name_def)

lemma blob_file_name_tmp:
  "plain_ext e \<Longrightarrow> blob_file_name h e = blob_file_name h (Some ''tmp'') \<Longrightarrow> e = Some ''tmp''"
  by (auto simp: blob_file_name_def split: option.splits if_splits)

lemma path_extension_plain: "plain_ext (path_extension p)"
proof -
  have "slash \<notin> set e \<and> dot \<notin> set e" if e: "path_extension p = Some e" for e
  proof -
    from e obtain n where n: "path_file_name p = Some n" "name_extension n = Some e"
      by (auto simp: path_extension_def bind_eq_Some_conv)
    then have "n \<in> set (path_components p)"
      by (auto simp: path_file_name_def split: list.splits if_splits)
    then have "slash \<notin> set n" by (auto simp: path_components_def dest: str_split_parts)
    moreover from n(2) obtain b where "n = b @ dot # e" "dot \<notin> set e"
      by (auto simp: name_extension_def rsplit_dot_Some split: option.splits if_splits)
    ultimately show ?thesis by simp
  qed
  then show ?thesis by (simp add: plain_ext_def)
qed

end
