(* ===== verification/Store.thy ===== *)
theory Store
  imports Store_Paths
begin

text \<open>
  The durable store, crate \<open>vcli-store\<close>: the \<open>SQLite\<close> tables as lists in rowid order, the
  files of the asset store as an association list from paths to bytes, and one definition
  per operation.  Each SQL statement is translated to the list operation it denotes; a
  statement that fails leaves the tables as they were.  Failures of the disk and of the
  database engine other than constraint violations are not modelled, and a Rust panic is
  \<open>None\<close>.  The SHA-256 of the \<open>sha2\<close> crate, the text rendering of \<open>serde_json\<close> and
  the escaping of \<open>{:?}\<close> on a string (which rests on Unicode tables) are parameters, collected in \<open>StoreExt\<close>.
\<close>

section \<open>Parameters and errors\<close>


record StoreExt =
  ext_sha256_hex :: "bytes \<Rightarrow> string"
  ext_event_json :: "Event \<Rightarrow> string"
  ext_event_parse :: "string \<Rightarrow> Event option"
  ext_value_json :: "JsonValue \<Rightarrow> string"
  ext_value_parse :: "string \<Rightarrow> string + JsonValue"
  ext_debug_str :: "string \<Rightarrow> string"

datatype StoreError =
    SE_Sqlite string
  | SE_Io path string
  | SE_UnknownProgram string
  | SE_BadStateTransition string string string
  | SE_NotResumable string
  | SE_UnknownAsset string
  | SE_SchemaNewer u32 u32
  | SE_Json string

text \<open>The messages of the two constraint violations the schema can raise.\<close>

definition unique_violation :: "string \<Rightarrow> StoreError" where
  "unique_violation col = SE_Sqlite (''UNIQUE constraint failed: '' @ col)"

definition fk_violation :: StoreError where
  "fk_violation = SE_Sqlite ''FOREIGN KEY constraint failed''"

definition rowid_exhausted :: StoreError where
  "rowid_exhausted = SE_Sqlite ''database or disk is full''"

section \<open>Tables and files\<close>

record DbProgram =
  db_id :: ProgramId
  db_name :: string
  db_source_json :: string
  db_state :: string
  db_submitted_at :: i64
  db_started_at :: "i64 option"
  db_finished_at :: "i64 option"
  db_last_error_code :: "string option"
  db_last_error_msg :: "string option"
  db_labels_json :: string
  db_body_cursor :: i64
  db_body_entered_at :: "i64 option"

record StoredEvent =
  se_id :: i64
  se_program_id :: ProgramId
  se_type_tag :: string
  se_data_json :: string
  se_at :: UnixMs

record DbTrace =
  tr_id :: i64
  tr_program_id :: "ProgramId option"
  tr_tick :: i64
  tr_at :: UnixMs
  tr_kind :: string
  tr_payload_json :: string

record DbAsset =
  as_hash :: string
  as_byte_len :: i64
  as_extension :: "string option"
  as_added_at :: i64

record Store =
  st_root :: path
  st_programs :: "DbProgram list"
  st_program_assets :: "(ProgramId \<times> string) list"
  st_events :: "StoredEvent list"
  st_event_seq :: i64
  st_assets :: "DbAsset list"
  st_traces :: "DbTrace list"
  st_trace_seq :: i64
  st_versions :: "i64 list"
  st_files :: "(path \<times> bytes) list"

record ProgramRow =
  row_id :: ProgramId
  row_name :: string
  row_source_json :: string
  row_state :: ProgramState
  row_submitted_at :: i64
  row_started_at :: "i64 option"
  row_finished_at :: "i64 option"
  row_last_error_code :: "string option"
  row_last_error_msg :: "string option"
  row_labels_json :: string
  row_body_cursor :: u32
  row_body_entered_at :: "i64 option"

record NewProgram =
  np_id :: ProgramId
  np_name :: string
  np_source_json :: string
  np_state :: ProgramState
  np_submitted_at :: i64
  np_labels_json :: string

record RecoveredProgram =
  rec_id :: ProgramId
  rec_body_cursor :: u32

definition u32_try_from :: "int \<Rightarrow> u32 option" where
  "u32_try_from i = (if 0 \<le> i \<and> i \<le> 4294967295 then Some (nat i) else None)"

definition cursor_or_zero :: "i64 \<Rightarrow> u32" where
  "cursor_or_zero c = (case u32_try_from c of None \<Rightarrow> 0 | Some n \<Rightarrow> n)"

section \<open>Programs\<close>

definition find_program :: "Store \<Rightarrow> ProgramId \<Rightarrow> DbProgram option" where
  "find_program s pid = find (\<lambda>r. db_id r = pid) (st_programs s)"

text \<open>Columns the statement does not name take their defaults.\<close>

definition new_program_row :: "NewProgram \<Rightarrow> DbProgram" where
  "new_program_row row =
     \<lparr>db_id = np_id row, db_name = np_name row, db_source_json = np_source_json row,
      db_state = state_as_str (np_state row), db_submitted_at = np_submitted_at row,
      db_started_at = None, db_finished_at = None, db_last_error_code = None,
      db_last_error_msg = None, db_labels_json = np_labels_json row, db_body_cursor = 0,
      db_body_entered_at = None\<rparr>"

definition insert_program :: "NewProgram \<Rightarrow> Store \<Rightarrow> StoreError + Store" where
  "insert_program row s =
     (if find_program s (np_id row) \<noteq> None then Inl (unique_violation ''programs.id'')
      else Inr (s\<lparr>st_programs := st_programs s @ [new_program_row row]\<rparr>))"

definition row_of :: "ProgramState \<Rightarrow> DbProgram \<Rightarrow> ProgramRow" where
  "row_of state r =
     \<lparr>row_id = db_id r, row_name = db_name r, row_source_json = db_source_json r,
      row_state = state, row_submitted_at = db_submitted_at r, row_started_at = db_started_at r,
      row_finished_at = db_finished_at r, row_last_error_code = db_last_error_code r,
      row_last_error_msg = db_last_error_msg r, row_labels_json = db_labels_json r,
      row_body_cursor = cursor_or_zero (db_body_cursor r),
      row_body_entered_at = db_body_entered_at r\<rparr>"

text \<open>A state text that does not parse reads as \<open>Pending\<close> here.\<close>

definition get_program :: "Store \<Rightarrow> ProgramId \<Rightarrow> StoreError + ProgramRow" where
  "get_program s pid =
     (case find_program s pid of
        None \<Rightarrow> Inl (SE_UnknownProgram pid)
      | Some r \<Rightarrow> Inr (row_of (case state_from_str (db_state r) of Inl _ \<Rightarrow> Pending | Inr st \<Rightarrow> st) r))"

text \<open>\<open>UPDATE programs SET ... WHERE id = ?\<close>; zero changed rows is the unknown id.\<close>

definition update_where :: "ProgramId \<Rightarrow> (DbProgram \<Rightarrow> DbProgram) \<Rightarrow> Store \<Rightarrow> Store" where
  "update_where pid f s =
     s\<lparr>st_programs := map (\<lambda>r. if db_id r = pid then f r else r) (st_programs s)\<rparr>"

definition set_state_row :: "ProgramState \<Rightarrow> i64 \<Rightarrow> DbProgram \<Rightarrow> DbProgram" where
  "set_state_row new_state now_ms r =
     r\<lparr>db_state := state_as_str new_state,
       db_started_at := (case db_started_at r of Some t \<Rightarrow> Some t
                         | None \<Rightarrow> if state_as_str new_state = ''running'' then Some now_ms else None),
       db_finished_at := (if state_as_str new_state \<in> {''completed'', ''failed'', ''cancelled''}
                          then Some now_ms else db_finished_at r)\<rparr>"

definition update_state :: "ProgramId \<Rightarrow> ProgramState \<Rightarrow> i64 \<Rightarrow> Store \<Rightarrow> StoreError + Store" where
  "update_state pid new_state now_ms s =
     (if find_program s pid = None then Inl (SE_UnknownProgram pid)
      else Inr (update_where pid (set_state_row new_state now_ms) s))"

definition set_body_cursor :: "ProgramId \<Rightarrow> u32 \<Rightarrow> Store \<Rightarrow> StoreError + Store" where
  "set_body_cursor pid cursor s =
     (if find_program s pid = None then Inl (SE_UnknownProgram pid)
      else Inr (update_where pid (\<lambda>r. r\<lparr>db_body_cursor := int cursor\<rparr>) s))"

text \<open>No row count is checked here: an unknown id is not an error.\<close>

definition set_last_error :: "ProgramId \<Rightarrow> string \<Rightarrow> string \<Rightarrow> Store \<Rightarrow> StoreError + Store" where
  "set_last_error pid code msg s =
     Inr (update_where pid (\<lambda>r. r\<lparr>db_last_error_code := Some code, db_last_error_msg := Some msg\<rparr>) s)"

text \<open>\<open>state.parse().unwrap()\<close> in the row reader: an unknown state text panics.\<close>

fun read_rows :: "DbProgram list \<Rightarrow> ProgramRow list option" where
  "read_rows [] = Some []"
| "read_rows (r # rs) =
     (case state_from_str (db_state r) of
        Inl _ \<Rightarrow> None
      | Inr st \<Rightarrow> map_option ((#) (row_of st r)) (read_rows rs))"

definition list_programs :: "Store \<Rightarrow> ProgramState option \<Rightarrow> ProgramRow list option" where
  "list_programs s state_filter =
     read_rows (sort_key db_submitted_at
       (filter (\<lambda>r. case state_filter of None \<Rightarrow> True | Some st \<Rightarrow> db_state r = state_as_str st)
          (st_programs s)))"

section \<open>Opening\<close>

definition current_version :: "Store \<Rightarrow> u32" where
  "current_version s =
     (let v = (if st_versions s = [] then None else Some (Max (set (st_versions s))))
      in cursor_or_zero (case v of None \<Rightarrow> 0 | Some i \<Rightarrow> i))"

definition LATEST_SCHEMA_VERSION :: u32 where "LATEST_SCHEMA_VERSION = 1"

text \<open>
  The one migration creates the tables if they do not exist; the tables of the model are
  empty lists until something is inserted, so its only visible effect is the version row.
\<close>

definition MIGRATIONS :: "(Store \<Rightarrow> Store) list" where
  "MIGRATIONS = [\<lambda>s. s]"

fun apply_migrations :: "u32 \<Rightarrow> nat \<Rightarrow> (Store \<Rightarrow> Store) list \<Rightarrow> Store \<Rightarrow> Store" where
  "apply_migrations cur i [] s = s"
| "apply_migrations cur i (sql # rest) s =
     (let target = u32_of_usize (i + 1)
      in if target \<le> cur then apply_migrations cur (Suc i) rest s
         else apply_migrations cur (Suc i) rest
                (let s' = sql s in s'\<lparr>st_versions := st_versions s' @ [int target]\<rparr>))"

definition run_migrations :: "Store \<Rightarrow> StoreError + Store" where
  "run_migrations s =
     (let cur = current_version s
      in if length MIGRATIONS < cur then Inl (SE_SchemaNewer cur LATEST_SCHEMA_VERSION)
         else Inr (apply_migrations cur 0 MIGRATIONS s))"

definition fail_running_row :: "DbProgram \<Rightarrow> DbProgram" where
  "fail_running_row r =
     (if db_state r = ''running''
      then r\<lparr>db_state := state_as_str Failed, db_last_error_code := Some ''daemon_restart'',
             db_last_error_msg := Some ''daemon restarted during execution''\<rparr>
      else r)"

definition recover_running_programs :: "Store \<Rightarrow> RecoveredProgram list \<times> Store" where
  "recover_running_programs s =
     (let recovered = map (\<lambda>r. \<lparr>rec_id = db_id r, rec_body_cursor = cursor_or_zero (db_body_cursor r)\<rparr>)
                        (filter (\<lambda>r. db_state r = ''running'') (st_programs s))
      in (recovered,
          if recovered \<noteq> [] then s\<lparr>st_programs := map fail_running_row (st_programs s)\<rparr> else s))"

text \<open>\<open>Store::open\<close> on the tables and files found under the data root.\<close>

definition store_open :: "Store \<Rightarrow> StoreError + (Store \<times> RecoveredProgram list)" where
  "store_open disk =
     (case run_migrations disk of
        Inl e \<Rightarrow> Inl e
      | Inr s \<Rightarrow> (case recover_running_programs s of (recovered, s') \<Rightarrow> Inr (s', recovered)))"

section \<open>Resume\<close>

text \<open>\<open>{code:?}\<close>, the debug rendering of an optional string.\<close>

definition debug_opt_str :: "StoreExt \<Rightarrow> string option \<Rightarrow> string" where
  "debug_opt_str X c = (case c of None \<Rightarrow> ''None'' | Some t \<Rightarrow> ''Some('' @ ext_debug_str X t @ '')'')"

definition resume_row :: "u32 \<Rightarrow> i64 \<Rightarrow> DbProgram \<Rightarrow> DbProgram" where
  "resume_row new_cursor now_ms r =
     r\<lparr>db_state := state_as_str Running, db_last_error_code := None, db_last_error_msg := None,
       db_body_cursor := int new_cursor, db_finished_at := None,
       db_started_at := (case db_started_at r of Some t \<Rightarrow> Some t | None \<Rightarrow> Some now_ms)\<rparr>"

definition resume_program ::
  "StoreExt \<Rightarrow> ProgramId \<Rightarrow> bool \<Rightarrow> i64 \<Rightarrow> Store \<Rightarrow> StoreError + (u32 \<times> Store)" where
  "resume_program X pid from_start now_ms s =
     (case find_program s pid of
        None \<Rightarrow> Inl (SE_UnknownProgram pid)
      | Some r \<Rightarrow>
          if db_state r \<noteq> state_as_str Failed \<or> db_last_error_code r \<noteq> Some ''daemon_restart''
          then Inl (SE_NotResumable (''program '' @ pid @ '' state='' @ db_state r
                                     @ '' code='' @ debug_opt_str X (db_last_error_code r)))
          else let new_cursor = (if from_start then 0 else cursor_or_zero (db_body_cursor r))
               in Inr (new_cursor, update_where pid (resume_row new_cursor now_ms) s))"

section \<open>Events\<close>

fun event_type_tag :: "EventData \<Rightarrow> string" where
  "event_type_tag (ProgramSubmitted _ _) = ''program.submitted''"
| "event_type_tag (ProgramStateChanged _ _ _ _) = ''program.state_changed''"
| "event_type_tag (ProgramCompleted _ _) = ''program.completed''"
| "event_type_tag (ProgramFailed _ _ _ _) = ''program.failed''"
| "event_type_tag (ProgramResumed _ _) = ''program.resumed''"
| "event_type_tag (WatchFired _ _ _) = ''watch.fired''"
| "event_type_tag (ActionDispatched _ _ _) = ''action.dispatched''"
| "event_type_tag (ActionDeferred _ _ _) = ''action.deferred''"
| "event_type_tag (TickFrameSkipped _) = ''tick.frame_skipped''"
| "event_type_tag (DaemonPressure _) = ''daemon.pressure''"
| "event_type_tag (StreamDropped _ _) = ''stream.dropped''"
| "event_type_tag (CapturePermissionMissing _) = ''capture.permission_missing''"
| "event_type_tag (DaemonStarted _) = ''daemon.started''"
| "event_type_tag DaemonStopped = ''daemon.stopped''"

text \<open>\<open>AUTOINCREMENT\<close>: ids grow and are never reused, also after deletions.\<close>

definition new_event_row :: "StoreExt \<Rightarrow> i64 \<Rightarrow> ProgramId \<Rightarrow> Event \<Rightarrow> StoredEvent" where
  "new_event_row X eid pid ev =
     \<lparr>se_id = eid, se_program_id = pid, se_type_tag = event_type_tag (ev_data ev),
      se_data_json = ext_event_json X ev, se_at = ev_at ev\<rparr>"

definition append_event :: "StoreExt \<Rightarrow> ProgramId \<Rightarrow> Event \<Rightarrow> Store \<Rightarrow> StoreError + (i64 \<times> Store)" where
  "append_event X pid ev s =
     (if find_program s pid = None then Inl fk_violation
      else if st_event_seq s \<ge> i64_max then Inl rowid_exhausted
      else let eid = st_event_seq s + 1
           in Inr (eid, s\<lparr>st_event_seq := eid,
                           st_events := st_events s @ [new_event_row X eid pid ev]\<rparr>))"

definition stream_events :: "Store \<Rightarrow> i64 \<Rightarrow> u32 \<Rightarrow> StoredEvent list" where
  "stream_events s from limit =
     take limit (sort_key se_id (filter (\<lambda>e. se_id e > from) (st_events s)))"

section \<open>Traces\<close>

datatype TraceKind =
  TK_PredicateEval | TK_StateChange | TK_ActionDispatched | TK_ActionDeferred | TK_WatchFired | TK_TickSkipped

fun trace_kind_str :: "TraceKind \<Rightarrow> string" where
  "trace_kind_str TK_PredicateEval = ''predicate_eval''"
| "trace_kind_str TK_StateChange = ''state_change''"
| "trace_kind_str TK_ActionDispatched = ''action_dispatched''"
| "trace_kind_str TK_ActionDeferred = ''action_deferred''"
| "trace_kind_str TK_WatchFired = ''watch_fired''"
| "trace_kind_str TK_TickSkipped = ''tick_skipped''"

definition trace_kind_of :: "string \<Rightarrow> TraceKind" where
  "trace_kind_of k =
     (if k = ''state_change'' then TK_StateChange
      else if k = ''action_dispatched'' then TK_ActionDispatched
      else if k = ''action_deferred'' then TK_ActionDeferred
      else if k = ''watch_fired'' then TK_WatchFired
      else if k = ''tick_skipped'' then TK_TickSkipped
      else TK_PredicateEval)"

record TraceRecord =
  trace_tick :: nat
  trace_at :: UnixMs
  trace_program_id :: "ProgramId option"
  trace_kind :: TraceKind
  trace_payload :: JsonValue

definition new_trace_row :: "StoreExt \<Rightarrow> i64 \<Rightarrow> TraceRecord \<Rightarrow> DbTrace" where
  "new_trace_row X tid r =
     \<lparr>tr_id = tid, tr_program_id = trace_program_id r,
      tr_tick = (if int (trace_tick r) \<le> i64_max then int (trace_tick r) else i64_max),
      tr_at = trace_at r, tr_kind = trace_kind_str (trace_kind r),
      tr_payload_json = ext_value_json X (trace_payload r)\<rparr>"

definition insert_trace :: "StoreExt \<Rightarrow> TraceRecord \<Rightarrow> Store \<Rightarrow> StoreError + Store" where
  "insert_trace X r s =
     (if (case trace_program_id r of None \<Rightarrow> False | Some p \<Rightarrow> find_program s p = None)
      then Inl fk_violation
      else if st_trace_seq s \<ge> i64_max then Inl rowid_exhausted
      else let tid = st_trace_seq s + 1
           in Inr (s\<lparr>st_trace_seq := tid,
                      st_traces := st_traces s @ [new_trace_row X tid r]\<rparr>))"

text \<open>One transaction: an error on any record leaves the store as it was.\<close>

fun flush_traces :: "StoreExt \<Rightarrow> TraceRecord list \<Rightarrow> Store \<Rightarrow> StoreError + Store" where
  "flush_traces X [] s = Inr s"
| "flush_traces X (r # rs) s =
     (case insert_trace X r s of Inl e \<Rightarrow> Inl e | Inr s' \<Rightarrow> flush_traces X rs s')"

definition read_trace :: "StoreExt \<Rightarrow> DbTrace \<Rightarrow> TraceRecord" where
  "read_trace X t =
     \<lparr>trace_tick = (if 0 \<le> tr_tick t then nat (tr_tick t) else 0), trace_at = tr_at t,
      trace_program_id = tr_program_id t, trace_kind = trace_kind_of (tr_kind t),
      trace_payload = (case ext_value_parse X (tr_payload_json t) of Inl _ \<Rightarrow> JNull | Inr v \<Rightarrow> v)\<rparr>"

definition read_traces :: "StoreExt \<Rightarrow> Store \<Rightarrow> ProgramId \<Rightarrow> TraceRecord list" where
  "read_traces X s pid =
     map (read_trace X) (sort_key tr_id (filter (\<lambda>t. tr_program_id t = Some pid) (st_traces s)))"

end
