(* ===== verification/Store_Assets.thy ===== *)
theory Store_Assets
  imports Store
begin

text \<open>
  The content-addressed asset store (\<open>assets.rs\<close>) and garbage collection (\<open>gc.rs\<close>).  The
  files on disk are the association list \<open>st_files\<close>; the order of a directory walk is the
  order of that list.
\<close>

section \<open>Files\<close>

definition fs_exists :: "Store \<Rightarrow> path \<Rightarrow> bool" where
  "fs_exists s p \<longleftrightarrow> map_of (st_files s) p \<noteq> None"

definition fs_remove :: "path \<Rightarrow> Store \<Rightarrow> Store" where
  "fs_remove p s = s\<lparr>st_files := filter (\<lambda>f. fst f \<noteq> p) (st_files s)\<rparr>"

definition fs_write :: "path \<Rightarrow> bytes \<Rightarrow> Store \<Rightarrow> Store" where
  "fs_write p b s = s\<lparr>st_files := AList.update p b (st_files s)\<rparr>"

definition fs_rename :: "path \<Rightarrow> path \<Rightarrow> Store \<Rightarrow> Store" where
  "fs_rename a b s =
     (case map_of (st_files s) a of None \<Rightarrow> s
      | Some bs \<Rightarrow> if a = b then s else fs_write b bs (fs_remove a s))"

text \<open>\<open>create\<close>, \<open>write_all\<close> and \<open>rename\<close>: the blob appears under its name only when complete.\<close>

definition atomic_write :: "path \<Rightarrow> bytes \<Rightarrow> Store \<Rightarrow> Store" where
  "atomic_write p b s =
     (let tmp_path = with_extension p ''tmp''
      in fs_rename tmp_path p (fs_write tmp_path b s))"

section \<open>Assets\<close>

type_synonym AssetHash = string

record PutAssetOutcome =
  put_hash :: AssetHash
  put_created :: bool

definition find_asset :: "Store \<Rightarrow> AssetHash \<Rightarrow> DbAsset option" where
  "find_asset s h = find (\<lambda>a. as_hash a = h) (st_assets s)"

definition new_asset_row :: "AssetHash \<Rightarrow> bytes \<Rightarrow> string option \<Rightarrow> i64 \<Rightarrow> DbAsset" where
  "new_asset_row hash bs extension now_ms =
     \<lparr>as_hash = hash,
      as_byte_len = (if int (length bs) \<le> i64_max then int (length bs) else i64_max),
      as_extension = extension, as_added_at = now_ms\<rparr>"

definition put_asset ::
  "StoreExt \<Rightarrow> bytes \<Rightarrow> string option \<Rightarrow> i64 \<Rightarrow> Store \<Rightarrow> (PutAssetOutcome \<times> Store) option" where
  "put_asset X bs extension now_ms s =
     (let hash = ext_sha256_hex X bs
      in case asset_blob_path (st_root s) hash extension of
           None \<Rightarrow> None
         | Some p \<Rightarrow>
             let created = \<not> fs_exists s p;
                 s1 = (if created then atomic_write p bs s else s);
                 s2 = (if find_asset s1 hash \<noteq> None then s1
                       else s1\<lparr>st_assets := st_assets s1 @ [new_asset_row hash bs extension now_ms]\<rparr>)
             in Some (\<lparr>put_hash = hash, put_created = created\<rparr>, s2))"

text \<open>The outer option is the panic of \<open>asset_blob_path\<close>, the inner one a missing blob.\<close>

definition get_asset :: "Store \<Rightarrow> AssetHash \<Rightarrow> bytes option option" where
  "get_asset s hash =
     (let ext = Option.bind (find_asset s hash) as_extension
      in map_option (\<lambda>p. map_of (st_files s) p) (asset_blob_path (st_root s) hash ext))"

definition link_program_asset :: "ProgramId \<Rightarrow> AssetHash \<Rightarrow> Store \<Rightarrow> StoreError + Store" where
  "link_program_asset pid hash s =
     (if (pid, hash) \<in> set (st_program_assets s) then Inr s
      else if find_program s pid = None then Inl fk_violation
      else Inr (s\<lparr>st_program_assets := st_program_assets s @ [(pid, hash)]\<rparr>))"

definition referenced_asset_hashes :: "Store \<Rightarrow> AssetHash list" where
  "referenced_asset_hashes s = remdups (map snd (st_program_assets s))"

section \<open>Garbage collection\<close>

definition RETENTION_DAYS :: u32 where "RETENTION_DAYS = 7"

record GcReport =
  programs_deleted :: u32
  assets_deleted :: u32
  blobs_deleted :: u32
  orphan_blobs_deleted :: u32

definition gc_eligible :: "i64 \<Rightarrow> DbProgram \<Rightarrow> bool" where
  "gc_eligible older_than r \<longleftrightarrow>
     db_state r \<in> {''completed'', ''failed'', ''cancelled''} \<and>
     (case db_finished_at r of None \<Rightarrow> False | Some t \<Rightarrow> t < older_than)"

text \<open>The foreign keys of events, asset links and traces cascade.\<close>

definition gc_programs :: "i64 \<Rightarrow> Store \<Rightarrow> u32 \<times> Store" where
  "gc_programs older_than s =
     (let gone = map db_id (filter (gc_eligible older_than) (st_programs s))
      in (case u32_try_from (int (length gone)) of None \<Rightarrow> 0 | Some n \<Rightarrow> n,
          s\<lparr>st_programs := filter (\<lambda>r. \<not> gc_eligible older_than r) (st_programs s),
            st_program_assets := filter (\<lambda>l. fst l \<notin> set gone) (st_program_assets s),
            st_events := filter (\<lambda>e. se_program_id e \<notin> set gone) (st_events s),
            st_traces := filter (\<lambda>t. case tr_program_id t of None \<Rightarrow> True | Some p \<Rightarrow> p \<notin> set gone)
                           (st_traces s)\<rparr>))"

definition unreferenced_assets :: "Store \<Rightarrow> DbAsset list" where
  "unreferenced_assets s =
     filter (\<lambda>a. as_hash a \<notin> set (map snd (st_program_assets s))) (st_assets s)"

fun delete_blobs :: "DbAsset list \<Rightarrow> u32 \<Rightarrow> Store \<Rightarrow> (u32 \<times> Store) option" where
  "delete_blobs [] n s = Some (n, s)"
| "delete_blobs (a # as) n s =
     (case asset_blob_path (st_root s) (as_hash a) (as_extension a) of
        None \<Rightarrow> None
      | Some p \<Rightarrow> if fs_exists s p then delete_blobs as (u32_succ n) (fs_remove p s)
                  else delete_blobs as n s)"

fun delete_asset_rows :: "DbAsset list \<Rightarrow> u32 \<Rightarrow> Store \<Rightarrow> u32 \<times> Store" where
  "delete_asset_rows [] n s = (n, s)"
| "delete_asset_rows (a # as) n s =
     (let k = length (filter (\<lambda>b. as_hash b = as_hash a) (st_assets s))
      in delete_asset_rows as ((n + (case u32_try_from (int k) of None \<Rightarrow> 0 | Some m \<Rightarrow> m)) mod 4294967296)
           (s\<lparr>st_assets := filter (\<lambda>b. as_hash b \<noteq> as_hash a) (st_assets s)\<rparr>))"

definition gc_assets :: "Store \<Rightarrow> ((u32 \<times> u32) \<times> Store) option" where
  "gc_assets s =
     (let unreferenced = unreferenced_assets s
      in case delete_blobs unreferenced 0 s of
           None \<Rightarrow> None
         | Some (blobs, s1) \<Rightarrow>
             (case delete_asset_rows unreferenced 0 s1 of (n, s2) \<Rightarrow> Some ((n, blobs), s2)))"

text \<open>The files \<open>walk_files\<close> reaches from a directory.\<close>

definition under :: "path \<Rightarrow> path \<Rightarrow> bool" where
  "under dir p \<longleftrightarrow> strip_prefix (dir @ [slash]) p \<noteq> None"

definition walk_files :: "Store \<Rightarrow> path \<Rightarrow> path list" where
  "walk_files s dir = filter (under dir) (map fst (st_files s))"

definition ends_with :: "string \<Rightarrow> string \<Rightarrow> bool" where
  "ends_with s t \<longleftrightarrow> strip_prefix (rev t) (rev s) \<noteq> None"

definition is_orphan :: "Store \<Rightarrow> path \<Rightarrow> bool" where
  "is_orphan s p =
     (case path_file_stem p of None \<Rightarrow> False
      | Some stem \<Rightarrow> stem \<notin> set (map as_hash (st_assets s)) \<and> \<not> ends_with stem ''tmp'')"

definition gc_orphan_blobs :: "Store \<Rightarrow> u32 \<times> Store" where
  "gc_orphan_blobs s =
     (let orphans = filter (is_orphan s) (walk_files s (assets_root (st_root s)))
      in fold (\<lambda>p (n, t). (u32_succ n, fs_remove p t)) orphans (0, s))"

definition gc_all :: "i64 \<Rightarrow> Store \<Rightarrow> (GcReport \<times> Store) option" where
  "gc_all older_than s =
     (case gc_programs older_than s of
        (programs, s1) \<Rightarrow>
          (case gc_assets s1 of
             None \<Rightarrow> None
           | Some ((assets, blobs), s2) \<Rightarrow>
               (case gc_orphan_blobs s2 of
                  (orphans, s3) \<Rightarrow>
                    Some (\<lparr>programs_deleted = programs, assets_deleted = assets,
                           blobs_deleted = blobs, orphan_blobs_deleted = orphans\<rparr>, s3))))"

definition list_orphan_blob_names :: "Store \<Rightarrow> string list" where
  "list_orphan_blob_names s =
     map (\<lambda>p. the (path_file_stem p))
       (filter (is_orphan s) (walk_files s (assets_root (st_root s))))"

end
