(* ===== verification/Store_Lemmas.thy ===== *)
theory Store_Lemmas
  imports Store_Assets
begin

text \<open>
  The invariant of the store and what every operation keeps of it.  \<open>tables_ok\<close> collects
  the constraints of the schema (primary keys, foreign keys, growing event ids) and the
  well-formedness the readers rely on (every state text parses, every cursor is a \<open>u32\<close>);
  \<open>blobs_ok\<close> is content addressing: the blob of every asset row is on disk and its digest
  is the row's key.
\<close>

section \<open>The programs table as a keyed table\<close>

locale row_table =
  fixes find_row :: "'s \<Rightarrow> 'k \<Rightarrow> 'r option" and upd :: "'k \<Rightarrow> ('r \<Rightarrow> 'r) \<Rightarrow> 's \<Rightarrow> 's"
    and key :: "'r \<Rightarrow> 'k"
  assumes find_key: "find_row s k = Some r \<Longrightarrow> key r = k"
    and find_upd: "(\<And>r. key (f r) = key r) \<Longrightarrow>
      find_row (upd k f s) j = (if j = k then map_option f (find_row s k) else find_row s j)"
begin

lemma upd_other: "(\<And>r. key (f r) = key r) \<Longrightarrow> j \<noteq> k \<Longrightarrow> find_row (upd k f s) j = find_row s j"
  by (simp add: find_upd)

lemma upd_dom: "(\<And>r. key (f r) = key r) \<Longrightarrow> find_row (upd k f s) j = None \<longleftrightarrow> find_row s j = None"
  by (simp add: find_upd)

lemma upd_field:
  assumes "\<And>r. key (f r) = key r" "\<And>r. g (f r) = g r"
  shows "map_option g (find_row (upd k f s) j) = map_option g (find_row s j)"
  using assms by (cases "find_row s j") (auto simp: find_upd)

lemma upd_upd:
  assumes "\<And>r. key (f r) = key r" "\<And>r. key (g r) = key r"
  shows "find_row (upd k g (upd k f s)) j = find_row (upd k (g \<circ> f) s) j"
  using assms by (simp add: find_upd option.map_comp)

end

lemma find_map_upd:
  "(\<And>r. db_id (f r) = db_id r) \<Longrightarrow>
   find (\<lambda>r. db_id r = j) (map (\<lambda>r. if db_id r = k then f r else r) rs) =
     (if j = k then map_option f (find (\<lambda>r. db_id r = k) rs) else find (\<lambda>r. db_id r = j) rs)"
  by (induction rs) auto

interpretation rows: row_table find_program update_where db_id
proof (unfold_locales, goal_cases)
  case (1 s k r)
  then show ?case by (auto simp: find_program_def find_Some_iff)
next
  case (2 f k s j)
  then show ?case by (simp add: find_program_def update_where_def find_map_upd)
qed

lemma find_program_None: "find_program s pid = None \<longleftrightarrow> pid \<notin> db_id ` set (st_programs s)"
  by (auto simp: find_program_def find_None_iff)

lemma find_program_mem: "find_program s pid = Some r \<Longrightarrow> r \<in> set (st_programs s) \<and> db_id r = pid"
  by (auto simp: find_program_def find_Some_iff)

lemma find_program_distinct:
  assumes "distinct (map db_id (st_programs s))" "r \<in> set (st_programs s)"
  shows "find_program s (db_id r) = Some r"
proof -
  obtain r' where "find_program s (db_id r) = Some r'"
    using assms(2) by (cases "find_program s (db_id r)") (auto simp: find_program_None)
  moreover from find_program_mem [OF this] assms have "r' = r"
    by (metis distinct_map inj_on_def)
  ultimately show ?thesis by simp
qed

lemma set_state_row_id [simp]: "db_id (set_state_row st t r) = db_id r"
  by (simp add: set_state_row_def)

lemma resume_row_id [simp]: "db_id (resume_row c t r) = db_id r"
  by (simp add: resume_row_def)

lemma fail_running_row_id [simp]: "db_id (fail_running_row r) = db_id r"
  by (simp add: fail_running_row_def)

section \<open>The invariant\<close>

definition program_row_ok :: "DbProgram \<Rightarrow> bool" where
  "program_row_ok r \<longleftrightarrow>
     (\<exists>st. db_state r = state_as_str st) \<and> 0 \<le> db_body_cursor r \<and> db_body_cursor r \<le> int u32_max"

definition tables_ok :: "Store \<Rightarrow> bool" where
  "tables_ok s \<longleftrightarrow>
     distinct (map db_id (st_programs s)) \<and>
     (\<forall>r \<in> set (st_programs s). program_row_ok r) \<and>
     distinct (st_program_assets s) \<and>
     fst ` set (st_program_assets s) \<subseteq> db_id ` set (st_programs s) \<and>
     sorted_wrt (<) (map se_id (st_events s)) \<and>
     (\<forall>e \<in> set (st_events s). 0 < se_id e \<and> se_id e \<le> st_event_seq s \<and>
        se_program_id e \<in> db_id ` set (st_programs s)) \<and>
     sorted_wrt (<) (map tr_id (st_traces s)) \<and>
     (\<forall>t \<in> set (st_traces s). tr_id t \<le> st_trace_seq s \<and>
        (\<forall>p. tr_program_id t = Some p \<longrightarrow> p \<in> db_id ` set (st_programs s))) \<and>
     0 \<le> st_event_seq s \<and> distinct (map as_hash (st_assets s))"

definition asset_row_ok :: "Store \<Rightarrow> DbAsset \<Rightarrow> bool" where
  "asset_row_ok s a \<longleftrightarrow>
     plain_name (as_hash a) \<and> plain_ext (as_extension a) \<and> as_extension a \<noteq> Some ''tmp'' \<and>
     (\<exists>p. asset_blob_path (st_root s) (as_hash a) (as_extension a) = Some p \<and> fs_exists s p)"

text \<open>
  Every file at the blob path of a name holds bytes with that digest; files with the
  extension \<open>tmp\<close> are writes in progress and exempt.
\<close>

definition content_addressed :: "StoreExt \<Rightarrow> Store \<Rightarrow> bool" where
  "content_addressed X s \<longleftrightarrow>
     (\<forall>h e p b. plain_name h \<longrightarrow> plain_ext e \<longrightarrow> e \<noteq> Some ''tmp'' \<longrightarrow>
        asset_blob_path (st_root s) h e = Some p \<longrightarrow> map_of (st_files s) p = Some b \<longrightarrow>
        ext_sha256_hex X b = h)"

definition blobs_ok :: "StoreExt \<Rightarrow> Store \<Rightarrow> bool" where
  "blobs_ok X s \<longleftrightarrow> (\<forall>a \<in> set (st_assets s). asset_row_ok s a) \<and> content_addressed X s"

definition store_ok :: "StoreExt \<Rightarrow> Store \<Rightarrow> bool" where
  "store_ok X s \<longleftrightarrow> tables_ok s \<and> blobs_ok X s"

text \<open>What the code relies on of the digest: 64 lower-case hexadecimal characters.\<close>

definition hex_char :: "char \<Rightarrow> bool" where
  "hex_char c \<longleftrightarrow> c \<in> set ''0123456789abcdef''"

definition digest_hex :: "StoreExt \<Rightarrow> bool" where
  "digest_hex X \<longleftrightarrow> (\<forall>b. length (ext_sha256_hex X b) = 64 \<and> list_all hex_char (ext_sha256_hex X b))"

lemma hex_char_plain: "hex_char c \<Longrightarrow> c \<noteq> slash \<and> c \<noteq> dot \<and> \<not> is_cont c"
  by (auto simp: hex_char_def is_cont_def)

lemma digest_plain:
  assumes "digest_hex X"
  shows "plain_name (ext_sha256_hex X b)"
proof -
  have "ext_sha256_hex X b \<noteq> []" "\<forall>c \<in> set (ext_sha256_hex X b). hex_char c"
    using assms by (auto simp: digest_hex_def list_all_iff dest: spec [of _ b])
  then show ?thesis using hex_char_plain by (auto simp: plain_name_def)
qed

lemma digest_blob_path:
  assumes "digest_hex X"
  shows "\<exists>p. asset_blob_path r (ext_sha256_hex X b) e = Some p"
proof -
  have l: "length (ext_sha256_hex X b) = 64" and "\<forall>c \<in> set (ext_sha256_hex X b). hex_char c"
    using assms by (auto simp: digest_hex_def list_all_iff)
  then have "\<not> is_cont (ext_sha256_hex X b ! i)" if "i < 64" for i
    using that hex_char_plain nth_mem by fastforce
  with l show ?thesis by (simp add: asset_blob_path_def char_boundary_def Let_def)
qed

section \<open>Table operations keep the invariant\<close>

lemma program_row_ok_state [simp]: "program_row_ok r \<Longrightarrow> program_row_ok (set_state_row st t r)"
  by (auto simp: program_row_ok_def set_state_row_def)

lemma program_row_ok_fail [simp]: "program_row_ok r \<Longrightarrow> program_row_ok (fail_running_row r)"
  by (auto simp: program_row_ok_def fail_running_row_def intro: exI [of _ Failed])

lemma cursor_or_zero_range: "cursor_or_zero c \<le> u32_max"
  by (auto simp: cursor_or_zero_def u32_try_from_def)

lemma cursor_or_zero_id: "0 \<le> c \<Longrightarrow> c \<le> int u32_max \<Longrightarrow> int (cursor_or_zero c) = c"
  by (simp add: cursor_or_zero_def u32_try_from_def)

lemma program_row_ok_resume [simp]: "c \<le> u32_max \<Longrightarrow> program_row_ok (resume_row c t r)"
  by (auto simp: program_row_ok_def resume_row_def intro: exI [of _ Running])

text \<open>A row-wise update of the programs that keeps ids and well-formed rows.\<close>

lemma tables_ok_map:
  assumes "tables_ok s" "\<And>r. db_id (f r) = db_id r"
    and "\<And>r. r \<in> set (st_programs s) \<Longrightarrow> program_row_ok r \<Longrightarrow> program_row_ok (f r)"
  shows "tables_ok (s\<lparr>st_programs := map f (st_programs s)\<rparr>)"
proof -
  have ids: "db_id \<circ> f = db_id" using assms(2) by auto
  then have "db_id ` f ` set (st_programs s) = db_id ` set (st_programs s)"
    by (simp add: image_comp)
  with assms ids show ?thesis by (simp add: tables_ok_def)
qed

lemma tables_ok_update:
  assumes "tables_ok s" "\<And>r. db_id (f r) = db_id r" "\<And>r. program_row_ok r \<Longrightarrow> program_row_ok (f r)"
  shows "tables_ok (update_where pid f s)"
  unfolding update_where_def using assms by (intro tables_ok_map) auto

lemma new_rows [simp]:
  "db_id (new_program_row row) = np_id row" "program_row_ok (new_program_row row)"
  "se_id (new_event_row X i pid ev) = i" "se_program_id (new_event_row X i pid ev) = pid"
  "tr_id (new_trace_row X i r) = i" "tr_program_id (new_trace_row X i r) = trace_program_id r"
  by (auto simp: new_program_row_def program_row_ok_def new_event_row_def new_trace_row_def)

lemma insert_program_tables:
  assumes "tables_ok s" "insert_program row s = Inr s'"
  shows "tables_ok s'"
proof -
  have "np_id row \<notin> db_id ` set (st_programs s)"
    and s': "s' = s\<lparr>st_programs := st_programs s @ [new_program_row row]\<rparr>"
    using assms(2) by (simp_all add: insert_program_def find_program_None split: if_splits)
  with assms(1) show ?thesis by (auto simp: s' tables_ok_def)
qed

lemma update_state_tables: "tables_ok s \<Longrightarrow> update_state pid st t s = Inr s' \<Longrightarrow> tables_ok s'"
  by (auto simp: update_state_def tables_ok_update split: if_splits)

lemma set_body_cursor_tables:
  "tables_ok s \<Longrightarrow> c \<le> u32_max \<Longrightarrow> set_body_cursor pid c s = Inr s' \<Longrightarrow> tables_ok s'"
  by (auto simp: set_body_cursor_def program_row_ok_def intro!: tables_ok_update split: if_splits)

lemma set_last_error_tables: "tables_ok s \<Longrightarrow> set_last_error pid c m s = Inr s' \<Longrightarrow> tables_ok s'"
  by (auto simp: set_last_error_def program_row_ok_def intro!: tables_ok_update)

lemma recover_tables: "tables_ok s \<Longrightarrow> recover_running_programs s = (rs, s') \<Longrightarrow> tables_ok s'"
  by (auto simp: recover_running_programs_def Let_def intro!: tables_ok_map split: if_splits)

lemma resume_tables: "tables_ok s \<Longrightarrow> resume_program X pid fs t s = Inr (c, s') \<Longrightarrow> tables_ok s'"
  by (auto simp: resume_program_def Let_def cursor_or_zero_range intro!: tables_ok_update
           split: option.splits if_splits)

lemma sorted_wrt_snoc_less:
  "sorted_wrt (<) (map f xs) \<Longrightarrow> \<forall>x \<in> set xs. f x \<le> (n::int) \<Longrightarrow> f y = n + 1 \<Longrightarrow>
   sorted_wrt (<) (map f (xs @ [y]))"
  by (force simp: sorted_wrt_append)

lemma append_event_tables:
  assumes ok: "tables_ok s" and "append_event X pid ev s = Inr (i, s')"
  shows "tables_ok s'"
proof -
  let ?e = "new_event_row X (st_event_seq s + 1) pid ev"
  have pid: "pid \<in> db_id ` set (st_programs s)"
    and s': "s' = s\<lparr>st_event_seq := st_event_seq s + 1, st_events := st_events s @ [?e]\<rparr>"
    using assms(2) by (auto simp: append_event_def find_program_None Let_def split: if_splits)
  have "\<forall>x \<in> set (st_events s). se_id x \<le> st_event_seq s"
    using ok by (simp add: tables_ok_def)
  then have "sorted_wrt (<) (map se_id (st_events s @ [?e]))"
    using ok by (intro sorted_wrt_snoc_less) (simp_all add: tables_ok_def)
  moreover have "\<forall>x \<in> set (st_events s). se_id x \<le> st_event_seq s + 1"
    using ok by (auto simp: tables_ok_def)
  ultimately show ?thesis using ok pid by (simp add: s' tables_ok_def)
qed

lemma insert_trace_tables:
  assumes ok: "tables_ok s" and "insert_trace X r s = Inr s'"
  shows "tables_ok s'"
proof -
  let ?t = "new_trace_row X (st_trace_seq s + 1) r"
  have pid: "\<forall>p. trace_program_id r = Some p \<longrightarrow> p \<in> db_id ` set (st_programs s)"
    and s': "s' = s\<lparr>st_trace_seq := st_trace_seq s + 1, st_traces := st_traces s @ [?t]\<rparr>"
    using assms(2)
    by (simp_all add: insert_trace_def find_program_None Let_def split: if_splits option.splits)
  have "\<forall>x \<in> set (st_traces s). tr_id x \<le> st_trace_seq s"
    using ok by (simp add: tables_ok_def)
  then have "sorted_wrt (<) (map tr_id (st_traces s @ [?t]))"
    using ok by (intro sorted_wrt_snoc_less) (simp_all add: tables_ok_def)
  moreover have "\<forall>x \<in> set (st_traces s). tr_id x \<le> st_trace_seq s + 1"
    using ok by (auto simp: tables_ok_def)
  ultimately show ?thesis using ok pid by (simp add: s' tables_ok_def)
qed

lemma flush_traces_tables: "tables_ok s \<Longrightarrow> flush_traces X rs s = Inr s' \<Longrightarrow> tables_ok s'"
  by (induction X rs s rule: flush_traces.induct) (auto split: sum.splits dest: insert_trace_tables)

lemma link_tables:
  assumes "tables_ok s" "link_program_asset pid h s = Inr s'"
  shows "tables_ok s'"
proof (cases "(pid, h) \<in> set (st_program_assets s)")
  case True
  with assms show ?thesis by (simp add: link_program_asset_def)
next
  case False
  with assms(2) have "pid \<in> db_id ` set (st_programs s)"
    "s' = s\<lparr>st_program_assets := st_program_assets s @ [(pid, h)]\<rparr>"
    by (simp_all add: link_program_asset_def find_program_None split: if_splits)
  with assms(1) False show ?thesis by (simp add: tables_ok_def)
qed

lemma tables_ok_versions [simp]: "tables_ok (s\<lparr>st_versions := vs\<rparr>) = tables_ok s"
  by (simp add: tables_ok_def)

lemma run_migrations_tables: "tables_ok s \<Longrightarrow> run_migrations s = Inr s' \<Longrightarrow> tables_ok s'"
  by (auto simp: run_migrations_def MIGRATIONS_def Let_def split: if_splits)

end
