(* ===== verification/Store_Gc.thy ===== *)
theory Store_Gc
  imports Store_Lemmas
begin

text \<open>
  Lemmas on the asset store: what a put leaves on disk, that puts and collections keep
  content addressing, and what exactly a garbage collection removes.
\<close>

section \<open>Files\<close>

lemma map_of_filter_key: "map_of (filter (\<lambda>f. P (fst f)) xs) p = (if P p then map_of xs p else None)"
  by (induction xs) auto

lemma fs_write_files: "map_of (st_files (fs_write p b s)) = (map_of (st_files s))(p \<mapsto> b)"
  by (simp add: fs_write_def update_conv')

lemma fs_remove_files: "map_of (st_files (fs_remove p s)) = (map_of (st_files s))(p := None)"
  by (auto simp: fs_remove_def fun_eq_iff map_of_filter_key [of "\<lambda>x. x \<noteq> p"])

lemma fs_same [simp]:
  "st_root (fs_write p b s) = st_root s" "st_assets (fs_write p b s) = st_assets s"
  "st_root (fs_remove p s) = st_root s" "st_assets (fs_remove p s) = st_assets s"
  by (simp_all add: fs_write_def fs_remove_def)

lemma atomic_write_files:
  "map_of (st_files (atomic_write p b s)) =
     ((map_of (st_files s))(with_extension p ''tmp'' := None))(p \<mapsto> b)"
  by (auto simp: atomic_write_def fs_rename_def Let_def fs_write_files fs_remove_files fun_eq_iff)

lemma atomic_write_only_files:
  "atomic_write p b s = s\<lparr>st_files := st_files (atomic_write p b s)\<rparr>"
  by (simp add: atomic_write_def fs_rename_def Let_def fs_write_def fs_remove_def split: option.splits)

lemma tables_ok_files [simp]: "tables_ok (s\<lparr>st_files := fs\<rparr>) = tables_ok s"
  by (simp add: tables_ok_def)

lemma blobs_ok_cong:
  "st_root s' = st_root s \<Longrightarrow> st_assets s' = st_assets s \<Longrightarrow> st_files s' = st_files s \<Longrightarrow>
   blobs_ok X s' = blobs_ok X s"
  by (simp add: blobs_ok_def asset_row_ok_def content_addressed_def fs_exists_def)

lemma blobs_ok_tables [simp]:
  "blobs_ok X (s\<lparr>st_programs := v1\<rparr>) = blobs_ok X s"
  "blobs_ok X (s\<lparr>st_program_assets := v2\<rparr>) = blobs_ok X s"
  "blobs_ok X (s\<lparr>st_events := v3\<rparr>) = blobs_ok X s"
  "blobs_ok X (s\<lparr>st_event_seq := v4\<rparr>) = blobs_ok X s"
  "blobs_ok X (s\<lparr>st_traces := v5\<rparr>) = blobs_ok X s"
  "blobs_ok X (s\<lparr>st_trace_seq := v6\<rparr>) = blobs_ok X s"
  "blobs_ok X (s\<lparr>st_versions := v7\<rparr>) = blobs_ok X s"
  by (simp_all add: blobs_ok_def asset_row_ok_def content_addressed_def fs_exists_def)

section \<open>Putting an asset\<close>

lemma blob_paths_differ:
  assumes "asset_blob_path r h e = Some p" "plain_name h" "plain_ext e" "e \<noteq> Some ''tmp''"
    and "asset_blob_path r h' e' = Some q" "plain_name h'" "plain_ext e'"
  shows "p \<noteq> with_extension q ''tmp''"
proof
  assume eq: "p = with_extension q ''tmp''"
  have t: "plain_ext (Some ''tmp'')" by (simp add: plain_ext_def)
  have q: "with_extension q ''tmp'' = blob_dir r h' @ slash # blob_file_name h' (Some ''tmp'')"
    by (rule blob_tmp_path [OF assms(5-7)])
  have "path_file_name p = Some (blob_file_name h e)"
    using blob_path_form [OF assms(1-3)] blob_name_component [OF assms(2,3)] by (simp add: file_name_last)
  moreover have "path_file_name p = Some (blob_file_name h' (Some ''tmp''))"
    using eq q blob_name_component [OF assms(6) t] by (simp add: file_name_last)
  ultimately have n: "blob_file_name h e = blob_file_name h' (Some ''tmp'')" by simp
  with stem_of_blob_name [OF assms(2,3)] stem_of_blob_name [OF assms(6) t] have "h = h'" by simp
  with n assms(3,4) show False using blob_file_name_tmp by blast
qed

lemma content_addressed_write:
  assumes "content_addressed X s" "asset_blob_path (st_root s) (ext_sha256_hex X b) e = Some p"
    and "plain_name (ext_sha256_hex X b)" "plain_ext e"
  shows "content_addressed X (s\<lparr>st_files := st_files (atomic_write p b s)\<rparr>)"
  unfolding content_addressed_def
proof (intro allI impI)
  fix h e' q c
  assume h: "plain_name h" "plain_ext e'" "e' \<noteq> Some ''tmp''"
    and "asset_blob_path (st_root (s\<lparr>st_files := st_files (atomic_write p b s)\<rparr>)) h e' = Some q"
    and "map_of (st_files (s\<lparr>st_files := st_files (atomic_write p b s)\<rparr>)) q = Some c"
  then have q: "asset_blob_path (st_root s) h e' = Some q"
    and c: "map_of (st_files (atomic_write p b s)) q = Some c" by simp_all
  show "ext_sha256_hex X c = h"
  proof (cases "q = p")
    case True
    with c have "c = b" by (simp add: atomic_write_files)
    moreover have "ext_sha256_hex X b = h"
      using blob_path_hash [OF assms(2)] q True assms(3,4) h by blast
    ultimately show ?thesis by simp
  next
    case False
    with c have "map_of (st_files s) q = Some c"
      by (simp add: atomic_write_files split: if_splits)
    with assms(1) q h show ?thesis by (auto simp: content_addressed_def)
  qed
qed

text \<open>What a put returns and leaves, spelled out.\<close>

definition put_files :: "path \<Rightarrow> bytes \<Rightarrow> Store \<Rightarrow> (path \<times> bytes) list" where
  "put_files p bs s = (if fs_exists s p then st_files s else st_files (atomic_write p bs s))"

definition put_rows :: "StoreExt \<Rightarrow> bytes \<Rightarrow> string option \<Rightarrow> i64 \<Rightarrow> Store \<Rightarrow> DbAsset list" where
  "put_rows X bs ext now s =
     (if find_asset s (ext_sha256_hex X bs) \<noteq> None then st_assets s
      else st_assets s @ [new_asset_row (ext_sha256_hex X bs) bs ext now])"

lemma put_asset_eq:
  assumes "asset_blob_path (st_root s) (ext_sha256_hex X bs) ext = Some p"
  shows "put_asset X bs ext now s =
    Some (\<lparr>put_hash = ext_sha256_hex X bs, put_created = (\<not> fs_exists s p)\<rparr>,
          s\<lparr>st_files := put_files p bs s, st_assets := put_rows X bs ext now s\<rparr>)"
proof -
  have "find_asset (atomic_write p bs s) h = find_asset s h" for h
    by (subst atomic_write_only_files) (simp add: find_asset_def)
  moreover have "st_assets (atomic_write p bs s) = st_assets s"
    by (subst atomic_write_only_files) simp
  moreover note atomic_write_only_files [of p bs s]
  ultimately show ?thesis
    using assms by (auto simp: put_asset_def Let_def put_files_def put_rows_def)
qed

lemma find_asset_None: "find_asset s h = None \<longleftrightarrow> h \<notin> as_hash ` set (st_assets s)"
  by (auto simp: find_asset_def find_None_iff)

lemma find_asset_mem: "find_asset s h = Some a \<Longrightarrow> a \<in> set (st_assets s) \<and> as_hash a = h"
  by (auto simp: find_asset_def find_Some_iff)

lemma put_asset_tables:
  assumes "tables_ok s" "digest_hex X" "put_asset X bs ext now s = Some (out, s')"
  shows "tables_ok s'"
proof -
  obtain p where "asset_blob_path (st_root s) (ext_sha256_hex X bs) ext = Some p"
    using digest_blob_path [OF assms(2)] by blast
  from assms(3) put_asset_eq [OF this] have
    s': "s' = s\<lparr>st_files := put_files p bs s, st_assets := put_rows X bs ext now s\<rparr>" by simp
  have "distinct (map as_hash (put_rows X bs ext now s))"
    using assms(1) by (auto simp: put_rows_def tables_ok_def find_asset_None new_asset_row_def)
  with assms(1) show ?thesis by (simp add: s' tables_ok_def)
qed

lemma put_files_keep:
  assumes "asset_blob_path (st_root s) (ext_sha256_hex X bs) ext = Some p"
    and "plain_name (ext_sha256_hex X bs)" "plain_ext ext" "asset_row_ok s a"
  shows "asset_row_ok (s\<lparr>st_files := put_files p bs s\<rparr>) a"
proof -
  from assms(4) obtain q where q: "asset_blob_path (st_root s) (as_hash a) (as_extension a) = Some q"
    "fs_exists s q" by (auto simp: asset_row_ok_def)
  have "q \<noteq> with_extension p ''tmp''"
    using blob_paths_differ [OF q(1) _ _ _ assms(1-3)] assms(4) by (simp add: asset_row_ok_def)
  with q have "fs_exists (s\<lparr>st_files := put_files p bs s\<rparr>) q"
    by (auto simp: fs_exists_def put_files_def atomic_write_files)
  with assms(4) q(1) show ?thesis by (simp add: asset_row_ok_def)
qed

lemma put_asset_blobs:
  assumes ok: "blobs_ok X s" and X: "digest_hex X" and ext: "plain_ext ext" "ext \<noteq> Some ''tmp''"
    and put: "put_asset X bs ext now s = Some (out, s')"
  shows "blobs_ok X s'"
proof -
  obtain p where p: "asset_blob_path (st_root s) (ext_sha256_hex X bs) ext = Some p"
    using digest_blob_path [OF X] by blast
  note h = digest_plain [OF X, of bs]
  from put put_asset_eq [OF p] have
    s': "s' = s\<lparr>st_files := put_files p bs s, st_assets := put_rows X bs ext now s\<rparr>" by simp
  have row: "asset_row_ok s' a \<longleftrightarrow> asset_row_ok (s\<lparr>st_files := put_files p bs s\<rparr>) a" for a
    by (simp add: s' asset_row_ok_def fs_exists_def)
  have "fs_exists s' p" by (auto simp: s' fs_exists_def put_files_def atomic_write_files)
  with p h ext have new: "asset_row_ok s' (new_asset_row (ext_sha256_hex X bs) bs ext now)"
    by (simp add: asset_row_ok_def new_asset_row_def s')
  have "asset_row_ok s' a" if "a \<in> set (st_assets s)" for a
    using that ok put_files_keep [OF p h ext(1)] by (simp add: row blobs_ok_def)
  with new have "\<forall>a \<in> set (st_assets s'). asset_row_ok s' a"
    by (auto simp: s' put_rows_def)
  moreover have "content_addressed X (s\<lparr>st_files := put_files p bs s\<rparr>)"
    using ok content_addressed_write [OF _ p h ext(1)] by (simp add: put_files_def blobs_ok_def)
  then have "content_addressed X s'" by (simp add: s' content_addressed_def)
  ultimately show ?thesis by (simp add: blobs_ok_def)
qed

text \<open>A row of a well-formed store reads back bytes with its digest.\<close>

lemma get_asset_row:
  assumes "blobs_ok X s" "find_asset s h = Some a"
  shows "\<exists>b. get_asset s h = Some (Some b) \<and> ext_sha256_hex X b = h"
proof -
  have a: "as_hash a = h" "asset_row_ok s a"
    using find_asset_mem [OF assms(2)] assms(1) by (auto simp: blobs_ok_def)
  then obtain p b where "asset_blob_path (st_root s) h (as_extension a) = Some p"
    "map_of (st_files s) p = Some b" by (auto simp: asset_row_ok_def fs_exists_def)
  moreover from this a assms(1) have "ext_sha256_hex X b = h"
    by (auto simp: blobs_ok_def content_addressed_def asset_row_ok_def)
  ultimately show ?thesis using assms(2) by (simp add: get_asset_def)
qed

section \<open>Collecting\<close>

definition row_paths :: "path \<Rightarrow> DbAsset list \<Rightarrow> path set" where
  "row_paths r as = {p. \<exists>a \<in> set as. asset_blob_path r (as_hash a) (as_extension a) = Some p}"

definition drop_files :: "path set \<Rightarrow> Store \<Rightarrow> Store" where
  "drop_files P s = s\<lparr>st_files := filter (\<lambda>f. fst f \<notin> P) (st_files s)\<rparr>"

lemma drop_files_files: "map_of (st_files (drop_files P s)) p = (if p \<in> P then None else map_of (st_files s) p)"
  by (simp add: drop_files_def map_of_filter_key [of "\<lambda>x. x \<notin> P"])

lemma drop_files_simps [simp]:
  "st_root (drop_files P s) = st_root s" "st_assets (drop_files P s) = st_assets s"
  "st_programs (drop_files P s) = st_programs s" "st_events (drop_files P s) = st_events s"
  "st_program_assets (drop_files P s) = st_program_assets s" "tables_ok (drop_files P s) = tables_ok s"
  "drop_files {} s = s" "drop_files P (drop_files Q s) = drop_files (Q \<union> P) s"
  by (simp_all add: drop_files_def conj_commute)

lemma fs_remove_drop: "fs_remove p s = drop_files {p} s"
  by (simp add: fs_remove_def drop_files_def)

lemma drop_absent: "\<not> fs_exists s p \<Longrightarrow> drop_files {p} s = s"
proof -
  assume "\<not> fs_exists s p"
  then have "filter (\<lambda>f. fst f \<notin> {p}) (st_files s) = st_files s"
    by (force simp: fs_exists_def map_of_eq_None_iff intro: filter_True)
  then show ?thesis by (simp add: drop_files_def)
qed

lemma delete_blobs_eq:
  "\<forall>a \<in> set as. asset_blob_path (st_root s) (as_hash a) (as_extension a) \<noteq> None \<Longrightarrow>
   \<exists>k. delete_blobs as n s = Some (k, drop_files (row_paths (st_root s) as) s)"
proof (induction as arbitrary: n s)
  case Nil
  then show ?case by (simp add: row_paths_def)
next
  case (Cons a as)
  then obtain p where p: "asset_blob_path (st_root s) (as_hash a) (as_extension a) = Some p" by auto
  have "row_paths (st_root s) (a # as) = {p} \<union> row_paths (st_root s) as"
    using p by (auto simp: row_paths_def)
  moreover have "delete_blobs (a # as) n s = delete_blobs as (if fs_exists s p then u32_succ n else n)
      (drop_files {p} s)"
    using p by (simp add: fs_remove_drop drop_absent)
  ultimately show ?case using Cons.IH [of "drop_files {p} s"] Cons.prems by simp
qed

lemma delete_asset_rows_eq:
  "\<exists>k. delete_asset_rows as n s =
     (k, s\<lparr>st_assets := filter (\<lambda>b. as_hash b \<notin> as_hash ` set as) (st_assets s)\<rparr>)"
proof (induction as arbitrary: n s)
  case (Cons a as)
  show ?case
    using Cons.IH [of _ "s\<lparr>st_assets := filter (\<lambda>b. as_hash b \<noteq> as_hash a) (st_assets s)\<rparr>"]
    by (simp add: Let_def conj_commute)
qed simp

lemma gc_orphan_blobs_eq:
  "\<exists>k. gc_orphan_blobs s =
     (k, drop_files (set (filter (is_orphan s) (walk_files s (assets_root (st_root s))))) s)"
proof -
  have "\<exists>k. fold (\<lambda>p (n, t). (u32_succ n, fs_remove p t)) ps (n, t) = (k, drop_files (set ps) t)" for ps n t
  proof (induction ps arbitrary: n t)
    case (Cons p ps)
    then show ?case using Cons.IH [of "u32_succ n" "drop_files {p} t"] by (simp add: fs_remove_drop)
  qed simp
  from this [of "filter (is_orphan s) (walk_files s (assets_root (st_root s)))" 0 s] show ?thesis
    by (simp only: gc_orphan_blobs_def Let_def)
qed

text \<open>The rows that survive are the referenced ones.\<close>

definition referenced :: "Store \<Rightarrow> DbAsset \<Rightarrow> bool" where
  "referenced s a \<longleftrightarrow> as_hash a \<in> snd ` set (st_program_assets s)"

lemma gc_assets_eq:
  assumes "blobs_ok X s"
  shows "\<exists>n. gc_assets s = Some (n, drop_files (row_paths (st_root s) (unreferenced_assets s)) s
           \<lparr>st_assets := filter (referenced s) (st_assets s)\<rparr>)"
proof -
  let ?U = "unreferenced_assets s"
  have "\<forall>a \<in> set ?U. asset_blob_path (st_root s) (as_hash a) (as_extension a) \<noteq> None"
    using assms by (auto simp: unreferenced_assets_def blobs_ok_def asset_row_ok_def)
  then obtain k where k: "delete_blobs ?U 0 s = Some (k, drop_files (row_paths (st_root s) ?U) s)"
    using delete_blobs_eq by blast
  have "filter (\<lambda>b. as_hash b \<notin> as_hash ` set ?U) (st_assets s) = filter (referenced s) (st_assets s)"
    by (rule filter_cong) (force simp: unreferenced_assets_def referenced_def)+
  then show ?thesis
    using k delete_asset_rows_eq [of ?U 0 "drop_files (row_paths (st_root s) ?U) s"]
    by (auto simp: gc_assets_def Let_def)
qed

lemma content_addressed_drop:
  "content_addressed X s \<Longrightarrow> content_addressed X (drop_files P s\<lparr>st_assets := as\<rparr>)"
  by (auto simp: content_addressed_def drop_files_files split: if_splits)

lemma row_paths_other:
  assumes "blobs_ok X s" "a \<in> set (st_assets s)" "referenced s a"
    and "asset_blob_path (st_root s) (as_hash a) (as_extension a) = Some p"
  shows "p \<notin> row_paths (st_root s) (unreferenced_assets s)"
proof
  assume "p \<in> row_paths (st_root s) (unreferenced_assets s)"
  then obtain b where b: "b \<in> set (st_assets s)" "\<not> referenced s b"
    "asset_blob_path (st_root s) (as_hash b) (as_extension b) = Some p"
    by (auto simp: row_paths_def unreferenced_assets_def referenced_def)
  then have "as_hash a = as_hash b"
    using blob_path_hash [OF assms(4) b(3)] assms(1,2) by (auto simp: blobs_ok_def asset_row_ok_def)
  with b(2) assms(3) show False by (simp add: referenced_def)
qed

text \<open>A file whose stem is the key of a row is never an orphan.\<close>

lemma known_not_orphan:
  assumes "blobs_ok X s" "a \<in> set (st_assets s)"
    and "asset_blob_path (st_root s) (as_hash a) (as_extension a) = Some p"
  shows "\<not> is_orphan s p"
  using assms blob_path_stem [OF assms(3)]
  by (auto simp: is_orphan_def blobs_ok_def asset_row_ok_def)

lemma blobs_ok_drop:
  assumes "blobs_ok X s"
    and "\<And>a p. a \<in> set (st_assets s) \<Longrightarrow> Q a \<Longrightarrow>
      asset_blob_path (st_root s) (as_hash a) (as_extension a) = Some p \<Longrightarrow> p \<notin> P"
  shows "blobs_ok X (drop_files P s\<lparr>st_assets := filter Q (st_assets s)\<rparr>)"
proof -
  have "asset_row_ok (drop_files P s\<lparr>st_assets := filter Q (st_assets s)\<rparr>) a"
    if a: "a \<in> set (st_assets s)" "Q a" for a
  proof -
    from a(1) assms(1) have ok: "asset_row_ok s a" by (simp add: blobs_ok_def)
    then obtain p where p: "asset_blob_path (st_root s) (as_hash a) (as_extension a) = Some p"
      "fs_exists s p" by (auto simp: asset_row_ok_def)
    with assms(2) [OF a] ok show ?thesis
      by (simp add: asset_row_ok_def fs_exists_def drop_files_files)
  qed
  with assms(1) show ?thesis by (simp add: blobs_ok_def content_addressed_drop)
qed

lemma gc_assets_blobs:
  "blobs_ok X s \<Longrightarrow> gc_assets s = Some (n, s') \<Longrightarrow> blobs_ok X s'"
  using gc_assets_eq [of X s] blobs_ok_drop [of X s "referenced s"] row_paths_other [of X s] by auto

lemma gc_assets_tables:
  "blobs_ok X s \<Longrightarrow> tables_ok s \<Longrightarrow> gc_assets s = Some (n, s') \<Longrightarrow> tables_ok s'"
  using gc_assets_eq [of X s] by (auto simp: tables_ok_def drop_files_def distinct_map_filter)

lemma gc_orphan_blobs_ok:
  assumes "store_ok X s" "gc_orphan_blobs s = (n, s')"
  shows "store_ok X s'"
proof -
  let ?P = "set (filter (is_orphan s) (walk_files s (assets_root (st_root s))))"
  have s': "s' = drop_files ?P s" using gc_orphan_blobs_eq [of s] assms(2) by auto
  have "blobs_ok X (drop_files ?P s\<lparr>st_assets := filter (\<lambda>_. True) (st_assets s)\<rparr>)"
    using assms(1) known_not_orphan [of X s] by (intro blobs_ok_drop) (auto simp: store_ok_def)
  moreover have "drop_files ?P s\<lparr>st_assets := filter (\<lambda>_. True) (st_assets s)\<rparr> = s'"
    by (simp add: s' drop_files_def)
  ultimately have "blobs_ok X s'" by simp
  with assms(1) show ?thesis by (simp add: store_ok_def s')
qed

text \<open>The programs a collection keeps, and what hangs on them.\<close>

lemma gc_programs_tables:
  assumes ok: "tables_ok s" and gc: "gc_programs t s = (n, s')"
  shows "tables_ok s'"
proof -
  let ?gone = "set (map db_id (filter (gc_eligible t) (st_programs s)))"
  have s': "s' = s\<lparr>st_programs := filter (\<lambda>r. \<not> gc_eligible t r) (st_programs s),
      st_program_assets := filter (\<lambda>l. fst l \<notin> ?gone) (st_program_assets s),
      st_events := filter (\<lambda>e. se_program_id e \<notin> ?gone) (st_events s),
      st_traces := filter (\<lambda>t. case tr_program_id t of None \<Rightarrow> True | Some p \<Rightarrow> p \<notin> ?gone)
        (st_traces s)\<rparr>"
    using gc by (simp add: gc_programs_def Let_def)
  have kept: "p \<in> db_id ` set (st_programs s) \<Longrightarrow> p \<notin> ?gone \<Longrightarrow> p \<in> db_id ` set (st_programs s')" for p
    by (auto simp: s')
  have 1: "distinct (map db_id (st_programs s'))" "\<forall>r \<in> set (st_programs s'). program_row_ok r"
    using ok by (auto simp: s' tables_ok_def distinct_map_filter)
  have 2: "distinct (st_program_assets s')"
    "fst ` set (st_program_assets s') \<subseteq> db_id ` set (st_programs s')"
    using ok by (auto simp: s' tables_ok_def) force
  have 3: "sorted_wrt (<) (map se_id (st_events s'))" "sorted_wrt (<) (map tr_id (st_traces s'))"
    using ok by (auto simp: s' tables_ok_def sorted_wrt_map sorted_wrt_filter)
  have 4: "\<forall>e \<in> set (st_events s'). 0 < se_id e \<and> se_id e \<le> st_event_seq s' \<and>
      se_program_id e \<in> db_id ` set (st_programs s')"
    using ok kept by (auto simp: tables_ok_def) (auto simp: s')
  have 5: "\<forall>t \<in> set (st_traces s'). tr_id t \<le> st_trace_seq s' \<and>
      (\<forall>p. tr_program_id t = Some p \<longrightarrow> p \<in> db_id ` set (st_programs s'))"
    using ok kept by (auto simp: tables_ok_def) (auto simp: s')
  show ?thesis
    using 1 2 3 4 5 ok by (simp add: s' tables_ok_def)
qed

lemma gc_programs_blobs: "gc_programs t s = (n, s') \<Longrightarrow> blobs_ok X s' = blobs_ok X s"
  by (rule blobs_ok_cong) (auto simp: gc_programs_def Let_def)

lemma gc_all_ok:
  assumes "store_ok X s"
  shows "\<exists>r s'. gc_all t s = Some (r, s') \<and> store_ok X s'"
proof -
  obtain n s1 where s1: "gc_programs t s = (n, s1)" by fastforce
  then have ok1: "store_ok X s1"
    using assms gc_programs_tables gc_programs_blobs by (auto simp: store_ok_def)
  then obtain k m s2 where s2: "gc_assets s1 = Some ((k, m), s2)"
    using gc_assets_eq [of X s1] by (auto simp: store_ok_def)
  then have "store_ok X s2"
    using ok1 gc_assets_tables gc_assets_blobs by (auto simp: store_ok_def)
  moreover obtain j s3 where "gc_orphan_blobs s2 = (j, s3)" by fastforce
  ultimately show ?thesis using s1 s2 gc_orphan_blobs_ok by (auto simp: gc_all_def)
qed

lemma find_append_Some: "find P xs = Some x \<Longrightarrow> find P (xs @ ys) = Some x"
  by (induction xs) (auto split: if_splits)

lemma find_append_None: "find P xs = None \<Longrightarrow> find P (xs @ ys) = find P ys"
  by (induction xs) (auto split: if_splits)

text \<open>A put leaves what other rows read as it was.\<close>

lemma put_asset_keeps:
  assumes "store_ok X s" "digest_hex X" "plain_ext ext"
    and put: "put_asset X bs ext now s = Some (out, s')" and a: "find_asset s h = Some a"
  shows "get_asset s' h = get_asset s h"
proof -
  obtain p where p: "asset_blob_path (st_root s) (ext_sha256_hex X bs) ext = Some p"
    using digest_blob_path [OF assms(2)] by blast
  from put put_asset_eq [OF p] have
    s': "s' = s\<lparr>st_files := put_files p bs s, st_assets := put_rows X bs ext now s\<rparr>" by simp
  have row: "asset_row_ok s a" "as_hash a = h"
    using find_asset_mem [OF a] assms(1) by (auto simp: store_ok_def blobs_ok_def)
  then obtain q where q: "asset_blob_path (st_root s) h (as_extension a) = Some q" "fs_exists s q"
    by (auto simp: asset_row_ok_def)
  have "q \<noteq> with_extension p ''tmp''"
    using blob_paths_differ [OF q(1) _ _ _ p digest_plain [OF assms(2)] assms(3)] row
    by (auto simp: asset_row_ok_def)
  with q(2) have "map_of (put_files p bs s) q = map_of (st_files s) q"
    by (auto simp: put_files_def atomic_write_files)
  moreover have "find_asset s' h = Some a"
    using a by (auto simp: s' find_asset_def put_rows_def find_append_Some)
  ultimately show ?thesis using q(1) a by (simp add: get_asset_def s')
qed

text \<open>The whole sweep, spelled out.\<close>

definition gone_ids :: "i64 \<Rightarrow> Store \<Rightarrow> ProgramId set" where
  "gone_ids t s = db_id ` {r \<in> set (st_programs s). gc_eligible t r}"

lemma gc_programs_state:
  "gc_programs t s = (n, s1) \<Longrightarrow>
   st_programs s1 = filter (\<lambda>r. \<not> gc_eligible t r) (st_programs s) \<and>
   st_program_assets s1 = filter (\<lambda>l. fst l \<notin> gone_ids t s) (st_program_assets s) \<and>
   st_events s1 = filter (\<lambda>e. se_program_id e \<notin> gone_ids t s) (st_events s) \<and>
   st_assets s1 = st_assets s \<and> st_files s1 = st_files s \<and> st_root s1 = st_root s"
  by (auto simp: gc_programs_def Let_def gone_ids_def)

lemma gc_all_cases:
  assumes "store_ok X s" "gc_all t s = Some (r, s')"
  obtains s1 where "store_ok X s1"
    "st_programs s1 = filter (\<lambda>r. \<not> gc_eligible t r) (st_programs s)"
    "st_program_assets s1 = filter (\<lambda>l. fst l \<notin> gone_ids t s) (st_program_assets s)"
    "st_events s1 = filter (\<lambda>e. se_program_id e \<notin> gone_ids t s) (st_events s)"
    "st_assets s1 = st_assets s" "st_files s1 = st_files s" "st_root s1 = st_root s"
    "\<exists>P. s' = drop_files P s1\<lparr>st_assets := filter (referenced s1) (st_assets s)\<rparr> \<and>
         (\<forall>a p. a \<in> set (st_assets s) \<longrightarrow> referenced s1 a \<longrightarrow>
            asset_blob_path (st_root s) (as_hash a) (as_extension a) = Some p \<longrightarrow> p \<notin> P) \<and>
         (\<forall>p \<in> set (walk_files s' (assets_root (st_root s))). \<not> is_orphan s' p)"
proof -
  obtain n s1 where s1: "gc_programs t s = (n, s1)" by fastforce
  note st = gc_programs_state [OF s1]
  have ok1: "store_ok X s1"
    using assms(1) gc_programs_tables [OF _ s1] gc_programs_blobs [OF s1] by (simp add: store_ok_def)
  then have b1: "blobs_ok X s1" by (simp add: store_ok_def)
  let ?R = "row_paths (st_root s) (unreferenced_assets s1)"
  define s2 where "s2 = drop_files ?R s1\<lparr>st_assets := filter (referenced s1) (st_assets s)\<rparr>"
  obtain k where gca: "gc_assets s1 = Some (k, s2)"
    using gc_assets_eq [OF b1] st by (auto simp: s2_def)
  let ?O = "set (filter (is_orphan s2) (walk_files s2 (assets_root (st_root s2))))"
  have s': "s' = drop_files ?O s2"
    using assms(2) s1 gca gc_orphan_blobs_eq [of s2] by (auto simp: gc_all_def split: prod.splits)
  have b2: "blobs_ok X s2" using gc_assets_blobs [OF b1 gca] .
  have root2: "st_root s2 = st_root s" using st by (simp add: s2_def)
  have "p \<notin> ?R \<union> ?O" if a: "a \<in> set (st_assets s)" "referenced s1 a"
    and p: "asset_blob_path (st_root s) (as_hash a) (as_extension a) = Some p" for a p
  proof -
    have "p \<notin> ?R" using row_paths_other [OF b1, of a p] a p st by simp
    moreover have "a \<in> set (st_assets s2)" using a by (simp add: s2_def)
    then have "p \<notin> ?O" using known_not_orphan [OF b2, of a p] p by (simp add: root2)
    ultimately show ?thesis by simp
  qed
  moreover have "s' = drop_files (?R \<union> ?O) s1\<lparr>st_assets := filter (referenced s1) (st_assets s)\<rparr>"
    unfolding s' by (simp add: s2_def drop_files_def conj_commute)
  moreover have "\<not> is_orphan s' p" if "p \<in> set (walk_files s' (assets_root (st_root s)))" for p
  proof -
    have "is_orphan s' p = is_orphan s2 p" by (simp add: s' is_orphan_def split: option.split)
    with that show ?thesis by (auto simp: s' walk_files_def drop_files_def root2)
  qed
  ultimately show ?thesis using that [OF ok1] st by blast
qed

section \<open>The event log in pages\<close>

lemma stream_events_sorted:
  assumes "tables_ok s"
  shows "stream_events s a n = take n (filter (\<lambda>e. se_id e > a) (st_events s))"
proof -
  have "sorted_wrt (<) (map se_id (filter (\<lambda>e. se_id e > a) (st_events s)))"
    using assms by (simp add: tables_ok_def sorted_wrt_map sorted_wrt_filter)
  then have "sorted (map se_id (filter (\<lambda>e. se_id e > a) (st_events s)))"
    using strict_sorted_iff by blast
  then show ?thesis by (simp add: stream_events_def sort_key_id_if_sorted)
qed

lemma filter_after_prefix:
  fixes f :: "'a \<Rightarrow> int"
  assumes "sorted_wrt (<) (map f (xs @ ys))" "xs \<noteq> []"
  shows "filter (\<lambda>e. f e > f (last xs)) (xs @ ys) = ys"
proof -
  from assms(2) obtain zs z where xs: "xs = zs @ [z]" by (metis rev_exhaust)
  have "filter (\<lambda>e. f e > f z) zs = []"
    using assms(1) by (fastforce simp: xs sorted_wrt_append filter_empty_conv)
  moreover have "filter (\<lambda>e. f e > f z) ys = ys"
    using assms(1) by (auto simp: xs sorted_wrt_append filter_id_conv)
  ultimately show ?thesis by (simp add: xs)
qed

lemma filter_twice_after:
  "a \<le> (b::int) \<Longrightarrow> filter (\<lambda>e. f e > b) (filter (\<lambda>e. f e > a) xs) = filter (\<lambda>e. f e > b) xs"
  by (auto intro: filter_cong simp: filter_filter)

end
