(* ===== verification/Daemon.thy ===== *)
theory Daemon
  imports Store_Gc Dsl_Validate Scheduler
begin

text \<open>
  The daemon around the scheduler and the store: the event pump (\<open>persist.rs\<close>), template
  asset materialisation (\<open>assets.rs\<close>), startup (\<open>startup.rs\<close>) and the command channel
  (\<open>bridge.rs\<close>).  Closures that run under the store mutex return a pair of an optional
  result and the store: \<open>None\<close> is a panic, which leaves the store as far as it got and
  poisons the mutex.
\<close>

record DaemonExt =
  dx_store :: StoreExt
  dx_dsl :: DslExt
  dx_debug_list :: "string list \<Rightarrow> string"
  dx_version :: string
  dx_not_found :: string

section \<open>Event pump\<close>

fun program_id_of :: "EventData \<Rightarrow> ProgramId option" where
  "program_id_of (ProgramSubmitted p _) = Some p"
| "program_id_of (ProgramStateChanged p _ _ _) = Some p"
| "program_id_of (ProgramCompleted p _) = Some p"
| "program_id_of (ProgramFailed p _ _ _) = Some p"
| "program_id_of (ProgramResumed p _) = Some p"
| "program_id_of (WatchFired p _ _) = Some p"
| "program_id_of (ActionDispatched p _ _) = Some p"
| "program_id_of (ActionDeferred p _ _) = Some p"
| "program_id_of (DaemonStarted _) = None"
| "program_id_of DaemonStopped = None"
| "program_id_of (DaemonPressure _) = None"
| "program_id_of (StreamDropped _ _) = None"
| "program_id_of (TickFrameSkipped _) = None"
| "program_id_of (CapturePermissionMissing _) = None"

text \<open>Store errors are logged and dropped.\<close>

definition keep :: "StoreError + Store \<Rightarrow> Store \<Rightarrow> Store" where
  "keep r s = (case r of Inl _ \<Rightarrow> s | Inr s' \<Rightarrow> s')"

definition append_logged :: "StoreExt \<Rightarrow> ProgramId \<Rightarrow> Event \<Rightarrow> Store \<Rightarrow> Store" where
  "append_logged X pid ev s = (case append_event X pid ev s of Inl _ \<Rightarrow> s | Inr (_, s') \<Rightarrow> s')"

definition persist_program_event :: "StoreExt \<Rightarrow> ProgramId \<Rightarrow> Event \<Rightarrow> Store \<Rightarrow> Store" where
  "persist_program_event X pid ev s =
     (let s1 = append_logged X pid ev s
      in case ev_data ev of
           ProgramStateChanged _ _ to _ \<Rightarrow> keep (update_state pid to (ev_at ev) s1) s1
         | ProgramCompleted _ _ \<Rightarrow> keep (update_state pid Completed (ev_at ev) s1) s1
         | ProgramFailed _ reason step _ \<Rightarrow>
             (let s2 = keep (update_state pid Failed (ev_at ev) s1) s1;
                  msg = (case step of Some m \<Rightarrow> m | None \<Rightarrow> reason)
              in keep (set_last_error pid reason msg s2) s2)
         | ProgramResumed _ from_step \<Rightarrow>
             (let s2 = keep (update_state pid Running (ev_at ev) s1) s1
              in keep (set_body_cursor pid from_step s2) s2)
         | _ \<Rightarrow> s1)"

definition persist_event :: "StoreExt \<Rightarrow> Event \<Rightarrow> Store \<Rightarrow> Store" where
  "persist_event X ev s =
     (case program_id_of (ev_data ev) of None \<Rightarrow> s | Some pid \<Rightarrow> persist_program_event X pid ev s)"

text \<open>One iteration of the pump, then the pump on a sequence of received events.\<close>

definition pump_step :: "StoreExt \<Rightarrow> Event \<Rightarrow> Store \<times> Event list \<Rightarrow> Store \<times> Event list" where
  "pump_step X ev p = (persist_event X ev (fst p), snd p @ [ev])"

definition event_pump :: "StoreExt \<Rightarrow> Event list \<Rightarrow> Store \<times> Event list \<Rightarrow> Store \<times> Event list" where
  "event_pump X evs p = fold (pump_step X) evs p"

section \<open>Asset materialisation\<close>

record MaterializedAssets =
  ma_bytes :: "bytes btree"
  ma_hashes :: "AssetHash list"

definition ma_empty :: MaterializedAssets where
  "ma_empty = \<lparr>ma_bytes = [], ma_hashes = []\<rparr>"

definition ma_insert :: "AssetHash \<Rightarrow> bytes \<Rightarrow> MaterializedAssets \<Rightarrow> MaterializedAssets" where
  "ma_insert hash bs m =
     \<lparr>ma_bytes = (if btree_contains (ma_bytes m) hash then ma_bytes m else btree_insert hash bs (ma_bytes m)),
      ma_hashes = (if hash \<in> set (ma_hashes m) then ma_hashes m else ma_hashes m @ [hash])\<rparr>"

datatype AssetMaterializeError =
    AM_MissingBaseDir string
  | AM_Io path string
  | AM_UnknownAsset string
  | AM_Store StoreError

fun store_error_display :: "StoreExt \<Rightarrow> StoreError \<Rightarrow> string" where
  "store_error_display X (SE_Sqlite m) = ''sqlite: '' @ m"
| "store_error_display X (SE_Io p m) = ''io at '' @ ext_debug_str X p @ '': '' @ m"
| "store_error_display X (SE_UnknownProgram p) = ''unknown program: '' @ p"
| "store_error_display X (SE_BadStateTransition from to reason) =
     ''bad state transition: '' @ from @ '' -> '' @ to @ '' ('' @ reason @ '')''"
| "store_error_display X (SE_NotResumable m) = ''not resumable: '' @ m"
| "store_error_display X (SE_UnknownAsset m) = ''unknown asset: '' @ m"
| "store_error_display X (SE_SchemaNewer found supported) =
     ''schema version '' @ nat_str found @ '' is newer than supported version '' @ nat_str supported"
| "store_error_display X (SE_Json m) = ''json deserialize: '' @ m"

fun asset_error_display :: "StoreExt \<Rightarrow> AssetMaterializeError \<Rightarrow> string" where
  "asset_error_display X (AM_MissingBaseDir a) =
     ''relative template asset '' @ ext_debug_str X a @ '' requires submit base_dir''"
| "asset_error_display X (AM_Io p m) = ''read template asset '' @ ext_debug_str X p @ '': '' @ m"
| "asset_error_display X (AM_UnknownAsset h) = ''template asset sha256:'' @ h @ '' is not materialized''"
| "asset_error_display X (AM_Store e) = ''store: '' @ store_error_display X e"

fun asset_error_code :: "AssetMaterializeError \<Rightarrow> ErrorCode" where
  "asset_error_code (AM_Store _) = Internal"
| "asset_error_code _ = InvalidProgram"

definition asset_error_payload :: "StoreExt \<Rightarrow> AssetMaterializeError \<Rightarrow> ErrorPayload" where
  "asset_error_payload X e = payload_simple (asset_error_code e) (asset_error_display X e)"

text \<open>The rewritten reference and the accumulated bytes; \<open>None\<close> is a panic.\<close>

type_synonym 'a guarded = "(AssetMaterializeError + 'a) option \<times> Store"

definition materialize_image_ref ::
  "DaemonExt \<Rightarrow> string \<Rightarrow> path option \<Rightarrow> i64 \<Rightarrow> MaterializedAssets \<Rightarrow> Store \<Rightarrow>
   (string \<times> MaterializedAssets) guarded" where
  "materialize_image_ref D img base_dir now_ms out s =
     (case strip_prefix ''sha256:'' img of
        Some hex \<Rightarrow>
          (case get_asset s hex of
             None \<Rightarrow> (None, s)
           | Some None \<Rightarrow> (Some (Inl (AM_UnknownAsset hex)), s)
           | Some (Some bs) \<Rightarrow> (Some (Inr (img, ma_insert hex bs out)), s))
      | None \<Rightarrow>
          (case (if is_absolute img then Some img else map_option (\<lambda>b. path_join b img) base_dir) of
             None \<Rightarrow> (Some (Inl (AM_MissingBaseDir img)), s)
           | Some resolved \<Rightarrow>
               (case map_of (st_files s) resolved of
                  None \<Rightarrow> (Some (Inl (AM_Io resolved (dx_not_found D))), s)
                | Some bs \<Rightarrow>
                    (case put_asset (dx_store D) bs (map_option (map ascii_lower) (path_extension resolved))
                            now_ms s of
                       None \<Rightarrow> (None, s)
                     | Some (stored, s') \<Rightarrow>
                         (Some (Inr (''sha256:'' @ put_hash stored, ma_insert (put_hash stored) bs out)), s')))))"

definition materialize_predicate ::
  "DaemonExt \<Rightarrow> PredicateKind \<Rightarrow> path option \<Rightarrow> i64 \<Rightarrow> MaterializedAssets \<Rightarrow> Store \<Rightarrow>
   (PredicateKind \<times> MaterializedAssets) guarded" where
  "materialize_predicate D p base_dir now_ms out s =
     (case p of
        Template img conf region thr \<Rightarrow>
          (case materialize_image_ref D img base_dir now_ms out s of
             (None, s') \<Rightarrow> (None, s')
           | (Some (Inl e), s') \<Rightarrow> (Some (Inl e), s')
           | (Some (Inr (img', out')), s') \<Rightarrow> (Some (Inr (Template img' conf region thr, out')), s'))
      | _ \<Rightarrow> (Some (Inr (p, out)), s))"

fun materialize_named ::
  "DaemonExt \<Rightarrow> path option \<Rightarrow> i64 \<Rightarrow> (string \<times> PredicateKind) list \<Rightarrow> MaterializedAssets \<Rightarrow> Store \<Rightarrow>
   ((string \<times> PredicateKind) list \<times> MaterializedAssets) guarded" where
  "materialize_named D base now [] out s = (Some (Inr ([], out)), s)"
| "materialize_named D base now ((k, p) # ps) out s =
     (case materialize_predicate D p base now out s of
        (None, s') \<Rightarrow> (None, s')
      | (Some (Inl e), s') \<Rightarrow> (Some (Inl e), s')
      | (Some (Inr (p', out')), s') \<Rightarrow>
          (case materialize_named D base now ps out' s' of
             (None, s'') \<Rightarrow> (None, s'')
           | (Some (Inl e), s'') \<Rightarrow> (Some (Inl e), s'')
           | (Some (Inr (ps', out'')), s'') \<Rightarrow> (Some (Inr ((k, p') # ps', out'')), s'')))"

definition materialize_watch ::
  "DaemonExt \<Rightarrow> path option \<Rightarrow> i64 \<Rightarrow> Watch \<Rightarrow> MaterializedAssets \<Rightarrow> Store \<Rightarrow>
   (Watch \<times> MaterializedAssets) guarded" where
  "materialize_watch D base now w out s =
     (case when_cond w of
        ByName _ \<Rightarrow> (Some (Inr (w, out)), s)
      | Inline p \<Rightarrow>
          (case materialize_predicate D p base now out s of
             (None, s') \<Rightarrow> (None, s')
           | (Some (Inl e), s') \<Rightarrow> (Some (Inl e), s')
           | (Some (Inr (p', out')), s') \<Rightarrow> (Some (Inr (w\<lparr>when_cond := Inline p'\<rparr>, out')), s')))"

fun materialize_watches ::
  "DaemonExt \<Rightarrow> path option \<Rightarrow> i64 \<Rightarrow> Watch list \<Rightarrow> MaterializedAssets \<Rightarrow> Store \<Rightarrow>
   (Watch list \<times> MaterializedAssets) guarded" where
  "materialize_watches D base now [] out s = (Some (Inr ([], out)), s)"
| "materialize_watches D base now (w # ws) out s =
     (case materialize_watch D base now w out s of
        (None, s') \<Rightarrow> (None, s')
      | (Some (Inl e), s') \<Rightarrow> (Some (Inl e), s')
      | (Some (Inr (w', out')), s') \<Rightarrow>
          (case materialize_watches D base now ws out' s' of
             (None, s'') \<Rightarrow> (None, s'')
           | (Some (Inl e), s'') \<Rightarrow> (Some (Inl e), s'')
           | (Some (Inr (ws', out'')), s'') \<Rightarrow> (Some (Inr (w' # ws', out'')), s'')))"

definition materialize_template_assets ::
  "DaemonExt \<Rightarrow> Program \<Rightarrow> path option \<Rightarrow> i64 \<Rightarrow> Store \<Rightarrow> (Program \<times> MaterializedAssets) guarded" where
  "materialize_template_assets D p base now s =
     (case materialize_named D base now (predicates p) ma_empty s of
        (None, s1) \<Rightarrow> (None, s1)
      | (Some (Inl e), s1) \<Rightarrow> (Some (Inl e), s1)
      | (Some (Inr (ps, out1)), s1) \<Rightarrow>
          (case materialize_watches D base now (watches p) out1 s1 of
             (None, s2) \<Rightarrow> (None, s2)
           | (Some (Inl e), s2) \<Rightarrow> (Some (Inl e), s2)
           | (Some (Inr (ws, out2)), s2) \<Rightarrow>
               (Some (Inr (p\<lparr>predicates := ps, watches := ws\<rparr>, out2)), s2)))"

section \<open>Startup\<close>

definition recovery_events :: "UnixMs \<Rightarrow> RecoveredProgram \<Rightarrow> Event list" where
  "recovery_events now r =
     [\<lparr>ev_at = now, ev_data = ProgramStateChanged (rec_id r) Running Failed ''daemon_restart''\<rparr>,
      \<lparr>ev_at = now, ev_data = ProgramFailed (rec_id r) ''daemon restarted during execution''
         (Some (''body['' @ nat_str (rec_body_cursor r) @ '']'')) None\<rparr>]"

definition emit_recovery_events :: "UnixMs \<Rightarrow> RecoveredProgram list \<Rightarrow> Event list" where
  "emit_recovery_events now recovered = concat (map (recovery_events now) recovered)"

definition emit_daemon_started :: "DaemonExt \<Rightarrow> UnixMs \<Rightarrow> Event list" where
  "emit_daemon_started D now = [\<lparr>ev_at = now, ev_data = DaemonStarted (dx_version D)\<rparr>]"

definition emit_daemon_stopped :: "UnixMs \<Rightarrow> Event list" where
  "emit_daemon_stopped now = [\<lparr>ev_at = now, ev_data = DaemonStopped\<rparr>]"

text \<open>\<open>bridge.rs\<close>: the command channel is bounded; a send into a full one waits.\<close>

definition CMD_CAPACITY :: nat where "CMD_CAPACITY = 256"
definition EVENT_BROADCAST_CAPACITY :: nat where "EVENT_BROADCAST_CAPACITY = 1024"

text \<open>The stored source of a row, parsed, validated and materialised again.\<close>

definition reload_row ::
  "DaemonExt \<Rightarrow> i64 \<Rightarrow> ProgramRow \<Rightarrow> Store \<Rightarrow> (ProgramId \<times> Program \<times> bytes btree) option option \<times> Store" where
  "reload_row D now_ms row s =
     (case ext_value_parse (dx_store D) (row_source_json row) of
        Inl _ \<Rightarrow> (Some None, s)
      | Inr value \<Rightarrow>
          (case validate_value (dx_dsl D) value of
             Inl _ \<Rightarrow> (Some None, s)
           | Inr v \<Rightarrow>
               (case materialize_template_assets D (val_program v) None now_ms s of
                  (None, s') \<Rightarrow> (None, s')
                | (Some (Inl _), s') \<Rightarrow> (Some None, s')
                | (Some (Inr (program, m)), s') \<Rightarrow> (Some (Some (row_id row, program, ma_bytes m)), s'))))"

fun reload_rows ::
  "DaemonExt \<Rightarrow> i64 \<Rightarrow> ProgramRow list \<Rightarrow> Store \<Rightarrow> (ProgramId \<times> Program \<times> bytes btree) list option \<times> Store" where
  "reload_rows D now [] s = (Some [], s)"
| "reload_rows D now (r # rs) s =
     (case reload_row D now r s of
        (None, s') \<Rightarrow> (None, s')
      | (Some x, s') \<Rightarrow>
          (case reload_rows D now rs s' of
             (None, s'') \<Rightarrow> (None, s'')
           | (Some xs, s'') \<Rightarrow> (Some (case x of None \<Rightarrow> xs | Some y \<Rightarrow> y # xs), s'')))"

text \<open>
  Sends before the scheduler thread exists: nobody drains the channel, so a send into a
  full one never returns, \<open>None\<close>.
\<close>

fun send_undrained :: "SchedulerCommand list \<Rightarrow> SchedulerCommand list \<Rightarrow> SchedulerCommand list option" where
  "send_undrained q [] = Some q"
| "send_undrained q (c # cs) = (if length q < CMD_CAPACITY then send_undrained (q @ [c]) cs else None)"

text \<open>\<open>None\<close> also when the listing panics; otherwise the queue, the count and the store.\<close>

definition reload_waiting_programs ::
  "DaemonExt \<Rightarrow> i64 \<Rightarrow> Store \<Rightarrow> (SchedulerCommand list \<times> nat \<times> Store) option" where
  "reload_waiting_programs D now_ms s =
     (case list_programs s (Some Waiting) of
        None \<Rightarrow> None
      | Some rows \<Rightarrow>
          (case reload_rows D now_ms rows s of
             (None, _) \<Rightarrow> None
           | (Some reloaded, s') \<Rightarrow>
               (case send_undrained [] (map (\<lambda>(pid, p, assets). SubmitValidated pid p assets) reloaded) of
                  None \<Rightarrow> None
                | Some q \<Rightarrow> Some (q, length reloaded, s'))))"

end
