(* ===== verification/Ipc.thy ===== *)
theory Ipc
  imports Store_Lemmas
begin

text \<open>
  The transport, crate \<open>vcli-ipc\<close>: length-prefixed frames (\<open>frame.rs\<close>), the wire envelopes
  (\<open>wire/\<close>), the per-connection loop of the server (\<open>server.rs\<close>) over any implementation of
  the \<open>Handler\<close> trait, and the client (\<open>client.rs\<close>).  A connection's input is the list of
  chunks successive reads return, so that a frame may arrive split or glued to its
  neighbours; the end of the list, or an empty chunk, is end of file.  The JSON text of the
  envelopes is \<open>serde_json\<close>'s and a parameter (\<open>Codec\<close>); writes do not fail.
\<close>

section \<open>Wire envelopes\<close>

type_synonym RequestId = string

datatype RequestOp =
    Op_Submit JsonValue "string option"
  | Op_List "string option"
  | Op_Status ProgramId
  | Op_Cancel ProgramId
  | Op_Start ProgramId
  | Op_Resume ProgramId bool
  | Op_Logs ProgramId bool
  | Op_Events bool
  | Op_Trace ProgramId
  | Op_Health
  | Op_Gc
  | Op_Shutdown

record Request =
  rq_id :: RequestId
  rq_op :: RequestOp

datatype ResponseBody = RB_Ok JsonValue | RB_Err ErrorPayload

record Response =
  rs_id :: RequestId
  rs_body :: ResponseBody

definition response_ok :: "RequestId \<Rightarrow> JsonValue \<Rightarrow> Response" where
  "response_ok i result = \<lparr>rs_id = i, rs_body = RB_Ok result\<rparr>"

definition response_err :: "RequestId \<Rightarrow> ErrorPayload \<Rightarrow> Response" where
  "response_err i err = \<lparr>rs_id = i, rs_body = RB_Err err\<rparr>"

datatype StreamKind = SK_Events | SK_Trace

record StreamFrame =
  sf_id :: RequestId
  sf_stream :: StreamKind
  sf_end :: bool
  sf_event :: "Event option"
  sf_trace :: "JsonValue option"

definition event_frame :: "RequestId \<Rightarrow> Event \<Rightarrow> StreamFrame" where
  "event_frame i ev = \<lparr>sf_id = i, sf_stream = SK_Events, sf_end = False, sf_event = Some ev, sf_trace = None\<rparr>"

definition trace_frame :: "RequestId \<Rightarrow> JsonValue \<Rightarrow> StreamFrame" where
  "trace_frame i rcd = \<lparr>sf_id = i, sf_stream = SK_Trace, sf_end = False, sf_event = None, sf_trace = Some rcd\<rparr>"

definition end_of_stream :: "RequestId \<Rightarrow> StreamKind \<Rightarrow> StreamFrame" where
  "end_of_stream i kind = \<lparr>sf_id = i, sf_stream = kind, sf_end = True, sf_event = None, sf_trace = None\<rparr>"

datatype IpcError =
    IE_Io string
  | IE_UnexpectedEof nat nat
  | IE_FrameTooLarge u32 u32
  | IE_InvalidJson string
  | IE_SocketSetup string
  | IE_SocketPath string
  | IE_StreamClosed

fun ipc_error_display :: "IpcError \<Rightarrow> string" where
  "ipc_error_display (IE_Io m) = ''io: '' @ m"
| "ipc_error_display (IE_UnexpectedEof got expected) =
     ''peer disconnected mid-frame (got '' @ nat_str got @ '' of '' @ nat_str expected @ '' bytes)''"
| "ipc_error_display (IE_FrameTooLarge len mx) =
     ''frame too large: '' @ nat_str len @ '' bytes (max '' @ nat_str mx @ '')''"
| "ipc_error_display (IE_InvalidJson m) = ''invalid json frame: '' @ m"
| "ipc_error_display (IE_SocketSetup m) = ''socket setup: '' @ m"
| "ipc_error_display (IE_SocketPath m) = ''could not resolve socket path: '' @ m"
| "ipc_error_display IE_StreamClosed = ''stream closed by server''"

section \<open>Frames\<close>

definition MAX_FRAME_LEN :: u32 where "MAX_FRAME_LEN = 4 * 1024 * 1024"

definition to_be_bytes :: "u32 \<Rightarrow> bytes" where
  "to_be_bytes n = [of_nat (n div 16777216), of_nat (n div 65536), of_nat (n div 256), of_nat n]"

fun from_be_bytes :: "bytes \<Rightarrow> u32" where
  "from_be_bytes [a, b, c, d] = unat a * 16777216 + unat b * 65536 + unat c * 256 + unat d"
| "from_be_bytes _ = 0"

type_synonym 'a encoder = "'a \<Rightarrow> string + bytes"
type_synonym 'a decoder = "bytes \<Rightarrow> string + 'a"

definition write_frame :: "'a encoder \<Rightarrow> 'a \<Rightarrow> IpcError + bytes" where
  "write_frame enc v =
     (case enc v of
        Inl e \<Rightarrow> Inl (IE_InvalidJson e)
      | Inr bs \<Rightarrow>
          if length bs > u32_max then Inl (IE_FrameTooLarge u32_max MAX_FRAME_LEN)
          else if length bs > MAX_FRAME_LEN then Inl (IE_FrameTooLarge (length bs) MAX_FRAME_LEN)
          else Inr (to_be_bytes (length bs) @ bs))"

text \<open>The read loop: one \<open>read\<close> returns at most the free part of the buffer.\<close>

function fill :: "nat \<Rightarrow> bytes \<Rightarrow> bytes list \<Rightarrow> nat + (bytes \<times> bytes list)" where
  "fill need acc chunks =
     (if length acc \<ge> need then Inr (acc, chunks)
      else case chunks of
             [] \<Rightarrow> Inl (length acc)
           | c # cs \<Rightarrow>
               let n = min (need - length acc) (length c)
               in if n = 0 then Inl (length acc)
                  else fill need (acc @ take n c) (if drop n c = [] then cs else drop n c # cs))"
  by pat_completeness auto
termination
proof (relation "measure (\<lambda>(need, acc, chunks). need - length acc)", goal_cases)
  case (2 need acc chunks c cs n)
  then have "0 < n" "n \<le> need - length acc" "n \<le> length c" by simp_all
  then show ?case by simp
qed simp

declare fill.simps [simp del]

definition read_frame :: "'a decoder \<Rightarrow> bytes list \<Rightarrow> IpcError + ('a \<times> bytes list)" where
  "read_frame dec chunks =
     (case fill 4 [] chunks of
        Inl got \<Rightarrow> Inl (IE_UnexpectedEof got 4)
      | Inr (hdr, rest) \<Rightarrow>
          let len = from_be_bytes hdr
          in if len > MAX_FRAME_LEN then Inl (IE_FrameTooLarge len MAX_FRAME_LEN)
             else case fill len [] rest of
                    Inl got \<Rightarrow> Inl (IE_UnexpectedEof got len)
                  | Inr (buf, rest') \<Rightarrow>
                      (case dec buf of Inl e \<Rightarrow> Inl (IE_InvalidJson e) | Inr v \<Rightarrow> Inr (v, rest')))"

section \<open>Server\<close>

record Codec =
  cd_enc_request :: "Request encoder"
  cd_dec_request :: "Request decoder"
  cd_enc_response :: "Response encoder"
  cd_dec_response :: "Response decoder"
  cd_enc_frame :: "StreamFrame encoder"
  cd_dec_frame :: "StreamFrame decoder"

text \<open>
  The \<open>Handler\<close> trait over a state \<open>'d\<close>: a streaming call yields the frames it pushed
  before it returned.
\<close>

record 'd Handler =
  h_handle :: "RequestId \<Rightarrow> RequestOp \<Rightarrow> 'd \<Rightarrow> (IpcError + Response) \<times> 'd"
  h_handle_stream :: "RequestId \<Rightarrow> RequestOp \<Rightarrow> 'd \<Rightarrow> StreamFrame list \<times> 'd"

fun is_streaming :: "RequestOp \<Rightarrow> bool" where
  "is_streaming (Op_Logs _ _) = True"
| "is_streaming (Op_Events _) = True"
| "is_streaming (Op_Trace _) = True"
| "is_streaming _ = False"

text \<open>Frames are written until the first one that does not fit.\<close>

fun write_frames :: "'a encoder \<Rightarrow> 'a list \<Rightarrow> bytes \<times> IpcError option" where
  "write_frames enc [] = ([], None)"
| "write_frames enc (v # vs) =
     (case write_frame enc v of
        Inl e \<Rightarrow> ([], Some e)
      | Inr bs \<Rightarrow> (case write_frames enc vs of (out, e) \<Rightarrow> (bs @ out, e)))"

definition dispatch_oneshot ::
  "Codec \<Rightarrow> 'd Handler \<Rightarrow> Request \<Rightarrow> 'd \<Rightarrow> (bytes \<times> IpcError option) \<times> 'd" where
  "dispatch_oneshot C H req d =
     (case h_handle H (rq_id req) (rq_op req) d of
        (r, d') \<Rightarrow>
          let resp = (case r of
                        Inr resp \<Rightarrow> resp
                      | Inl e \<Rightarrow> response_err (rq_id req) (payload_simple Internal (ipc_error_display e)))
          in (write_frames (cd_enc_response C) [resp], d'))"

definition stream_kind :: "RequestOp \<Rightarrow> StreamKind" where
  "stream_kind op = (case op of Op_Trace _ \<Rightarrow> SK_Trace | _ \<Rightarrow> SK_Events)"

definition dispatch_stream ::
  "Codec \<Rightarrow> 'd Handler \<Rightarrow> Request \<Rightarrow> 'd \<Rightarrow> (bytes \<times> IpcError option) \<times> 'd" where
  "dispatch_stream C H req d =
     (case h_handle_stream H (rq_id req) (rq_op req) d of
        (frames, d') \<Rightarrow>
          (write_frames (cd_enc_frame C)
             (frames @ [end_of_stream (rq_id req) (stream_kind (rq_op req))]), d'))"

definition dispatch :: "Codec \<Rightarrow> 'd Handler \<Rightarrow> Request \<Rightarrow> 'd \<Rightarrow> (bytes \<times> IpcError option) \<times> 'd" where
  "dispatch C H req d =
     (if is_streaming (rq_op req) then dispatch_stream C H req d else dispatch_oneshot C H req d)"

section \<open>Lemmas on frames\<close>

lemma be_bytes_round_trip: "n \<le> u32_max \<Longrightarrow> from_be_bytes (to_be_bytes n) = n"
proof -
  assume n: "n \<le> u32_max"
  define a where "a = n div 256"
  define b where "b = a div 256"
  define c where "c = b div 256"
  have d: "n div 65536 = b" "n div 16777216 = c"
    by (simp_all add: a_def b_def c_def div_mult2_eq [symmetric])
  have "n = a * 256 + n mod 256" "a = b * 256 + a mod 256" "b = c * 256 + b mod 256"
    by (simp_all add: a_def b_def c_def)
  moreover have "c < 256" using n d by linarith
  ultimately have "c mod 256 * 16777216 + b mod 256 * 65536 + a mod 256 * 256 + n mod 256 = n"
    by simp
  then show ?thesis
    by (simp add: to_be_bytes_def unat_of_nat d flip: a_def)
qed

lemma to_be_bytes_length [simp]: "length (to_be_bytes n) = 4"
  by (simp add: to_be_bytes_def)

text \<open>Filling from chunks only depends on the bytes they carry.\<close>

definition solid :: "bytes list \<Rightarrow> bool" where
  "solid chunks \<longleftrightarrow> (\<forall>c \<in> set chunks. c \<noteq> [])"

lemma take_drop_split:
  assumes "n \<le> k" "n \<le> length c"
  shows "take k (c @ x) = take n c @ take (k - n) (drop n c @ x)"
    "drop k (c @ x) = drop (k - n) (drop n c @ x)"
proof -
  have l: "length (take n c) = n" and e: "c @ x = take n c @ (drop n c @ x)" using assms(2) by simp_all
  show "take k (c @ x) = take n c @ take (k - n) (drop n c @ x)"
    unfolding e using assms l by (simp only: take_append) simp
  show "drop k (c @ x) = drop (k - n) (drop n c @ x)"
    unfolding e using assms l by (simp only: drop_append) simp
qed

lemma fill_enough:
  assumes "solid chunks" "length acc \<le> need" "need \<le> length acc + length (concat chunks)"
  shows "\<exists>rest. fill need acc chunks = Inr (acc @ take (need - length acc) (concat chunks), rest) \<and>
    concat rest = drop (need - length acc) (concat chunks) \<and> solid rest"
  using assms
proof (induction need acc chunks rule: fill.induct)
  case (1 need acc chunks)
  show ?case
  proof (cases "length acc \<ge> need")
    case True
    with 1(2,3) show ?thesis by (subst fill.simps) auto
  next
    case False
    with 1(4) obtain c cs where c: "chunks = c # cs" by (cases chunks) auto
    define n where "n = min (need - length acc) (length c)"
    have "c \<noteq> []" using 1(2) c by (simp add: solid_def)
    with False have n: "n \<noteq> 0" "n \<le> length c" "n \<le> need - length acc" by (auto simp: n_def)
    define rest where "rest = (if drop n c = [] then cs else drop n c # cs)"
    have r: "concat rest = drop n c @ concat cs" "solid rest"
      using 1(2) c by (auto simp: rest_def solid_def)
    have step: "fill need acc chunks = fill need (acc @ take n c) rest"
      using False c n(1) by (subst fill.simps) (simp add: n_def [symmetric] rest_def)
    have ih: "\<exists>r'. fill need (acc @ take n c) rest =
        Inr ((acc @ take n c) @ take (need - length (acc @ take n c)) (concat rest), r') \<and>
      concat r' = drop (need - length (acc @ take n c)) (concat rest) \<and> solid r'"
      by (rule 1(1) [OF False c n_def n(1), folded rest_def]) (use 1(3,4) n r in \<open>simp_all add: c\<close>)
    moreover note take_drop_split [OF n(3,2), of "concat cs"]
    ultimately show ?thesis using step r n(2) by (auto simp: c min_def)
  qed
qed

lemma fill_short:
  assumes "solid chunks" "length acc + length (concat chunks) < need"
  shows "fill need acc chunks = Inl (length acc + length (concat chunks))"
  using assms
proof (induction need acc chunks rule: fill.induct)
  case (1 need acc chunks)
  show ?case
  proof (cases chunks)
    case Nil
    with 1(3) show ?thesis by (subst fill.simps) simp
  next
    case (Cons c cs)
    define n where "n = min (need - length acc) (length c)"
    have n: "n = length c" "n \<noteq> 0" using 1(2,3) Cons by (auto simp: n_def solid_def)
    have lt: "\<not> length acc \<ge> need" using 1(3) by simp
    have "fill need acc chunks = fill need (acc @ c) cs"
      using lt Cons n by (subst fill.simps) (simp add: n_def [symmetric])
    also have "\<dots> = Inl (length (acc @ c) + length (concat cs))"
      using 1(1) [OF lt Cons n_def n(2)] 1(2,3) Cons n by (simp add: solid_def)
    finally show ?thesis using Cons by simp
  qed
qed

lemma fill_progress:
  "fill need acc chunks = Inr (a, rest) \<Longrightarrow>
   length a + length (concat rest) = length acc + length (concat chunks) \<and> need \<le> length a"
proof (induction need acc chunks rule: fill.induct)
  case (1 need acc chunks)
  show ?case
  proof (cases "length acc \<ge> need")
    case True
    with 1(2) show ?thesis by (subst (asm) fill.simps) simp
  next
    case False
    with 1(2) obtain c cs where c: "chunks = c # cs" by (subst (asm) fill.simps) (auto split: list.splits)
    define n where "n = min (need - length acc) (length c)"
    have n: "n \<noteq> 0" using 1(2) False c by (subst (asm) fill.simps) (auto simp: n_def)
    have "fill need (acc @ take n c) (if drop n c = [] then cs else drop n c # cs) = Inr (a, rest)"
      using 1(2) False c n by (subst (asm) fill.simps) (simp flip: n_def)
    from 1(1) [OF False c n_def n this] show ?thesis by (auto simp: c n_def split: if_splits)
  qed
qed

lemma read_frame_progress:
  assumes "read_frame dec chunks = Inr (v, rest)"
  shows "length (concat rest) + 4 \<le> length (concat chunks)"
proof -
  obtain hdr r1 buf where "fill 4 [] chunks = Inr (hdr, r1)" "fill (from_be_bytes hdr) [] r1 = Inr (buf, rest)"
    using assms by (auto simp: read_frame_def Let_def split: sum.splits prod.splits if_splits)
  from this [THEN fill_progress] show ?thesis by simp
qed

text \<open>A frame written by the peer is read back whole, however it was split into reads.\<close>

lemma read_written:
  assumes "write_frame enc v = Inr bs" "\<And>b. enc v = Inr b \<Longrightarrow> dec b = Inr v"
    and "solid chunks" "concat chunks = bs @ tail"
  shows "\<exists>rest. read_frame dec chunks = Inr (v, rest) \<and> concat rest = tail \<and> solid rest"
proof -
  from assms(1) obtain b where b: "enc v = Inr b" "length b \<le> MAX_FRAME_LEN"
    and bs: "bs = to_be_bytes (length b) @ b"
    by (auto simp: write_frame_def split: sum.splits if_splits)
  have len: "from_be_bytes (to_be_bytes (length b)) = length b"
    using b(2) by (simp add: be_bytes_round_trip MAX_FRAME_LEN_def)
  obtain r1 where r1: "fill 4 [] chunks = Inr (to_be_bytes (length b), r1)" "concat r1 = b @ tail" "solid r1"
    using fill_enough [OF assms(3), of "[]" 4] by (auto simp: assms(4) bs)
  obtain r2 where "fill (length b) [] r1 = Inr (b, r2)" "concat r2 = tail" "solid r2"
    using fill_enough [OF r1(3), of "[]" "length b"] by (auto simp: r1(2))
  then show ?thesis using r1(1) len b assms(2) [OF b(1)] by (auto simp: read_frame_def)
qed

section \<open>The connection loop\<close>

function handle_connection ::
  "Codec \<Rightarrow> RequestId \<Rightarrow> 'd Handler \<Rightarrow> bytes list \<Rightarrow> 'd \<Rightarrow> (bytes \<times> IpcError option) \<times> 'd" where
  "handle_connection C fresh H chunks d =
     (case read_frame (cd_dec_request C) chunks of
        Inr (req, rest) \<Rightarrow>
          (case dispatch C H req d of
             ((out, Some e), d') \<Rightarrow> ((out, Some e), d')
           | ((out, None), d') \<Rightarrow>
               (case handle_connection C fresh H rest d' of
                  ((out', e), d'') \<Rightarrow> ((out @ out', e), d'')))
      | Inl e \<Rightarrow>
          (case e of
             IE_UnexpectedEof got expected \<Rightarrow>
               if got = 0 \<and> expected = 4 then (([], None), d) else (([], Some e), d)
           | IE_InvalidJson _ \<Rightarrow>
               ((fst (write_frames (cd_enc_response C)
                   [response_err fresh (payload_simple Internal (ipc_error_display e))]), Some e), d)
           | IE_FrameTooLarge _ _ \<Rightarrow>
               ((fst (write_frames (cd_enc_response C)
                   [response_err fresh (payload_simple Internal (ipc_error_display e))]), Some e), d)
           | _ \<Rightarrow> (([], Some e), d)))"
  by pat_completeness auto
termination
  by (relation "measure (\<lambda>(C, fresh, H, chunks, d). length (concat chunks))")
     (auto dest: read_frame_progress)

declare handle_connection.simps [simp del]

section \<open>Client\<close>

text \<open>What the client sends, and what it makes of the bytes that come back.\<close>

definition client_send :: "Codec \<Rightarrow> RequestId \<Rightarrow> RequestOp \<Rightarrow> IpcError + bytes" where
  "client_send C i op = write_frame (cd_enc_request C) \<lparr>rq_id = i, rq_op = op\<rparr>"

definition client_receive :: "Codec \<Rightarrow> RequestId \<Rightarrow> bytes list \<Rightarrow> IpcError + Response" where
  "client_receive C i chunks =
     (case read_frame (cd_dec_response C) chunks of
        Inl e \<Rightarrow> Inl e
      | Inr (resp, _) \<Rightarrow>
          if rs_id resp \<noteq> i
          then Inl (IE_SocketSetup (''response id mismatch: req='' @ i @ '' resp='' @ rs_id resp))
          else Inr resp)"

record ResponseStream =
  rst_reader :: "bytes list"
  rst_id :: RequestId
  rst_done :: bool

definition next_frame :: "Codec \<Rightarrow> ResponseStream \<Rightarrow> (IpcError + StreamFrame option) \<times> ResponseStream" where
  "next_frame C st =
     (if rst_done st then (Inr None, st)
      else case read_frame (cd_dec_frame C) (rst_reader st) of
             Inl e \<Rightarrow> (Inl e, st)
           | Inr (frame, rest) \<Rightarrow>
               let st' = st\<lparr>rst_reader := rest\<rparr>
               in if sf_id frame \<noteq> rst_id st
                  then (Inl (IE_SocketSetup (''stream frame id mismatch: req='' @ rst_id st
                              @ '' got='' @ sf_id frame)), st')
                  else if sf_end frame then (Inr None, st'\<lparr>rst_done := True\<rparr>)
                  else (Inr (Some frame), st'))"

end
