(* ===== verification/Daemon_Handler.thy ===== *)
theory Daemon_Handler
  imports Daemon Ipc
begin

text \<open>
  The request handler of the daemon (\<open>handler.rs\<close>), one definition per operation.  The
  daemon's state is the store with the poison flag of its mutex, the command channel to the
  scheduler and the shutdown trigger; the clock, fresh program ids, the uptime and the
  broadcast events a follower receives are streams indexed by the number of requests served.
  A closure that panics under the mutex yields the text of the \<open>JoinError\<close> and poisons it;
  every later use of the store then panics in turn.
\<close>

text \<open>A receive that lagged carries the number of lost events and the clock reading that follows.\<close>

datatype Recv = RecvOk Event | RecvLagged nat UnixMs

record DaemonEnv =
  de_ext :: DaemonExt
  de_now :: "nat \<Rightarrow> UnixMs"
  de_fresh_id :: "nat \<Rightarrow> ProgramId"
  de_uptime_ms :: "nat \<Rightarrow> nat"
  de_feed :: "nat \<Rightarrow> Recv list"
  de_join_panicked :: "nat \<Rightarrow> string"
  de_debug_op :: "RequestOp \<Rightarrow> string"

record Daemon =
  dm_store :: Store
  dm_poisoned :: bool
  dm_cmds :: "SchedulerCommand list"
  dm_sched_alive :: bool
  dm_shutdown_armed :: bool
  dm_shutdown_fired :: bool
  dm_requests :: nat

section \<open>Boundaries\<close>

text \<open>\<open>spawn_blocking(|| { let mut s = store.lock().unwrap(); ... }).await\<close>: \<open>None\<close> is the join error.\<close>

definition with_store :: "(Store \<Rightarrow> 'a option \<times> Store) \<Rightarrow> Daemon \<Rightarrow> 'a option \<times> Daemon" where
  "with_store f d =
     (if dm_poisoned d then (None, d)
      else case f (dm_store d) of
             (None, s) \<Rightarrow> (None, d\<lparr>dm_store := s, dm_poisoned := True\<rparr>)
           | (Some x, s) \<Rightarrow> (Some x, d\<lparr>dm_store := s\<rparr>))"

text \<open>A send fails only when the scheduler has dropped the receiver; a full channel waits.\<close>

definition send_cmd :: "SchedulerCommand \<Rightarrow> Daemon \<Rightarrow> bool \<times> Daemon" where
  "send_cmd c d = (if dm_sched_alive d then (True, d\<lparr>dm_cmds := dm_cmds d @ [c]\<rparr>) else (False, d))"

definition trigger_shutdown :: "Daemon \<Rightarrow> Daemon" where
  "trigger_shutdown d =
     (if dm_shutdown_armed d then d\<lparr>dm_shutdown_armed := False, dm_shutdown_fired := True\<rparr> else d)"

definition internal_err :: "RequestId \<Rightarrow> string \<Rightarrow> Response" where
  "internal_err i msg = response_err i (payload_simple Internal msg)"

definition store_error_payload :: "StoreExt \<Rightarrow> StoreError \<Rightarrow> ErrorPayload" where
  "store_error_payload X e =
     (case e of
        SE_NotResumable m \<Rightarrow> payload_simple NotResumable m
      | SE_UnknownProgram _ \<Rightarrow> payload_simple UnknownProgram ''not found''
      | _ \<Rightarrow> payload_simple Internal (store_error_display X e))"

definition validate_payload :: "DaemonExt \<Rightarrow> DslError \<Rightarrow> ErrorPayload" where
  "validate_payload D e = dsl_to_payload (ext_debug_str (dx_store D)) (dx_debug_list D) e"

section \<open>Submit\<close>

fun link_all :: "StoreExt \<Rightarrow> ProgramId \<Rightarrow> AssetHash list \<Rightarrow> Store \<Rightarrow> ErrorPayload option \<times> Store" where
  "link_all X pid [] s = (None, s)"
| "link_all X pid (h # hs) s =
     (case link_program_asset pid h s of
        Inl e \<Rightarrow> (Some (payload_simple Internal (store_error_display X e)), s)
      | Inr s' \<Rightarrow> link_all X pid hs s')"

text \<open>The closure under the mutex.\<close>

definition submit_txn ::
  "DaemonExt \<Rightarrow> ProgramId \<Rightarrow> Program \<Rightarrow> path option \<Rightarrow> UnixMs \<Rightarrow> Store \<Rightarrow>
   (ErrorPayload + (Program \<times> bytes btree)) option \<times> Store" where
  "submit_txn D pid program base_dir submitted_at s =
     (case materialize_template_assets D program base_dir submitted_at s of
        (None, s1) \<Rightarrow> (None, s1)
      | (Some (Inl e), s1) \<Rightarrow> (Some (Inl (asset_error_payload (dx_store D) e)), s1)
      | (Some (Inr (program', m)), s1) \<Rightarrow>
          (let canonical = canonicalize (dsl_canon (dx_dsl D)) (program_to_value program')
           in case insert_program \<lparr>np_id = pid, np_name = prog_name program, np_source_json = canonical,
                     np_state = Pending, np_submitted_at = submitted_at, np_labels_json = ''{}''\<rparr> s1 of
                Inl e \<Rightarrow> (Some (Inl (payload_simple Internal (store_error_display (dx_store D) e))), s1)
              | Inr s2 \<Rightarrow>
                  (case link_all (dx_store D) pid (ma_hashes m) s2 of
                     (Some e, s3) \<Rightarrow> (Some (Inl e), s3)
                   | (None, s3) \<Rightarrow> (Some (Inr (program', ma_bytes m)), s3))))"

text \<open>The rest of the handler, once the document is validated and its id is known.\<close>

definition submit_program ::
  "DaemonEnv \<Rightarrow> RequestId \<Rightarrow> ProgramId \<Rightarrow> Program \<Rightarrow> path option \<Rightarrow> Daemon \<Rightarrow> Response \<times> Daemon" where
  "submit_program E i pid program base_dir d =
     (case with_store (submit_txn (de_ext E) pid program base_dir (de_now E (dm_requests d))) d of
        (None, d1) \<Rightarrow> (internal_err i (de_join_panicked E (dm_requests d)), d1)
      | (Some (Inl payload), d1) \<Rightarrow> (response_err i payload, d1)
      | (Some (Inr (program', assets)), d1) \<Rightarrow>
          (case send_cmd (SubmitValidated pid program' assets) d1 of
             (False, d2) \<Rightarrow>
               (response_err i (payload_simple DaemonBusy ''scheduler command queue full''), d2)
           | (True, d2) \<Rightarrow>
               (response_ok i (json_obj [(''program_id'', JString pid),
                                         (''name'', JString (prog_name program))]), d2)))"

definition handle_submit ::
  "DaemonEnv \<Rightarrow> RequestId \<Rightarrow> JsonValue \<Rightarrow> string option \<Rightarrow> Daemon \<Rightarrow> Response \<times> Daemon" where
  "handle_submit E i program_json base_dir d =
     (case validate_value (dx_dsl (de_ext E)) program_json of
        Inl e \<Rightarrow> (response_err i (validate_payload (de_ext E) e), d)
      | Inr v \<Rightarrow>
          (let program = val_program v;
               pid = (case prog_id program of Some p \<Rightarrow> p | None \<Rightarrow> de_fresh_id E (dm_requests d))
           in submit_program E i pid program base_dir d))"

section \<open>Resume\<close>

definition resume_txn ::
  "DaemonExt \<Rightarrow> ProgramId \<Rightarrow> bool \<Rightarrow> UnixMs \<Rightarrow> Store \<Rightarrow>
   (ErrorPayload + (u32 \<times> Program \<times> bytes btree)) option \<times> Store" where
  "resume_txn D pid from_start now_ms s =
     (let X = dx_store D
      in case resume_program X pid from_start now_ms s of
           Inl e \<Rightarrow> (Some (Inl (store_error_payload X e)), s)
         | Inr (from_step, s1) \<Rightarrow>
             (case get_program s1 pid of
                Inl e \<Rightarrow> (Some (Inl (store_error_payload X e)), s1)
              | Inr row \<Rightarrow>
                  (case ext_value_parse X (row_source_json row) of
                     Inl e \<Rightarrow> (Some (Inl (payload_simple Internal (''stored program json: '' @ e))), s1)
                   | Inr value \<Rightarrow>
                       (case validate_value (dx_dsl D) value of
                          Inl e \<Rightarrow> (Some (Inl (validate_payload D e)), s1)
                        | Inr v \<Rightarrow>
                            (case materialize_template_assets D (val_program v) None now_ms s1 of
                               (None, s2) \<Rightarrow> (None, s2)
                             | (Some (Inl e), s2) \<Rightarrow> (Some (Inl (asset_error_payload X e)), s2)
                             | (Some (Inr (program, m)), s2) \<Rightarrow>
                                 (Some (Inr (from_step, program, ma_bytes m)), s2))))))"

definition handle_resume :: "DaemonEnv \<Rightarrow> RequestId \<Rightarrow> ProgramId \<Rightarrow> bool \<Rightarrow> Daemon \<Rightarrow> Response \<times> Daemon" where
  "handle_resume E i pid from_start d =
     (case with_store (resume_txn (de_ext E) pid from_start (de_now E (dm_requests d))) d of
        (None, d1) \<Rightarrow> (internal_err i (de_join_panicked E (dm_requests d)), d1)
      | (Some (Inl payload), d1) \<Rightarrow> (response_err i payload, d1)
      | (Some (Inr (from_step, program, assets)), d1) \<Rightarrow>
          (response_ok i (json_obj [(''program_id'', JString pid), (''from_step'', jnat from_step)]),
           snd (send_cmd (ResumeRunning pid from_step program assets) d1)))"

section \<open>Cancel, start, shutdown, health\<close>

definition handle_cancel :: "RequestId \<Rightarrow> ProgramId \<Rightarrow> Daemon \<Rightarrow> Response \<times> Daemon" where
  "handle_cancel i pid d =
     (case send_cmd (CancelCmd pid ''user'') d of
        (True, d') \<Rightarrow> (response_ok i (json_obj [(''program_id'', JString pid)]), d')
      | (False, d') \<Rightarrow> (response_err i (payload_simple DaemonBusy ''cmd queue full''), d'))"

definition handle_start :: "RequestId \<Rightarrow> ProgramId \<Rightarrow> Daemon \<Rightarrow> Response \<times> Daemon" where
  "handle_start i pid d =
     (case send_cmd (StartCmd pid) d of
        (True, d') \<Rightarrow> (response_ok i (json_obj [(''program_id'', JString pid)]), d')
      | (False, d') \<Rightarrow> (response_err i (payload_simple DaemonBusy ''cmd queue full''), d'))"

definition handle_shutdown :: "RequestId \<Rightarrow> Daemon \<Rightarrow> Response \<times> Daemon" where
  "handle_shutdown i d =
     (response_ok i (json_obj [(''bye'', JBool True)]), snd (send_cmd ShutdownCmd (trigger_shutdown d)))"

definition u64_or_max :: "nat \<Rightarrow> nat" where
  "u64_or_max n = (if n \<le> 18446744073709551615 then n else 18446744073709551615)"

definition handle_health :: "DaemonEnv \<Rightarrow> RequestId \<Rightarrow> Daemon \<Rightarrow> Response \<times> Daemon" where
  "handle_health E i d =
     (response_ok i (json_obj [(''version'', JString (dx_version (de_ext E))),
                               (''uptime_ms'', jnat (u64_or_max (de_uptime_ms E (dm_requests d)))),
                               (''socket_origin'', JString ''resolved'')]), d)"

section \<open>List, status, gc\<close>

definition list_item :: "ProgramRow \<Rightarrow> JsonValue" where
  "list_item r = json_obj [(''program_id'', JString (row_id r)), (''name'', JString (row_name r)),
                           (''state'', JString (state_as_str (row_state r))),
                           (''submitted_at'', jint (row_submitted_at r))]"

text \<open>A filter that is not a state name is dropped.\<close>

definition list_filter :: "string option \<Rightarrow> ProgramState option" where
  "list_filter st = Option.bind st (\<lambda>t. case state_from_str t of Inl _ \<Rightarrow> None | Inr x \<Rightarrow> Some x)"

definition handle_list :: "DaemonEnv \<Rightarrow> RequestId \<Rightarrow> string option \<Rightarrow> Daemon \<Rightarrow> Response \<times> Daemon" where
  "handle_list E i state d =
     (case with_store (\<lambda>s. (list_programs s (list_filter state), s)) d of
        (None, d1) \<Rightarrow>
          (internal_err i (store_error_display (dx_store (de_ext E)) (SE_Io ''<join>'' (de_join_panicked E (dm_requests d)))), d1)
      | (Some rows, d1) \<Rightarrow> (response_ok i (json_obj [(''items'', JArray (map list_item rows))]), d1))"

definition jopt_int :: "i64 option \<Rightarrow> JsonValue" where
  "jopt_int v = (case v of None \<Rightarrow> JNull | Some t \<Rightarrow> jint t)"

definition status_item :: "ProgramRow \<Rightarrow> JsonValue" where
  "status_item r =
     json_obj [(''id'', JString (row_id r)), (''name'', JString (row_name r)),
               (''state'', JString (state_as_str (row_state r))), (''body_cursor'', jnat (row_body_cursor r)),
               (''submitted_at'', jint (row_submitted_at r)), (''started_at'', jopt_int (row_started_at r)),
               (''finished_at'', jopt_int (row_finished_at r))]"

definition handle_status :: "DaemonEnv \<Rightarrow> RequestId \<Rightarrow> ProgramId \<Rightarrow> Daemon \<Rightarrow> Response \<times> Daemon" where
  "handle_status E i pid d =
     (case with_store (\<lambda>s. (Some (get_program s pid), s)) d of
        (None, d1) \<Rightarrow> (internal_err i (de_join_panicked E (dm_requests d)), d1)
      | (Some (Inr r), d1) \<Rightarrow> (response_ok i (status_item r), d1)
      | (Some (Inl e), d1) \<Rightarrow>
          (case e of
             SE_UnknownProgram _ \<Rightarrow> (response_err i (payload_simple UnknownProgram ''not found''), d1)
           | _ \<Rightarrow> (internal_err i (store_error_display (dx_store (de_ext E)) e), d1)))"

definition gc_cutoff :: "UnixMs \<Rightarrow> UnixMs" where
  "gc_cutoff now = wrap_i64 (now - int RETENTION_DAYS * 24 * 60 * 60 * 1000)"

definition gc_txn :: "UnixMs \<Rightarrow> Store \<Rightarrow> GcReport option \<times> Store" where
  "gc_txn cutoff s = (case gc_all cutoff s of None \<Rightarrow> (None, s) | Some (r, s') \<Rightarrow> (Some r, s'))"

definition handle_gc :: "DaemonEnv \<Rightarrow> RequestId \<Rightarrow> Daemon \<Rightarrow> Response \<times> Daemon" where
  "handle_gc E i d =
     (case with_store (gc_txn (gc_cutoff (de_now E (dm_requests d)))) d of
        (None, d1) \<Rightarrow> (internal_err i (de_join_panicked E (dm_requests d)), d1)
      | (Some r, d1) \<Rightarrow>
          (response_ok i (json_obj [(''programs_deleted'', jnat (programs_deleted r)),
                                    (''assets_deleted'', jnat (assets_deleted r)),
                                    (''blobs_deleted'', jnat (blobs_deleted r)),
                                    (''orphan_blobs_deleted'', jnat (orphan_blobs_deleted r))]), d1))"

section \<open>Dispatch\<close>

definition daemon_handle :: "DaemonEnv \<Rightarrow> RequestId \<Rightarrow> RequestOp \<Rightarrow> Daemon \<Rightarrow> (IpcError + Response) \<times> Daemon" where
  "daemon_handle E i op d =
     (case (case op of
              Op_Health \<Rightarrow> handle_health E i d
            | Op_Shutdown \<Rightarrow> handle_shutdown i d
            | Op_Submit program base_dir \<Rightarrow> handle_submit E i program base_dir d
            | Op_List state \<Rightarrow> handle_list E i state d
            | Op_Status pid \<Rightarrow> handle_status E i pid d
            | Op_Cancel pid \<Rightarrow> handle_cancel i pid d
            | Op_Start pid \<Rightarrow> handle_start i pid d
            | Op_Resume pid from_start \<Rightarrow> handle_resume E i pid from_start d
            | Op_Gc \<Rightarrow> handle_gc E i d
            | other \<Rightarrow> (internal_err i (''op not yet wired: '' @ de_debug_op E other), d)) of
        (resp, d') \<Rightarrow> (Inr resp, d'\<lparr>dm_requests := dm_requests d + 1\<rparr>))"

section \<open>Streams\<close>

text \<open>The history of a stream without \<open>follow\<close>: at most 10000 rows, undecodable ones skipped.\<close>

definition history_frames :: "StoreExt \<Rightarrow> RequestId \<Rightarrow> ProgramId option \<Rightarrow> StoredEvent list \<Rightarrow> StreamFrame list" where
  "history_frames X i filter_program rows =
     concat (map (\<lambda>row.
       if (case filter_program of None \<Rightarrow> False | Some p \<Rightarrow> p \<noteq> se_program_id row) then []
       else case ext_event_parse X (se_data_json row) of None \<Rightarrow> [] | Some ev \<Rightarrow> [event_frame i ev]) rows)"

definition follow_frames :: "RequestId \<Rightarrow> ProgramId option \<Rightarrow> Recv list \<Rightarrow> StreamFrame list" where
  "follow_frames i filter_program feed =
     concat (map (\<lambda>r. case r of
         RecvOk ev \<Rightarrow>
           if (case filter_program of None \<Rightarrow> False | Some p \<Rightarrow> program_id_of (ev_data ev) \<noteq> Some p) then []
           else [event_frame i ev]
       | RecvLagged n now \<Rightarrow>
           [event_frame i \<lparr>ev_at = now, ev_data = StreamDropped (u32_of_usize n) now\<rparr>]) feed)"

definition daemon_stream_events ::
  "DaemonEnv \<Rightarrow> RequestId \<Rightarrow> ProgramId option \<Rightarrow> bool \<Rightarrow> Daemon \<Rightarrow> StreamFrame list \<times> Daemon" where
  "daemon_stream_events E i filter_program follow d =
     (if follow
      then (follow_frames i filter_program (de_feed E (dm_requests d)), d)
      else case with_store (\<lambda>s. (Some (stream_events s 0 10000), s)) d of
             (None, d1) \<Rightarrow> ([], d1)
           | (Some rows, d1) \<Rightarrow> (history_frames (dx_store (de_ext E)) i filter_program rows, d1))"

definition daemon_handle_stream :: "DaemonEnv \<Rightarrow> RequestId \<Rightarrow> RequestOp \<Rightarrow> Daemon \<Rightarrow> StreamFrame list \<times> Daemon" where
  "daemon_handle_stream E i op d =
     (case (case op of
              Op_Events follow \<Rightarrow> daemon_stream_events E i None follow d
            | Op_Logs pid follow \<Rightarrow> daemon_stream_events E i (Some pid) follow d
            | Op_Trace _ \<Rightarrow> ([], d)
            | _ \<Rightarrow> ([end_of_stream i SK_Events], d)) of
        (frames, d') \<Rightarrow> (frames, d'\<lparr>dm_requests := dm_requests d + 1\<rparr>))"

definition daemon_handler :: "DaemonEnv \<Rightarrow> Daemon Handler" where
  "daemon_handler E = \<lparr>h_handle = daemon_handle E, h_handle_stream = daemon_handle_stream E\<rparr>"

end
