(* ===== verification/Daemon_Lemmas.thy ===== *)
theory Daemon_Lemmas
  imports Daemon_Handler Scheduler_Safety
begin

text \<open>
  What the event pump does to the store: the state column follows the announced states, the
  log receives one row per program event in order, ids and cursors stay.
\<close>

section \<open>Views of the store\<close>

definition db_state_of :: "Store \<Rightarrow> ProgramId \<rightharpoonup> string" where
  "db_state_of s pid = map_option db_state (find_program s pid)"

definition db_cursor_of :: "Store \<Rightarrow> ProgramId \<rightharpoonup> i64" where
  "db_cursor_of s pid = map_option db_body_cursor (find_program s pid)"

definition db_error_of :: "Store \<Rightarrow> ProgramId \<Rightarrow> string option" where
  "db_error_of s pid = Option.bind (find_program s pid) db_last_error_code"

named_theorems pump_simps

lemma update_state_keep [pump_simps]:
  "find_program (keep (update_state pid st t s) s) q =
     (if q = pid then map_option (set_state_row st t) (find_program s q) else find_program s q)"
  by (auto simp: keep_def update_state_def rows.find_upd)

lemma set_cursor_keep [pump_simps]:
  "find_program (keep (set_body_cursor pid c s) s) q =
     (if q = pid then map_option (\<lambda>r. r\<lparr>db_body_cursor := int c\<rparr>) (find_program s q) else find_program s q)"
  by (auto simp: keep_def set_body_cursor_def rows.find_upd)

lemma set_error_keep [pump_simps]:
  "find_program (keep (set_last_error pid code msg s) s) q =
     (if q = pid then map_option (\<lambda>r. r\<lparr>db_last_error_code := Some code, db_last_error_msg := Some msg\<rparr>)
        (find_program s q) else find_program s q)"
  by (auto simp: keep_def set_last_error_def rows.find_upd)

lemma append_logged_programs [pump_simps]: "find_program (append_logged X pid ev s) q = find_program s q"
  by (auto simp: append_logged_def append_event_def find_program_def Let_def)

lemma set_state_row_fields [pump_simps]:
  "db_state (set_state_row st t r) = state_as_str st"
  "db_body_cursor (set_state_row st t r) = db_body_cursor r"
  "db_last_error_code (set_state_row st t r) = db_last_error_code r"
  by (simp_all add: set_state_row_def)

section \<open>One event\<close>

text \<open>The state an event writes for its program, if any.\<close>

fun written_state :: "EventData \<Rightarrow> ProgramState option" where
  "written_state (ProgramStateChanged _ _ to _) = Some to"
| "written_state (ProgramCompleted _ _) = Some Completed"
| "written_state (ProgramFailed _ _ _ _) = Some Failed"
| "written_state (ProgramResumed _ _) = Some Running"
| "written_state _ = None"

lemma persist_state:
  "db_state_of (persist_event X ev s) pid =
     (if program_id_of (ev_data ev) = Some pid \<and> find_program s pid \<noteq> None
      then (case written_state (ev_data ev) of Some st \<Rightarrow> Some (state_as_str st) | None \<Rightarrow> db_state_of s pid)
      else db_state_of s pid)"
  by (cases "ev_data ev")
     (auto simp: persist_event_def persist_program_event_def db_state_of_def Let_def pump_simps)

lemma persist_cursor:
  "db_cursor_of (persist_event X ev s) pid =
     (case ev_data ev of
        ProgramResumed p n \<Rightarrow> if p = pid then map_option (\<lambda>_. int n) (db_cursor_of s pid) else db_cursor_of s pid
      | _ \<Rightarrow> db_cursor_of s pid)"
  by (cases "ev_data ev"; cases "find_program s pid")
     (auto simp: persist_event_def persist_program_event_def db_cursor_of_def Let_def pump_simps)

lemma persist_dom: "find_program (persist_event X ev s) pid = None \<longleftrightarrow> find_program s pid = None"
  by (cases "ev_data ev")
     (auto simp: persist_event_def persist_program_event_def Let_def pump_simps)

section \<open>The pump\<close>

lemma pump_simps_list [simp]:
  "event_pump X [] p = p" "event_pump X (e # es) p = event_pump X es (pump_step X e p)"
  "event_pump X (es @ fs) p = event_pump X fs (event_pump X es p)"
  by (simp_all add: event_pump_def)

lemma pump_split: "event_pump X es (s, b) = (fold (persist_event X) es s, b @ es)"
  by (induction es arbitrary: s b) (simp_all add: pump_step_def)

lemma persist_all_dom: "find_program (fold (persist_event X) es s) pid = None \<longleftrightarrow> find_program s pid = None"
  by (induction es arbitrary: s) (simp_all add: persist_dom)

text \<open>
  Completions and resumptions repeat a state that was announced before: under that
  condition the states written to the database are the announced ones.
\<close>

fun event_says_ok :: "(ProgramId \<rightharpoonup> ProgramState) \<Rightarrow> EventData \<Rightarrow> bool" where
  "event_says_ok st (ProgramCompleted pid _) = (st pid = Some Completed)"
| "event_says_ok st (ProgramResumed pid _) = (st pid = Some Running)"
| "event_says_ok st _ = True"

fun says_ok :: "(ProgramId \<rightharpoonup> ProgramState) \<Rightarrow> Event list \<Rightarrow> bool" where
  "says_ok st [] = True"
| "says_ok st (e # es) = (event_says_ok st (ev_data e) \<and> says_ok (apply_event (ev_data e) st) es)"

lemma says_ok_append [simp]: "says_ok st (es @ fs) \<longleftrightarrow> says_ok st es \<and> says_ok (replay es st) fs"
  by (induction es arbitrary: st) auto

lemma trace_says: "trace_ok st es \<Longrightarrow> says_ok st es"
proof (induction es arbitrary: st)
  case (Cons e es)
  moreover have "tick_event_ok st (ev_data e) \<Longrightarrow> event_says_ok st (ev_data e)"
    by (cases "ev_data e") auto
  ultimately show ?case by simp
qed simp

lemma replay_dom: "st pid \<noteq> None \<Longrightarrow> replay es st pid \<noteq> None"
proof (induction es arbitrary: st)
  case (Cons e es)
  then show ?case by (cases "ev_data e") auto
qed simp

text \<open>One event keeps the database in step with the announced states.\<close>

lemma persist_mirrors:
  assumes "event_says_ok st (ev_data ev)"
    and rows: "\<And>pid. apply_event (ev_data ev) st pid \<noteq> None \<Longrightarrow> find_program s pid \<noteq> None"
    and mirror: "\<And>pid x. st pid = Some x \<Longrightarrow> db_state_of s pid = Some (state_as_str x)"
    and "apply_event (ev_data ev) st pid = Some x"
  shows "db_state_of (persist_event X ev s) pid = Some (state_as_str x)"
  using assms(1) rows [of pid] mirror [of pid] assms(4)
  by (cases "ev_data ev") (auto simp: persist_state split: if_splits)

lemma persist_all_mirrors:
  assumes "says_ok st es"
    and "\<And>pid. replay es st pid \<noteq> None \<Longrightarrow> find_program s pid \<noteq> None"
    and "\<And>pid x. st pid = Some x \<Longrightarrow> db_state_of s pid = Some (state_as_str x)"
    and "replay es st pid = Some x"
  shows "db_state_of (fold (persist_event X) es s) pid = Some (state_as_str x)"
  using assms
proof (induction es arbitrary: st s)
  case (Cons e es)
  have rows: "apply_event (ev_data e) st q \<noteq> None \<Longrightarrow> find_program s q \<noteq> None" for q
    using Cons.prems(2) [of q] replay_dom [of "apply_event (ev_data e) st" q es] by simp
  show ?case
    unfolding fold_simps comp_apply
  proof (rule Cons.IH)
    show "says_ok (apply_event (ev_data e) st) es" using Cons.prems(1) by simp
    show "find_program (persist_event X e s) q \<noteq> None"
      if "replay es (apply_event (ev_data e) st) q \<noteq> None" for q
      using that Cons.prems(2) by (simp add: persist_dom)
    show "db_state_of (persist_event X e s) q = Some (state_as_str y)"
      if "apply_event (ev_data e) st q = Some y" for q y
      using Cons.prems(1,3) rows that by (intro persist_mirrors) auto
    show "replay es (apply_event (ev_data e) st) pid = Some x" using Cons.prems(4) by simp
  qed
qed simp

section \<open>The events of a scheduler\<close>

lemma exec_command_says:
  "\<exists>es. sch_events (exec_command E c s) = sch_events s @ es \<and>
     states (exec_command E c s) = replay es (states s) \<and> says_ok (states s) es"
proof (cases c)
  case (SubmitValidated pid p as)
  then show ?thesis by (auto simp: exec_command_def Let_def sched_simps)
next
  case (CancelCmd pid reason)
  then show ?thesis
    by (cases "sch_programs s pid") (auto simp: exec_command_def sched_simps intro: exI [of _ "[]"])
next
  case (StartCmd pid)
  then show ?thesis
    by (cases "sch_programs s pid") (auto simp: exec_command_def split_beta sched_simps intro: exI [of _ "[]"])
next
  case (ResumeRunning pid n p as)
  then show ?thesis by (auto simp: exec_command_def Let_def split_beta sched_simps)
next
  case ShutdownCmd
  then show ?thesis by (auto simp: exec_command_def intro: exI [of _ "[]"])
qed

lemma reachable_says: "reachable E s \<Longrightarrow> says_ok Map.empty (sch_events s)"
proof (induction rule: reachable.induct)
  case (reach_init i)
  show ?case by (simp add: sched_new_def)
next
  case (reach_cmd s c)
  obtain es where "sch_events (exec_command E c s) = sch_events s @ es" "says_ok (states s) es"
    using exec_command_says by blast
  with reach_cmd reachable_inv [OF reach_cmd(1)] show ?case by simp
next
  case (reach_tick s it cap s')
  have "tick_rel E s s'"
    using reach_tick reachable_inv [OF reach_tick(1)] by (intro tick_once_rel) (auto intro: sched_ok_small)
  then obtain es where "sch_events s' = sch_events s @ es" "trace_ok (states s) es"
    unfolding tick_rel_def by blast
  with reach_tick reachable_inv [OF reach_tick(1)] show ?case by (simp add: trace_says)
qed

section \<open>The log\<close>

definition scoped :: "Store \<Rightarrow> Event \<Rightarrow> bool" where
  "scoped s ev = (case program_id_of (ev_data ev) of None \<Rightarrow> False | Some pid \<Rightarrow> find_program s pid \<noteq> None)"

lemma keep_same [pump_simps]:
  "st_events (keep (update_state pid st t s) s) = st_events s"
  "st_event_seq (keep (update_state pid st t s) s) = st_event_seq s"
  "st_events (keep (set_body_cursor pid c s) s) = st_events s"
  "st_event_seq (keep (set_body_cursor pid c s) s) = st_event_seq s"
  "st_events (keep (set_last_error pid code msg s) s) = st_events s"
  "st_event_seq (keep (set_last_error pid code msg s) s) = st_event_seq s"
  by (simp_all add: keep_def update_state_def set_body_cursor_def set_last_error_def update_where_def)

lemma persist_log_append:
  "st_events (persist_program_event X pid ev s) = st_events (append_logged X pid ev s) \<and>
   st_event_seq (persist_program_event X pid ev s) = st_event_seq (append_logged X pid ev s)"
  by (cases "ev_data ev") (simp_all add: persist_program_event_def Let_def pump_simps)

lemma persist_log:
  assumes "st_event_seq s < i64_max"
  shows "map se_data_json (st_events (persist_event X ev s)) =
      map se_data_json (st_events s) @ (if scoped s ev then [ext_event_json X ev] else [])"
    "st_event_seq (persist_event X ev s) \<le> st_event_seq s + 1"
  using assms
  by (auto simp: persist_event_def persist_log_append append_logged_def append_event_def Let_def
      new_event_row_def scoped_def split: option.splits)

lemma scoped_persist: "scoped (persist_event X ev s) e = scoped s e"
  by (simp add: scoped_def persist_dom split: option.split)

lemma persist_all_log:
  "st_event_seq s + int (length es) \<le> i64_max \<Longrightarrow>
   map se_data_json (st_events (fold (persist_event X) es s)) =
     map se_data_json (st_events s) @ map (ext_event_json X) (filter (scoped s) es)"
proof (induction es arbitrary: s)
  case (Cons e es)
  have lt: "st_event_seq s < i64_max" using Cons.prems by simp
  have "st_event_seq (persist_event X e s) + int (length es) \<le> i64_max"
    using persist_log(2) [OF lt, of X e] Cons.prems by simp
  from Cons.IH [OF this] show ?case
    using persist_log(1) [OF lt, of X e] scoped_persist [of X e s] by (simp add: fun_eq_iff)
qed simp

end
