(* ===== verification/Ipc_Lemmas.thy ===== *)
theory Ipc_Lemmas
  imports Ipc
begin

text \<open>
  The contract between the server and a handler, as a locale, and what follows for a client:
  a one-shot request is answered by the handler's response, a streaming request by exactly
  the handler's frames and an end marker.
\<close>

section \<open>Codecs\<close>

text \<open>What was written is read back.  The one value of the wire types for which this does not hold is a frame
  with a null trace record, which reads as a frame without one; \<open>Wire\<close> derives the condition from the
  formats of the types.\<close>

definition codec_ok :: "Codec \<Rightarrow> bool" where
  "codec_ok C \<longleftrightarrow>
     (\<forall>v b. cd_enc_request C v = Inr b \<longrightarrow> cd_dec_request C b = Inr v) \<and>
     (\<forall>v b. cd_enc_response C v = Inr b \<longrightarrow> cd_dec_response C b = Inr v) \<and>
     (\<forall>v b. sf_trace v \<noteq> Some JNull \<longrightarrow> cd_enc_frame C v = Inr b \<longrightarrow> cd_dec_frame C b = Inr v)"

lemma read_request:
  "codec_ok C \<Longrightarrow> write_frame (cd_enc_request C) v = Inr bs \<Longrightarrow> solid chunks \<Longrightarrow> concat chunks = bs @ rest \<Longrightarrow>
   \<exists>cs. read_frame (cd_dec_request C) chunks = Inr (v, cs) \<and> concat cs = rest \<and> solid cs"
  by (rule read_written) (auto simp: codec_ok_def)

lemma read_response:
  "codec_ok C \<Longrightarrow> write_frame (cd_enc_response C) v = Inr bs \<Longrightarrow> solid chunks \<Longrightarrow> concat chunks = bs @ rest \<Longrightarrow>
   \<exists>cs. read_frame (cd_dec_response C) chunks = Inr (v, cs) \<and> concat cs = rest \<and> solid cs"
  by (rule read_written) (auto simp: codec_ok_def)

lemma read_stream_frame:
  "codec_ok C \<Longrightarrow> sf_trace v \<noteq> Some JNull \<Longrightarrow> write_frame (cd_enc_frame C) v = Inr bs \<Longrightarrow> solid chunks \<Longrightarrow> concat chunks = bs @ rest \<Longrightarrow>
   \<exists>cs. read_frame (cd_dec_frame C) chunks = Inr (v, cs) \<and> concat cs = rest \<and> solid cs"
  by (rule read_written) (auto simp: codec_ok_def)

lemma concat_Nil_solid: "solid chunks \<Longrightarrow> concat chunks = [] \<Longrightarrow> chunks = []"
  by (cases chunks) (auto simp: solid_def)

lemma read_frame_empty: "read_frame dec [] = Inl (IE_UnexpectedEof 0 4)"
  by (simp add: read_frame_def fill.simps)

section \<open>Truncated and oversized frames\<close>

lemma read_truncated_header:
  assumes "solid chunks" "length (concat chunks) < 4"
  shows "read_frame dec chunks = Inl (IE_UnexpectedEof (length (concat chunks)) 4)"
  using fill_short [OF assms(1), of "[]" 4] assms(2) by (simp add: read_frame_def)

lemma read_truncated_body:
  assumes "solid chunks" "concat chunks = to_be_bytes n @ bs" "length bs < n" "n \<le> MAX_FRAME_LEN"
  shows "read_frame dec chunks = Inl (IE_UnexpectedEof (length bs) n)"
proof -
  obtain r1 where r1: "fill 4 [] chunks = Inr (to_be_bytes n, r1)" "concat r1 = bs" "solid r1"
    using fill_enough [OF assms(1), of "[]" 4] by (auto simp: assms(2))
  moreover have "from_be_bytes (to_be_bytes n) = n"
    using assms(4) by (simp add: be_bytes_round_trip MAX_FRAME_LEN_def)
  ultimately show ?thesis
    using fill_short [OF r1(3), of "[]" n] assms(3,4) by (simp add: read_frame_def)
qed

lemma read_oversized:
  assumes "solid chunks" "concat chunks = to_be_bytes n @ bs" "n > MAX_FRAME_LEN" "n \<le> u32_max"
  shows "read_frame dec chunks = Inl (IE_FrameTooLarge n MAX_FRAME_LEN)"
proof -
  obtain r1 where "fill 4 [] chunks = Inr (to_be_bytes n, r1)"
    using fill_enough [OF assms(1), of "[]" 4] by (auto simp: assms(2))
  then show ?thesis using assms(3,4) by (simp add: read_frame_def be_bytes_round_trip)
qed

section \<open>The connection as a sequence of requests\<close>

text \<open>The reference: requests served one after the other until one cannot be answered.\<close>

fun serve_all :: "Codec \<Rightarrow> 'd Handler \<Rightarrow> Request list \<Rightarrow> 'd \<Rightarrow> (bytes \<times> IpcError option) \<times> 'd" where
  "serve_all C H [] d = (([], None), d)"
| "serve_all C H (r # rs) d =
     (case dispatch C H r d of
        ((out, Some e), d') \<Rightarrow> ((out, Some e), d')
      | ((out, None), d') \<Rightarrow> (case serve_all C H rs d' of ((out', e), d'') \<Rightarrow> ((out @ out', e), d'')))"

lemma connection_serves:
  assumes "codec_ok C" "solid chunks"
    and "list_all2 (\<lambda>r b. write_frame (cd_enc_request C) r = Inr b) reqs frames"
    and "concat chunks = concat frames"
  shows "handle_connection C fresh H chunks d = serve_all C H reqs d"
  using assms(3,2,4)
proof (induction arbitrary: chunks d rule: list_all2_induct)
  case Nil
  then have "chunks = []" by (intro concat_Nil_solid) simp_all
  then show ?case by (subst handle_connection.simps) (simp add: read_frame_empty)
next
  case (Cons r rs b bs)
  then obtain cs where cs: "read_frame (cd_dec_request C) chunks = Inr (r, cs)" "concat cs = concat bs" "solid cs"
    using read_request [OF assms(1) Cons(1), of chunks "concat bs"] by auto
  have "handle_connection C fresh H cs d' = serve_all C H rs d'" for d'
    using Cons.IH cs by blast
  then show ?case
    using cs(1) by (subst handle_connection.simps) (auto split: prod.splits option.splits)
qed

section \<open>Handlers\<close>

text \<open>Frames the client sees until the end marker.\<close>

fun next_frames :: "Codec \<Rightarrow> nat \<Rightarrow> ResponseStream \<Rightarrow> (IpcError + StreamFrame option) list" where
  "next_frames C 0 st = []"
| "next_frames C (Suc n) st = (case next_frame C st of (r, st') \<Rightarrow> r # next_frames C n st')"

lemma write_frames_ok:
  "write_frames enc vs = (out, None) \<Longrightarrow>
   \<exists>bs. out = concat bs \<and> list_all2 (\<lambda>v b. write_frame enc v = Inr b) vs bs"
proof (induction vs arbitrary: out)
  case (Cons v vs)
  then obtain b o' where "write_frame enc v = Inr b" "write_frames enc vs = (o', None)" "out = b @ o'"
    by (auto split: sum.splits prod.splits)
  with Cons.IH obtain bs where "o' = concat bs" "list_all2 (\<lambda>v b. write_frame enc v = Inr b) vs bs"
    by blast
  with \<open>write_frame enc v = Inr b\<close> \<open>out = b @ o'\<close> show ?case
    by (intro exI [of _ "b # bs"]) simp
qed simp

locale handler_contract =
  fixes H :: "'d Handler"
  assumes response_id: "h_handle H i op d = (Inr r, d') \<Longrightarrow> rs_id r = i"
    and frame_ids: "is_streaming op \<Longrightarrow> h_handle_stream H i op d = (fs, d') \<Longrightarrow> f \<in> set fs \<Longrightarrow>
      sf_id f = i \<and> \<not> sf_end f \<and> sf_trace f \<noteq> Some JNull"
begin

lemma dispatched_response:
  assumes "dispatch_oneshot C H req d = ((out, None), d')"
  shows "\<exists>r. write_frame (cd_enc_response C) r = Inr out \<and> rs_id r = rq_id req \<and>
    (\<forall>resp. fst (h_handle H (rq_id req) (rq_op req) d) = Inr resp \<longrightarrow> r = resp) \<and>
    d' = snd (h_handle H (rq_id req) (rq_op req) d)"
proof -
  obtain x d1 where h: "h_handle H (rq_id req) (rq_op req) d = (x, d1)" by fastforce
  with assms response_id show ?thesis
    by (cases x) (auto simp: dispatch_oneshot_def response_err_def split: sum.splits)
qed

lemma oneshot_round_trip:
  assumes "codec_ok C" "\<not> is_streaming op" "client_send C i op = Inr bs"
    and "solid chunks" "concat chunks = bs"
    and "handle_connection C fresh H chunks d = ((out, None), d')"
    and "solid reply" "concat reply = out"
  shows "\<exists>r. client_receive C i reply = Inr r \<and> rs_id r = i \<and>
    (\<forall>resp. fst (h_handle H i op d) = Inr resp \<longrightarrow> r = resp) \<and> d' = snd (h_handle H i op d)"
proof -
  let ?req = "\<lparr>rq_id = i, rq_op = op\<rparr>"
  have "handle_connection C fresh H chunks d = serve_all C H [?req] d"
    by (rule connection_serves [where frames = "[bs]"]) (use assms in \<open>auto simp: client_send_def\<close>)
  with assms(2,6) have "dispatch_oneshot C H ?req d = ((out, None), d')"
    by (auto simp: dispatch_def split: prod.splits option.splits)
  from dispatched_response [OF this] obtain r where r: "write_frame (cd_enc_response C) r = Inr out"
    "rs_id r = i" "\<forall>resp. fst (h_handle H i op d) = Inr resp \<longrightarrow> r = resp" "d' = snd (h_handle H i op d)"
    by auto
  then show ?thesis
    using read_response [OF assms(1) r(1) assms(7)] assms(8) by (auto simp: client_receive_def)
qed

lemma client_reads_frames:
  assumes "codec_ok C"
    and "list_all2 (\<lambda>f b. write_frame (cd_enc_frame C) f = Inr b) (fs @ [end_of_stream i k]) bs"
    and "\<forall>f \<in> set fs. sf_id f = i \<and> \<not> sf_end f \<and> sf_trace f \<noteq> Some JNull"
    and "solid chunks" "concat chunks = concat bs"
  shows "next_frames C (Suc (length fs)) \<lparr>rst_reader = chunks, rst_id = i, rst_done = False\<rparr>
    = map (Inr \<circ> Some) fs @ [Inr None]"
  using assms(2-5)
proof (induction fs arbitrary: bs chunks)
  case Nil
  then obtain b where "write_frame (cd_enc_frame C) (end_of_stream i k) = Inr b" "bs = [b]"
    by (auto simp: list_all2_Cons1)
  with Nil read_stream_frame [OF assms(1) _ this(1), of chunks "[]"] show ?case
    by (auto simp: next_frame_def end_of_stream_def)
next
  case (Cons f fs)
  then obtain b bs' where b: "write_frame (cd_enc_frame C) f = Inr b" "bs = b # bs'"
    "list_all2 (\<lambda>f b. write_frame (cd_enc_frame C) f = Inr b) (fs @ [end_of_stream i k]) bs'"
    by (auto simp: list_all2_Cons1)
  with Cons.prems obtain cs where cs: "read_frame (cd_dec_frame C) chunks = Inr (f, cs)"
    "concat cs = concat bs'" "solid cs"
    using read_stream_frame [OF assms(1) _ b(1), of chunks "concat bs'"] by auto
  have "next_frames C (Suc (length fs)) \<lparr>rst_reader = cs, rst_id = i, rst_done = False\<rparr>
      = map (Inr \<circ> Some) fs @ [Inr None]"
    using Cons.IH [OF b(3) _ cs(3,2)] Cons.prems(2) by simp
  with cs(1) Cons.prems(2) show ?case by (simp add: next_frame_def)
qed

lemma stream_round_trip:
  assumes "codec_ok C" "is_streaming op" "client_send C i op = Inr bs"
    and "solid chunks" "concat chunks = bs"
    and "handle_connection C fresh H chunks d = ((out, None), d')"
    and "solid reply" "concat reply = out"
  shows "let fs = fst (h_handle_stream H i op d)
    in next_frames C (Suc (length fs)) \<lparr>rst_reader = reply, rst_id = i, rst_done = False\<rparr>
       = map (Inr \<circ> Some) fs @ [Inr None]"
proof -
  let ?req = "\<lparr>rq_id = i, rq_op = op\<rparr>"
  obtain fs d1 where h: "h_handle_stream H i op d = (fs, d1)" by fastforce
  have "handle_connection C fresh H chunks d = serve_all C H [?req] d"
    by (rule connection_serves [where frames = "[bs]"]) (use assms in \<open>auto simp: client_send_def\<close>)
  with assms(2,6) have "dispatch_stream C H ?req d = ((out, None), d')"
    by (auto simp: dispatch_def split: prod.splits option.splits)
  with h have "write_frames (cd_enc_frame C) (fs @ [end_of_stream i (stream_kind op)]) = (out, None)"
    by (simp add: dispatch_stream_def)
  from write_frames_ok [OF this] obtain bs where "out = concat bs"
    "list_all2 (\<lambda>v b. write_frame (cd_enc_frame C) v = Inr b) (fs @ [end_of_stream i (stream_kind op)]) bs"
    by blast
  with client_reads_frames [OF assms(1) this(2) _ assms(7)] frame_ids [OF assms(2) h] assms(8) h
  show ?thesis by simp
qed

end

end
