(* ===== verification/Daemon_Assets.thy ===== *)
theory Daemon_Assets
  imports Daemon_Lemmas Ipc_Lemmas
begin

text \<open>
  Lemmas on materialisation and on the request handler: a materialised program only refers
  to assets whose bytes travel with it, the programs table is untouched by materialisation,
  and the handler satisfies the contract of the server.
\<close>

section \<open>Materialised references\<close>

definition ref_ok :: "MaterializedAssets \<Rightarrow> string \<Rightarrow> bool" where
  "ref_ok m img \<longleftrightarrow> (\<exists>h b. img = ''sha256:'' @ h \<and> h \<in> set (ma_hashes m) \<and> btree_get (ma_bytes m) h = Some b)"

definition pred_ok :: "MaterializedAssets \<Rightarrow> PredicateKind \<Rightarrow> bool" where
  "pred_ok m p = (case p of Template img _ _ _ \<Rightarrow> ref_ok m img | _ \<Rightarrow> True)"

definition watch_mat_ok :: "MaterializedAssets \<Rightarrow> Watch \<Rightarrow> bool" where
  "watch_mat_ok m w = (case when_cond w of Inline p \<Rightarrow> pred_ok m p | ByName _ \<Rightarrow> True)"

definition ma_le :: "MaterializedAssets \<Rightarrow> MaterializedAssets \<Rightarrow> bool" where
  "ma_le m m' \<longleftrightarrow> set (ma_hashes m) \<subseteq> set (ma_hashes m') \<and>
     (\<forall>h. btree_get (ma_bytes m) h \<noteq> None \<longrightarrow> btree_get (ma_bytes m') h \<noteq> None)"

lemma ma_le_refl [simp]: "ma_le m m"
  by (simp add: ma_le_def)

lemma ma_le_trans: "ma_le a b \<Longrightarrow> ma_le b c \<Longrightarrow> ma_le a c"
  by (auto simp: ma_le_def)

lemma ref_ok_mono: "ma_le m m' \<Longrightarrow> ref_ok m img \<Longrightarrow> ref_ok m' img"
  by (auto simp: ma_le_def ref_ok_def)

lemma pred_ok_mono: "ma_le m m' \<Longrightarrow> pred_ok m p \<Longrightarrow> pred_ok m' p"
  by (auto simp: pred_ok_def ref_ok_mono split: PredicateKind.splits)

lemma ma_insert_le: "ma_le m (ma_insert h b m)"
  by (auto simp: ma_le_def ma_insert_def map_of_btree_insert)

lemma ma_insert_ref: "ref_ok (ma_insert h b m) (''sha256:'' @ h)"
  by (auto simp: ref_ok_def ma_insert_def map_of_btree_insert btree_contains_def)

lemma put_asset_programs:
  "put_asset X bs ext now s = Some (out, s') \<Longrightarrow>
   st_programs s' = st_programs s \<and> st_program_assets s' = st_program_assets s"
proof -
  assume put: "put_asset X bs ext now s = Some (out, s')"
  then obtain p where p: "asset_blob_path (st_root s) (ext_sha256_hex X bs) ext = Some p"
    by (auto simp: put_asset_def Let_def split: option.splits)
  from put_asset_eq [OF p] put show ?thesis by auto
qed

lemma materialize_image_ref_ok:
  assumes "materialize_image_ref D img base now out s = (r, s')"
  shows "st_programs s' = st_programs s \<and> st_program_assets s' = st_program_assets s"
    "r = Some (Inr (img', out')) \<Longrightarrow> ref_ok out' img' \<and> ma_le out out'"
  using assms put_asset_programs [of "dx_store D"]
  by (auto simp: materialize_image_ref_def strip_prefix_Some ma_insert_le ma_insert_ref [simplified]
      split: option.splits if_splits)

lemma materialize_predicate_ok:
  assumes "materialize_predicate D p base now out s = (r, s')"
  shows "st_programs s' = st_programs s \<and> st_program_assets s' = st_program_assets s"
    "r = Some (Inr (p', out')) \<Longrightarrow> pred_ok out' p' \<and> ma_le out out'"
  using assms materialize_image_ref_ok
  by (auto simp: materialize_predicate_def pred_ok_def split: PredicateKind.splits prod.splits
      option.splits sum.splits)

lemma materialize_watch_ok:
  assumes "materialize_watch D base now w out s = (r, s')"
  shows "st_programs s' = st_programs s \<and> st_program_assets s' = st_program_assets s"
    "r = Some (Inr (w', out')) \<Longrightarrow> watch_mat_ok out' w' \<and> ma_le out out' \<and> watch_steps w' = watch_steps w"
  using assms materialize_predicate_ok
  by (auto simp: materialize_watch_def watch_mat_ok_def split: WatchWhen.splits prod.splits
      option.splits sum.splits)

lemma materialize_named_ok:
  assumes "materialize_named D base now ps out s = (r, s')"
  shows "(st_programs s' = st_programs s \<and> st_program_assets s' = st_program_assets s) \<and>
    (\<forall>ps' out'. r = Some (Inr (ps', out')) \<longrightarrow>
       (\<forall>q \<in> set ps'. pred_ok out' (snd q)) \<and> ma_le out out' \<and> map fst ps' = map fst ps)"
  using assms
proof (induction ps arbitrary: out s r s')
  case (Cons q ps)
  obtain k p where q: "q = (k, p)" by fastforce
  obtain r1 s1 where 1: "materialize_predicate D p base now out s = (r1, s1)" by fastforce
  note st1 = materialize_predicate_ok(1) [OF 1]
  show ?case
  proof (cases "\<exists>p' o1. r1 = Some (Inr (p', o1))")
    case False
    with Cons.prems 1 st1 show ?thesis by (auto simp: q split: option.splits sum.splits)
  next
    case True
    then obtain p' o1 where r1: "r1 = Some (Inr (p', o1))" by blast
    obtain r2 s2 where 2: "materialize_named D base now ps o1 s1 = (r2, s2)" by fastforce
    note ih = Cons.IH [OF 2]
    note ok1 = materialize_predicate_ok(2) [OF 1 r1]
    from Cons.prems 1 2 r1 have s': "s' = s2"
      and r: "\<And>ps' out'. r = Some (Inr (ps', out')) \<Longrightarrow> \<exists>qs. r2 = Some (Inr (qs, out')) \<and> ps' = (k, p') # qs"
      by (auto simp: q split: option.splits sum.splits)
    have "(\<forall>q \<in> set ps'. pred_ok out' (snd q)) \<and> ma_le out out' \<and> map fst ps' = map fst ((k, p) # ps)"
      if eq: "r = Some (Inr (ps', out'))" for ps' out'
    proof -
      from r [OF eq] obtain qs where qs: "r2 = Some (Inr (qs, out'))" "ps' = (k, p') # qs" by blast
      with ih have "\<forall>q \<in> set qs. pred_ok out' (snd q)" "ma_le o1 out'" "map fst qs = map fst ps" by auto
      with ok1 qs pred_ok_mono ma_le_trans show ?thesis by auto
    qed
    with s' ih st1 q show ?thesis by auto
  qed
qed auto

lemma materialize_watches_ok:
  assumes "materialize_watches D base now ws out s = (r, s')"
  shows "(st_programs s' = st_programs s \<and> st_program_assets s' = st_program_assets s) \<and>
    (\<forall>ws' out'. r = Some (Inr (ws', out')) \<longrightarrow>
       (\<forall>w \<in> set ws'. watch_mat_ok out' w) \<and> ma_le out out' \<and> map watch_steps ws' = map watch_steps ws)"
  using assms
proof (induction ws arbitrary: out s r s')
  case (Cons w ws)
  obtain r1 s1 where 1: "materialize_watch D base now w out s = (r1, s1)" by fastforce
  note st1 = materialize_watch_ok(1) [OF 1] and ok1 = materialize_watch_ok(2) [OF 1]
  show ?case
  proof (cases "\<exists>w' o1. r1 = Some (Inr (w', o1))")
    case False
    with Cons.prems 1 st1 show ?thesis by (auto split: option.splits sum.splits)
  next
    case True
    then obtain w' o1 where r1: "r1 = Some (Inr (w', o1))" by blast
    obtain r2 s2 where 2: "materialize_watches D base now ws o1 s1 = (r2, s2)" by fastforce
    note ih = Cons.IH [OF 2]
    from Cons.prems 1 2 r1 have s': "s' = s2"
      and r: "\<And>ws' out'. r = Some (Inr (ws', out')) \<Longrightarrow> \<exists>vs. r2 = Some (Inr (vs, out')) \<and> ws' = w' # vs"
      by (auto split: option.splits sum.splits)
    have "(\<forall>w \<in> set ws'. watch_mat_ok out' w) \<and> ma_le out out' \<and> map watch_steps ws' = map watch_steps (w # ws)"
      if eq: "r = Some (Inr (ws', out'))" for ws' out'
    proof -
      from r [OF eq] obtain vs where vs: "r2 = Some (Inr (vs, out'))" "ws' = w' # vs" by blast
      with ih have "\<forall>w \<in> set vs. watch_mat_ok out' w" "ma_le o1 out'" "map watch_steps vs = map watch_steps ws"
        by auto
      moreover from this(2) ok1 [OF r1] have "watch_mat_ok out' w'"
        by (auto simp: watch_mat_ok_def pred_ok_mono split: WatchWhen.splits)
      ultimately show ?thesis using vs ok1 [OF r1] ma_le_trans by auto
    qed
    with s' ih st1 show ?thesis by auto
  qed
qed auto

lemma materialize_ok:
  assumes "materialize_template_assets D p base now s = (r, s')"
  shows "st_programs s' = st_programs s \<and> st_program_assets s' = st_program_assets s"
    "r = Some (Inr (p', m)) \<Longrightarrow>
      (\<forall>q \<in> set (predicates p'). pred_ok m (snd q)) \<and> (\<forall>w \<in> set (watches p'). watch_mat_ok m w) \<and>
      p' = p\<lparr>predicates := predicates p', watches := watches p'\<rparr> \<and>
      btree_keys (predicates p') = btree_keys (predicates p) \<and>
      map watch_steps (watches p') = map watch_steps (watches p)"
proof -
  obtain r1 s1 where 1: "materialize_named D base now (predicates p) ma_empty s = (r1, s1)" by fastforce
  note n = materialize_named_ok [OF 1]
  show "st_programs s' = st_programs s \<and> st_program_assets s' = st_program_assets s"
    using assms 1 n materialize_watches_ok
    by (auto simp: materialize_template_assets_def split: option.splits sum.splits prod.splits)
  assume r: "r = Some (Inr (p', m))"
  with assms 1 obtain ps o1 ws s2 where r1: "r1 = Some (Inr (ps, o1))"
    and 2: "materialize_watches D base now (watches p) o1 s1 = (Some (Inr (ws, m)), s2)"
    and p': "p' = p\<lparr>predicates := ps, watches := ws\<rparr>"
    by (auto simp: materialize_template_assets_def split: option.splits sum.splits prod.splits)
  from materialize_watches_ok [OF 2] have w: "\<forall>w \<in> set ws. watch_mat_ok m w" "ma_le o1 m"
    "map watch_steps ws = map watch_steps (watches p)" by auto
  from n r1 have "\<forall>q \<in> set ps. pred_ok o1 (snd q)" "map fst ps = map fst (predicates p)" by auto
  with w p' show "(\<forall>q \<in> set (predicates p'). pred_ok m (snd q)) \<and> (\<forall>w \<in> set (watches p'). watch_mat_ok m w) \<and>
      p' = p\<lparr>predicates := predicates p', watches := watches p'\<rparr> \<and>
      btree_keys (predicates p') = btree_keys (predicates p) \<and>
      map watch_steps (watches p') = map watch_steps (watches p)"
    by (auto intro: pred_ok_mono)
qed

section \<open>The submit transaction\<close>

lemma link_ok:
  assumes "find_program s pid \<noteq> None"
  obtains s1 where "link_program_asset pid h s = Inr s1" "st_programs s1 = st_programs s"
    "set (st_program_assets s1) = insert (pid, h) (set (st_program_assets s))"
proof (cases "(pid, h) \<in> set (st_program_assets s)")
  case True
  then show ?thesis by (intro that [of s]) (auto simp: link_program_asset_def)
next
  case False
  with assms show ?thesis
    by (intro that [of "s\<lparr>st_program_assets := st_program_assets s @ [(pid, h)]\<rparr>"])
       (auto simp: link_program_asset_def)
qed

lemma link_all_ok:
  "find_program s pid \<noteq> None \<Longrightarrow>
   \<exists>s'. link_all X pid hs s = (None, s') \<and> st_programs s' = st_programs s \<and>
     set (st_program_assets s') = set (st_program_assets s) \<union> {pid} \<times> set hs"
proof (induction hs arbitrary: s)
  case (Cons h hs)
  obtain s1 where s1: "link_program_asset pid h s = Inr s1" "st_programs s1 = st_programs s"
    "set (st_program_assets s1) = insert (pid, h) (set (st_program_assets s))"
    by (rule link_ok [OF Cons.prems])
  moreover have "find_program s1 pid \<noteq> None" using Cons.prems s1(2) by (simp add: find_program_def)
  ultimately show ?case using Cons.IH [of s1] by auto
qed simp

text \<open>Either the row is inserted, its assets linked, and the program returned, or no row changes.\<close>

lemma submit_txn_cases:
  assumes "submit_txn D pid p base t s = (r, s')"
  shows "(\<exists>p' m row. r = Some (Inr (p', ma_bytes m)) \<and> find_program s pid = None \<and>
      (\<forall>q \<in> set (predicates p'). pred_ok m (snd q)) \<and> (\<forall>w \<in> set (watches p'). watch_mat_ok m w) \<and>
      st_programs s' = st_programs s @ [row] \<and> db_id row = pid \<and> db_state row = ''pending'' \<and>
      db_source_json row = canonicalize (dsl_canon (dx_dsl D)) (program_to_value p') \<and>
      {pid} \<times> set (ma_hashes m) \<subseteq> set (st_program_assets s')) \<or>
    ((r = None \<or> (\<exists>e. r = Some (Inl e))) \<and> st_programs s' = st_programs s)"
proof -
  obtain r1 s1 where 1: "materialize_template_assets D p base t s = (r1, s1)" by fastforce
  note st1 = materialize_ok(1) [OF 1]
  show ?thesis
  proof (cases "\<exists>p' m. r1 = Some (Inr (p', m))")
    case False
    with assms 1 st1 show ?thesis
      by (auto simp: submit_txn_def split: option.splits sum.splits)
  next
    case True
    then obtain p' m where r1: "r1 = Some (Inr (p', m))" by blast
    define np where "np = \<lparr>np_id = pid, np_name = prog_name p,
      np_source_json = canonicalize (dsl_canon (dx_dsl D)) (program_to_value p'),
      np_state = Pending, np_submitted_at = t, np_labels_json = ''{}''\<rparr>"
    show ?thesis
    proof (cases "find_program s1 pid = None")
      case False
      with assms 1 r1 st1 show ?thesis
        by (auto simp: submit_txn_def insert_program_def Let_def)
    next
      case True
      define s2 where "s2 = s1\<lparr>st_programs := st_programs s1 @ [new_program_row np]\<rparr>"
      have ins: "insert_program np s1 = Inr s2" using True by (simp add: insert_program_def s2_def np_def)
      have "find_program s2 pid \<noteq> None"
        by (simp add: find_program_None s2_def np_def new_program_row_def)
      from link_all_ok [OF this, of "dx_store D" "ma_hashes m"] obtain s3 where
        s3: "link_all (dx_store D) pid (ma_hashes m) s2 = (None, s3)" "st_programs s3 = st_programs s2"
          "set (st_program_assets s3) = set (st_program_assets s2) \<union> {pid} \<times> set (ma_hashes m)" by blast
      have "r = Some (Inr (p', ma_bytes m))" "s' = s3"
        using assms 1 r1 ins s3(1) by (simp_all add: submit_txn_def Let_def flip: np_def)
      moreover have "find_program s pid = None" using True st1 by (simp add: find_program_def)
      moreover have "db_id (new_program_row np) = pid" "db_state (new_program_row np) = ''pending''"
        "db_source_json (new_program_row np) = canonicalize (dsl_canon (dx_dsl D)) (program_to_value p')"
        by (simp_all add: new_program_row_def np_def)
      ultimately show ?thesis
        using materialize_ok(2) [OF 1 r1] s3(2,3) st1 by (auto simp: s2_def)
    qed
  qed
qed

section \<open>The handler meets the server's contract\<close>

lemma handler_ids:
  "rs_id (fst (handle_submit E i j b d)) = i" "rs_id (fst (handle_resume E i pid fs d)) = i"
  "rs_id (fst (handle_cancel i pid d)) = i" "rs_id (fst (handle_start i pid d)) = i"
  "rs_id (fst (handle_shutdown i d)) = i" "rs_id (fst (handle_health E i d)) = i"
  "rs_id (fst (handle_list E i st d)) = i" "rs_id (fst (handle_status E i pid d)) = i"
  "rs_id (fst (handle_gc E i d)) = i"
  by (auto simp: handle_submit_def submit_program_def handle_resume_def handle_cancel_def handle_start_def handle_shutdown_def
      handle_health_def handle_list_def handle_status_def handle_gc_def internal_err_def response_ok_def
      response_err_def Let_def split: sum.split option.split prod.split bool.split StoreError.split)

lemma history_frame_ids: "f \<in> set (history_frames X i fp rows) \<Longrightarrow> sf_id f = i \<and> \<not> sf_end f \<and> sf_trace f \<noteq> Some JNull"
  by (auto simp: history_frames_def event_frame_def split: if_splits option.splits)

lemma follow_frame_ids:
  assumes "f \<in> set (follow_frames i fp feed)"
  shows "sf_id f = i \<and> \<not> sf_end f \<and> sf_trace f \<noteq> Some JNull"
proof -
  from assms obtain r where "f \<in> set (case r of
         RecvOk ev \<Rightarrow>
           if (case fp of None \<Rightarrow> False | Some p \<Rightarrow> program_id_of (ev_data ev) \<noteq> Some p) then []
           else [event_frame i ev]
       | RecvLagged n now \<Rightarrow> [event_frame i \<lparr>ev_at = now, ev_data = StreamDropped (u32_of_usize n) now\<rparr>])"
    unfolding follow_frames_def by auto
  then show ?thesis by (cases r) (auto simp: event_frame_def split: if_splits)
qed

interpretation dh: handler_contract "daemon_handler E" for E
proof (unfold_locales, goal_cases)
  case (1 i op d r d')
  then show ?case
    using handler_ids
    by (cases op) (auto simp: daemon_handler_def daemon_handle_def internal_err_def response_err_def
        split: prod.splits dest!: arg_cong [of _ _ fst])
next
  case (2 op i d fs d' f)
  then show ?case
    by (cases op) (auto simp: daemon_handler_def daemon_handle_stream_def daemon_stream_events_def
        history_frame_ids follow_frame_ids split: prod.splits if_splits option.splits)
qed

end
