(* ===== verification/Store_Props.thy ===== *)
theory Store_Props
  imports Store_Gc
begin

text \<open>
  The properties of the store: an invariant over every sequence of operations and
  restarts, content addressing, what a garbage collection may delete, pagination of the
  event log, and recovery followed by resume.
\<close>

section \<open>Runs of the store\<close>

text \<open>
  A run: a fresh data directory is opened, then any operation that succeeds may follow,
  and the daemon may stop and reopen what is on disk at any point.
\<close>

definition fresh_disk :: "path \<Rightarrow> Store" where
  "fresh_disk rt =
     \<lparr>st_root = rt, st_programs = [], st_program_assets = [], st_events = [], st_event_seq = 0,
      st_assets = [], st_traces = [], st_trace_seq = 0, st_versions = [], st_files = []\<rparr>"


lemma store_open_cases:
  assumes "store_open s = Inr (s', rec)"
  obtains s1 where "run_migrations s = Inr s1" "recover_running_programs s1 = (rec, s')"
  using assms by (auto simp: store_open_def split: sum.splits prod.splits)


lemma migrations_same:
  "run_migrations s = Inr s' \<Longrightarrow> s' = s\<lparr>st_versions := st_versions s'\<rparr>"
  by (auto simp: run_migrations_def MIGRATIONS_def Let_def split: if_splits)

lemma store_open_ok:
  assumes "store_ok X s" "store_open s = Inr (s', rec)"
  shows "store_ok X s'"
proof -
  obtain s1 where s1: "run_migrations s = Inr s1" "recover_running_programs s1 = (rec, s')"
    using assms(2) by (rule store_open_cases)
  have "tables_ok s'"
    using recover_tables [OF run_migrations_tables [OF _ s1(1)] s1(2)] assms(1)
    by (simp add: store_ok_def)
  moreover have "blobs_ok X s1 = blobs_ok X s"
    by (subst migrations_same [OF s1(1)]) simp
  then have "blobs_ok X s'"
    using s1(2) assms(1) by (auto simp: recover_running_programs_def Let_def store_ok_def split: if_splits)
  ultimately show ?thesis by (simp add: store_ok_def)
qed

lemma fresh_ok: "store_ok X (fresh_disk rt)"
  by (simp add: store_ok_def tables_ok_def blobs_ok_def content_addressed_def fresh_disk_def)







section \<open>A concrete store\<close>

text \<open>A digest of the right shape (its last digit counts the bytes) for the examples.\<close>

definition demo_sx :: StoreExt where
  "demo_sx =
     \<lparr>ext_sha256_hex = (\<lambda>b. replicate 63 (CHR ''0'') @ [''0123456789abcdef'' ! (length b mod 16)]),
      ext_event_json = (\<lambda>e. event_type_tag (ev_data e)), ext_event_parse = (\<lambda>_. None),
      ext_value_json = (\<lambda>_. ''null''), ext_value_parse = (\<lambda>_. Inr JNull),
      ext_debug_str = (\<lambda>s. s)\<rparr>"


definition demo_new :: NewProgram where
  "demo_new = \<lparr>np_id = ''p'', np_name = ''n'', np_source_json = ''{}'', np_state = Pending,
               np_submitted_at = 1, np_labels_json = ''{}''\<rparr>"

definition demo_opened :: Store where
  "demo_opened = (fresh_disk ''/d'')\<lparr>st_versions := [1]\<rparr>"


lemma demo_opens: "store_open (fresh_disk ''/d'') = Inr (demo_opened, [])"
  by (simp add: store_open_def run_migrations_def current_version_def fresh_disk_def MIGRATIONS_def
      cursor_or_zero_def u32_try_from_def u32_of_usize_def recover_running_programs_def
      demo_opened_def)


lemma demo_opened_ok: "store_ok demo_sx demo_opened"
  using store_open_ok [OF fresh_ok demo_opens] .



section \<open>Assets\<close>



text \<open>
  The temporary file of a write is named after the digest with the extension
  \<open>tmp\<close>.  An asset whose own extension is \<open>tmp\<close> therefore has its blob at that very path, and
  storing the same bytes again under another extension moves the blob away: the row stays,
  its bytes are gone.
\<close>

theorem tmp_asset_lost:
  "case put_asset demo_sx [7] (Some ''tmp'') 1 demo_opened of
     None \<Rightarrow> False
   | Some (out, s1) \<Rightarrow>
       get_asset s1 (put_hash out) = Some (Some [7]) \<and>
       (case put_asset demo_sx [7] (Some ''png'') 2 s1 of
          None \<Rightarrow> False
        | Some (out', s2) \<Rightarrow>
            put_hash out' = put_hash out \<and> find_asset s2 (put_hash out) \<noteq> None \<and>
            get_asset s2 (put_hash out) = Some None)"
  by code_simp

section \<open>Garbage collection\<close>

lemma find_filter_keep:
  "find P xs = Some x \<Longrightarrow> (\<And>y. P y \<Longrightarrow> Q y) \<Longrightarrow> find P (filter Q xs) = Some x"
  by (induction xs) (auto split: if_splits)

lemma gc_eligible_iff:
  "gc_eligible t = (\<lambda>p. db_state p \<in> {''completed'', ''failed'', ''cancelled''} \<and>
      (\<exists>f. db_finished_at p = Some f \<and> f < t))"
  by (auto simp: gc_eligible_def fun_eq_iff split: option.splits)

text \<open>The programs that stay are the ones a collection does not select.\<close>

lemma gc_stays:
  assumes "tables_ok s" "st_programs s' = filter (\<lambda>r. \<not> gc_eligible t r) (st_programs s)"
    and "pid \<in> db_id ` set (st_programs s)"
  shows "find_program s' pid \<noteq> None \<longleftrightarrow> pid \<notin> gone_ids t s"
proof -
  have "inj_on db_id (set (st_programs s))" using assms(1) by (simp add: tables_ok_def distinct_map)
  with assms(2,3) show ?thesis
    by (auto simp: find_program_None gone_ids_def dest: inj_onD)
qed

text \<open>Dropping rows and files other than those of a referenced asset does not change what it reads.\<close>

lemma get_asset_kept:
  assumes "blobs_ok X s" "find_asset s h = Some a" "referenced s1 a"
    and s': "s' = drop_files P s1\<lparr>st_assets := filter (referenced s1) (st_assets s)\<rparr>"
    and fl: "st_files s1 = st_files s" "st_root s1 = st_root s"
    and P: "\<And>p. asset_blob_path (st_root s) h (as_extension a) = Some p \<Longrightarrow> p \<notin> P"
  shows "get_asset s' h = get_asset s h \<and> get_asset s h \<noteq> Some None"
proof -
  have "as_hash y = h \<Longrightarrow> referenced s1 y" for y
    using find_asset_mem [OF assms(2)] assms(3) by (simp add: referenced_def)
  then have "find (\<lambda>a. as_hash a = h) (filter (referenced s1) (st_assets s)) = Some a"
    using assms(2) by (intro find_filter_keep) (simp_all add: find_asset_def)
  then have fa: "find_asset s' h = Some a" by (simp add: s' find_asset_def)
  obtain b where b: "get_asset s h = Some (Some b)" using get_asset_row [OF assms(1,2)] by blast
  then obtain p where p: "asset_blob_path (st_root s) h (as_extension a) = Some p"
    using assms(2) by (auto simp: get_asset_def)
  then have "get_asset s' h = get_asset s h"
    using assms(2) fa P fl by (simp add: get_asset_def s' drop_files_files)
  with b show ?thesis by simp
qed

text \<open>
  C25. A garbage collection deletes exactly the programs that finished in a terminal state
  before the cutoff, with their events; every other program keeps its row, the order of
  rows, its events and the bytes of every asset it is linked to.
\<close>

theorem gc_deletes_only_old:
  assumes "store_ok X s" "gc_all t s = Some (r, s')"
  shows "st_programs s' =
      filter (\<lambda>p. \<not> (db_state p \<in> {''completed'', ''failed'', ''cancelled''} \<and>
                     (\<exists>f. db_finished_at p = Some f \<and> f < t))) (st_programs s) \<and>
    st_events s' = filter (\<lambda>e. find_program s' (se_program_id e) \<noteq> None) (st_events s) \<and>
    (\<forall>pid h. (pid, h) \<in> set (st_program_assets s) \<and> find_program s' pid \<noteq> None \<and>
       find_asset s h \<noteq> None \<longrightarrow> get_asset s' h = get_asset s h \<and> get_asset s h \<noteq> Some None)"
proof -
  obtain s1 P where ps: "st_programs s1 = filter (\<lambda>r. \<not> gc_eligible t r) (st_programs s)"
    and pa: "st_program_assets s1 = filter (\<lambda>l. fst l \<notin> gone_ids t s) (st_program_assets s)"
    and ev: "st_events s1 = filter (\<lambda>e. se_program_id e \<notin> gone_ids t s) (st_events s)"
    and fl: "st_files s1 = st_files s" "st_root s1 = st_root s"
    and s': "s' = drop_files P s1\<lparr>st_assets := filter (referenced s1) (st_assets s)\<rparr>"
    and P: "\<And>a p. a \<in> set (st_assets s) \<Longrightarrow> referenced s1 a \<Longrightarrow>
            asset_blob_path (st_root s) (as_hash a) (as_extension a) = Some p \<Longrightarrow> p \<notin> P"
    using gc_all_cases [OF assms] by metis
  have t: "tables_ok s" "blobs_ok X s" using assms(1) by (simp_all add: store_ok_def)
  have st: "st_programs s' = filter (\<lambda>r. \<not> gc_eligible t r) (st_programs s)"
    "st_events s' = filter (\<lambda>e. se_program_id e \<notin> gone_ids t s) (st_events s)"
    by (simp_all add: s' ps ev)
  note kept = gc_stays [OF t(1) st(1)]
  have "\<forall>e \<in> set (st_events s). se_program_id e \<in> db_id ` set (st_programs s)"
    using t(1) by (simp add: tables_ok_def)
  with st(2) kept have "st_events s' = filter (\<lambda>e. find_program s' (se_program_id e) \<noteq> None) (st_events s)"
    by (simp cong: filter_cong)
  moreover have "get_asset s' h = get_asset s h \<and> get_asset s h \<noteq> Some None"
    if l: "(pid, h) \<in> set (st_program_assets s)" "find_program s' pid \<noteq> None" "find_asset s h = Some a" for pid h a
  proof -
    have "pid \<in> db_id ` set (st_programs s)" using l(1) t(1) by (force simp: tables_ok_def)
    with l kept pa have "(pid, h) \<in> set (st_program_assets s1)" by simp
    then have ref: "referenced s1 a" using find_asset_mem [OF l(3)] by (force simp: referenced_def)
    show ?thesis
      using P [of a] find_asset_mem [OF l(3)] ref by (intro get_asset_kept [OF t(2) l(3) ref s' fl]) simp
  qed
  ultimately show ?thesis using st(1) gc_eligible_iff [of t] by auto
qed

theorem gc_deletes_only_old_witness:
  "\<exists>r s'. gc_all 100 demo_opened = Some (r, s') \<and>
     st_programs s' = filter (\<lambda>p. \<not> (db_state p \<in> {''completed'', ''failed'', ''cancelled''} \<and>
       (\<exists>f. db_finished_at p = Some f \<and> f < 100))) (st_programs demo_opened)"
proof -
  obtain r s' where "gc_all 100 demo_opened = Some (r, s')"
    using gc_all_ok [OF demo_opened_ok] by blast
  with gc_deletes_only_old [OF demo_opened_ok this] show ?thesis by blast
qed

text \<open>
  A garbage collection of a sound store returns, keeps the store sound and leaves
  nothing collectable: no program older than the cutoff, no asset row without a link, and no
  blob on disk without an asset row (files whose stem ends in \<open>tmp\<close> apart, which the walk
  skips).
\<close>

theorem gc_complete:
  assumes "store_ok X s"
  shows "\<exists>r s'. gc_all t s = Some (r, s') \<and> store_ok X s' \<and>
    (\<forall>p \<in> set (st_programs s'). \<not> gc_eligible t p) \<and>
    (\<forall>a \<in> set (st_assets s'). \<exists>pid. (pid, as_hash a) \<in> set (st_program_assets s')) \<and>
    list_orphan_blob_names s' = []"
proof -
  obtain r s' where gc: "gc_all t s = Some (r, s')" "store_ok X s'" using gc_all_ok [OF assms] by blast
  obtain s1 P where "st_programs s1 = filter (\<lambda>r. \<not> gc_eligible t r) (st_programs s)"
    and root: "st_root s1 = st_root s"
    and s': "s' = drop_files P s1\<lparr>st_assets := filter (referenced s1) (st_assets s)\<rparr>"
    and "\<forall>p \<in> set (walk_files s' (assets_root (st_root s))). \<not> is_orphan s' p"
    using gc_all_cases [OF assms gc(1)] by metis
  then have "(\<forall>p \<in> set (st_programs s'). \<not> gc_eligible t p) \<and>
    (\<forall>a \<in> set (st_assets s'). \<exists>pid. (pid, as_hash a) \<in> set (st_program_assets s')) \<and>
    list_orphan_blob_names s' = []"
    by (auto simp: list_orphan_blob_names_def filter_empty_conv referenced_def root s')
  with gc show ?thesis by blast
qed

theorem gc_complete_witness:
  "\<exists>r s'. gc_all 100 demo_opened = Some (r, s') \<and> list_orphan_blob_names s' = []"
  using gc_complete [OF demo_opened_ok, of 100] by blast

section \<open>The event log\<close>

text \<open>
  Reading the log in pages loses and repeats nothing: a page of \<open>m\<close> events followed
  by a page of \<open>n\<close> from the id of the last one read is one page of \<open>m + n\<close>, and reading from
  0 gives the log from its beginning.
\<close>

theorem stream_events_pages:
  assumes "tables_ok s"
  shows "stream_events s a (m + n) =
      (let page = stream_events s a m
       in page @ stream_events s (if page = [] then a else se_id (last page)) n) \<and>
    stream_events s 0 n = take n (st_events s)"
proof -
  let ?D = "filter (\<lambda>e. se_id e > a) (st_events s)"
  have pg: "stream_events s a k = take k ?D" for k by (rule stream_events_sorted [OF assms])
  have srt: "sorted_wrt (<) (map se_id ?D)"
    using assms by (simp add: tables_ok_def sorted_wrt_map sorted_wrt_filter)
  have "stream_events s (se_id (last (take m ?D))) n = take n (drop m ?D)" if ne: "take m ?D \<noteq> []"
  proof -
    have "last (take m ?D) \<in> set ?D" using ne by (meson in_set_takeD last_in_set)
    then have "a \<le> se_id (last (take m ?D))" by simp
    then have "filter (\<lambda>e. se_id e > se_id (last (take m ?D))) (st_events s)
        = filter (\<lambda>e. se_id e > se_id (last (take m ?D))) ?D"
      by (simp only: filter_twice_after)
    also have "\<dots> = drop m ?D"
      using filter_after_prefix [of se_id "take m ?D" "drop m ?D"] srt ne by simp
    finally show ?thesis by (simp add: stream_events_sorted [OF assms])
  qed
  moreover have "take m ?D = [] \<Longrightarrow> take (m + n) ?D = take n ?D"
    by (auto simp: take_add)
  moreover have "filter (\<lambda>e. se_id e > 0) (st_events s) = st_events s"
    using assms by (simp add: tables_ok_def filter_id_conv)
  ultimately show ?thesis
    by (simp add: pg take_add Let_def stream_events_sorted [OF assms])
qed

theorem stream_events_pages_witness:
  "tables_ok demo_opened \<and>
   stream_events demo_opened 3 (2 + 4) =
     (let page = stream_events demo_opened 3 2
      in page @ stream_events demo_opened (if page = [] then 3 else se_id (last page)) 4)"
  using stream_events_pages [of demo_opened 3 2 4] demo_opened_ok by (simp add: store_ok_def)

section \<open>Recovery\<close>

lemma find_program_map:
  "(\<And>r. db_id (f r) = db_id r) \<Longrightarrow>
   find (\<lambda>r. db_id r = pid) (map f rs) = map_option f (find (\<lambda>r. db_id r = pid) rs)"
  by (induction rs) auto

text \<open>
  Opening the store after a crash reports exactly the programs that were running,
  leaves none running, changes no other row, and each of them can be resumed from the very
  step its cursor was at.
\<close>

theorem recovery_resumes:
  assumes "tables_ok s" "store_open s = Inr (s', rec)"
  shows "map rec_id rec = map db_id (filter (\<lambda>r. db_state r = ''running'') (st_programs s)) \<and>
    (\<forall>r \<in> set (st_programs s'). db_state r \<noteq> ''running'') \<and>
    (\<forall>r \<in> set (st_programs s). db_state r \<noteq> ''running'' \<longrightarrow> find_program s' (db_id r) = Some r) \<and>
    (\<forall>r \<in> set (st_programs s). db_state r = ''running'' \<longrightarrow>
       (\<exists>c s''. resume_program X (db_id r) False t s' = Inr (c, s'') \<and> int c = db_body_cursor r \<and>
          map_option db_state (find_program s'' (db_id r)) = Some ''running''))"
proof -
  obtain s1 where s1: "run_migrations s = Inr s1" "recover_running_programs s1 = (rec, s')"
    using assms(2) by (rule store_open_cases)
  have p1: "st_programs s1 = st_programs s" by (subst migrations_same [OF s1(1)]) simp
  have rec: "rec = map (\<lambda>r. \<lparr>rec_id = db_id r, rec_body_cursor = cursor_or_zero (db_body_cursor r)\<rparr>)
      (filter (\<lambda>r. db_state r = ''running'') (st_programs s))"
    using s1(2) p1 by (auto simp: recover_running_programs_def Let_def)
  have "map fail_running_row (st_programs s) = st_programs s" if "rec = []"
    using that by (auto simp: rec fail_running_row_def filter_empty_conv intro: map_idI)
  then have p': "st_programs s' = map fail_running_row (st_programs s)"
    using s1(2) p1 by (auto simp: recover_running_programs_def Let_def split: if_splits)
  have find': "find_program s' (db_id r) = Some (fail_running_row r)" if "r \<in> set (st_programs s)" for r
    using find_program_distinct [of s r] that assms(1)
    by (simp add: find_program_def p' find_program_map tables_ok_def)
  have "\<exists>c s''. resume_program X (db_id r) False t s' = Inr (c, s'') \<and> int c = db_body_cursor r \<and>
          map_option db_state (find_program s'' (db_id r)) = Some ''running''"
    if r: "r \<in> set (st_programs s)" "db_state r = ''running''" for r
  proof -
    have "0 \<le> db_body_cursor r \<and> db_body_cursor r \<le> int u32_max"
      using assms(1) r(1) by (auto simp: tables_ok_def program_row_ok_def)
    with find' [OF r(1)] r(2) show ?thesis
      by (simp add: resume_program_def fail_running_row_def cursor_or_zero_id rows.find_upd
          resume_row_def Let_def)
  qed
  moreover have "\<forall>r \<in> set (st_programs s'). db_state r \<noteq> ''running''"
    by (auto simp: p' fail_running_row_def)
  moreover have "map rec_id rec = map db_id (filter (\<lambda>r. db_state r = ''running'') (st_programs s))"
    by (simp add: rec)
  ultimately show ?thesis using find' by (simp add: fail_running_row_def)
qed

definition demo_crashed :: Store where
  "demo_crashed = demo_opened\<lparr>st_programs := [(new_program_row demo_new)
     \<lparr>db_state := ''running'', db_body_cursor := 2\<rparr>]\<rparr>"

lemma demo_crashed_ok: "tables_ok demo_crashed"
  by (auto simp: tables_ok_def demo_crashed_def demo_opened_def fresh_disk_def program_row_ok_def
      intro: exI [of _ Running])

lemma demo_crashed_opens: "\<exists>s' rec r. store_open demo_crashed = Inr (s', rec) \<and> r \<in> set rec"
  by (simp add: store_open_def run_migrations_def current_version_def demo_crashed_def MIGRATIONS_def
      demo_opened_def cursor_or_zero_def u32_try_from_def u32_of_usize_def recover_running_programs_def)

theorem recovery_resumes_witness:
  "\<exists>s' rec. store_open demo_crashed = Inr (s', rec) \<and> map rec_id rec = [''p''] \<and>
     (\<exists>c s''. resume_program demo_sx ''p'' False 9 s' = Inr (c, s'') \<and> c = 2)"
proof -
  obtain s' rec where o: "store_open demo_crashed = Inr (s', rec)" using demo_crashed_opens by blast
  have "st_programs demo_crashed = [(new_program_row demo_new)\<lparr>db_state := ''running'', db_body_cursor := 2\<rparr>]"
    by (simp add: demo_crashed_def)
  with recovery_resumes [OF demo_crashed_ok o, of demo_sx 9] o show ?thesis
    by (auto simp: demo_new_def new_program_row_def)
qed

lemma cursor_zero: "c \<le> int u32_max \<Longrightarrow> cursor_or_zero c < 1 \<Longrightarrow> c \<le> 0"
  by (simp add: cursor_or_zero_def u32_try_from_def split: if_splits)

lemma current_version_append:
  assumes "\<forall>v \<in> set (st_versions s). v \<le> int u32_max" "current_version s < 1"
  shows "current_version (s\<lparr>st_versions := st_versions s @ [1]\<rparr>) = 1"
proof -
  have "Max (insert 1 (set (st_versions s))) = 1"
  proof (cases "st_versions s = []")
    case False
    let ?m = "Max (set (st_versions s))"
    have "?m \<in> set (st_versions s)" using False by simp
    with assms(1) have "?m \<le> int u32_max" by blast
    moreover have "cursor_or_zero ?m < 1" using assms(2) False by (simp add: current_version_def)
    ultimately have "?m \<le> 0" by (rule cursor_zero)
    with False show ?thesis by (simp add: Max_insert del: Max_le_iff)
  qed simp
  then show ?thesis
    by (simp add: current_version_def cursor_or_zero_def u32_try_from_def)
qed

text \<open>
  A database is migrated at most once: it is rejected exactly when its version is
  beyond the one known, and a migrated database is left alone by the next start.
\<close>

theorem migrations_idempotent:
  assumes "\<forall>v \<in> set (st_versions s). v \<le> int u32_max"
  shows "(run_migrations s = Inl e \<longleftrightarrow> current_version s > 1 \<and> e = SE_SchemaNewer (current_version s) 1) \<and>
   (\<forall>s'. run_migrations s = Inr s' \<longrightarrow> current_version s' = 1 \<and> run_migrations s' = Inr s')"
proof (intro conjI allI impI)
  show "run_migrations s = Inl e \<longleftrightarrow> current_version s > 1 \<and> e = SE_SchemaNewer (current_version s) 1"
    by (auto simp: run_migrations_def MIGRATIONS_def LATEST_SCHEMA_VERSION_def Let_def)
  fix s' assume r: "run_migrations s = Inr s'"
  then show v: "current_version s' = 1"
    using current_version_append [OF assms]
    by (auto simp: run_migrations_def MIGRATIONS_def Let_def u32_of_usize_def split: if_splits)
  then show "run_migrations s' = Inr s'"
    by (simp add: run_migrations_def MIGRATIONS_def u32_of_usize_def)
qed

theorem migrations_idempotent_witness:
  "\<exists>s'. run_migrations (fresh_disk ''/d'') = Inr s' \<and> run_migrations s' = Inr s'"
proof -
  have r: "run_migrations (fresh_disk ''/d'') = Inr demo_opened"
    by (simp add: run_migrations_def current_version_def fresh_disk_def MIGRATIONS_def
        cursor_or_zero_def u32_try_from_def u32_of_usize_def demo_opened_def)
  have "\<forall>v \<in> set (st_versions (fresh_disk ''/d'')). v \<le> int u32_max" by (simp add: fresh_disk_def)
  from migrations_idempotent [OF this] r show ?thesis by blast
qed

end
