(* ===== verification/Daemon_Props.thy ===== *)
theory Daemon_Props
  imports Daemon_Assets Store_Props Demo Dsl_Lemmas
begin

text \<open>
  Properties of the daemon and of its transport: the database follows the scheduler, the log
  is written before anything is broadcast, what recovery and resume really do, submission
  as a transaction, and requests and responses across a connection.
\<close>

section \<open>The database follows the scheduler\<close>

definition demo_rows :: Store where
  "demo_rows = demo_opened\<lparr>st_programs := [new_program_row (demo_new\<lparr>np_id := ''p1''\<rparr>)]\<rparr>"

lemma demo_row_found: "find_program demo_rows ''p1'' = Some (new_program_row (demo_new\<lparr>np_id := ''p1''\<rparr>))"
  by (simp add: find_program_def demo_rows_def new_program_row_def)

lemma demo_dom: "states demo_cancelled pid \<noteq> None \<Longrightarrow> pid = ''p1''"
  by (auto simp: demo_cancelled_def demo_sched_def demo_start_def sched_new_def exec_command_def
      clock_now_def sched_simps states_def split: if_splits option.splits)

text \<open>
  The database refines the scheduler: once the pump has persisted the events a
  scheduler has sent, the row of every program it holds reads back with exactly the state the
  scheduler holds, for any history of commands and ticks, provided each program has its row.
\<close>

theorem pump_mirrors_scheduler:
  assumes "reachable E s" "\<forall>pid. states s pid \<noteq> None \<longrightarrow> find_program db pid \<noteq> None"
    and "states s pid = Some st"
  shows "\<exists>row. get_program (fst (event_pump X (sch_events s) (db, []))) pid = Inr row \<and> row_state row = st"
proof -
  have "states s = replay (sch_events s) Map.empty" using reachable_inv [OF assms(1)] by simp
  then have "db_state_of (fold (persist_event X) (sch_events s) db) pid = Some (state_as_str st)"
    using assms(2,3) by (intro persist_all_mirrors [OF reachable_says [OF assms(1)]]) auto
  then show ?thesis
    by (auto simp: pump_split db_state_of_def get_program_def row_of_def state_from_as_str)
qed

theorem pump_mirrors_scheduler_witness:
  "\<exists>row. get_program (fst (event_pump demo_sx (sch_events demo_cancelled) (demo_rows, []))) ''p1'' = Inr row \<and>
     row_state row = Cancelled"
proof (rule pump_mirrors_scheduler [OF demo_more_reachable(1) _ demo_cancelled_state])
  show "\<forall>pid. states demo_cancelled pid \<noteq> None \<longrightarrow> find_program demo_rows pid \<noteq> None"
    using demo_dom demo_row_found by auto
qed



lemma persist_all_cursor:
  "\<forall>e \<in> set es. \<forall>p n. ev_data e \<noteq> ProgramResumed p n \<Longrightarrow>
   db_cursor_of (fold (persist_event X) es s) pid = db_cursor_of s pid"
proof (induction es arbitrary: s)
  case (Cons e es)
  then show ?case by (cases "ev_data e") (auto simp: persist_cursor)
qed simp

lemma trace_no_resume: "trace_ok st es \<Longrightarrow> e \<in> set es \<Longrightarrow> ev_data e \<noteq> ProgramResumed p n"
  by (induction es arbitrary: st) auto

text \<open>
  Progress is not persisted: whatever steps the bodies of the programs take in a tick,
  pumping the events of that tick leaves the cursor column of every row as it was.  The
  comment on \<open>set_body_cursor\<close> says that it is called after each body step.
\<close>

theorem tick_keeps_stored_cursor:
  assumes "reachable E s" "env_ok E" "distinct it" "capture_ok cap"
  shows "\<exists>s' es. tick_once E cap it s = Some s' \<and> sch_events s' = sch_events s @ es \<and>
    db_cursor_of (fst (event_pump X es (db, []))) pid = db_cursor_of db pid"
proof -
  have ok: "sched_ok E s" using reachable_inv [OF assms(1)] by simp
  obtain s' where s': "tick_once E cap it s = Some s'" "tick_rel E s s'"
    using tick_total [OF ok assms(2-4)] by blast
  then obtain es where "sch_events s' = sch_events s @ es" "trace_ok (states s) es"
    unfolding tick_rel_def by blast
  with s'(1) trace_no_resume show ?thesis
    by (auto simp: pump_split intro!: exI [of _ es] persist_all_cursor)
qed

theorem tick_keeps_stored_cursor_witness:
  "\<exists>s' es. tick_once demo_env (Some white_pixel) [''p1''] demo_sched = Some s' \<and>
     sch_events s' = sch_events demo_sched @ es \<and>
     db_cursor_of (fst (event_pump demo_sx es (demo_rows, []))) ''p1'' = db_cursor_of demo_rows ''p1''"
  by (rule tick_keeps_stored_cursor [OF demo_reachable demo_env_ok]) (simp_all add: demo_capture_ok)

section \<open>Recovery\<close>





section \<open>Submission\<close>


text \<open>A daemon over the example store, for programs the decoder returns.\<close>

definition demo_denv :: "Program \<Rightarrow> DaemonEnv" where
  "demo_denv p =
     \<lparr>de_ext = \<lparr>dx_store = demo_sx, dx_dsl = demo_dsl\<lparr>program_from_value := (\<lambda>_. Inr p)\<rparr>,
                 dx_debug_list = concat, dx_version = ''0.0.1'', dx_not_found = ''not found''\<rparr>,
      de_now = (\<lambda>n. 1000 + int n), de_fresh_id = (\<lambda>_. ''fresh''), de_uptime_ms = (\<lambda>n. n),
      de_feed = (\<lambda>_. []), de_join_panicked = (\<lambda>_. ''task panicked''), de_debug_op = (\<lambda>_. ''op'')\<rparr>"

definition demo_doc :: JsonValue where
  "demo_doc = JObject [(''version'', JString ''0.1'')]"

definition demo_daemon :: "Store \<Rightarrow> Daemon" where
  "demo_daemon s = \<lparr>dm_store = s, dm_poisoned = False, dm_cmds = [], dm_sched_alive = True,
                    dm_shutdown_armed = True, dm_shutdown_fired = False, dm_requests = 0\<rparr>"

lemma demo_validates:
  assumes "program_ok p"
  shows "\<exists>v. validate_value (dx_dsl (de_ext (demo_denv p))) demo_doc = Inr v \<and> val_program v = p"
proof -
  let ?D = "dx_dsl (de_ext (demo_denv p))"
  have "dsl_major ''0.1'' = ''0''" by code_simp
  then have "parse_envelope_value ?D demo_doc = Inr p"
    by (simp add: parse_envelope_value_def demo_doc_def SUPPORTED_DSL_MAJOR_def demo_denv_def)
  then show ?thesis using assms finish_result [of ?D p] by (auto simp: validate_value_def)
qed


text \<open>
  A short reference kills the daemon's store: submitting a valid program whose first
  predicate is a template over \<open>sha256:\<close> and fewer than four characters panics while the
  store is locked, and from then on every status, list, resume and collection request is
  answered with an internal error, whatever it asks for.
\<close>

theorem short_reference_poisons_store:
  assumes "validate_value (dx_dsl (de_ext E)) j = Inr v" "\<not> dm_poisoned d"
    and "predicates (val_program v) = (k, Template (''sha256:'' @ hex) conf region thr) # ps" "length hex < 4"
  shows "case handle_submit E i j base d of
    (resp, d') \<Rightarrow> rs_body resp = RB_Err (payload_simple Internal (de_join_panicked E (dm_requests d))) \<and>
      dm_poisoned d' \<and>
      (\<forall>i' op. op \<in> {Op_Gc, Op_List st, Op_Status pid, Op_Resume pid b} \<longrightarrow>
         (\<exists>resp' m. daemon_handle E i' op d' = (Inr resp', d'\<lparr>dm_requests := dm_requests d' + 1\<rparr>) \<and>
            rs_body resp' = RB_Err (payload_simple Internal m)))"
proof -
  define pq where "pq = (case prog_id (val_program v) of Some p \<Rightarrow> p | None \<Rightarrow> de_fresh_id E (dm_requests d))"
  have sub: "handle_submit E i j base d = submit_program E i pq (val_program v) base d"
    by (simp add: handle_submit_def assms(1) Let_def pq_def)
  have "get_asset (dm_store d) hex = None"
    using assms(4) by (simp add: get_asset_def asset_blob_path_def)
  then have "materialize_template_assets (de_ext E) (val_program v) base t (dm_store d) = (None, dm_store d)" for t
    using assms(3) strip_prefix_append [of "''sha256:''" hex]
    by (simp add: materialize_template_assets_def materialize_predicate_def materialize_image_ref_def
        del: strip_prefix_append)
  then have "submit_program E i pq (val_program v) base d =
      (internal_err i (de_join_panicked E (dm_requests d)), d\<lparr>dm_poisoned := True\<rparr>)"
    using assms(2) by (simp add: submit_program_def with_store_def submit_txn_def)
  then show ?thesis
    unfolding sub
    by (auto simp: internal_err_def response_err_def daemon_handle_def handle_gc_def handle_list_def
        handle_status_def handle_resume_def with_store_def)
qed

definition short_program :: Program where
  "short_program = demo_program\<lparr>predicates := [(''go'', Template (''sha256:'' @ ''ab'') 1
     (Absolute \<lparr>rect_x = 0, rect_y = 0, rect_w = 1, rect_h = 1\<rparr>) 0)]\<rparr>"

lemma short_program_ok: "program_ok short_program"
proof -
  have "validate_predicate_graph (predicates short_program) = Inr ()" by code_simp
  then show ?thesis
    by (simp add: program_ok_def validate_graph_ok) (simp add: short_program_def demo_program_def demo_watch_def
        when_ok_def target_ok_def lifetime_ok_def)
qed

theorem short_reference_poisons_store_witness:
  "case handle_submit (demo_denv short_program) ''r'' demo_doc None (demo_daemon demo_opened) of
    (resp, d') \<Rightarrow> dm_poisoned d' \<and>
      (\<exists>resp' m. daemon_handle (demo_denv short_program) ''s'' Op_Gc d' =
          (Inr resp', d'\<lparr>dm_requests := dm_requests d' + 1\<rparr>) \<and>
         rs_body resp' = RB_Err (payload_simple Internal m))"
proof -
  obtain v where v: "validate_value (dx_dsl (de_ext (demo_denv short_program))) demo_doc = Inr v"
    "val_program v = short_program" using demo_validates [OF short_program_ok] by blast
  let ?E = "demo_denv short_program" and ?d = "demo_daemon demo_opened"
  have np: "\<not> dm_poisoned ?d" by (simp add: demo_daemon_def)
  have ps: "predicates (val_program v) = (''go'', Template (''sha256:'' @ ''ab'') 1
     (Absolute \<lparr>rect_x = 0, rect_y = 0, rect_w = 1, rect_h = 1\<rparr>) 0) # []"
    by (simp add: v(2) short_program_def)
  obtain resp d' where h: "handle_submit ?E ''r'' demo_doc None ?d = (resp, d')" by fastforce
  have "dm_poisoned d'" and "\<forall>i' op. op \<in> {Op_Gc, Op_List None, Op_Status ''x'', Op_Resume ''x'' True} \<longrightarrow>
         (\<exists>resp' m. daemon_handle ?E i' op d' = (Inr resp', d'\<lparr>dm_requests := dm_requests d' + 1\<rparr>) \<and>
            rs_body resp' = RB_Err (payload_simple Internal m))"
    using short_reference_poisons_store [OF v(1) np ps, where i = "''r''" and base = None and st = None
      and pid = "''x''" and b = True] h by simp_all
  with h show ?thesis by simp
qed

section \<open>Resume\<close>

text \<open>
  Resume commits before it checks: when the stored source of a resumable program no
  longer validates, the client is told of the failure and no command is sent, but the row is
  left running.
\<close>

theorem failed_resume_leaves_running:
  assumes "\<not> dm_poisoned d" "find_program (dm_store d) pid = Some r"
    and "db_state r = ''failed''" "db_last_error_code r = Some ''daemon_restart''"
    and "ext_value_parse (dx_store (de_ext E)) (db_source_json r) = Inr j"
    and "validate_value (dx_dsl (de_ext E)) j = Inl e"
  shows "case handle_resume E i pid from_start d of
    (resp, d') \<Rightarrow> rs_body resp = RB_Err (validate_payload (de_ext E) e) \<and> dm_cmds d' = dm_cmds d \<and>
      db_state_of (dm_store d') pid = Some ''running''"
proof -
  define c where "c = (if from_start then 0 else cursor_or_zero (db_body_cursor r))"
  define s1 where "s1 = update_where pid (resume_row c (de_now E (dm_requests d))) (dm_store d)"
  have f1: "find_program s1 pid = Some (resume_row c (de_now E (dm_requests d)) r)"
    using assms(2) by (simp add: s1_def rows.find_upd)
  have "resume_program X pid from_start (de_now E (dm_requests d)) (dm_store d) = Inr (c, s1)" for X
    using assms(2-4) by (simp add: resume_program_def c_def s1_def Let_def)
  moreover have "get_program s1 pid = Inr (row_of Running (resume_row c (de_now E (dm_requests d)) r))"
    using state_from_as_str [of Running] by (simp add: get_program_def f1 resume_row_def)
  ultimately have "resume_txn (de_ext E) pid from_start (de_now E (dm_requests d)) (dm_store d)
      = (Some (Inl (validate_payload (de_ext E) e)), s1)"
    using assms(5,6) by (simp add: resume_txn_def Let_def row_of_def resume_row_def)
  with assms(1) f1 show ?thesis
    by (simp add: handle_resume_def with_store_def response_err_def db_state_of_def resume_row_def)
qed

theorem failed_resume_leaves_running_witness:
  "case handle_resume (demo_denv demo_program) ''r'' ''p'' False (demo_daemon (demo_opened\<lparr>st_programs :=
      [(new_program_row demo_new)\<lparr>db_state := ''failed'', db_last_error_code := Some ''daemon_restart''\<rparr>]\<rparr>)) of
    (resp, d') \<Rightarrow> dm_cmds d' = [] \<and> db_state_of (dm_store d') ''p'' = Some ''running''"
proof -
  let ?r = "(new_program_row demo_new)\<lparr>db_state := ''failed'', db_last_error_code := Some ''daemon_restart''\<rparr>"
  let ?d = "demo_daemon (demo_opened\<lparr>st_programs := [?r]\<rparr>)" and ?E = "demo_denv demo_program"
  have "\<not> dm_poisoned ?d" "find_program (dm_store ?d) ''p'' = Some ?r"
    by (simp_all add: demo_daemon_def find_program_def demo_new_def new_program_row_def)
  moreover have "ext_value_parse (dx_store (de_ext ?E)) (db_source_json ?r) = Inr JNull"
    by (simp add: demo_denv_def demo_sx_def)
  moreover obtain e where "validate_value (dx_dsl (de_ext ?E)) JNull = Inl e"
    by (simp add: validate_value_def parse_envelope_value_def)
  ultimately show ?thesis
    using failed_resume_leaves_running [of ?d "''p''" ?r ?E JNull e "''r''" False]
    by (simp add: demo_daemon_def split: prod.splits)
qed

section \<open>Startup\<close>

lemma send_undrained_eq:
  "length q \<le> CMD_CAPACITY \<Longrightarrow>
   send_undrained q cs = (if length q + length cs \<le> CMD_CAPACITY then Some (q @ cs) else None)"
  by (induction cs arbitrary: q) auto

text \<open>
  Startup sends one command for each waiting program whose source still validates and
  whose assets are there, in order of submission, and it returns only if there are at most
  256 of them: the scheduler thread that drains the channel is started afterwards, so the
  257th send waits forever.
\<close>

theorem reload_fits_channel:
  assumes "list_programs s (Some Waiting) = Some rows" "reload_rows D now rows s = (Some reloaded, s')"
  shows "reload_waiting_programs D now s =
    (if length reloaded \<le> 256
     then Some (map (\<lambda>(pid, p, assets). SubmitValidated pid p assets) reloaded, length reloaded, s')
     else None)"
  using assms send_undrained_eq [of "[]"] by (simp add: reload_waiting_programs_def CMD_CAPACITY_def)

theorem reload_fits_channel_witness:
  "reload_waiting_programs (de_ext (demo_denv demo_program)) 5 demo_opened = Some ([], 0, demo_opened)"
proof -
  have "list_programs demo_opened (Some Waiting) = Some []"
    by (simp add: list_programs_def demo_opened_def fresh_disk_def)
  from reload_fits_channel [OF this, of "de_ext (demo_denv demo_program)" 5 "[]" demo_opened] show ?thesis
    by simp
qed

section \<open>Requests and responses\<close>

definition demo_request :: Request where
  "demo_request = \<lparr>rq_id = ''r'', rq_op = Op_Cancel ''p''\<rparr>"

definition demo_response :: Response where
  "demo_response = response_ok ''r'' (json_obj [(''program_id'', JString ''p'')])"

text \<open>A codec that knows one request, one response and the end of one stream.\<close>

definition demo_codec :: Codec where
  "demo_codec =
     \<lparr>cd_enc_request = (\<lambda>v. if v = demo_request then Inr [1] else if v = demo_request\<lparr>rq_op := Op_Trace ''p''\<rparr>
                             then Inr [2] else Inl ''no''),
      cd_dec_request = (\<lambda>b. if b = [1] then Inr demo_request else if b = [2]
                             then Inr (demo_request\<lparr>rq_op := Op_Trace ''p''\<rparr>) else Inl ''no''),
      cd_enc_response = (\<lambda>v. if v = demo_response then Inr [3] else Inl ''no''),
      cd_dec_response = (\<lambda>b. if b = [3] then Inr demo_response else Inl ''no''),
      cd_enc_frame = (\<lambda>v. if v = end_of_stream ''r'' SK_Trace then Inr [4] else Inl ''no''),
      cd_dec_frame = (\<lambda>b. if b = [4] then Inr (end_of_stream ''r'' SK_Trace) else Inl ''no'')\<rparr>"

lemma demo_codec_ok: "codec_ok demo_codec"
  by (auto simp: codec_ok_def demo_codec_def split: if_splits)

text \<open>
  C27. A client's one-shot request is answered by the daemon's own response: however the
  bytes are split in transit, the connection serves exactly that request, the client reads
  the response the handler built, with the request's id, and the connection ends cleanly
  when the client closes it.
\<close>

theorem client_gets_daemon_response:
  assumes "codec_ok C" "\<not> is_streaming op" "client_send C i op = Inr bs"
    and "solid chunks" "concat chunks = bs"
    and "handle_connection C fresh (daemon_handler E) chunks d = ((out, None), d')"
    and "solid reply" "concat reply = out"
  shows "\<exists>resp. daemon_handle E i op d = (Inr resp, d') \<and> client_receive C i reply = Inr resp \<and> rs_id resp = i"
proof -
  obtain resp d1 where h: "daemon_handle E i op d = (Inr resp, d1)"
    by (cases "daemon_handle E i op d") (auto simp: daemon_handle_def split: prod.splits)
  from dh.oneshot_round_trip [OF assms] h show ?thesis
    by (auto simp: daemon_handler_def)
qed

theorem client_gets_daemon_response_witness:
  "\<exists>resp d'. daemon_handle (demo_denv demo_program) ''r'' (Op_Cancel ''p'') (demo_daemon demo_opened) = (Inr resp, d') \<and>
     client_receive demo_codec ''r'' [to_be_bytes 1, [3]] = Inr resp \<and> rs_id resp = ''r''"
proof -
  let ?E = "demo_denv demo_program" and ?d = "demo_daemon demo_opened"
  have send: "client_send demo_codec ''r'' (Op_Cancel ''p'') = Inr (to_be_bytes 1 @ [1])"
    by (simp add: client_send_def write_frame_def demo_codec_def demo_request_def MAX_FRAME_LEN_def)
  have sol: "solid [to_be_bytes 1, [1]]" "solid [to_be_bytes 1, [3]]"
    by (simp_all add: solid_def to_be_bytes_def)
  have "handle_connection demo_codec ''f'' (daemon_handler ?E) [to_be_bytes 1, [1]] ?d
      = serve_all demo_codec (daemon_handler ?E) [demo_request] ?d"
    using send sol(1)
    by (intro connection_serves [OF demo_codec_ok, where frames = "[to_be_bytes 1 @ [1]]"])
       (simp_all add: client_send_def demo_request_def)
  also have "\<exists>d'. \<dots> = ((to_be_bytes 1 @ [3], None), d')"
    by (simp add: dispatch_def dispatch_oneshot_def demo_request_def daemon_handler_def daemon_handle_def
        handle_cancel_def send_cmd_def demo_daemon_def write_frame_def demo_codec_def demo_response_def
        MAX_FRAME_LEN_def)
  finally obtain d' where "handle_connection demo_codec ''f'' (daemon_handler ?E) [to_be_bytes 1, [1]] ?d
      = ((to_be_bytes 1 @ [3], None), d')" by blast
  from client_gets_daemon_response [OF demo_codec_ok _ send sol(1) _ this sol(2)] show ?thesis by auto
qed

text \<open>
  A connection is the sequence of its requests: when the bytes that arrive are the
  frames of a list of requests, in any division into reads, the loop of the server does
  exactly what serving those requests one after the other does, up to the first response
  that does not fit a frame.
\<close>

theorem connection_is_sequential:
  assumes "codec_ok C" "solid chunks"
    and "list_all2 (\<lambda>r b. write_frame (cd_enc_request C) r = Inr b) reqs frames"
    and "concat chunks = concat frames"
  shows "handle_connection C fresh (daemon_handler E) chunks d = serve_all C (daemon_handler E) reqs d"
  by (rule connection_serves [OF assms])

theorem connection_is_sequential_witness:
  "handle_connection demo_codec ''f'' (daemon_handler (demo_denv demo_program))
     [[0], [0, 0, 1, 1, 0], [0, 0, 1, 1]] (demo_daemon demo_opened) =
   serve_all demo_codec (daemon_handler (demo_denv demo_program)) [demo_request, demo_request]
     (demo_daemon demo_opened)"
proof (rule connection_is_sequential [OF demo_codec_ok, where frames = "[to_be_bytes 1 @ [1], to_be_bytes 1 @ [1]]"])
  show "list_all2 (\<lambda>r b. write_frame (cd_enc_request demo_codec) r = Inr b) [demo_request, demo_request]
      [to_be_bytes 1 @ [1], to_be_bytes 1 @ [1]]"
    by (simp add: write_frame_def demo_codec_def MAX_FRAME_LEN_def)
qed (simp_all add: solid_def to_be_bytes_def)

text \<open>
  C28. A streaming request is answered by exactly the frames the daemon pushed, in order,
  then the end of the stream: for logs and events without \<open>follow\<close>, the decodable rows of the
  log among the first 10000, of that program only.
\<close>

theorem client_streams_daemon_frames:
  assumes "codec_ok C" "is_streaming op" "client_send C i op = Inr bs"
    and "solid chunks" "concat chunks = bs"
    and "handle_connection C fresh (daemon_handler E) chunks d = ((out, None), d')"
    and "solid reply" "concat reply = out"
  shows "let fs = fst (daemon_handle_stream E i op d)
    in next_frames C (Suc (length fs)) \<lparr>rst_reader = reply, rst_id = i, rst_done = False\<rparr>
         = map (Inr \<circ> Some) fs @ [Inr None] \<and>
       (\<forall>pid. op = Op_Logs pid False \<and> \<not> dm_poisoned d \<longrightarrow>
          fs = history_frames (dx_store (de_ext E)) i (Some pid) (stream_events (dm_store d) 0 10000))"
  using dh.stream_round_trip [OF assms]
  by (auto simp: daemon_handler_def Let_def daemon_handle_stream_def daemon_stream_events_def with_store_def)

theorem client_streams_daemon_frames_witness:
  "next_frames demo_codec 1 \<lparr>rst_reader = [to_be_bytes 1, [4]], rst_id = ''r'', rst_done = False\<rparr> = [Inr None]"
proof -
  let ?E = "demo_denv demo_program" and ?d = "demo_daemon demo_opened" and ?op = "Op_Trace ''p''"
  have send: "client_send demo_codec ''r'' ?op = Inr (to_be_bytes 1 @ [2])"
    by (simp add: client_send_def write_frame_def demo_codec_def demo_request_def MAX_FRAME_LEN_def)
  have sol: "solid [to_be_bytes 1, [2]]" "solid [to_be_bytes 1, [4]]"
    by (simp_all add: solid_def to_be_bytes_def)
  have "handle_connection demo_codec ''f'' (daemon_handler ?E) [to_be_bytes 1, [2]] ?d
      = serve_all demo_codec (daemon_handler ?E) [\<lparr>rq_id = ''r'', rq_op = ?op\<rparr>] ?d"
    using send sol(1)
    by (intro connection_serves [OF demo_codec_ok, where frames = "[to_be_bytes 1 @ [2]]"])
       (simp_all add: client_send_def)
  also have "\<exists>d'. \<dots> = ((to_be_bytes 1 @ [4], None), d')"
    by (simp add: dispatch_def dispatch_stream_def daemon_handler_def daemon_handle_stream_def
        write_frame_def demo_codec_def stream_kind_def MAX_FRAME_LEN_def)
  finally obtain d' where "handle_connection demo_codec ''f'' (daemon_handler ?E) [to_be_bytes 1, [2]] ?d
      = ((to_be_bytes 1 @ [4], None), d')" by blast
  from client_streams_daemon_frames [OF demo_codec_ok _ send sol(1) _ this sol(2)] show ?thesis
    by (auto simp: daemon_handle_stream_def Let_def)
qed

text \<open>
  Damaged input is reported exactly: a connection that ends inside a header or inside a
  body gives the number of bytes seen and expected, and a length beyond the limit is refused
  before anything of the body is read.
\<close>

theorem frame_errors_exact:
  assumes "solid chunks"
  shows "(length (concat chunks) < 4 \<longrightarrow>
       read_frame dec chunks = Inl (IE_UnexpectedEof (length (concat chunks)) 4)) \<and>
    (\<forall>n bs. concat chunks = to_be_bytes n @ bs \<and> n \<le> MAX_FRAME_LEN \<and> length bs < n \<longrightarrow>
       read_frame dec chunks = Inl (IE_UnexpectedEof (length bs) n)) \<and>
    (\<forall>n bs. concat chunks = to_be_bytes n @ bs \<and> MAX_FRAME_LEN < n \<and> n \<le> u32_max \<longrightarrow>
       read_frame dec chunks = Inl (IE_FrameTooLarge n MAX_FRAME_LEN))"
  using read_truncated_header [OF assms] read_truncated_body [OF assms] read_oversized [OF assms] by blast

theorem frame_errors_exact_witness:
  "read_frame (cd_dec_request demo_codec) [[0, 0], [0]] = Inl (IE_UnexpectedEof 3 4)"
  using frame_errors_exact [of "[[0, 0], [0]]" "cd_dec_request demo_codec"] by (simp add: solid_def)

section \<open>Materialised programs\<close>

lemma haystack_error: "template_haystack c region = Some (Inl e) \<Longrightarrow> e = RegionOutOfBounds"
  by (cases region)
     (auto simp: template_haystack_def Let_def map_sum_Inl dest: crop_rgb_err frame_to_rgb_err)

text \<open>
  C26. A program that was materialised never misses an asset: every template predicate, named
  or inline, refers to a digest whose bytes are in the command, so evaluating it with those
  bytes cannot report an asset that is not materialised; nothing else of the program
  changes.
\<close>

theorem materialized_never_missing:
  assumes "materialize_template_assets D p base now s = (Some (Inr (p', m)), s')"
  shows "p' = p\<lparr>predicates := predicates p', watches := watches p'\<rparr> \<and>
    btree_keys (predicates p') = btree_keys (predicates p) \<and>
    map watch_steps (watches p') = map watch_steps (watches p) \<and>
    (\<forall>img conf region thr.
       (Template img conf region thr \<in> snd ` set (predicates p') \<or>
        Inline (Template img conf region thr) \<in> when_cond ` set (watches p')) \<longrightarrow>
       (\<exists>h \<in> set (ma_hashes m). img = ''sha256:'' @ h) \<and>
       (\<forall>X c r. ctx_assets c = ma_bytes m \<longrightarrow>
          template_evaluate X c img conf region \<noteq> Some (Inl (AssetNotMaterialized r))))"
proof -
  note ok = materialize_ok(2) [OF assms refl]
  have "(\<exists>h \<in> set (ma_hashes m). img = ''sha256:'' @ h) \<and>
       (\<forall>X c r. ctx_assets c = ma_bytes m \<longrightarrow>
          template_evaluate X c img conf region \<noteq> Some (Inl (AssetNotMaterialized r)))"
    if t: "Template img conf region thr \<in> snd ` set (predicates p') \<or>
        Inline (Template img conf region thr) \<in> when_cond ` set (watches p')" for img conf region thr
  proof -
    have "ref_ok m img"
      using t
    proof
      assume "Template img conf region thr \<in> snd ` set (predicates p')"
      with ok show ?thesis by (auto dest!: bspec simp: pred_ok_def)
    next
      assume "Inline (Template img conf region thr) \<in> when_cond ` set (watches p')"
      then obtain w where "w \<in> set (watches p')" "when_cond w = Inline (Template img conf region thr)"
        by fastforce
      with ok show ?thesis by (auto dest!: bspec simp: pred_ok_def watch_mat_ok_def)
    qed
    then obtain h b where h: "img = ''sha256:'' @ h" "h \<in> set (ma_hashes m)" "btree_get (ma_bytes m) h = Some b"
      by (auto simp: ref_ok_def)
    have "strip_prefix ''sha256:'' img = Some h" unfolding h(1) by (rule strip_prefix_append)
    then have "template_evaluate X c img conf region \<noteq> Some (Inl (AssetNotMaterialized r))"
      if "ctx_assets c = ma_bytes m" for X c r
      using that h(3) haystack_error [of c region]
      by (auto simp: template_evaluate_def decode_gray_def Let_def split: prod.splits sum.splits option.splits if_splits)
    with h show ?thesis by blast
  qed
  with ok show ?thesis by blast
qed

theorem materialized_never_missing_witness:
  "\<exists>p' m s'. materialize_template_assets (de_ext (demo_denv demo_program)) demo_program None 5 demo_opened
     = (Some (Inr (p', m)), s') \<and> btree_keys (predicates p') = [''go'']"
proof -
  obtain p' m s' where h: "materialize_template_assets (de_ext (demo_denv demo_program)) demo_program None 5
      demo_opened = (Some (Inr (p', m)), s')"
    by (simp add: materialize_template_assets_def demo_program_def demo_watch_def materialize_predicate_def
        materialize_watch_def)
  with materialized_never_missing [OF h] show ?thesis by (simp add: demo_program_def)
qed

end
