(* ===== verification/Text_Numbers.thy ===== *)
theory Text_Numbers
  imports Dsl_Lemmas
begin

text \<open>
  Numbers as text, as the standard library prints and reads them: \<open>str::parse\<close> on \<open>u32\<close> and
  \<open>i32\<close>, and zero-padded formats.  What is printed is read back.
\<close>

definition is_digit :: "char \<Rightarrow> bool" where
  "is_digit c \<longleftrightarrow> 48 \<le> (of_char c :: nat) \<and> (of_char c :: nat) \<le> 57"

definition digits_value :: "string \<Rightarrow> nat" where
  "digits_value = foldl (\<lambda>n c. 10 * n + (of_char c - 48)) 0"

text \<open>\<open>str::parse::<u32>\<close>: an optional plus sign and at least one digit, value in range.\<close>

definition parse_u32 :: "string \<Rightarrow> u32 option" where
  "parse_u32 s =
     (let ds = (case s of c # cs \<Rightarrow> if c = CHR ''+'' then cs else s | [] \<Rightarrow> s)
      in if ds \<noteq> [] \<and> list_all is_digit ds \<and> digits_value ds \<le> u32_max then Some (digits_value ds) else None)"

text \<open>\<open>str::parse::<i32>\<close>: an optional sign of either kind.\<close>

definition parse_i32 :: "string \<Rightarrow> i32 option" where
  "parse_i32 s =
     (let neg = (case s of c # _ \<Rightarrow> c = CHR ''-'' | [] \<Rightarrow> False);
          ds = (case s of c # cs \<Rightarrow> if c = CHR ''+'' \<or> c = CHR ''-'' then cs else s | [] \<Rightarrow> s);
          v = (if neg then - int (digits_value ds) else int (digits_value ds))
      in if ds \<noteq> [] \<and> list_all is_digit ds \<and> is_i32 v then Some v else None)"

text \<open>The format \<open>{:0w}\<close>: zeros between the sign and the digits up to the width.\<close>

definition zero_pad :: "nat \<Rightarrow> int \<Rightarrow> string" where
  "zero_pad w i =
     (if i < 0 then CHR ''-'' # replicate (w - 1 - length (nat_str (nat (- i)))) (CHR ''0'') @ nat_str (nat (- i))
      else replicate (w - length (nat_str (nat i))) (CHR ''0'') @ nat_str (nat i))"

section \<open>Lemmas\<close>

lemma of_char_digit: "d < 10 \<Longrightarrow> (of_char (digit_char d) :: nat) = 48 + d"
  by (simp add: digit_char_def)

lemma nat_str_is_digit: "list_all is_digit (nat_str n)"
  unfolding list_all_iff using nat_str_digits [of _ n] of_char_digit by (fastforce simp: is_digit_def)

lemma digits_value_nat_str: "digits_value (nat_str n) = n"
proof (induction n rule: nat_str.induct)
  case (1 n)
  show ?case
  proof (cases "n < 10")
    case True
    then show ?thesis by (simp add: digits_value_def nat_str.simps [of n] of_char_digit)
  next
    case False
    then have "digits_value (nat_str n) = 10 * digits_value (nat_str (n div 10)) + n mod 10"
      by (simp add: digits_value_def nat_str.simps [of n] of_char_digit)
    with False 1 show ?thesis by simp
  qed
qed

lemma digits_value_zeros: "digits_value (replicate k (CHR ''0'') @ s) = digits_value s"
proof -
  have "foldl (\<lambda>n c. 10 * n + (of_char c - 48)) 0 (replicate k (CHR ''0'')) = (0 :: nat)" by (induction k) simp_all
  then show ?thesis by (simp add: digits_value_def)
qed

lemma zero_pad_nat:
  assumes "0 \<le> i"
  shows "list_all is_digit (zero_pad w i)" "digits_value (zero_pad w i) = nat i" "zero_pad w i \<noteq> []"
proof -
  have "is_digit (CHR ''0'')" by (simp add: is_digit_def)
  with assms nat_str_is_digit [of "nat i"] show "list_all is_digit (zero_pad w i)"
    by (auto simp: zero_pad_def list_all_iff)
  show "digits_value (zero_pad w i) = nat i"
    using assms by (simp add: zero_pad_def digits_value_zeros digits_value_nat_str)
qed (simp add: zero_pad_def)

lemma digit_not_sign: "is_digit c \<Longrightarrow> c \<noteq> CHR ''+'' \<and> c \<noteq> CHR ''-''"
  by (auto simp: is_digit_def)

lemma parse_digits:
  assumes "list_all is_digit s" "s \<noteq> []"
  shows "digits_value s \<le> u32_max \<Longrightarrow> parse_u32 s = Some (digits_value s)"
    and "int (digits_value s) \<le> i32_max \<Longrightarrow> parse_i32 s = Some (int (digits_value s))"
proof -
  obtain c cs where s: "s = c # cs" using assms(2) by (cases s) auto
  then have c: "c \<noteq> CHR ''+''" "c \<noteq> CHR ''-''" using assms(1) digit_not_sign by simp_all
  then show "digits_value s \<le> u32_max \<Longrightarrow> parse_u32 s = Some (digits_value s)"
    and "int (digits_value s) \<le> i32_max \<Longrightarrow> parse_i32 s = Some (int (digits_value s))"
    using assms(1) by (simp_all add: s parse_u32_def parse_i32_def Let_def is_i32_def)
qed

lemma parse_zero_pad:
  assumes "0 \<le> i"
  shows "nat i \<le> u32_max \<Longrightarrow> parse_u32 (zero_pad w i) = Some (nat i)"
    and "i \<le> i32_max \<Longrightarrow> parse_i32 (zero_pad w i) = Some i"
  using parse_digits [OF zero_pad_nat(1,3) [OF assms]] zero_pad_nat(2) [OF assms] assms by simp_all

lemma zero_pad_chars: "0 \<le> i \<Longrightarrow> c \<in> set (zero_pad w i) \<Longrightarrow> is_digit c"
  using zero_pad_nat(1) [of i w] by (simp add: list_all_iff)

end
