(* ===== verification/Pidfile.thy ===== *)
theory Pidfile
  imports Daemon Ipc Text_Numbers
begin

text \<open>
  The single-instance guard of the daemon (\<open>vcli-daemon/src/pidfile.rs\<close>) and its errors
  (\<open>error.rs\<close>).  The guard is modelled at the level of its system calls, because several
  processes run it at the same time: a world has the inode that the path names, the text and
  the lock of every inode, and where each process stands in \<open>acquire\<close>, \<open>release\<close> or
  \<open>drop\<close>.  A lock belongs to an inode and vanishes with its process; removing the file
  removes the name and leaves the inode to those who have it open.  Failures of the file
  system are not modelled, and file contents are text.
\<close>

section \<open>Errors\<close>

datatype DaemonError =
    AlreadyRunning u32 path
  | PidfileError path string
  | PathsError string
  | LoggingError string
  | DE_Store StoreError
  | DE_Ipc IpcError
  | DE_Io string
  | DE_InvalidProgram string
  | BackendInit string string

fun daemon_error_code :: "DaemonError \<Rightarrow> ErrorCode" where
  "daemon_error_code (DE_InvalidProgram _) = InvalidProgram"
| "daemon_error_code _ = Internal"

fun daemon_error_display :: "StoreExt \<Rightarrow> DaemonError \<Rightarrow> string" where
  "daemon_error_display X (AlreadyRunning pid p) =
     ''another vcli-daemon is already running (pid '' @ nat_str pid @ '', lockfile '' @ p @ '')''"
| "daemon_error_display X (PidfileError p m) = ''pidfile '' @ p @ '': '' @ m"
| "daemon_error_display X (PathsError m) = ''path resolution: '' @ m"
| "daemon_error_display X (LoggingError m) = ''logging init: '' @ m"
| "daemon_error_display X (DE_Store e) = ''store: '' @ store_error_display X e"
| "daemon_error_display X (DE_Ipc e) = ''ipc: '' @ ipc_error_display e"
| "daemon_error_display X (DE_Io m) = ''io: '' @ m"
| "daemon_error_display X (DE_InvalidProgram m) = ''invalid program: '' @ m"
| "daemon_error_display X (BackendInit b m) = b @ '' backend init failed: '' @ m"

section \<open>Reading a recorded pid\<close>

text \<open>The trimming of the recorded text is that of the key parser.\<close>

definition recorded_pid :: "string \<Rightarrow> u32" where
  "recorded_pid s = (case parse_u32 (str_trim s) of None \<Rightarrow> 0 | Some n \<Rightarrow> n)"

section \<open>The world\<close>

text \<open>
  Where a process stands.  \<open>Opened\<close>, \<open>Locked\<close>, \<open>Truncated\<close>, \<open>Numbered\<close>: inside \<open>acquire\<close>,
  after the named system call; \<open>Holding\<close>: \<open>acquire\<close> has returned; \<open>Refused\<close>: it has returned
  \<open>AlreadyRunning\<close>; \<open>Releasing\<close>: \<open>release\<close> has unlocked and closed the file; \<open>Released\<close>: it has
  removed the name and the handle is about to be dropped; \<open>Dropping\<close>: the handle's \<open>drop\<close>
  has unlocked; \<open>Gone\<close>: finished or killed.
\<close>

datatype PidProc =
    Outside | Opened nat | Locked nat | Truncated nat | Numbered nat | Holding nat
  | Refused u32 | Releasing | Released | Dropping | Gone

record PidWorld =
  pw_entry :: "nat option"
  pw_fresh :: nat
  pw_text :: "nat \<Rightarrow> string"
  pw_lock :: "nat \<Rightarrow> u32 option"
  pw_proc :: "u32 \<Rightarrow> PidProc"

definition set_proc :: "u32 \<Rightarrow> PidProc \<Rightarrow> PidWorld \<Rightarrow> PidWorld" where
  "set_proc p st w = w\<lparr>pw_proc := (pw_proc w)(p := st)\<rparr>"

definition unlock :: "u32 \<Rightarrow> PidWorld \<Rightarrow> PidWorld" where
  "unlock p w = w\<lparr>pw_lock := (\<lambda>i. if pw_lock w i = Some p then None else pw_lock w i)\<rparr>"

section \<open>System calls of acquire, release and drop\<close>

definition acquire_open :: "u32 \<Rightarrow> PidWorld \<Rightarrow> PidWorld" where
  "acquire_open p w =
     (case pw_entry w of
        Some i \<Rightarrow> set_proc p (Opened i) w
      | None \<Rightarrow> set_proc p (Opened (pw_fresh w))
                  (w\<lparr>pw_entry := Some (pw_fresh w), pw_fresh := Suc (pw_fresh w),
                     pw_text := (pw_text w)(pw_fresh w := [])\<rparr>))"

definition acquire_lock :: "u32 \<Rightarrow> nat \<Rightarrow> PidWorld \<Rightarrow> PidWorld" where
  "acquire_lock p i w =
     (if pw_lock w i = None then set_proc p (Locked i) (w\<lparr>pw_lock := (pw_lock w)(i := Some p)\<rparr>)
      else set_proc p (Refused (recorded_pid (pw_text w i))) w)"

definition acquire_truncate :: "u32 \<Rightarrow> nat \<Rightarrow> PidWorld \<Rightarrow> PidWorld" where
  "acquire_truncate p i w = set_proc p (Truncated i) (w\<lparr>pw_text := (pw_text w)(i := [])\<rparr>)"

text \<open>\<open>writeln!\<close> on an unbuffered file writes the number and the line feed separately.\<close>

definition acquire_number :: "u32 \<Rightarrow> nat \<Rightarrow> PidWorld \<Rightarrow> PidWorld" where
  "acquire_number p i w = set_proc p (Numbered i) (w\<lparr>pw_text := (pw_text w)(i := pw_text w i @ nat_str p)\<rparr>)"

definition acquire_newline :: "u32 \<Rightarrow> nat \<Rightarrow> PidWorld \<Rightarrow> PidWorld" where
  "acquire_newline p i w = set_proc p (Holding i) (w\<lparr>pw_text := (pw_text w)(i := pw_text w i @ [CHR 0x0A])\<rparr>)"

definition release_unlock :: "u32 \<Rightarrow> PidWorld \<Rightarrow> PidWorld" where
  "release_unlock p w = set_proc p Releasing (unlock p w)"

definition release_unlink :: "u32 \<Rightarrow> PidWorld \<Rightarrow> PidWorld" where
  "release_unlink p w = set_proc p Released (w\<lparr>pw_entry := None\<rparr>)"

definition drop_unlock :: "u32 \<Rightarrow> PidWorld \<Rightarrow> PidWorld" where
  "drop_unlock p w = set_proc p Dropping (unlock p w)"

definition drop_unlink :: "u32 \<Rightarrow> PidWorld \<Rightarrow> PidWorld" where
  "drop_unlink p w = set_proc p Gone (w\<lparr>pw_entry := None\<rparr>)"

definition killed :: "u32 \<Rightarrow> PidWorld \<Rightarrow> PidWorld" where
  "killed p w = set_proc p Gone (unlock p w)"

text \<open>
  The next system call of a process.  A handle that is held is released when \<open>orderly\<close>
  and dropped otherwise; \<open>release\<close> ends by dropping the handle, which removes the name
  once more.
\<close>

definition pid_step :: "bool \<Rightarrow> u32 \<Rightarrow> PidWorld \<Rightarrow> PidWorld" where
  "pid_step orderly p w =
     (case pw_proc w p of
        Outside \<Rightarrow> acquire_open p w
      | Opened i \<Rightarrow> acquire_lock p i w
      | Locked i \<Rightarrow> acquire_truncate p i w
      | Truncated i \<Rightarrow> acquire_number p i w
      | Numbered i \<Rightarrow> acquire_newline p i w
      | Holding _ \<Rightarrow> if orderly then release_unlock p w else drop_unlock p w
      | Releasing \<Rightarrow> release_unlink p w
      | Released \<Rightarrow> drop_unlink p w
      | Dropping \<Rightarrow> drop_unlink p w
      | Refused _ \<Rightarrow> w
      | Gone \<Rightarrow> w)"

text \<open>\<open>acquire\<close> and \<open>release\<close> of one process that nobody interrupts.\<close>

definition acquire :: "path \<Rightarrow> u32 \<Rightarrow> PidWorld \<Rightarrow> (DaemonError + u32) \<times> PidWorld" where
  "acquire path p w =
     (let w2 = pid_step True p (pid_step True p w)
      in case pw_proc w2 p of
           Refused q \<Rightarrow> (Inl (AlreadyRunning q path), w2)
         | _ \<Rightarrow> (Inr p, pid_step True p (pid_step True p (pid_step True p w2))))"

definition release :: "u32 \<Rightarrow> PidWorld \<Rightarrow> PidWorld" where
  "release p w = pid_step True p (pid_step True p (pid_step True p w))"

section \<open>Runs\<close>

datatype PidOp = Step u32 bool | Kill u32

fun pid_op :: "PidOp \<Rightarrow> PidWorld \<Rightarrow> PidWorld" where
  "pid_op (Step p orderly) w = pid_step orderly p w"
| "pid_op (Kill p) w = killed p w"

definition pid_run :: "PidOp list \<Rightarrow> PidWorld \<Rightarrow> PidWorld" where
  "pid_run = fold pid_op"

definition inode_of :: "PidProc \<Rightarrow> nat option" where
  "inode_of st = (case st of Locked i \<Rightarrow> Some i | Truncated i \<Rightarrow> Some i | Numbered i \<Rightarrow> Some i
                  | Holding i \<Rightarrow> Some i | _ \<Rightarrow> None)"

definition holds :: "PidWorld \<Rightarrow> u32 \<Rightarrow> bool" where
  "holds w p \<longleftrightarrow> (\<exists>i. pw_proc w p = Holding i)"

text \<open>Before any daemon has started: nobody has the file open, it may or may not exist.\<close>

definition pid_initial :: "PidWorld \<Rightarrow> bool" where
  "pid_initial w \<longleftrightarrow> (\<forall>p. pw_proc w p = Outside) \<and> (\<forall>i. pw_lock w i = None)"

text \<open>
  Worlds in which no orderly exit overlaps a start: a daemon that holds the file keeps
  running, is killed, or releases while nobody else has just opened the file.
\<close>

inductive undisturbed :: "PidWorld \<Rightarrow> bool" where
  initial: "pid_initial w \<Longrightarrow> undisturbed w"
| stepped: "undisturbed w \<Longrightarrow> \<not> holds w p \<Longrightarrow> undisturbed (pid_step orderly p w)"
| killed: "undisturbed w \<Longrightarrow> undisturbed (killed p w)"
| released: "undisturbed w \<Longrightarrow> holds w p \<Longrightarrow> (\<And>q i. pw_proc w q \<noteq> Opened i) \<Longrightarrow> undisturbed (release p w)"

end
