(* ===== verification/Locations.thy ===== *)
theory Locations
  imports Pidfile
begin

text \<open>
  Where the daemon and its clients meet: the socket path (\<open>vcli-ipc/src/socket_path.rs\<close>) and
  the daemon's directories (\<open>vcli-daemon/src/config.rs\<close>).  A \<open>Platform\<close> is what these
  functions read: the operating system, the environment variables, the text that \<open>id -u\<close>
  prints (\<open>None\<close> when it cannot run or prints no UTF-8), which directories exist, and the home,
  data and cache directories that the \<open>dirs\<close> crate reports.
\<close>

datatype TargetOs = MacOs | LinuxOs | OtherOs

record Platform =
  pf_os :: TargetOs
  pf_env :: "string \<Rightarrow> string option"
  pf_id_output :: "string option"
  pf_is_dir :: "path \<Rightarrow> bool"
  pf_home_dir :: "path option"
  pf_data_local_dir :: "path option"
  pf_cache_dir :: "path option"

section \<open>Socket path\<close>

datatype SocketPathOrigin = OriginOverride | MacTmpdir | XdgRuntimeDir | RunUser | TmpFallback

record SocketPath =
  sp_path :: path
  sp_origin :: SocketPathOrigin

definition OVERRIDE_ENV :: string where "OVERRIDE_ENV = ''VCLI_SOCKET''"

definition uid :: "Platform \<Rightarrow> u32" where
  "uid P = (case Option.bind (pf_id_output P) (\<lambda>s. parse_u32 (str_trim s)) of Some n \<Rightarrow> n | None \<Rightarrow> 0)"

definition sock_in_dir :: "Platform \<Rightarrow> path \<Rightarrow> path option" where
  "sock_in_dir P dir = (if dir = [] then None else Some (path_join dir (''vcli-'' @ nat_str (uid P) @ ''.sock'')))"

definition try_mac_tmpdir :: "Platform \<Rightarrow> path option" where
  "try_mac_tmpdir P = Option.bind (pf_env P ''TMPDIR'') (sock_in_dir P)"

definition try_xdg_runtime_dir :: "Platform \<Rightarrow> path option" where
  "try_xdg_runtime_dir P =
     Option.bind (pf_env P ''XDG_RUNTIME_DIR'') (\<lambda>d. if d = [] then None else Some (path_join d ''vcli.sock''))"

definition try_run_user :: "Platform \<Rightarrow> path option" where
  "try_run_user P =
     (let p = ''/run/user/'' @ nat_str (uid P)
      in if pf_is_dir P p then Some (path_join p ''vcli.sock'') else None)"

definition try_tmp_fallback :: "Platform \<Rightarrow> path" where
  "try_tmp_fallback P = ''/tmp/vcli-'' @ nat_str (uid P) @ ''.sock''"

definition default_socket_path :: "Platform \<Rightarrow> IpcError + SocketPath" where
  "default_socket_path P =
     (let sp = (\<lambda>p origin. Inr \<lparr>sp_path = p, sp_origin = origin\<rparr>)
      in case pf_env P OVERRIDE_ENV of
           Some p \<Rightarrow> sp p OriginOverride
         | None \<Rightarrow>
             (case if pf_os P = MacOs then try_mac_tmpdir P else None of
                Some p \<Rightarrow> sp p MacTmpdir
              | None \<Rightarrow>
                  (case if pf_os P = LinuxOs then try_xdg_runtime_dir P else None of
                     Some p \<Rightarrow> sp p XdgRuntimeDir
                   | None \<Rightarrow>
                       (case if pf_os P = LinuxOs then try_run_user P else None of
                          Some p \<Rightarrow> sp p RunUser
                        | None \<Rightarrow> sp (try_tmp_fallback P) TmpFallback))))"

section \<open>Configuration of the daemon\<close>

record Config =
  cf_data_root :: path
  cf_socket :: SocketPath
  cf_log_dir :: path

definition platform_data_root :: "Platform \<Rightarrow> DaemonError + path" where
  "platform_data_root P =
     (if pf_os P = MacOs
      then (case pf_home_dir P of
              None \<Rightarrow> Inl (PathsError ''no home dir'')
            | Some home \<Rightarrow> Inr (path_join (path_join (path_join home ''Library'') ''Application Support'') ''vcli''))
      else (case pf_data_local_dir P of
              None \<Rightarrow> Inl (PathsError ''no XDG_DATA_HOME'')
            | Some d \<Rightarrow> Inr (path_join d ''vcli'')))"

definition platform_log_dir :: "Platform \<Rightarrow> DaemonError + path" where
  "platform_log_dir P =
     (if pf_os P = MacOs
      then (case pf_home_dir P of
              None \<Rightarrow> Inl (PathsError ''no home dir'')
            | Some home \<Rightarrow> Inr (path_join (path_join (path_join home ''Library'') ''Logs'') ''vcli''))
      else (case pf_cache_dir P of
              None \<Rightarrow> Inl (PathsError ''no XDG_CACHE_HOME'')
            | Some d \<Rightarrow> Inr (path_join (path_join d ''vcli'') ''logs'')))"

definition from_platform_defaults :: "Platform \<Rightarrow> DaemonError + Config" where
  "from_platform_defaults P =
     (case platform_data_root P of
        Inl e \<Rightarrow> Inl e
      | Inr data_root \<Rightarrow>
          (case platform_log_dir P of
             Inl e \<Rightarrow> Inl e
           | Inr log_dir \<Rightarrow>
               (case default_socket_path P of
                  Inl e \<Rightarrow> Inl (PathsError (''socket path: '' @ ipc_error_display e))
                | Inr sp \<Rightarrow> Inr \<lparr>cf_data_root = data_root, cf_socket = sp, cf_log_dir = log_dir\<rparr>)))"

definition pidfile_path :: "Config \<Rightarrow> path" where
  "pidfile_path cfg = path_join (cf_data_root cfg) ''daemon.pid''"

definition log_file_path :: "Config \<Rightarrow> path" where
  "log_file_path cfg = path_join (cf_log_dir cfg) ''daemon.log''"

section \<open>Lemmas\<close>

lemma default_socket_path_total: "\<exists>sp. default_socket_path P = Inr sp"
  by (auto simp: default_socket_path_def Let_def split: option.splits)

text \<open>What follows the last slash.\<close>

definition file_part :: "path \<Rightarrow> string" where
  "file_part p = rev (takeWhile (\<lambda>c. c \<noteq> slash) (rev p))"

lemma file_part_slash:
  assumes "slash \<notin> set f"
  shows "file_part (d @ slash # f) = f"
proof -
  have "takeWhile (\<lambda>c. c \<noteq> slash) (rev f @ slash # rev d) = rev f @ takeWhile (\<lambda>c. c \<noteq> slash) (slash # rev d)"
    using assms by (intro takeWhile_append2) auto
  then show ?thesis by (simp add: file_part_def)
qed

lemma file_part_join:
  assumes "d \<noteq> []" and "slash \<notin> set f"
  shows "file_part (path_join d f) = f"
proof -
  have abs: "\<not> is_absolute f"
    using assms(2) by (cases f) (auto simp: is_absolute_def)
  show ?thesis
  proof (cases "last d = slash")
    case True
    then have "d = butlast d @ [slash]"
      using assms(1) append_butlast_last_id [of d] by simp
    then have "file_part (d @ f) = f"
      using file_part_slash [OF assms(2), of "butlast d"] by (metis append.assoc append_Cons append_Nil)
    with abs True show ?thesis by (simp add: path_join_def)
  next
    case False
    with abs assms show ?thesis by (simp add: path_join_def file_part_slash)
  qed
qed

lemma slash_not_digit: "slash \<notin> set (nat_str n)"
  using nat_str_is_digit [of n] by (auto simp: list_all_iff is_digit_def)

text \<open>The file name of a socket: it carries the user, except under \<open>/run/user\<close>.\<close>

definition user_sock :: "u32 \<Rightarrow> string" where
  "user_sock n = ''vcli-'' @ nat_str n @ ''.sock''"

lemma slash_not_user_sock: "slash \<notin> set (user_sock n)"
  by (simp add: user_sock_def slash_not_digit)

lemma user_sock_inj: "user_sock a = user_sock b \<Longrightarrow> a = b"
  by (simp add: user_sock_def nat_str_inj)

lemma user_sock_differs: "user_sock n \<noteq> ''vcli.sock''"
  by (simp add: user_sock_def)

lemma socket_file_part:
  assumes "default_socket_path P = Inr sp" and "sp_origin sp \<in> {MacTmpdir, TmpFallback}"
  shows "file_part (sp_path sp) = user_sock (uid P)"
proof -
  have tmp: "file_part (try_tmp_fallback P) = user_sock (uid P)"
    using file_part_slash [OF slash_not_user_sock, of "''/tmp''" "uid P"]
    by (simp add: try_tmp_fallback_def user_sock_def)
  have mac: "file_part p = user_sock (uid P)" if "try_mac_tmpdir P = Some p" for p
    using that file_part_join [OF _ slash_not_user_sock, of _ "uid P"]
    by (auto simp: try_mac_tmpdir_def sock_in_dir_def user_sock_def bind_eq_Some_conv split: if_splits)
  show ?thesis
    using assms tmp mac by (auto simp: default_socket_path_def Let_def split: option.splits if_splits)
qed

lemma socket_run_user:
  assumes "default_socket_path P = Inr sp" and "sp_origin sp = RunUser"
  shows "sp_path sp = ''/run/user/'' @ nat_str (uid P) @ ''/vcli.sock''"
proof -
  have nl: "last (nat_str n) \<noteq> slash" for n
    using slash_not_digit [of n] last_in_set [OF nat_str_nonempty [of n]] by metis
  have "path_join (''/run/user/'' @ nat_str n) ''vcli.sock'' = ''/run/user/'' @ nat_str n @ ''/vcli.sock''" for n
    using nl [of n] by (simp add: path_join_def is_absolute_def)
  with assms show ?thesis
    by (auto simp: default_socket_path_def Let_def try_run_user_def split: option.splits if_splits)
qed

lemma socket_run_user_file:
  "default_socket_path P = Inr sp \<Longrightarrow> sp_origin sp = RunUser \<Longrightarrow> file_part (sp_path sp) = ''vcli.sock''"
  using file_part_slash [of "''vcli.sock''" "''/run/user/'' @ nat_str (uid P)"]
  by (simp add: socket_run_user)

end
