(* ===== verification/Capture.thy ===== *)
theory Capture
  imports Frame_View
begin

text \<open>
  Screen capture, crate \<open>vcli-capture\<close>: the errors (\<open>error.rs\<close>), the interface
  (\<open>capture.rs\<close>), the mock backend (\<open>mock.rs\<close>), the pixel converter and the ScreenCaptureKit
  backend of macOS (\<open>macos/convert.rs\<close>, \<open>macos/sck.rs\<close>), the permission probe
  (\<open>permission.rs\<close>) and the Windows stub (\<open>windows/mod.rs\<close>).  The ScreenCaptureKit framework
  is a parameter (\<open>Sck\<close>): the content it reports, the pictures it takes and the clock.  As in
  \<open>Frame_View\<close>, \<open>None\<close> is a panic (a slice out of range), \<open>Inl\<close> an error value, and the
  scale factor is an exact rational.
\<close>

section \<open>Errors and descriptors\<close>

datatype CaptureError =
    CE_PermissionDenied
  | CE_WindowNotFound nat
  | CE_MalformedFrame string
  | CE_Backend string
  | CE_Unsupported string

fun capture_error_display :: "CaptureError \<Rightarrow> string" where
  "capture_error_display CE_PermissionDenied = ''screen recording permission not granted''"
| "capture_error_display (CE_WindowNotFound i) = ''window not found: id='' @ nat_str i"
| "capture_error_display (CE_MalformedFrame r) = ''malformed frame from backend: '' @ r"
| "capture_error_display (CE_Backend m) = ''backend failure: '' @ m"
| "capture_error_display (CE_Unsupported w) = ''capture operation unsupported on this backend: '' @ w"

fun capture_error_code :: "CaptureError \<Rightarrow> string" where
  "capture_error_code CE_PermissionDenied = ''permission_denied''"
| "capture_error_code (CE_WindowNotFound _) = ''unknown_window''"
| "capture_error_code (CE_MalformedFrame _) = ''capture_failed''"
| "capture_error_code (CE_Backend _) = ''capture_failed''"
| "capture_error_code (CE_Unsupported _) = ''unsupported''"

record WindowDescriptor =
  wd_id :: nat
  wd_app :: string
  wd_title :: string
  wd_bounds :: Rect
  wd_window_index :: u32
  wd_display :: u32

definition display_primary :: u32 where "display_primary = 0"

section \<open>The mock backend\<close>

record MockCapture =
  mc_formats :: "FrameFormat list"
  mc_windows :: "WindowDescriptor list"
  mc_screen_frames :: "Frame list"
  mc_screen_cursor :: nat
  mc_window_frame_map :: "(nat \<times> Frame list) list"
  mc_window_cursors :: "nat list"
  mc_next_error :: "CaptureError option"

definition mock_capture_new :: "FrameFormat list \<Rightarrow> WindowDescriptor list \<Rightarrow> Frame list \<Rightarrow> MockCapture" where
  "mock_capture_new formats windows frames =
     \<lparr>mc_formats = formats, mc_windows = windows, mc_screen_frames = frames, mc_screen_cursor = 0,
      mc_window_frame_map = [], mc_window_cursors = replicate (length windows) 0, mc_next_error = None\<rparr>"

definition mock_capture_empty :: MockCapture where
  "mock_capture_empty = mock_capture_new [Bgra8] [] []"

text \<open>The position of the first entry of an identifier.\<close>

fun entry_pos :: "nat \<Rightarrow> (nat \<times> 'a) list \<Rightarrow> nat option" where
  "entry_pos i [] = None"
| "entry_pos i ((j, _) # es) = (if j = i then Some 0 else map_option Suc (entry_pos i es))"

definition set_window_frames :: "nat \<Rightarrow> Frame list \<Rightarrow> MockCapture \<Rightarrow> MockCapture" where
  "set_window_frames i frames m =
     (case entry_pos i (mc_window_frame_map m) of
        Some pos \<Rightarrow> m\<lparr>mc_window_frame_map := (mc_window_frame_map m)[pos := (i, frames)]\<rparr>
      | None \<Rightarrow> m\<lparr>mc_window_frame_map := mc_window_frame_map m @ [(i, frames)]\<rparr>)"

definition arm_error :: "CaptureError \<Rightarrow> MockCapture \<Rightarrow> MockCapture" where
  "arm_error e m = m\<lparr>mc_next_error := Some e\<rparr>"

text \<open>\<open>usize::wrapping_add(1)\<close> on the 64-bit targets.\<close>

definition usize_succ :: "nat \<Rightarrow> nat" where
  "usize_succ n = Suc n mod 2 ^ 64"

definition mock_enumerate_windows :: "MockCapture \<Rightarrow> (CaptureError + WindowDescriptor list) \<times> MockCapture" where
  "mock_enumerate_windows m =
     (case mc_next_error m of
        Some e \<Rightarrow> (Inl e, m\<lparr>mc_next_error := None\<rparr>)
      | None \<Rightarrow> (Inr (mc_windows m), m))"

definition mock_grab_screen :: "MockCapture \<Rightarrow> (CaptureError + Frame) \<times> MockCapture" where
  "mock_grab_screen m =
     (case mc_next_error m of
        Some e \<Rightarrow> (Inl e, m\<lparr>mc_next_error := None\<rparr>)
      | None \<Rightarrow>
          if mc_screen_frames m = [] then (Inl (CE_Backend ''MockCapture has no screen frames configured''), m)
          else (let idx = mc_screen_cursor m mod length (mc_screen_frames m)
                in (Inr (mc_screen_frames m ! idx), m\<lparr>mc_screen_cursor := usize_succ (mc_screen_cursor m)\<rparr>)))"

definition mock_grab_window :: "WindowDescriptor \<Rightarrow> MockCapture \<Rightarrow> (CaptureError + Frame) \<times> MockCapture" where
  "mock_grab_window window m =
     (case mc_next_error m of
        Some e \<Rightarrow> (Inl e, m\<lparr>mc_next_error := None\<rparr>)
      | None \<Rightarrow>
          (case entry_pos (wd_id window) (mc_window_frame_map m) of
             None \<Rightarrow> (Inl (CE_WindowNotFound (wd_id window)), m)
           | Some pos \<Rightarrow>
               (let frames = snd (mc_window_frame_map m ! pos)
                in if frames = []
                   then (Inl (CE_Backend (''no frames for window id='' @ nat_str (wd_id window))), m)
                   else (let cursors = mc_window_cursors m @ replicate (Suc pos - length (mc_window_cursors m)) 0;
                             cursor = cursors ! pos
                         in (Inr (frames ! (cursor mod length frames)),
                             m\<lparr>mc_window_cursors := cursors[pos := usize_succ cursor]\<rparr>)))))"

section \<open>The pixel converter\<close>

record RawBgra =
  rb_width_px :: u32
  rb_height_px :: u32
  rb_stride :: nat
  rb_pixels :: bytes
  rb_captured_at_ns :: nat
  rb_scale :: rat
  rb_logical_origin_x :: i32
  rb_logical_origin_y :: i32

text \<open>\<open>&xs[a..b]\<close>, \<open>xs[i]\<close> and \<open>xs[i] = v\<close>, with the panic.\<close>

definition slice_range :: "'a list \<Rightarrow> nat \<Rightarrow> nat \<Rightarrow> 'a list option" where
  "slice_range xs a b = (if a \<le> b \<and> b \<le> length xs then Some (take (b - a) (drop a xs)) else None)"

definition index :: "'a list \<Rightarrow> nat \<Rightarrow> 'a option" where
  "index xs i = (if i < length xs then Some (xs ! i) else None)"

definition store_at :: "nat \<Rightarrow> 'a \<Rightarrow> 'a list \<Rightarrow> 'a list option" where
  "store_at i v xs = (if i < length xs then Some (xs[i := v]) else None)"

text \<open>A \<open>for\<close> loop whose body may panic.\<close>

fun for_loop :: "('a \<Rightarrow> 's \<Rightarrow> 's option) \<Rightarrow> 'a list \<Rightarrow> 's \<Rightarrow> 's option" where
  "for_loop f [] s = Some s"
| "for_loop f (x # xs) s = (case f x s of None \<Rightarrow> None | Some s' \<Rightarrow> for_loop f xs s')"

text \<open>The average of the four source bytes, \<open>(sum / 4) as u8\<close>.\<close>

definition box_average :: "8 word \<Rightarrow> 8 word \<Rightarrow> 8 word \<Rightarrow> 8 word \<Rightarrow> 8 word" where
  "box_average a b c d = word_of_nat ((unat a + unat b + unat c + unat d) div 4)"

definition box_byte :: "bytes \<Rightarrow> bytes \<Rightarrow> nat \<Rightarrow> (8 word) option" where
  "box_byte row0 row1 i =
     (case (index row0 i, index row0 (i + 4), index row1 i, index row1 (i + 4)) of
        (Some a, Some b, Some c, Some d) \<Rightarrow> Some (box_average a b c d)
      | _ \<Rightarrow> None)"

definition downsample_row :: "nat \<Rightarrow> nat \<Rightarrow> nat \<Rightarrow> bytes \<Rightarrow> bytes \<Rightarrow> bytes \<Rightarrow> bytes option" where
  "downsample_row out_w out_stride y row0 row1 =
     for_loop (\<lambda>x out.
       (let sx = x * 2 * 4; idx = y * out_stride + x * 4
        in for_loop (\<lambda>c out.
             case box_byte row0 row1 (sx + c) of None \<Rightarrow> None | Some v \<Rightarrow> store_at (idx + c) v out)
             [0..<4] out)) [0..<out_w]"

definition downsample_2x :: "RawBgra \<Rightarrow> (i32 \<times> i32 \<times> nat \<times> bytes) option" where
  "downsample_2x raw =
     (let out_w = rb_width_px raw div 2; out_h = rb_height_px raw div 2; out_stride = out_w * 4;
          stride = rb_stride raw
      in case for_loop (\<lambda>y out.
                (let src_y0 = y * 2; src_y1 = src_y0 + 1
                 in case slice_range (rb_pixels raw) (src_y0 * stride) (src_y0 * stride + rb_width_px raw * 4) of
                      None \<Rightarrow> None
                    | Some row0 \<Rightarrow>
                        (case slice_range (rb_pixels raw) (src_y1 * stride) (src_y1 * stride + rb_width_px raw * 4) of
                           None \<Rightarrow> None
                         | Some row1 \<Rightarrow> downsample_row out_w out_stride y row0 row1 out)))
                [0..<out_h] (replicate (out_stride * out_h) 0) of
           None \<Rightarrow> None
         | Some out \<Rightarrow> Some (i32_of_u32 out_w, i32_of_u32 out_h, out_stride, out))"

definition f32_epsilon :: rat where "f32_epsilon = 1 / 8388608"

text \<open>The message of the stride test multiplies in \<open>u32\<close>; the test itself in \<open>usize\<close>.\<close>

definition bgra_to_frame :: "(rat \<Rightarrow> string) \<Rightarrow> RawBgra \<Rightarrow> (CaptureError + Frame) option" where
  "bgra_to_frame show_f32 raw =
     (let need = rb_stride raw * rb_height_px raw;
          scale = rb_scale raw;
          finish = (\<lambda>(out_w, out_h, out_stride, out_pixels).
            map_option Inr (frame_new Bgra8 \<lparr>rect_x = rb_logical_origin_x raw, rect_y = rb_logical_origin_y raw,
                                             rect_w = out_w, rect_h = out_h\<rparr>
                              out_stride out_pixels (rb_captured_at_ns raw)))
      in if need \<ge> 2 ^ 64 then Some (Inl (CE_MalformedFrame ''stride * height overflow''))
         else if length (rb_pixels raw) < need
         then Some (Inl (CE_MalformedFrame (''buffer len '' @ nat_str (length (rb_pixels raw))
                          @ '' < stride*height '' @ nat_str need)))
         else if rb_stride raw < rb_width_px raw * 4
         then Some (Inl (CE_MalformedFrame (''stride '' @ nat_str (rb_stride raw) @ '' less than width*4 ''
                          @ nat_str (rb_width_px raw * 4 mod 2 ^ 32))))
         else if \<bar>scale - 1\<bar> < f32_epsilon
         then finish (i32_of_u32 (rb_width_px raw), i32_of_u32 (rb_height_px raw), rb_stride raw, rb_pixels raw)
         else if \<bar>scale - 2\<bar> < f32_epsilon
         then Option.bind (downsample_2x raw) finish
         else Some (Inl (CE_MalformedFrame (''unsupported scale '' @ show_f32 scale))))"

section \<open>The backend of macOS\<close>

datatype PermissionStatus = Granted | Denied | Unknown

text \<open>On macOS the probe asks Core Graphics, elsewhere it always grants.\<close>

definition check_screen_recording_permission :: "bool \<Rightarrow> bool \<Rightarrow> CaptureError + PermissionStatus" where
  "check_screen_recording_permission macos preflight =
     (if macos then Inr (if preflight then Granted else Denied) else Inr Granted)"

definition mac_new :: "CaptureError + PermissionStatus \<Rightarrow> CaptureError option" where
  "mac_new probe =
     (case probe of
        Inl e \<Rightarrow> Some e
      | Inr Granted \<Rightarrow> None
      | Inr Denied \<Rightarrow> Some CE_PermissionDenied
      | Inr Unknown \<Rightarrow> Some CE_PermissionDenied)"

datatype ScError = Sc_PermissionDenied string | Sc_NoShareableContent string | Sc_Other string

record CgRect =
  cg_x :: rat
  cg_y :: rat
  cg_width :: rat
  cg_height :: rat

record SckWindow =
  sw_window_id :: u32
  sw_application :: "string option"
  sw_title :: "string option"
  sw_frame :: CgRect

record CgImage =
  ci_width :: nat
  ci_height :: nat
  ci_rgba_data :: "string + bytes"

record Sck =
  sck_content :: "string + (u32 \<times> u32) list \<times> SckWindow list"
  sck_display_image :: "u32 \<times> u32 \<Rightarrow> ScError + CgImage"
  sck_window_image :: "SckWindow \<Rightarrow> u32 \<Rightarrow> u32 \<Rightarrow> ScError + CgImage"
  sck_error_text :: "ScError \<Rightarrow> string"
  sck_show_f32 :: "rat \<Rightarrow> string"
  sck_now_ns :: nat

text \<open>Casts of floating point numbers to integers truncate and saturate; \<open>usize as u32\<close> wraps.\<close>

definition truncate_rat :: "rat \<Rightarrow> int" where
  "truncate_rat r = (if r < 0 then - \<lfloor>- r\<rfloor> else \<lfloor>r\<rfloor>)"

definition f64_as_i32 :: "rat \<Rightarrow> i32" where
  "f64_as_i32 r = max i32_min (min i32_max (truncate_rat r))"

definition f64_as_u32 :: "rat \<Rightarrow> u32" where
  "f64_as_u32 r = nat (max 0 (min (int u32_max) (truncate_rat r)))"

definition usize_as_u32 :: "nat \<Rightarrow> u32" where
  "usize_as_u32 n = n mod 2 ^ 32"

definition refresh_content :: "Sck \<Rightarrow> CaptureError + (u32 \<times> u32) list \<times> SckWindow list" where
  "refresh_content K =
     (case sck_content K of
        Inl e \<Rightarrow> Inl (CE_Backend (''SCShareableContent::get: '' @ e))
      | Inr c \<Rightarrow> Inr c)"

definition primary_display :: "(u32 \<times> u32) list \<Rightarrow> CaptureError + u32 \<times> u32" where
  "primary_display ds =
     (case ds of
        d # _ \<Rightarrow> Inr d
      | [] \<Rightarrow> Inl (CE_Backend ''no displays reported by SCShareableContent''))"

definition locate_window :: "Sck \<Rightarrow> nat \<Rightarrow> CaptureError + SckWindow" where
  "locate_window K i =
     (case refresh_content K of
        Inl e \<Rightarrow> Inl e
      | Inr (_, ws) \<Rightarrow> (case find (\<lambda>w. sw_window_id w = i) ws of
                          Some w \<Rightarrow> Inr w
                        | None \<Rightarrow> Inl (CE_WindowNotFound i)))"

text \<open>The counters of the windows seen so far, per application and title.\<close>

fun assign_indices :: "(string \<times> string \<rightharpoonup> u32) \<Rightarrow> (nat \<times> string \<times> string \<times> Rect) list \<Rightarrow> WindowDescriptor list" where
  "assign_indices counters [] = []"
| "assign_indices counters ((i, app, title, bounds) # raw) =
     (let idx = (case counters (app, title) of Some n \<Rightarrow> u32_succ n | None \<Rightarrow> 0)
      in \<lparr>wd_id = i, wd_app = app, wd_title = title, wd_bounds = bounds, wd_window_index = idx,
          wd_display = display_primary\<rparr> # assign_indices (counters((app, title) \<mapsto> idx)) raw)"

definition assign_window_indices :: "(nat \<times> string \<times> string \<times> Rect) list \<Rightarrow> WindowDescriptor list" where
  "assign_window_indices raw = assign_indices (\<lambda>_. None) raw"

definition raw_window :: "SckWindow \<Rightarrow> nat \<times> string \<times> string \<times> Rect" where
  "raw_window w =
     (sw_window_id w, case_option [] (\<lambda>a. a) (sw_application w), case_option [] (\<lambda>t. t) (sw_title w),
      \<lparr>rect_x = f64_as_i32 (cg_x (sw_frame w)), rect_y = f64_as_i32 (cg_y (sw_frame w)),
       rect_w = f64_as_i32 (cg_width (sw_frame w)), rect_h = f64_as_i32 (cg_height (sw_frame w))\<rparr>)"

definition build_descriptors :: "SckWindow list \<Rightarrow> WindowDescriptor list" where
  "build_descriptors windows = assign_window_indices (map raw_window windows)"

definition map_sck_error :: "Sck \<Rightarrow> ScError \<Rightarrow> string \<Rightarrow> CaptureError" where
  "map_sck_error K e context =
     (case e of
        Sc_PermissionDenied _ \<Rightarrow> CE_PermissionDenied
      | Sc_NoShareableContent _ \<Rightarrow> CE_PermissionDenied
      | Sc_Other _ \<Rightarrow> CE_Backend (context @ '': '' @ sck_error_text K e))"

definition mac_enumerate_windows :: "Sck \<Rightarrow> CaptureError + WindowDescriptor list" where
  "mac_enumerate_windows K =
     (case refresh_content K of
        Inl e \<Rightarrow> Inl e
      | Inr (_, ws) \<Rightarrow> Inr (build_descriptors (sort_key sw_window_id ws)))"

text \<open>The shared end of both grabs: a picture with its logical origin becomes an RGBA frame.\<close>

definition image_to_frame :: "Sck \<Rightarrow> CgImage \<Rightarrow> i32 \<Rightarrow> i32 \<Rightarrow> (CaptureError + Frame) option" where
  "image_to_frame K img ox oy =
     (let width_px = usize_as_u32 (ci_width img); height_px = usize_as_u32 (ci_height img)
      in case ci_rgba_data img of
           Inl e \<Rightarrow> Some (Inl (CE_MalformedFrame (''CGImage::rgba_data: '' @ e)))
         | Inr pixels \<Rightarrow>
             map_option (map_sum (\<lambda>e. e) (\<lambda>f. f\<lparr>fr_format := Rgba8\<rparr>))
               (bgra_to_frame (sck_show_f32 K)
                  \<lparr>rb_width_px = width_px, rb_height_px = height_px, rb_stride = width_px * 4, rb_pixels = pixels,
                   rb_captured_at_ns = sck_now_ns K, rb_scale = 1, rb_logical_origin_x = ox,
                   rb_logical_origin_y = oy\<rparr>))"

definition mac_grab_screen :: "Sck \<Rightarrow> (CaptureError + Frame) option" where
  "mac_grab_screen K =
     (case refresh_content K of
        Inl e \<Rightarrow> Some (Inl e)
      | Inr (ds, _) \<Rightarrow>
          (case primary_display ds of
             Inl e \<Rightarrow> Some (Inl e)
           | Inr d \<Rightarrow>
               (case sck_display_image K d of
                  Inl e \<Rightarrow> Some (Inl (map_sck_error K e ''SCScreenshotManager::capture_image''))
                | Inr img \<Rightarrow> image_to_frame K img 0 0)))"

definition mac_grab_window :: "WindowDescriptor \<Rightarrow> Sck \<Rightarrow> (CaptureError + Frame) option" where
  "mac_grab_window window K =
     (case locate_window K (wd_id window) of
        Inl e \<Rightarrow> Some (Inl e)
      | Inr w \<Rightarrow>
          (let r = sw_frame w
           in case sck_window_image K w (f64_as_u32 (cg_width r)) (f64_as_u32 (cg_height r)) of
                Inl e \<Rightarrow> Some (Inl (map_sck_error K e ''capture_image''))
              | Inr img \<Rightarrow> image_to_frame K img (f64_as_i32 (cg_x r)) (f64_as_i32 (cg_y r))))"

section \<open>The Windows stub\<close>

definition windows_enumerate_windows :: "CaptureError + WindowDescriptor list" where
  "windows_enumerate_windows = Inl (CE_Unsupported ''WindowsCapture::enumerate_windows (v0.4)'')"

definition windows_grab_screen :: "CaptureError + Frame" where
  "windows_grab_screen = Inl (CE_Unsupported ''WindowsCapture::grab_screen (v0.4)'')"

definition windows_grab_window :: "WindowDescriptor \<Rightarrow> CaptureError + Frame" where
  "windows_grab_window window = Inl (CE_Unsupported ''WindowsCapture::grab_window (v0.4)'')"

end
