(* ===== verification/Mac_Input.thy ===== *)
theory Mac_Input
  imports Input
begin

text \<open>
  The macOS input backend (\<open>vcli-input/src/macos\<close>: \<open>cg_sink.rs\<close>, \<open>cg_events.rs\<close>,
  \<open>cg_typing.rs\<close>, \<open>tcc.rs\<close>, \<open>hotkey_tap.rs\<close>) and the permission report (\<open>permissions.rs\<close>).
  Core Graphics is a parameter inside the state \<open>Cg\<close>: which of its constructor calls fail,
  whether the process is trusted, and what the kill switch answers at each read (another
  thread may engage it at any time).  The trace keeps what is posted to the system and every
  sleep, in order.  An operation returns a result and the new state; \<open>i32\<close> arithmetic wraps.
\<close>

section \<open>Permissions\<close>

datatype TccStatus = TccGranted | TccDenied | TccNotDetermined | TccNotApplicable

record PermissionReport =
  accessibility :: TccStatus
  input_monitoring :: TccStatus

definition fully_granted :: "PermissionReport \<Rightarrow> bool" where
  "fully_granted r \<longleftrightarrow> accessibility r = TccGranted \<and> input_monitoring r = TccGranted"

definition accessibility_status :: "bool \<Rightarrow> TccStatus" where
  "accessibility_status trusted = (if trusted then TccGranted else TccNotDetermined)"

definition input_monitoring_status :: "u32 \<Rightarrow> TccStatus" where
  "input_monitoring_status status = (if status = 0 then TccGranted else if status = 1 then TccDenied else TccNotDetermined)"

definition probe_report :: "bool \<Rightarrow> u32 \<Rightarrow> PermissionReport" where
  "probe_report trusted status =
     \<lparr>accessibility = accessibility_status trusted, input_monitoring = input_monitoring_status status\<rparr>"

definition probe :: "bool \<Rightarrow> bool \<Rightarrow> u32 \<Rightarrow> PermissionReport" where
  "probe macos trusted status =
     (if macos then probe_report trusted status
      else \<lparr>accessibility = TccNotApplicable, input_monitoring = TccNotApplicable\<rparr>)"

section \<open>Events\<close>

datatype CgFlag = FlagCommand | FlagShift | FlagAlternate | FlagControl

datatype CgMouseButton = CgLeft | CgRight | CgCenter

datatype CgEventType =
    MouseMoved
  | LeftMouseDown | LeftMouseUp | LeftMouseDragged
  | RightMouseDown | RightMouseUp | RightMouseDragged
  | OtherMouseDown | OtherMouseUp | OtherMouseDragged

text \<open>A posted event: its flags and click state are \<open>None\<close> when the code does not set them.\<close>

datatype CgTrace =
    CgMouse CgEventType Point CgMouseButton "CgFlag set option" "int option"
  | CgKeyEvent nat bool "CgFlag set"
  | CgUnicode string bool
  | CgScroll i32 i32
  | CgSleep nat

record Cg =
  cg_trace :: "CgTrace list"
  cg_made :: nat
  cg_fails :: "nat \<Rightarrow> bool"
  cg_reads :: nat
  cg_kill :: "nat \<Rightarrow> bool"
  cg_trusted :: bool
  cg_listen :: u32

type_synonym 'a cg = "Cg \<Rightarrow> (InputError + 'a) \<times> Cg"

definition cg_ok :: "unit cg" where "cg_ok s = (Inr (), s)"

definition cg_seq :: "'a cg \<Rightarrow> 'b cg \<Rightarrow> 'b cg" where
  "cg_seq m k s = (case m s of (Inl e, s') \<Rightarrow> (Inl e, s') | (Inr _, s') \<Rightarrow> k s')"

text \<open>A constructor of Core Graphics, with the message of its failure.\<close>

definition cg_make :: "string \<Rightarrow> unit cg" where
  "cg_make detail s =
     (if cg_fails s (cg_made s) then Inl (Backend detail) else Inr (), s\<lparr>cg_made := Suc (cg_made s)\<rparr>)"

definition cg_post :: "CgTrace \<Rightarrow> unit cg" where
  "cg_post ev s = (Inr (), s\<lparr>cg_trace := cg_trace s @ [ev]\<rparr>)"

text \<open>A read of the kill switch.\<close>

definition cg_engaged :: "Cg \<Rightarrow> bool \<times> Cg" where
  "cg_engaged s = (cg_kill s (cg_reads s), s\<lparr>cg_reads := Suc (cg_reads s)\<rparr>)"

definition event_source :: "unit cg" where
  "event_source = cg_make ''CGEventSource::new failed''"

fun modifier_flag :: "Modifier \<Rightarrow> CgFlag" where
  "modifier_flag Cmd = FlagCommand"
| "modifier_flag Shift = FlagShift"
| "modifier_flag Alt = FlagAlternate"
| "modifier_flag Ctrl = FlagControl"

definition flags_from_modifiers :: "Modifier list \<Rightarrow> CgFlag set" where
  "flags_from_modifiers ms = fold (\<lambda>m f. insert (modifier_flag m) f) ms {}"

fun button_types :: "Button \<Rightarrow> CgMouseButton \<times> CgEventType \<times> CgEventType" where
  "button_types LeftButton = (CgLeft, LeftMouseDown, LeftMouseUp)"
| "button_types RightButton = (CgRight, RightMouseDown, RightMouseUp)"
| "button_types MiddleButton = (CgCenter, OtherMouseDown, OtherMouseUp)"

definition post_move :: "Point \<Rightarrow> unit cg" where
  "post_move to =
     cg_seq event_source (cg_seq (cg_make ''CGEvent::new_mouse_event MouseMoved failed'')
       (cg_post (CgMouse MouseMoved to CgLeft None None)))"

definition cg_sleep :: "nat \<Rightarrow> unit cg" where
  "cg_sleep ns = (if ns = 0 then cg_ok else cg_post (CgSleep ns))"

definition post_click :: "Point \<Rightarrow> Button \<Rightarrow> Modifier list \<Rightarrow> nat \<Rightarrow> int \<Rightarrow> unit cg" where
  "post_click at_pt button modifiers hold_ns click_state =
     (case button_types button of (cg_btn, down_ty, up_ty) \<Rightarrow>
        (let flags = flags_from_modifiers modifiers
         in cg_seq event_source
            (cg_seq (cg_make ''mouse_event down failed'')
            (cg_seq (cg_post (CgMouse down_ty at_pt cg_btn (Some flags) (Some click_state)))
            (cg_seq (cg_sleep hold_ns)
            (cg_seq (cg_make ''mouse_event up failed'')
                    (cg_post (CgMouse up_ty at_pt cg_btn (Some flags) (Some click_state)))))))))"

fun drag_type :: "Button \<Rightarrow> CgEventType" where
  "drag_type LeftButton = LeftMouseDragged"
| "drag_type RightButton = RightMouseDragged"
| "drag_type MiddleButton = OtherMouseDragged"

definition post_drag_move :: "Point \<Rightarrow> Button \<Rightarrow> unit cg" where
  "post_drag_move to button =
     cg_seq event_source (cg_seq (cg_make ''mouse_event drag failed'')
       (cg_post (CgMouse (drag_type button) to (fst (button_types button)) None None)))"

definition post_key :: "nat \<Rightarrow> bool \<Rightarrow> Modifier list \<Rightarrow> unit cg" where
  "post_key keycode key_down modifiers =
     cg_seq event_source (cg_seq (cg_make ''CGEvent::new_keyboard_event failed'')
       (cg_post (CgKeyEvent keycode key_down (flags_from_modifiers modifiers))))"

definition post_scroll :: "Point \<Rightarrow> i32 \<Rightarrow> i32 \<Rightarrow> unit cg" where
  "post_scroll at_pt dx dy =
     cg_seq event_source (cg_seq (cg_make ''CGEvent::new_scroll_event failed'') (cg_post (CgScroll dx dy)))"

section \<open>Typing\<close>

definition post_unicode_chunk :: "string \<Rightarrow> unit cg" where
  "post_unicode_chunk chunk =
     cg_seq event_source
     (cg_seq (cg_make ''keyboard_event down failed'')
     (cg_seq (cg_post (CgUnicode chunk True))
     (cg_seq (cg_make ''keyboard_event up failed'') (cg_post (CgUnicode chunk False)))))"

fun post_chunks :: "string list \<Rightarrow> unit cg" where
  "post_chunks [] = cg_ok"
| "post_chunks (c # cs) = cg_seq (post_unicode_chunk c) (post_chunks cs)"

definition cg_type_text :: "string \<Rightarrow> unit cg" where
  "cg_type_text t = (if t = [] then cg_ok else post_chunks (str_chars t))"

section \<open>The sink\<close>

definition MAX_DRAG_SEGMENT_MS :: nat where "MAX_DRAG_SEGMENT_MS = 5000"
definition DRAG_STEP_PX :: i32 where "DRAG_STEP_PX = 8"

definition cg_guard :: "unit cg" where
  "cg_guard s =
     (case cg_engaged s of
        (True, s') \<Rightarrow> (Inl Halted, s')
      | (False, s') \<Rightarrow>
          if accessibility (probe True (cg_trusted s) (cg_listen s)) \<in> {TccGranted, TccNotDetermined}
          then (Inr (), s')
          else (Inl (InputPermissionDenied ''Accessibility (TCC) not granted''), s'))"

text \<open>Division of \<open>i32\<close> by a positive divisor truncates towards zero; the square root of a wrapped
  negative sum is not a number, which the cast turns into 0.\<close>

definition i32_div :: "i32 \<Rightarrow> i32 \<Rightarrow> i32" where
  "i32_div a b = (if a < 0 then - (- a div b) else a div b)"

definition i32_mult :: "i32 \<Rightarrow> i32 \<Rightarrow> i32" where
  "i32_mult a b = wrap_i32 (a * b)"

definition isqrt :: "nat \<Rightarrow> nat" where
  "isqrt n = fold (\<lambda>b r. if (r + 2 ^ b) * (r + 2 ^ b) \<le> n then r + 2 ^ b else r) (rev [0..<16]) 0"

definition drag_steps :: "i32 \<Rightarrow> i32 \<Rightarrow> i32" where
  "drag_steps dx dy =
     (let sum = i32_add (i32_mult dx dx) (i32_mult dy dy);
          dist = (if sum < 0 then 0 else int (isqrt (nat sum)))
      in max (i32_div dist DRAG_STEP_PX) 1)"

definition drag_point :: "Point \<Rightarrow> i32 \<Rightarrow> i32 \<Rightarrow> i32 \<Rightarrow> i32 \<Rightarrow> Point" where
  "drag_point current dx dy steps i =
     \<lparr>pt_x = i32_add (pt_x current) (i32_div (i32_mult dx i) steps),
      pt_y = i32_add (pt_y current) (i32_div (i32_mult dy i) steps)\<rparr>"

text \<open>Engaged in the middle of a drag: one more motion, then the release, whatever fails.\<close>

definition drag_abort :: "Point \<Rightarrow> Button \<Rightarrow> unit cg" where
  "drag_abort current button s =
     (let s1 = snd (post_drag_move current button s);
          s2 = snd (cg_seq event_source (cg_seq (cg_make ''mouse_event up failed'')
                 (cg_post (CgMouse (snd (snd (button_types button))) current (fst (button_types button)) None None))) s1)
      in (Inl Halted, s2))"

fun drag_loop :: "Point \<Rightarrow> i32 \<Rightarrow> i32 \<Rightarrow> i32 \<Rightarrow> nat \<Rightarrow> Button \<Rightarrow> i32 list \<Rightarrow> unit cg" where
  "drag_loop current dx dy steps sleep_each button [] s = cg_ok s"
| "drag_loop current dx dy steps sleep_each button (i # is) s =
     (case cg_engaged s of
        (True, s') \<Rightarrow> drag_abort current button s'
      | (False, s') \<Rightarrow>
          cg_seq (post_drag_move (drag_point current dx dy steps i) button)
            (cg_seq (cg_sleep sleep_each) (drag_loop current dx dy steps sleep_each button is)) s')"

fun drag_segments :: "Point \<Rightarrow> Button \<Rightarrow> DragSegment list \<Rightarrow> Cg \<Rightarrow> (InputError + Point) \<times> Cg" where
  "drag_segments current button [] s = (Inr current, s)"
| "drag_segments current button (seg # segs) s =
     (if seg_duration_ns seg div 1000000 > MAX_DRAG_SEGMENT_MS
      then (Inl (InvalidArgument ''drag segment longer than 5s''), s)
      else (let dx = i32_sub (pt_x (seg_to seg)) (pt_x current);
                dy = i32_sub (pt_y (seg_to seg)) (pt_y current);
                steps = drag_steps dx dy;
                sleep_each = seg_duration_ns seg div nat steps
            in cg_seq (drag_loop current dx dy steps sleep_each button (map int [1..<Suc (nat steps)]))
                 (drag_segments (seg_to seg) button segs) s))"

definition cg_drag :: "Point \<Rightarrow> DragSegment list \<Rightarrow> Button \<Rightarrow> unit cg" where
  "cg_drag from segments button =
     (case button_types button of (cg_btn, down_ty, up_ty) \<Rightarrow>
        cg_seq cg_guard
          (if segments = [] then (\<lambda>s. (Inl (InvalidArgument ''drag segments must be non-empty''), s))
           else cg_seq (post_move from)
                (cg_seq event_source
                (cg_seq (cg_make ''mouse_event down failed'')
                (cg_seq (cg_post (CgMouse down_ty from cg_btn None None))
                (\<lambda>s. case drag_segments from button segments s of
                       (Inl e, s') \<Rightarrow> (Inl e, s')
                     | (Inr current, s') \<Rightarrow>
                         cg_seq event_source
                         (cg_seq (cg_make ''mouse_event up failed'')
                                 (cg_post (CgMouse up_ty current cg_btn None None))) s')))))) "

definition cg_key_combo :: "Modifier list \<Rightarrow> string \<Rightarrow> unit cg" where
  "cg_key_combo modifiers key =
     cg_seq cg_guard
       (\<lambda>s. case key_parse key of
              Inl e \<Rightarrow> (Inl e, s)
            | Inr parsed \<Rightarrow>
                (case macos_keycode parsed of
                   None \<Rightarrow> (Inl (UnknownKey key), s)
                 | Some keycode \<Rightarrow> cg_seq (post_key keycode True modifiers) (post_key keycode False modifiers) s))"

fun mac_action :: "SinkCall \<Rightarrow> unit cg" where
  "mac_action (MouseMove to) = cg_seq cg_guard (post_move to)"
| "mac_action (ClickCall p b ms hold_ms) =
     cg_seq cg_guard (cg_seq (post_move p) (post_click p b ms (hold_ms * 1000000) 1))"
| "mac_action (DoubleClick p b) =
     cg_seq cg_guard (cg_seq (post_move p) (cg_seq (post_click p b [] 0 1) (post_click p b [] 0 2)))"
| "mac_action (Drag from segs b) = cg_drag from segs b"
| "mac_action (TypeCall t) = cg_seq cg_guard (cg_type_text t)"
| "mac_action (KeyCombo ms k) = cg_key_combo ms k"

definition mac_call :: "Cg sink" where
  "mac_call s c = mac_action c s"

section \<open>The stub of Windows\<close>

text \<open>Every method of the stub is \<open>unimplemented!\<close>, a panic.\<close>

definition windows_call :: "'s \<Rightarrow> SinkCall \<Rightarrow> ((InputError + unit) \<times> 's) option" where
  "windows_call s c = None"

section \<open>The kill-switch hotkey\<close>

definition KVK_ESCAPE_KEYCODE :: int where "KVK_ESCAPE_KEYCODE = 0x35"

text \<open>The callback of the event tap; the flag says whether the event is a key press.\<close>

definition tap_callback :: "nat \<Rightarrow> bool \<Rightarrow> int \<Rightarrow> CgFlag set \<Rightarrow> KillSwitch \<Rightarrow> KillSwitch" where
  "tap_callback now_ns key_down keycode flags kill =
     (if key_down \<and> keycode = KVK_ESCAPE_KEYCODE \<and> {FlagCommand, FlagShift} \<subseteq> flags
      then engage now_ns kill else kill)"

text \<open>Starting the listener: the failure to start a thread is an error, a refused event tap ends the
  thread.  The result is whether a tap listens.\<close>

definition spawn_kill_switch_listener :: "string option \<Rightarrow> bool \<Rightarrow> InputError + bool" where
  "spawn_kill_switch_listener spawn_error tap_created =
     (case spawn_error of
        Some e \<Rightarrow> Inl (Backend (''spawn tap thread: '' @ e))
      | None \<Rightarrow> Inr tap_created)"

end
