(* ===== verification/Pidfile_Props.thy ===== *)
theory Pidfile_Props
  imports Pidfile
begin

text \<open>
  Properties of the single-instance guard: exclusion as long as no orderly exit overlaps a
  start, what a second daemon is told, and a schedule of three daemons that ends with two of
  them running.
\<close>

section \<open>Printing and reading a pid\<close>

lemma str_chars_ascii: "list_all (\<lambda>c. \<not> is_cont c) s \<Longrightarrow> str_chars s = map (\<lambda>c. [c]) s"
proof (induction s)
  case (Cons c s)
  then have "takeWhile is_cont s = []" "dropWhile is_cont s = s" by (cases s; simp)+
  with Cons show ?case by simp
qed simp

lemma digit_not_space: "is_digit c \<Longrightarrow> \<not> is_whitespace [c] \<and> \<not> is_cont c"
  by (auto simp: is_digit_def is_whitespace_def is_cont_def)

lemma str_trim_line:
  assumes "list_all is_digit s" "s \<noteq> []"
  shows "str_trim (s @ [CHR 0x0A]) = s"
proof -
  obtain c cs where s: "s = c # cs" using assms(2) by (cases s) auto
  obtain d ds where r: "rev s = d # ds" using assms(2) by (cases "rev s") auto
  have "c \<in> set s" by (simp add: s)
  moreover have "d \<in> set s" using r by (metis list.set_intros(1) set_rev)
  ultimately have "is_digit c" "is_digit d" using assms(1) by (simp_all add: list_all_iff)
  moreover have nl: "is_whitespace [CHR 0x0A]" "\<not> is_cont (CHR 0x0A)"
    by (simp_all add: is_whitespace_def is_cont_def)
  moreover have "str_chars (s @ [CHR 0x0A]) = map (\<lambda>c. [c]) s @ [[CHR 0x0A]]"
    using assms(1) nl digit_not_space by (subst str_chars_ascii) (auto simp: list_all_iff)
  ultimately have "str_trim (s @ [CHR 0x0A]) = concat (rev (dropWhile is_whitespace (map (\<lambda>c. [c]) (rev s))))"
    using digit_not_space [of c] by (simp add: str_trim_def s rev_map)
  also have "dropWhile is_whitespace (map (\<lambda>c. [c]) (rev s)) = map (\<lambda>c. [c]) (rev s)"
    using digit_not_space \<open>is_digit d\<close> by (simp add: r)
  also have "concat (rev (map (\<lambda>c. [c]) (rev s))) = s" by (simp add: rev_map)
  finally show ?thesis .
qed

lemma recorded_pid_line: "p \<le> u32_max \<Longrightarrow> recorded_pid (nat_str p @ [CHR 0x0A]) = p"
proof -
  assume p: "p \<le> u32_max"
  have ds: "list_all is_digit (nat_str p)" by (rule nat_str_is_digit)
  then have "hd (nat_str p) \<noteq> CHR ''+''"
    by (cases "nat_str p") (auto simp: is_digit_def)
  then have "parse_u32 (nat_str p) = Some p"
    using p ds digits_value_nat_str [of p] by (cases "nat_str p") (simp_all add: parse_u32_def Let_def)
  then show ?thesis using str_trim_line [OF ds] by (simp add: recorded_pid_def)
qed

section \<open>The invariant\<close>

text \<open>A process past its lock owns the lock of the inode the path names and has written what it should.\<close>

definition owns :: "PidWorld \<Rightarrow> u32 \<Rightarrow> nat \<Rightarrow> bool" where
  "owns w p i \<longleftrightarrow> pw_lock w i = Some p \<and> pw_entry w = Some i"

definition proc_ok :: "PidWorld \<Rightarrow> u32 \<Rightarrow> bool" where
  "proc_ok w p = (case pw_proc w p of
       Opened i \<Rightarrow> pw_entry w = Some i
     | Locked i \<Rightarrow> owns w p i
     | Truncated i \<Rightarrow> owns w p i \<and> pw_text w i = []
     | Numbered i \<Rightarrow> owns w p i \<and> pw_text w i = nat_str p
     | Holding i \<Rightarrow> owns w p i \<and> pw_text w i = nat_str p @ [CHR 0x0A]
     | Releasing \<Rightarrow> False
     | Released \<Rightarrow> False
     | Dropping \<Rightarrow> False
     | _ \<Rightarrow> True)"

definition guard_inv :: "PidWorld \<Rightarrow> bool" where
  "guard_inv w \<longleftrightarrow> (\<forall>p. proc_ok w p) \<and> (\<forall>p i. pw_lock w i = Some p \<longrightarrow> inode_of (pw_proc w p) = Some i)"

lemmas pid_defs = pid_step_def acquire_open_def acquire_lock_def acquire_truncate_def acquire_number_def
  acquire_newline_def release_unlock_def release_unlink_def drop_unlock_def drop_unlink_def killed_def
  set_proc_def unlock_def

lemma owner: "proc_ok w p \<Longrightarrow> inode_of (pw_proc w p) = Some i \<Longrightarrow> owns w p i"
  by (auto simp: proc_ok_def inode_of_def split: PidProc.splits)

text \<open>A process is not disturbed by steps that keep the name and what it has locked.\<close>

lemma proc_ok_frame:
  assumes "proc_ok w q" "pw_proc w' q = pw_proc w q"
    and "\<And>i. pw_entry w = Some i \<Longrightarrow> pw_entry w' = Some i"
    and "\<And>i. pw_lock w i = Some q \<Longrightarrow> pw_lock w' i = Some q \<and> pw_text w' i = pw_text w i"
  shows "proc_ok w' q"
  using assms by (cases "pw_proc w q") (simp_all add: proc_ok_def owns_def)

lemma guard_initial: "pid_initial w \<Longrightarrow> guard_inv w"
  by (simp add: pid_initial_def guard_inv_def proc_ok_def)

text \<open>The shape of every undisturbed step: one process moves, the others are framed.\<close>

lemma guard_step:
  assumes "guard_inv w" "\<And>q. q \<noteq> p \<Longrightarrow> pw_proc w' q = pw_proc w q" "proc_ok w' p"
    and "\<And>i. pw_entry w = Some i \<Longrightarrow> pw_entry w' = Some i"
    and "\<And>q i. q \<noteq> p \<Longrightarrow> pw_lock w i = Some q \<Longrightarrow> pw_lock w' i = Some q \<and> pw_text w' i = pw_text w i"
    and "\<And>q i. pw_lock w' i = Some q \<Longrightarrow> q = p \<and> inode_of (pw_proc w' p) = Some i \<or> q \<noteq> p \<and> pw_lock w i = Some q"
  shows "guard_inv w'"
  unfolding guard_inv_def
proof (intro conjI allI impI)
  fix q
  show "proc_ok w' q"
  proof (cases "q = p")
    case False
    with assms(1,2,4,5) show ?thesis
      by (intro proc_ok_frame [of w q w']) (auto simp: guard_inv_def)
  qed (use assms(3) in simp)
next
  fix q i
  assume "pw_lock w' i = Some q"
  from assms(6) [OF this] show "inode_of (pw_proc w' q) = Some i"
    using assms(1,2) by (auto simp: guard_inv_def)
qed

lemma guard_kill: "guard_inv w \<Longrightarrow> guard_inv (killed p w)"
  by (rule guard_step [of w p]) (auto simp: killed_def set_proc_def unlock_def proc_ok_def split: if_splits)

lemma guard_write:
  assumes inv: "guard_inv w" and i: "inode_of (pw_proc w p) = Some i" "inode_of st = Some i"
    and ok: "proc_ok (set_proc p st (w\<lparr>pw_text := (pw_text w)(i := t)\<rparr>)) p"
  shows "guard_inv (set_proc p st (w\<lparr>pw_text := (pw_text w)(i := t)\<rparr>))" (is "guard_inv ?w'")
proof (rule guard_step [OF inv, of p])
  have lock: "pw_lock w i = Some p" using owner [of w p i] inv i by (simp add: guard_inv_def owns_def)
  have uniq: "j = i" if "pw_lock w j = Some p" for j
  proof -
    have "inode_of (pw_proc w p) = Some j" using inv that by (simp add: guard_inv_def)
    with i show ?thesis by simp
  qed
  show "pw_lock ?w' j = Some q \<and> pw_text ?w' j = pw_text w j" if "q \<noteq> p" "pw_lock w j = Some q" for q j
    using that lock by (auto simp: set_proc_def)
  show "q = p \<and> inode_of (pw_proc ?w' p) = Some j \<or> q \<noteq> p \<and> pw_lock w j = Some q"
    if "pw_lock ?w' j = Some q" for q j
    using that uniq [of j] i(2) by (auto simp: set_proc_def)
qed (use ok in \<open>simp_all add: set_proc_def\<close>)

lemma guard_acquire_step:
  assumes inv: "guard_inv w" and "\<not> holds w p"
  shows "guard_inv (pid_step b p w)"
proof -
  have p: "proc_ok w p" and lk: "\<And>q i. pw_lock w i = Some q \<Longrightarrow> inode_of (pw_proc w q) = Some i"
    using inv by (simp_all add: guard_inv_def)
  have one: "pw_lock w j = Some p \<Longrightarrow> inode_of (pw_proc w p) = Some j" for j using lk by blast
  have entry: "pw_lock w j = Some q \<Longrightarrow> pw_entry w = Some j" for q j
    using inv lk [of j q] owner [of w q j] by (simp add: guard_inv_def owns_def)
  show ?thesis
  proof (cases "pw_proc w p")
    case Outside
    with one have no: "pw_lock w j \<noteq> Some p" for j by (force simp: inode_of_def)
    show ?thesis
    proof (cases "pw_entry w")
      case None
      with entry have "pw_lock w j = None" for j by (cases "pw_lock w j") auto
      with None Outside show ?thesis
        by (intro guard_step [OF inv, of p]) (simp_all add: pid_defs proc_ok_def)
    next
      case (Some i)
      with Outside no show ?thesis
        by (intro guard_step [OF inv, of p]) (auto simp: pid_defs proc_ok_def)
    qed
  next
    case (Opened i)
    with one have no: "pw_lock w j \<noteq> Some p" for j by (force simp: inode_of_def)
    show ?thesis
      using Opened no p
      by (intro guard_step [OF inv, of p])
         (auto simp: pid_defs proc_ok_def owns_def inode_of_def split: if_splits)
  next
    case (Locked i)
    with p show ?thesis
      using guard_write [OF inv, of p i "Truncated i" "[]"]
      by (simp add: pid_step_def acquire_truncate_def proc_ok_def owns_def set_proc_def inode_of_def)
  next
    case (Truncated i)
    with p show ?thesis
      using guard_write [OF inv, of p i "Numbered i" "pw_text w i @ nat_str p"]
      by (simp add: pid_step_def acquire_number_def proc_ok_def owns_def set_proc_def inode_of_def)
  next
    case (Numbered i)
    with p show ?thesis
      using guard_write [OF inv, of p i "Holding i" "pw_text w i @ [CHR 0x0A]"]
      by (simp add: pid_step_def acquire_newline_def proc_ok_def owns_def set_proc_def inode_of_def)
  qed (use assms p in \<open>auto simp: holds_def pid_step_def proc_ok_def\<close>)
qed

lemma guard_release:
  assumes inv: "guard_inv w" and "holds w p" "\<And>q i. pw_proc w q \<noteq> Opened i"
  shows "guard_inv (release p w)"
proof -
  obtain i where p: "pw_proc w p = Holding i" using assms(2) by (auto simp: holds_def)
  then have i: "pw_lock w i = Some p" "pw_entry w = Some i" 
    using inv owner [of w p i] by (simp_all add: guard_inv_def owns_def inode_of_def)
  have ow: "owns w q j" if "pw_lock w j = Some q" for q j
    using that inv owner [of w q j] by (simp add: guard_inv_def)
  have lock: "pw_lock w j = (if j = i then Some p else None)" for j
  proof (cases "pw_lock w j")
    case (Some q)
    with ow have "owns w q j" by blast
    with Some i show ?thesis by (simp add: owns_def)
  qed (use i in auto)
  have others: "inode_of (pw_proc w q) = None" if "q \<noteq> p" for q
  proof (cases "inode_of (pw_proc w q)")
    case (Some j)
    then have "owns w q j" using inv owner [of w q j] by (simp add: guard_inv_def)
    with lock that show ?thesis by (auto simp: owns_def split: if_splits)
  qed
  have w': "release p w = w\<lparr>pw_proc := (pw_proc w)(p := Gone), pw_entry := None, pw_lock := (\<lambda>_. None)\<rparr>"
    using p lock by (auto simp: release_def pid_defs fun_eq_iff)
  have "proc_ok (release p w) q" for q
  proof (cases "q = p")
    case False
    have "proc_ok w q" using inv by (simp add: guard_inv_def)
    moreover have "\<forall>j. pw_proc w q \<noteq> Opened j" using assms(3) by blast
    ultimately show ?thesis using False others [OF False]
      by (cases "pw_proc w q") (simp_all add: proc_ok_def inode_of_def w')
  qed (simp add: proc_ok_def w')
  then show ?thesis by (simp add: guard_inv_def w')
qed

lemma undisturbed_inv: "undisturbed w \<Longrightarrow> guard_inv w"
  by (induction rule: undisturbed.induct) (simp_all add: guard_initial guard_kill guard_acquire_step guard_release)

section \<open>Properties\<close>

text \<open>
  C11. As long as no orderly exit overlaps another start, at most one daemon has the pid
  file, whatever the interleaving of their system calls and whoever is killed at any point;
  and that daemon's pid is what the file says.
\<close>

theorem pidfile_exclusive:
  assumes "undisturbed w" "holds w p"
  shows "(\<forall>q. holds w q \<longrightarrow> q = p) \<and>
    (\<exists>i. pw_entry w = Some i \<and> pw_text w i = nat_str p @ [CHR 0x0A])"
proof -
  have owns: "\<exists>i. owns w q i \<and> pw_text w i = nat_str q @ [CHR 0x0A]" if "holds w q" for q
  proof -
    have "proc_ok w q" using undisturbed_inv [OF assms(1)] by (simp add: guard_inv_def)
    with that show ?thesis by (auto simp: holds_def proc_ok_def)
  qed
  from owns [OF assms(2)] obtain i where i: "owns w p i" "pw_text w i = nat_str p @ [CHR 0x0A]" by blast
  have "q = p" if "holds w q" for q
    using owns [OF that] i(1) by (auto simp: owns_def)
  with i show ?thesis by (auto simp: owns_def)
qed

definition demo_world :: PidWorld where
  "demo_world = \<lparr>pw_entry = None, pw_fresh = 0, pw_text = (\<lambda>_. []), pw_lock = (\<lambda>_. None),
                 pw_proc = (\<lambda>_. Outside)\<rparr>"

text \<open>One daemon after its start.\<close>

definition demo_held :: PidWorld where
  "demo_held = snd (acquire ''/d/daemon.pid'' 7 demo_world)"

lemma demo_acquires:
  "acquire ''/d/daemon.pid'' 7 demo_world = (Inr 7, demo_held)" "pw_proc demo_held = (\<lambda>_. Outside)(7 := Holding 0)"
  by (simp_all add: demo_held_def acquire_def demo_world_def pid_defs)

lemma demo_held_holds: "holds demo_held 7"
  by (simp add: holds_def demo_acquires)

lemma demo_undisturbed: "undisturbed demo_held"
proof -
  have eq: "demo_held = pid_step True 7 (pid_step True 7 (pid_step True 7 (pid_step True 7 (pid_step True 7 demo_world))))"
    by (simp add: demo_held_def acquire_def demo_world_def pid_defs)
  show ?thesis unfolding eq
    by (intro undisturbed.stepped undisturbed.initial)
       (simp_all add: pid_initial_def holds_def demo_world_def pid_defs)
qed

theorem pidfile_exclusive_witness:
  "holds demo_held 7 \<and> \<not> holds demo_held 8 \<and>
   (\<exists>i. pw_entry demo_held = Some i \<and> pw_text demo_held i = ''7'' @ [CHR 0x0A])"
proof -
  note ex = pidfile_exclusive [OF demo_undisturbed demo_held_holds]
  have "\<not> holds demo_held 8"
    using conjunct1 [OF ex, rule_format, of 8] by linarith
  moreover have "nat_str 7 = ''7''"
    by code_simp
  ultimately show ?thesis
    using conjunct2 [OF ex] demo_held_holds by metis
qed

text \<open>
  A daemon that starts while another holds the pid file is refused with the pid of the
  holder and changes nothing but its own position; one that starts while nobody is past the
  lock gets the file, also when a killed daemon has left it behind.
\<close>

theorem second_daemon_refused:
  assumes "undisturbed w" "pw_proc w q = Outside"
  shows "(\<forall>p. holds w p \<and> p \<le> u32_max \<longrightarrow>
       acquire path q w = (Inl (AlreadyRunning p path), set_proc q (Refused p) w)) \<and>
    ((\<forall>p. inode_of (pw_proc w p) = None) \<longrightarrow>
       (\<exists>w'. acquire path q w = (Inr q, w') \<and> holds w' q))"
proof -
  note inv = undisturbed_inv [OF assms(1)]
  have "acquire path q w = (Inl (AlreadyRunning p path), set_proc q (Refused p) w)"
    if p: "holds w p" "p \<le> u32_max" for p
  proof -
    have "proc_ok w p" using inv by (simp add: guard_inv_def)
    with p(1) obtain i where i: "pw_lock w i = Some p" "pw_entry w = Some i" "pw_text w i = nat_str p @ [CHR 0x0A]"
      by (auto simp: holds_def proc_ok_def owns_def)
    with assms(2) recorded_pid_line [OF p(2)] show ?thesis
      by (simp add: acquire_def pid_step_def acquire_open_def acquire_lock_def set_proc_def Let_def)
  qed
  moreover have "\<exists>w'. acquire path q w = (Inr q, w') \<and> holds w' q"
    if none: "\<forall>p. inode_of (pw_proc w p) = None"
  proof -
    have "pw_lock w i = None" for i
    proof (cases "pw_lock w i")
      case (Some p)
      with inv have "inode_of (pw_proc w p) = Some i" by (simp add: guard_inv_def)
      with none show ?thesis by simp
    qed
    with assms(2) show ?thesis
      by (cases "pw_entry w") (simp_all add: acquire_def pid_defs holds_def Let_def)
  qed
  ultimately show ?thesis by blast
qed

theorem second_daemon_refused_witness:
  "fst (acquire ''/d/daemon.pid'' 8 demo_held) = Inl (AlreadyRunning 7 ''/d/daemon.pid'')"
proof -
  have "pw_proc demo_held 8 = Outside" by (simp add: demo_acquires)
  from second_daemon_refused [OF demo_undisturbed this, of "''/d/daemon.pid''"] demo_held_holds
  have "acquire ''/d/daemon.pid'' 8 demo_held
      = (Inl (AlreadyRunning 7 ''/d/daemon.pid''), set_proc 8 (Refused 7) demo_held)"
    by fastforce
  then show ?thesis by simp
qed

text \<open>
  An orderly exit that overlaps a start breaks the guard: the exit unlocks before it
  removes the name, so another daemon can lock the old file, whose name is then removed,
  and a third one creates and locks a new file.  Two daemons run.
\<close>

theorem pidfile_release_race:
  "\<exists>ops w. pid_initial w \<and> (let w' = pid_run ops w in holds w' 2 \<and> holds w' 3)"
proof -
  let ?ops = "replicate 5 (Step 1 True) @ [Step 2 True, Step 1 True] @ replicate 4 (Step 2 True) @
      [Step 1 True] @ replicate 5 (Step 3 True)"
  have "pid_initial demo_world" by (simp add: pid_initial_def demo_world_def)
  moreover have "holds (pid_run ?ops demo_world) 2 \<and> holds (pid_run ?ops demo_world) 3"
    by (simp add: pid_run_def holds_def demo_world_def pid_defs numeral_nat)
  ultimately show ?thesis by (metis (no_types, lifting))
qed

end
