(* ===== verification/Daemon_Run.thy ===== *)
theory Daemon_Run
  imports Locations Capture Mac_Input Runtime_Base Pidfile_Props
begin

text \<open>
  The daemon as a process: the factories of its backends (\<open>factory_mock.rs\<close>,
  \<open>factory_macos.rs\<close>, \<open>lib.rs\<close>), the assembly \<open>run_foreground\<close> (\<open>run.rs\<close>) and the entry point
  (\<open>bin/vcli-daemon.rs\<close>).  The assembly is a function of what each outside call returns
  (\<open>BootWorld\<close>), of the tables on disk and of the world of the pid file; it gives the result, a
  trace of its steps and the pid file afterwards, and \<open>None\<close> when it never gets further or
  panics.  An early return drops the handle of the pid file, which unlocks and removes it.
  Events that the scheduler thread sends while the daemon serves, and those it still sends
  after the stop command, are lists of the world.
\<close>

section \<open>Backends\<close>

text \<open>The mock bundle, or the macOS bundle with whether the kill-switch hotkey is heard.\<close>

datatype RuntimeBackends = MockBackends MockCapture MockInputSink | MacBackends KillSwitch bool

definition factory_mock_build :: "DaemonError + RuntimeBackends" where
  "factory_mock_build = Inr (MockBackends mock_capture_empty (Input.mock_new kill_new))"

text \<open>Text between the parts of the messages, in UTF-8.\<close>

definition dash_text :: string where "dash_text = '' '' @ [CHR 0xE2, CHR 0x80, CHR 0x94] @ '' ''"
definition arrow_text :: string where "arrow_text = '' '' @ [CHR 0xE2, CHR 0x86, CHR 0x92] @ '' ''"

definition grant_hint :: "string \<Rightarrow> string" where
  "grant_hint bucket = dash_text @ ''grant access in System Settings'' @ arrow_text @ ''Privacy & Security'' @ arrow_text
     @ bucket @ '', then restart the daemon''"

definition factory_macos_build :: "bool \<Rightarrow> string option \<Rightarrow> bool \<Rightarrow> DaemonError + RuntimeBackends" where
  "factory_macos_build preflight spawn_error tap_created =
     (case mac_new (check_screen_recording_permission True preflight) of
        Some e \<Rightarrow> Inl (BackendInit ''capture'' (capture_error_display e @ grant_hint ''Screen Recording''))
      | None \<Rightarrow>
          (let kill = kill_new
           in case spawn_kill_switch_listener spawn_error tap_created of
                Inl e \<Rightarrow> Inl (BackendInit ''input'' (''kill-switch listener: '' @ input_display e @ grant_hint ''Input Monitoring''))
              | Inr listening \<Rightarrow> Inr (MacBackends kill listening)))"

definition build_default_backends :: "TargetOs \<Rightarrow> bool \<Rightarrow> string option \<Rightarrow> bool \<Rightarrow> DaemonError + RuntimeBackends" where
  "build_default_backends os preflight spawn_error tap_created =
     (if os = MacOs then factory_macos_build preflight spawn_error tap_created else factory_mock_build)"

section \<open>The assembly\<close>

datatype BootStep =
    B_Locked
  | B_Opened
  | B_Sent Event
  | B_Queued SchedulerCommand
  | B_Backends
  | B_Scheduler
  | B_Signals
  | B_Bound path
  | B_Served
  | B_Stop
  | B_Joined
  | B_PumpDone
  | B_Unlocked

record BootWorld =
  bw_dirs :: "string option"
  bw_log :: "string option"
  bw_thread :: "string option"
  bw_signals :: "string option"
  bw_bind :: "IpcError option"
  bw_now :: "nat \<Rightarrow> UnixMs"
  bw_events :: "Event list"
  bw_late :: "Event list"

definition drop_pid :: "u32 \<Rightarrow> PidWorld \<Rightarrow> PidWorld" where
  "drop_pid p w = pid_step False p (pid_step False p w)"

text \<open>The end of a daemon that has served: stop, wait for the scheduler and the pump, release the pid file.\<close>

definition run_end :: "BootWorld \<Rightarrow> BootStep list" where
  "run_end B =
     [B_Stop] @ map B_Sent (emit_daemon_stopped (bw_now B 3)) @ map B_Sent (bw_late B)
     @ [B_Joined, B_PumpDone, B_Unlocked]"

text \<open>The part behind the lock: the steps, and the error that ends it early.\<close>

definition run_locked ::
  "DaemonExt \<Rightarrow> BootWorld \<Rightarrow> Config \<Rightarrow> DaemonError + RuntimeBackends \<Rightarrow> Store \<Rightarrow> (DaemonError option \<times> BootStep list) option" where
  "run_locked D B cfg factory disk =
     (case store_open disk of
        Inl e \<Rightarrow> Some (Some (DE_Store e), [])
      | Inr (s, recovered) \<Rightarrow>
          (let tr1 = B_Opened # map B_Sent (emit_recovery_events (bw_now B 0) recovered @ emit_daemon_started D (bw_now B 1))
           in case reload_waiting_programs D (bw_now B 2) s of
                None \<Rightarrow> None
              | Some (q, _, s1) \<Rightarrow>
                  (let tr2 = tr1 @ map B_Queued q
                   in case factory of
                        Inl e \<Rightarrow> Some (Some e, tr2)
                      | Inr b \<Rightarrow>
                          (case bw_thread B of
                             Some e \<Rightarrow> Some (Some (DE_Io e), tr2 @ [B_Backends])
                           | None \<Rightarrow>
                               (case bw_signals B of
                                  Some e \<Rightarrow> Some (Some (DE_Io e), tr2 @ [B_Backends, B_Scheduler])
                                | None \<Rightarrow>
                                    (case bw_bind B of
                                       Some e \<Rightarrow> Some (Some (DE_Ipc e), tr2 @ [B_Backends, B_Scheduler, B_Signals])
                                     | None \<Rightarrow>
                                         Some (None, tr2 @ [B_Backends, B_Scheduler, B_Signals, B_Bound (sp_path (cf_socket cfg))]
                                                     @ map B_Sent (bw_events B) @ [B_Served] @ run_end B)))))))"

definition run_foreground ::
  "DaemonExt \<Rightarrow> BootWorld \<Rightarrow> Config \<Rightarrow> DaemonError + RuntimeBackends \<Rightarrow> u32 \<Rightarrow> Store \<Rightarrow> PidWorld \<Rightarrow>
   ((DaemonError + unit) \<times> BootStep list \<times> PidWorld) option" where
  "run_foreground D B cfg factory p disk w =
     (case bw_dirs B of
        Some e \<Rightarrow> Some (Inl (DE_Io e), [], w)
      | None \<Rightarrow>
          (case bw_log B of
             Some e \<Rightarrow> Some (Inl (LoggingError e), [], w)
           | None \<Rightarrow>
               (case acquire (pidfile_path cfg) p w of
                  (Inl e, w1) \<Rightarrow> Some (Inl e, [], w1)
                | (Inr _, w1) \<Rightarrow>
                    (case run_locked D B cfg factory disk of
                       None \<Rightarrow> None
                     | Some (Some e, tr) \<Rightarrow> Some (Inl e, B_Locked # tr @ [B_Unlocked], drop_pid p w1)
                     | Some (None, tr) \<Rightarrow> Some (Inr (), B_Locked # tr, release p w1)))))"

section \<open>The entry point\<close>

text \<open>Arguments, the outcome of starting the runtime and of resolving the paths, and the run; the result
  is the text on both outputs and the exit code.  A run that never ends has none.\<close>

definition daemon_main ::
  "StoreExt \<Rightarrow> string \<Rightarrow> string list \<Rightarrow> string option \<Rightarrow> DaemonError + Config \<Rightarrow>
   (Config \<Rightarrow> (DaemonError + unit) option) \<Rightarrow> (string \<times> string \<times> nat) option" where
  "daemon_main X pkg_version args runtime_error cfg serve =
     (if ''--version'' \<in> set args \<or> ''-V'' \<in> set args
      then Some (''vcli-daemon '' @ pkg_version @ [CHR 0x0A], [], 0)
      else if ''--help'' \<in> set args \<or> ''-h'' \<in> set args
      then Some (''usage: vcli-daemon'' @ [CHR 0x0A] @ ''  no flags'' @ dash_text
                 @ ''runs in the foreground until SIGTERM/SIGINT'' @ [CHR 0x0A], [], 0)
      else (case runtime_error of
              Some e \<Rightarrow> Some ([], ''vcli-daemon: failed to build tokio runtime: '' @ e @ [CHR 0x0A], 1)
            | None \<Rightarrow>
                (case cfg of
                   Inl e \<Rightarrow> Some ([], ''vcli-daemon: '' @ daemon_error_display X e @ [CHR 0x0A], 1)
                 | Inr c \<Rightarrow>
                     (case serve c of
                        None \<Rightarrow> None
                      | Some (Inr _) \<Rightarrow> Some ([], [], 0)
                      | Some (Inl (AlreadyRunning pid _)) \<Rightarrow>
                          Some ([], ''vcli-daemon: already running (pid '' @ nat_str pid @ '')'' @ [CHR 0x0A], 1)
                      | Some (Inl e) \<Rightarrow> Some ([], ''vcli-daemon: '' @ daemon_error_display X e @ [CHR 0x0A], 1)))))"

end
