(* ===== verification/Daemon_Run_Props.thy ===== *)
theory Daemon_Run_Props
  imports Daemon_Run Daemon_Props
begin

text \<open>
  Properties of the daemon process: the order of its events, that it leaves the pid file free
  whichever way it ends, and that a deaf hotkey does not stop it.
\<close>

lemma acquire_initial:
  assumes "pid_initial w"
  shows "fst (acquire path p w) = Inr p"
    and "\<exists>i. pw_proc (snd (acquire path p w)) = (\<lambda>_. Outside)(p := Holding i) \<and>
          pw_lock (snd (acquire path p w)) = (\<lambda>_. None)(i := Some p)"
proof -
  have w: "pw_proc w = (\<lambda>_. Outside)" "pw_lock w = (\<lambda>_. None)" using assms by (auto simp: pid_initial_def)
  show "fst (acquire path p w) = Inr p"
    by (cases "pw_entry w") (simp_all add: acquire_def w pid_defs)
  show "\<exists>i. pw_proc (snd (acquire path p w)) = (\<lambda>_. Outside)(p := Holding i) \<and>
      pw_lock (snd (acquire path p w)) = (\<lambda>_. None)(i := Some p)"
    by (cases "pw_entry w") (auto simp: acquire_def w pid_defs)
qed

text \<open>Both ways out free the lock and remove the name.\<close>

lemma exit_frees:
  assumes "pw_proc w = (\<lambda>_. Outside)(p := Holding i)" "pw_lock w = (\<lambda>_. None)(i := Some p)"
  shows "pw_lock (drop_pid p w) = (\<lambda>_. None)" "pw_lock (release p w) = (\<lambda>_. None)"
    and "pw_entry (drop_pid p w) = None" "pw_entry (release p w) = None"
    and "q \<noteq> p \<Longrightarrow> pw_proc (drop_pid p w) q = Outside" "q \<noteq> p \<Longrightarrow> pw_proc (release p w) q = Outside"
  using assms by (auto simp: drop_pid_def release_def pid_defs unlock_def fun_eq_iff)

lemma acquire_free:
  assumes "pw_proc w q = Outside" "pw_lock w = (\<lambda>_. None)"
  shows "fst (acquire path q w) = Inr q"
  using assms by (cases "pw_entry w") (simp_all add: acquire_def pid_defs)

text \<open>
  C33. A daemon can always be started again.  Whichever way a daemon that was alone ends, after
  serving or early because a directory, the log, the database, a backend, the thread, the
  signals or the socket failed, another daemon started afterwards gets the pid file: no early
  return leaves the lock behind, and unlocking is the last step of every daemon that locked.
\<close>

theorem daemon_restartable:
  assumes "pid_initial w" and "run_foreground D B cfg factory p disk w = Some (r, tr, w')" and "q \<noteq> p"
  shows "fst (acquire (pidfile_path cfg) q w') = Inr q \<and> (last (B_Unlocked # tr) = B_Unlocked)"
proof -
  have init: "pw_proc w q = Outside" "pw_lock w = (\<lambda>_. None)" using assms(1) by (auto simp: pid_initial_def)
  obtain w1 i where a: "acquire (pidfile_path cfg) p w = (Inr p, w1)" and w1: "pw_proc w1 = (\<lambda>_. Outside)(p := Holding i)"
      "pw_lock w1 = (\<lambda>_. None)(i := Some p)"
    using acquire_initial [OF assms(1), of "pidfile_path cfg" p] by (metis prod.collapse)
  note out = exit_frees [OF w1]
  have "w' = w \<and> tr = [] \<or> (w' = drop_pid p w1 \<or> w' = release p w1) \<and> last tr = B_Unlocked"
    using assms(2)
    by (auto simp: run_foreground_def a run_locked_def run_end_def Let_def split: option.splits sum.splits prod.splits)
  then show ?thesis
    using acquire_free [of w q] acquire_free [of "drop_pid p w1" q] acquire_free [of "release p w1" q] init out assms(3)
    by auto
qed

definition demo_boot :: "IpcError option \<Rightarrow> BootWorld" where
  "demo_boot bind = \<lparr>bw_dirs = None, bw_log = None, bw_thread = None, bw_signals = None, bw_bind = bind,
     bw_now = int, bw_events = [], bw_late = []\<rparr>"

definition demo_config :: Config where
  "demo_config = \<lparr>cf_data_root = ''/d'', cf_socket = \<lparr>sp_path = ''/s'', sp_origin = OriginOverride\<rparr>, cf_log_dir = ''/l''\<rparr>"

abbreviation demo_run :: "IpcError option \<Rightarrow> ((DaemonError + unit) \<times> BootStep list \<times> PidWorld) option" where
  "demo_run bind \<equiv> run_foreground (de_ext (demo_denv demo_program)) (demo_boot bind) demo_config factory_mock_build 7
     (fresh_disk ''/d'') demo_world"

lemma demo_reload: "reload_waiting_programs D now demo_opened = Some ([], 0, demo_opened)"
  by (simp add: reload_waiting_programs_def list_programs_def demo_opened_def fresh_disk_def)

lemma demo_run_returns: "\<exists>r tr w'. demo_run bind = Some (r, tr, w') \<and> B_Opened \<in> set tr \<and> (r = Inr () \<longleftrightarrow> bind = None)"
  using acquire_initial(1) [of demo_world "pidfile_path demo_config" 7]
  by (cases bind; cases "acquire (pidfile_path demo_config) 7 demo_world")
     (auto simp: run_foreground_def run_locked_def demo_boot_def demo_opens demo_reload factory_mock_build_def
       pid_initial_def demo_world_def Let_def)

theorem daemon_restartable_witness:
  "\<exists>r tr w'. demo_run (Some (IE_SocketSetup ''in use'')) = Some (r, tr, w') \<and>
     fst (acquire (pidfile_path demo_config) 8 w') = Inr 8"
proof -
  obtain r tr w' where r: "demo_run (Some (IE_SocketSetup ''in use'')) = Some (r, tr, w')" using demo_run_returns by blast
  have "pid_initial demo_world" by (simp add: pid_initial_def demo_world_def)
  from daemon_restartable [OF this r, of 8] r show ?thesis by auto
qed

fun sent_events :: "BootStep list \<Rightarrow> Event list" where
  "sent_events [] = []"
| "sent_events (B_Sent e # tr) = e # sent_events tr"
| "sent_events (_ # tr) = sent_events tr"

lemma sent_append [simp]: "sent_events (a @ b) = sent_events a @ sent_events b"
  by (induction a rule: sent_events.induct) simp_all

lemma sent_maps [simp]: "sent_events (map B_Sent es) = es" "sent_events (map B_Queued q) = []"
  by (induction es; simp) (induction q; simp)

fun is_bound :: "BootStep \<Rightarrow> bool" where
  "is_bound (B_Bound _) = True"
| "is_bound _ = False"

lemma no_bound_maps [simp]: "list_all (\<lambda>b. \<not> is_bound b) (map B_Sent es)" "list_all (\<lambda>b. \<not> is_bound b) (map B_Queued q)"
  by (simp_all add: list_all_iff)




text \<open>
  A deaf hotkey does not stop the daemon.  On macOS the backends are built, and the daemon starts,
  whether or not the system lets it listen for the kill-switch hotkey: only the failure to start a
  thread is an error, although the documentation says that a missing Input Monitoring permission
  is one; the daemon then runs without the emergency stop.
\<close>

theorem hotkey_may_be_deaf:
  "build_default_backends MacOs True None tap_created = Inr (MacBackends kill_new tap_created) \<and>
   isl (build_default_backends MacOs preflight spawn_error True) = isl (build_default_backends MacOs preflight spawn_error False)"
  by (simp add: build_default_backends_def factory_macos_build_def mac_new_def check_screen_recording_permission_def
    spawn_kill_switch_listener_def Let_def split: option.splits)

end
