(* ===== verification/Capture_Lemmas.thy ===== *)
theory Capture_Lemmas
  imports Capture
begin

text \<open>
  The converter and the backends do what they promise: the loops of the 2:1 box filter fill
  every output byte with the average of its four source bytes and never leave a buffer; every
  backend meets the contract \<open>capture_backend\<close>, under which a grabbed frame can be read.
\<close>

section \<open>Loops\<close>

lemma for_loop_snoc:
  "for_loop f (xs @ [x]) s = (case for_loop f xs s of None \<Rightarrow> None | Some s' \<Rightarrow> f x s')"
  by (induction xs arbitrary: s) (auto split: option.splits)

lemma for_loop_upt:
  assumes "I 0 s" and "\<And>i s. i < n \<Longrightarrow> I i s \<Longrightarrow> \<exists>s'. f i s = Some s' \<and> I (Suc i) s'"
  shows "\<exists>s'. for_loop f [0..<n] s = Some s' \<and> I n s'"
  using assms(2)
proof (induction n)
  case 0
  with assms(1) show ?case by simp
next
  case (Suc n)
  then obtain s1 where "for_loop f [0..<n] s = Some s1" "I n s1" by auto
  with Suc.prems [of n s1] show ?case by (auto simp: for_loop_snoc)
qed

section \<open>The box filter\<close>

definition src_byte :: "RawBgra \<Rightarrow> nat \<Rightarrow> nat \<Rightarrow> nat \<Rightarrow> 8 word" where
  "src_byte raw x y c = rb_pixels raw ! (y * rb_stride raw + x * 4 + c)"

text \<open>The average of a 2 by 2 block, as the specification of one output byte.\<close>

definition block_average :: "RawBgra \<Rightarrow> nat \<Rightarrow> nat \<Rightarrow> nat \<Rightarrow> 8 word" where
  "block_average raw x y c =
     box_average (src_byte raw (2 * x) (2 * y) c) (src_byte raw (2 * x + 1) (2 * y) c)
       (src_byte raw (2 * x) (2 * y + 1) c) (src_byte raw (2 * x + 1) (2 * y + 1) c)"

definition raw_ok :: "RawBgra \<Rightarrow> bool" where
  "raw_ok raw \<longleftrightarrow> rb_stride raw * rb_height_px raw \<le> length (rb_pixels raw) \<and>
     rb_width_px raw * 4 \<le> rb_stride raw"

lemma box_average_floor:
  "unat (box_average a b c d) = (unat a + unat b + unat c + unat d) div 4"
proof -
  have "unat a < 256" "unat b < 256" "unat c < 256" "unat d < 256"
    using unsigned_less [of a] unsigned_less [of b] unsigned_less [of c] unsigned_less [of d] by simp_all
  then have "(unat a + unat b + unat c + unat d) div 4 < 2 ^ LENGTH(8)" by simp
  then show ?thesis by (simp add: box_average_def unsigned_of_nat take_bit_nat_eq_self)
qed

lemma slice_range_Some: "a + n \<le> length xs \<Longrightarrow> slice_range xs a (a + n) = Some (take n (drop a xs))"
  by (simp add: slice_range_def)

text \<open>One byte of a row of blocks.\<close>

lemma box_byte_rows:
  assumes "i + 4 < length row0" "i + 4 < length row1"
  shows "box_byte row0 row1 i = Some (box_average (row0 ! i) (row0 ! (i + 4)) (row1 ! i) (row1 ! (i + 4)))"
  using assms by (simp add: box_byte_def index_def)

text \<open>The loop over a row writes the bytes \<open>base\<close> to \<open>base + 4 * w - 1\<close> and no other.\<close>

lemma downsample_row_writes:
  assumes len: "length row0 = n" "length row1 = n" and w: "w * 8 \<le> n"
    and out: "y * st + w * 4 \<le> length out"
  shows "\<exists>out'. downsample_row w st y row0 row1 out = Some out' \<and> length out' = length out \<and>
    (\<forall>k < y * st. out' ! k = out ! k) \<and>
    (\<forall>x < w. \<forall>c < 4. Some (out' ! (y * st + x * 4 + c)) = box_byte row0 row1 (x * 8 + c))"
proof -
  define I where "I \<equiv> \<lambda>n o'. length o' = length out \<and> (\<forall>k < y * st. o' ! k = out ! k) \<and>
    (\<forall>x < n. \<forall>c < 4. Some (o' ! (y * st + x * 4 + c)) = box_byte row0 row1 (x * 8 + c))"
  have step: "\<exists>s'. for_loop (\<lambda>c out. case box_byte row0 row1 (x * 2 * 4 + c) of None \<Rightarrow> None
        | Some v \<Rightarrow> store_at (y * st + x * 4 + c) v out) [0..<4] s = Some s' \<and> I (Suc x) s'"
    if x: "x < w" and s: "I x s" for x s
  proof -
    define J where "J \<equiv> \<lambda>m o'. I x o' \<and> (\<forall>c < m. Some (o' ! (y * st + x * 4 + c)) = box_byte row0 row1 (x * 8 + c))"
    have "\<exists>s'. for_loop (\<lambda>c out. case box_byte row0 row1 (x * 2 * 4 + c) of None \<Rightarrow> None
        | Some v \<Rightarrow> store_at (y * st + x * 4 + c) v out) [0..<4] s = Some s' \<and> J 4 s'"
    proof (rule for_loop_upt)
      show "J 0 s" using s by (simp add: J_def)
      show "\<exists>s'. (case box_byte row0 row1 (x * 2 * 4 + c) of None \<Rightarrow> None
          | Some v \<Rightarrow> store_at (y * st + x * 4 + c) v s) = Some s' \<and> J (Suc c) s'"
        if c: "c < 4" and Js: "J c s" for c s
      proof -
        obtain v where v: "box_byte row0 row1 (x * 8 + c) = Some v"
          using box_byte_rows [of "x * 8 + c" row0 row1] len w x c by auto
        then have v8: "box_byte row0 row1 (8 * x + c) = Some v" by (simp add: mult.commute)
        have "y * st + x * 4 + c < length s"
          using out x c Js by (simp add: J_def I_def)
        with v v8 Js c show ?thesis
          by (auto simp: store_at_def J_def I_def nth_list_update less_Suc_eq)
      qed
    qed
    then show ?thesis by (auto simp: J_def I_def less_Suc_eq)
  qed
  have "\<exists>s'. downsample_row w st y row0 row1 out = Some s' \<and> I w s'"
    unfolding downsample_row_def Let_def by (rule for_loop_upt [where I = I, OF _ step]) (simp_all add: I_def)
  then show ?thesis by (simp add: I_def)
qed

text \<open>The rows of a buffer with room for them.\<close>

lemma raw_row:
  assumes "raw_ok raw" "y < rb_height_px raw"
  shows "slice_range (rb_pixels raw) (y * rb_stride raw) (y * rb_stride raw + rb_width_px raw * 4)
           = Some (take (rb_width_px raw * 4) (drop (y * rb_stride raw) (rb_pixels raw)))"
    and "y * rb_stride raw + rb_width_px raw * 4 \<le> length (rb_pixels raw)"
proof -
  have "y * rb_stride raw + rb_stride raw \<le> rb_height_px raw * rb_stride raw"
    using assms(2) mult_le_mono1 [of "Suc y" "rb_height_px raw" "rb_stride raw"] by simp
  with assms(1) show le: "y * rb_stride raw + rb_width_px raw * 4 \<le> length (rb_pixels raw)"
    by (simp add: raw_ok_def mult.commute)
  then show "slice_range (rb_pixels raw) (y * rb_stride raw) (y * rb_stride raw + rb_width_px raw * 4)
      = Some (take (rb_width_px raw * 4) (drop (y * rb_stride raw) (rb_pixels raw)))"
    by (rule slice_range_Some)
qed

lemma block_of_rows:
  assumes ok: "raw_ok raw" and x: "x < rb_width_px raw div 2" and y: "y < rb_height_px raw div 2" and c: "c < 4"
  shows "box_byte (take (rb_width_px raw * 4) (drop (2 * y * rb_stride raw) (rb_pixels raw)))
           (take (rb_width_px raw * 4) (drop ((2 * y + 1) * rb_stride raw) (rb_pixels raw))) (x * 8 + c)
         = Some (block_average raw x y c)"
proof -
  have i: "x * 8 + c + 4 < rb_width_px raw * 4" using x c by linarith
  have r: "2 * y < rb_height_px raw" "2 * y + 1 < rb_height_px raw" using y by linarith+
  have ix: "(2 * x) * 4 + c = x * 8 + c" "(2 * x + 1) * 4 + c = x * 8 + c + 4" by simp_all
  show ?thesis
    using i raw_row(2) [OF ok r(1)] raw_row(2) [OF ok r(2)]
    by (subst box_byte_rows) (simp_all add: block_average_def src_byte_def ix add.assoc algebra_simps)
qed

abbreviation raw_row_bytes :: "RawBgra \<Rightarrow> nat \<Rightarrow> bytes" where
  "raw_row_bytes raw y \<equiv> take (rb_width_px raw * 4) (drop (y * rb_stride raw) (rb_pixels raw))"

lemma downsample_row_blocks:
  assumes ok: "raw_ok raw" and w: "w = rb_width_px raw div 2" and y: "y < rb_height_px raw div 2"
    and room: "y * (w * 4) + w * 4 \<le> length out"
  shows "\<exists>out'. downsample_row w (w * 4) y (raw_row_bytes raw (2 * y)) (raw_row_bytes raw (2 * y + 1)) out = Some out' \<and>
    length out' = length out \<and> (\<forall>k < y * (w * 4). out' ! k = out ! k) \<and>
    (\<forall>x < w. \<forall>c < 4. out' ! (y * (w * 4) + x * 4 + c) = block_average raw x y c)"
proof -
  have r: "2 * y < rb_height_px raw" "2 * y + 1 < rb_height_px raw" using y by linarith+
  have len: "length (raw_row_bytes raw (2 * y)) = rb_width_px raw * 4"
      "length (raw_row_bytes raw (2 * y + 1)) = rb_width_px raw * 4"
    using raw_row(2) [OF ok r(1)] raw_row(2) [OF ok r(2)] by simp_all
  have w8: "w * 8 \<le> rb_width_px raw * 4" unfolding w by linarith
  obtain out' where o: "downsample_row w (w * 4) y (raw_row_bytes raw (2 * y)) (raw_row_bytes raw (2 * y + 1)) out = Some out'"
    and l: "length out' = length out" and keep: "\<forall>k < y * (w * 4). out' ! k = out ! k"
    and wr: "\<forall>x < w. \<forall>c < 4. Some (out' ! (y * (w * 4) + x * 4 + c))
               = box_byte (raw_row_bytes raw (2 * y)) (raw_row_bytes raw (2 * y + 1)) (x * 8 + c)"
    using downsample_row_writes [OF len w8 room] by blast
  have "out' ! (y * (w * 4) + x * 4 + c) = block_average raw x y c" if "x < w" "c < 4" for x c
    using wr [rule_format, OF that] block_of_rows [OF ok, of x y c] that y unfolding w
    by (metis option.inject)
  with o l keep show ?thesis by blast
qed

lemma downsample_2x_correct:
  assumes ok: "raw_ok raw"
  defines "w \<equiv> rb_width_px raw div 2" and "h \<equiv> rb_height_px raw div 2"
  shows "\<exists>out. downsample_2x raw = Some (i32_of_u32 w, i32_of_u32 h, w * 4, out) \<and> length out = w * 4 * h \<and>
    (\<forall>y < h. \<forall>x < w. \<forall>c < 4. out ! (y * (w * 4) + x * 4 + c) = block_average raw x y c)"
proof -
  define I where "I \<equiv> \<lambda>n out. length out = w * 4 * h \<and>
    (\<forall>y < n. \<forall>x < w. \<forall>c < 4. out ! (y * (w * 4) + x * 4 + c) = block_average raw x y c)"
  have step: "\<exists>out'. downsample_row w (w * 4) y (raw_row_bytes raw (2 * y)) (raw_row_bytes raw (2 * y + 1)) out
      = Some out' \<and> I (Suc y) out'" if y: "y < h" and out: "I y out" for y out
  proof -
    have "Suc y * (w * 4) \<le> h * (w * 4)" using y by (intro mult_le_mono1) simp
    then have room: "y * (w * 4) + w * 4 \<le> length out" using out by (simp add: I_def algebra_simps)
    obtain out' where o: "downsample_row w (w * 4) y (raw_row_bytes raw (2 * y)) (raw_row_bytes raw (2 * y + 1)) out = Some out'"
      "length out' = length out" "\<forall>k < y * (w * 4). out' ! k = out ! k"
      "\<forall>x < w. \<forall>c < 4. out' ! (y * (w * 4) + x * 4 + c) = block_average raw x y c"
      using downsample_row_blocks [OF ok w_def [THEN meta_eq_to_obj_eq] _ room] y unfolding h_def by blast
    have "y' * (w * 4) + x * 4 + c < y * (w * 4)" if "y' < y" "x < w" "c < 4" for x y' c
    proof -
      have "y' * (w * 4) + (x * 4 + c) < Suc y' * (w * 4)" using that(2,3) by simp
      also have "\<dots> \<le> y * (w * 4)" using that(1) by (intro mult_le_mono1) simp
      finally show ?thesis by simp
    qed
    with o out show ?thesis by (auto simp: I_def less_Suc_eq)
  qed
  let ?body = "\<lambda>y out.
     case slice_range (rb_pixels raw) (y * 2 * rb_stride raw) (y * 2 * rb_stride raw + rb_width_px raw * 4) of
       None \<Rightarrow> None
     | Some row0 \<Rightarrow>
         (case slice_range (rb_pixels raw) ((y * 2 + 1) * rb_stride raw) ((y * 2 + 1) * rb_stride raw + rb_width_px raw * 4) of
            None \<Rightarrow> None | Some row1 \<Rightarrow> downsample_row w (w * 4) y row0 row1 out)"
  have "\<exists>out. for_loop ?body [0..<h] (replicate (w * 4 * h) 0) = Some out \<and> I h out"
  proof (rule for_loop_upt [where I = I], goal_cases)
    case 1
    show ?case by (simp add: I_def)
  next
    case (2 y out)
    then have "y * 2 < rb_height_px raw" "y * 2 + 1 < rb_height_px raw" unfolding h_def by linarith+
    with step [OF 2] show ?case
      by (simp only: raw_row(1) [OF ok] option.case mult.commute [of y 2])
  qed
  then obtain out where o: "for_loop ?body [0..<h] (replicate (w * 4 * h) 0) = Some out" and I: "I h out" by blast
  have "downsample_2x raw = Some (i32_of_u32 w, i32_of_u32 h, w * 4, out)"
    unfolding downsample_2x_def Let_def w_def [symmetric] h_def [symmetric] by (subst o) simp
  with I show ?thesis by (auto simp: I_def)
qed

section \<open>The converter\<close>

definition scale_is :: "rat \<Rightarrow> RawBgra \<Rightarrow> bool" where
  "scale_is s raw \<longleftrightarrow> \<bar>rb_scale raw - s\<bar> < f32_epsilon"

lemma scale_exclusive: "scale_is 2 raw \<Longrightarrow> \<not> scale_is 1 raw"
  unfolding scale_is_def f32_epsilon_def by linarith

lemma nat_i32_of_u32_le: "nat (i32_of_u32 n) \<le> n"
proof -
  have "wrap_i32 (int n) \<le> int n"
  proof (cases "n < 2147483648")
    case True
    then show ?thesis by (simp add: wrap_i32_def)
  next
    case False
    have "(int n + 2147483648) mod 4294967296 < 4294967296" by simp
    with False show ?thesis unfolding wrap_i32_def by linarith
  qed
  then show ?thesis by (simp add: i32_of_u32_def)
qed

lemma i32_of_u32_small: "n < 2 ^ 31 \<Longrightarrow> i32_of_u32 n = int n"
  by (simp add: i32_of_u32_def wrap_i32_id is_i32_def)

text \<open>Frames of buffers that are long enough are always accepted.\<close>

lemma frame_new_accepts:
  assumes "stride * h \<le> length px"
  shows "frame_new fmt \<lparr>rect_x = x, rect_y = y, rect_w = w, rect_h = i32_of_u32 h\<rparr> stride px t
    = Some \<lparr>fr_format = fmt, fr_bounds = \<lparr>rect_x = x, rect_y = y, rect_w = w, rect_h = i32_of_u32 h\<rparr>,
            fr_stride = stride, fr_pixels = px, fr_captured_at_ns = t\<rparr>"
proof -
  have "stride * nat (i32_of_u32 h) \<le> length px"
    using mult_le_mono2 [OF nat_i32_of_u32_le, of stride h] assms by (rule le_trans)
  then show ?thesis by (auto simp: frame_new_def Let_def)
qed

definition raw_fits :: "RawBgra \<Rightarrow> bool" where
  "raw_fits raw \<longleftrightarrow> raw_ok raw \<and> rb_stride raw * rb_height_px raw < 2 ^ 64"

abbreviation raw_bounds :: "RawBgra \<Rightarrow> nat \<Rightarrow> nat \<Rightarrow> Rect" where
  "raw_bounds raw w h \<equiv> \<lparr>rect_x = rb_logical_origin_x raw, rect_y = rb_logical_origin_y raw,
                         rect_w = i32_of_u32 w, rect_h = i32_of_u32 h\<rparr>"

lemma bgra_to_frame_1x:
  assumes "raw_fits raw" "scale_is 1 raw"
  shows "bgra_to_frame sf raw = Some (Inr
    \<lparr>fr_format = Bgra8, fr_bounds = raw_bounds raw (rb_width_px raw) (rb_height_px raw), fr_stride = rb_stride raw,
     fr_pixels = rb_pixels raw, fr_captured_at_ns = rb_captured_at_ns raw\<rparr>)"
  using assms frame_new_accepts [of "rb_stride raw" "rb_height_px raw" "rb_pixels raw"]
  by (auto simp: bgra_to_frame_def Let_def raw_fits_def raw_ok_def scale_is_def not_le not_less)

lemma bgra_to_frame_2x:
  assumes fits: "raw_fits raw" and sc: "scale_is 2 raw"
  defines "w \<equiv> rb_width_px raw div 2" and "h \<equiv> rb_height_px raw div 2"
  shows "\<exists>out. bgra_to_frame sf raw = Some (Inr
      \<lparr>fr_format = Bgra8, fr_bounds = raw_bounds raw w h, fr_stride = w * 4, fr_pixels = out,
       fr_captured_at_ns = rb_captured_at_ns raw\<rparr>) \<and> length out = w * 4 * h \<and>
    (\<forall>y < h. \<forall>x < w. \<forall>c < 4. out ! (y * (w * 4) + x * 4 + c) = block_average raw x y c)"
proof -
  from fits have ok: "raw_ok raw" by (simp add: raw_fits_def)
  obtain out where o: "downsample_2x raw = Some (i32_of_u32 w, i32_of_u32 h, w * 4, out)" "length out = w * 4 * h"
    "\<forall>y < h. \<forall>x < w. \<forall>c < 4. out ! (y * (w * 4) + x * 4 + c) = block_average raw x y c"
    using downsample_2x_correct [OF ok] unfolding w_def h_def by blast
  have "bgra_to_frame sf raw = Some (Inr \<lparr>fr_format = Bgra8, fr_bounds = raw_bounds raw w h, fr_stride = w * 4,
      fr_pixels = out, fr_captured_at_ns = rb_captured_at_ns raw\<rparr>)"
    using fits sc scale_exclusive [OF sc] o(1) frame_new_accepts [of "w * 4" h out] o(2)
    by (auto simp: bgra_to_frame_def Let_def raw_fits_def raw_ok_def scale_is_def not_le not_less)
  with o(2,3) show ?thesis by blast
qed

lemma bgra_to_frame_rejects:
  assumes "\<not> (raw_fits raw \<and> (scale_is 1 raw \<or> scale_is 2 raw))"
  shows "\<exists>m. bgra_to_frame sf raw = Some (Inl (CE_MalformedFrame m))"
  using assms by (auto simp: bgra_to_frame_def Let_def raw_fits_def raw_ok_def scale_is_def not_le not_less)

lemma bgra_to_frame_total: "bgra_to_frame sf raw \<noteq> None"
  using bgra_to_frame_1x [of raw sf] bgra_to_frame_2x [of raw sf] bgra_to_frame_rejects [of raw sf] by fastforce

end
