(* ===== verification/Capture_Props.thy ===== *)
theory Capture_Props
  imports Capture_Lemmas Scheduler_Lemmas
begin

text \<open>
  Capture backends.  The contract of the interface is a locale that the mock, the macOS and
  the Windows backend interpret; below it, the properties of the converter, of the window
  enumeration and of the scheduler when it runs on a backend that has no frames.
\<close>

section \<open>The contract of a backend\<close>

locale capture_backend =
  fixes inv :: "'s \<Rightarrow> bool"
    and grab_screen :: "'s \<Rightarrow> (CaptureError + Frame) option \<times> 's"
    and grab_window :: "WindowDescriptor \<Rightarrow> 's \<Rightarrow> (CaptureError + Frame) option \<times> 's"
  assumes screen_no_panic: "inv s \<Longrightarrow> fst (grab_screen s) \<noteq> None"
    and screen_keeps: "inv s \<Longrightarrow> inv (snd (grab_screen s))"
    and screen_wf: "inv s \<Longrightarrow> fst (grab_screen s) = Some (Inr f) \<Longrightarrow> frame_wf f"
    and window_no_panic: "inv s \<Longrightarrow> fst (grab_window d s) \<noteq> None"
    and window_keeps: "inv s \<Longrightarrow> inv (snd (grab_window d s))"
    and window_wf: "inv s \<Longrightarrow> fst (grab_window d s) = Some (Inr f) \<Longrightarrow> frame_wf f"
begin

text \<open>The state behind \<open>n\<close> screen grabs, and the frames that can be read there.\<close>

lemma after_grabs: "inv s \<Longrightarrow> inv (((\<lambda>s. snd (grab_screen s)) ^^ n) s)"
  by (induction n) (simp_all add: screen_keeps)

lemma frame_readable:
  assumes "inv s" and "fst (grab_screen (((\<lambda>s. snd (grab_screen s)) ^^ n) s)) = Some (Inr f)"
  shows "pixel_rgb f x y \<noteq> None \<and> frame_to_rgb f \<noteq> None"
  using screen_wf [OF after_grabs [OF assms(1)] assms(2)] pixel_rgb_no_panic frame_to_rgb_no_panic by blast

lemma window_readable:
  assumes "inv s" and "fst (grab_window d s) = Some (Inr f)"
  shows "pixel_rgb f x y \<noteq> None \<and> frame_to_rgb f \<noteq> None"
  using window_wf [OF assms] pixel_rgb_no_panic frame_to_rgb_no_panic by blast

end

section \<open>The mock backend\<close>

definition mock_wf :: "MockCapture \<Rightarrow> bool" where
  "mock_wf m \<longleftrightarrow> (\<forall>f \<in> set (mc_screen_frames m). frame_wf f) \<and>
     (\<forall>(i, fs) \<in> set (mc_window_frame_map m). \<forall>f \<in> set fs. frame_wf f)"

lemma entry_pos_bound: "entry_pos i es = Some k \<Longrightarrow> k < length es"
  by (induction es arbitrary: k) (auto split: if_splits)

lemma mock_grab_screen_keeps:
  "mc_screen_frames (snd (mock_grab_screen m)) = mc_screen_frames m \<and>
   mc_window_frame_map (snd (mock_grab_screen m)) = mc_window_frame_map m"
  by (simp add: mock_grab_screen_def Let_def split: option.splits)

lemma mock_grab_window_keeps:
  "mc_screen_frames (snd (mock_grab_window d m)) = mc_screen_frames m \<and>
   mc_window_frame_map (snd (mock_grab_window d m)) = mc_window_frame_map m"
  by (simp add: mock_grab_window_def Let_def split: option.splits)

lemma mock_grab_screen_from:
  "fst (mock_grab_screen m) = Inr f \<Longrightarrow> f \<in> set (mc_screen_frames m)"
  by (auto simp: mock_grab_screen_def Let_def split: option.splits if_splits)

lemma mock_grab_window_from:
  assumes "fst (mock_grab_window d m) = Inr f"
  shows "\<exists>(i, fs) \<in> set (mc_window_frame_map m). f \<in> set fs"
proof -
  from assms obtain k fs c where k: "entry_pos (wd_id d) (mc_window_frame_map m) = Some k"
    and fs: "fs = snd (mc_window_frame_map m ! k)" "fs \<noteq> []" "f = fs ! (c mod length fs)"
    by (auto simp: mock_grab_window_def Let_def split: option.splits if_splits)
  from fs have "f \<in> set fs" by simp
  with entry_pos_bound [OF k] fs(1) show ?thesis
    by (intro bexI [of _ "mc_window_frame_map m ! k"]) (auto simp: case_prod_unfold)
qed

interpretation mock_capture: capture_backend mock_wf
  "\<lambda>m. case mock_grab_screen m of (r, m') \<Rightarrow> (Some r, m')"
  "\<lambda>d m. case mock_grab_window d m of (r, m') \<Rightarrow> (Some r, m')"
proof unfold_locales
  fix m d f assume wf: "mock_wf m"
  show "mock_wf (snd (case mock_grab_screen m of (r, m') \<Rightarrow> (Some r, m')))"
    using wf mock_grab_screen_keeps [of m] by (simp add: mock_wf_def case_prod_unfold)
  show "mock_wf (snd (case mock_grab_window d m of (r, m') \<Rightarrow> (Some r, m')))"
    using wf mock_grab_window_keeps [of d m] by (simp add: mock_wf_def case_prod_unfold)
  show "frame_wf f" if "fst (case mock_grab_screen m of (r, m') \<Rightarrow> (Some r, m')) = Some (Inr f)"
    using that wf mock_grab_screen_from [of m f] by (simp add: mock_wf_def case_prod_unfold)
  show "frame_wf f" if "fst (case mock_grab_window d m of (r, m') \<Rightarrow> (Some r, m')) = Some (Inr f)"
    using that wf mock_grab_window_from [of d m f] by (fastforce simp: mock_wf_def case_prod_unfold)
qed (simp_all add: case_prod_unfold)

section \<open>The macOS backend\<close>

text \<open>The pictures the framework delivers fit \<open>i32\<close> together with their origin.\<close>

definition image_fits :: "CgImage \<Rightarrow> i32 \<Rightarrow> i32 \<Rightarrow> bool" where
  "image_fits img ox oy \<longleftrightarrow> ci_width img < 2 ^ 31 \<and> ci_height img < 2 ^ 31 \<and> is_i32 ox \<and> is_i32 oy \<and>
     is_i32 (ox + int (ci_width img)) \<and> is_i32 (oy + int (ci_height img))"

definition sck_wf :: "Sck \<Rightarrow> bool" where
  "sck_wf K \<longleftrightarrow>
     (\<forall>ds ws. sck_content K = Inr (ds, ws) \<longrightarrow>
        (\<forall>d \<in> set ds. \<forall>img. sck_display_image K d = Inr img \<longrightarrow> image_fits img 0 0) \<and>
        (\<forall>w \<in> set ws. \<forall>a b img. sck_window_image K w a b = Inr img \<longrightarrow>
           image_fits img (f64_as_i32 (cg_x (sw_frame w))) (f64_as_i32 (cg_y (sw_frame w)))))"

lemma image_to_frame_total: "image_to_frame K img ox oy \<noteq> None"
  using bgra_to_frame_total by (simp add: image_to_frame_def Let_def split: sum.splits)

lemma map_sum_eq_Inr: "map_sum a h z = Inr f \<longleftrightarrow> (\<exists>g. z = Inr g \<and> f = h g)"
  by (cases z) auto

lemma image_to_frame_wf:
  assumes f: "image_to_frame K img ox oy = Some (Inr f)" and fits: "image_fits img ox oy"
  shows "frame_wf f"
proof -
  from fits have d: "usize_as_u32 (ci_width img) = ci_width img" "usize_as_u32 (ci_height img) = ci_height img"
    by (simp_all add: image_fits_def usize_as_u32_def)
  let ?raw = "\<lambda>px. \<lparr>rb_width_px = ci_width img, rb_height_px = ci_height img, rb_stride = ci_width img * 4,
    rb_pixels = px, rb_captured_at_ns = sck_now_ns K, rb_scale = 1, rb_logical_origin_x = ox, rb_logical_origin_y = oy\<rparr>"
  from f obtain px g where g: "bgra_to_frame (sck_show_f32 K) (?raw px) = Some (Inr g)" "f = g\<lparr>fr_format := Rgba8\<rparr>"
    by (auto simp: image_to_frame_def d Let_def map_sum_eq_Inr split: sum.splits)
  have s: "scale_is 1 (?raw px)" by (simp add: scale_is_def f32_epsilon_def)
  have r: "raw_fits (?raw px)"
    using g(1) bgra_to_frame_rejects [of "?raw px" "sck_show_f32 K"] s by auto
  then have "ci_width img * 4 * ci_height img \<le> length px" by (simp add: raw_fits_def raw_ok_def)
  with g bgra_to_frame_1x [OF r s, of "sck_show_f32 K"] fits show ?thesis
    by (auto simp: frame_wf_def image_fits_def frame_width_def frame_height_def i32_of_u32_small is_i32_def)
qed

lemma mac_grab_screen_total: "mac_grab_screen K \<noteq> None"
  using image_to_frame_total by (simp add: mac_grab_screen_def split: sum.splits)

lemma mac_grab_window_total: "mac_grab_window d K \<noteq> None"
  using image_to_frame_total by (simp add: mac_grab_window_def Let_def split: sum.splits)

lemma mac_grab_screen_wf:
  assumes "sck_wf K" "mac_grab_screen K = Some (Inr f)"
  shows "frame_wf f"
proof -
  from assms(2) obtain ds ws d img where c: "sck_content K = Inr (ds, ws)" "primary_display ds = Inr d"
      "sck_display_image K d = Inr img" "image_to_frame K img 0 0 = Some (Inr f)"
    by (auto simp: mac_grab_screen_def refresh_content_def split: sum.splits)
  from c(2) have "d \<in> set ds" by (auto simp: primary_display_def split: list.splits)
  with assms(1) c(1,3) have "image_fits img 0 0" unfolding sck_wf_def by blast
  with c(4) show ?thesis by (rule image_to_frame_wf)
qed

lemma mac_grab_window_wf:
  assumes "sck_wf K" "mac_grab_window d K = Some (Inr f)"
  shows "frame_wf f"
proof -
  from assms(2) obtain w a b img where l: "locate_window K (wd_id d) = Inr w"
    and im: "sck_window_image K w a b = Inr img"
    and fr: "image_to_frame K img (f64_as_i32 (cg_x (sw_frame w))) (f64_as_i32 (cg_y (sw_frame w))) = Some (Inr f)"
    by (auto simp: mac_grab_window_def Let_def split: sum.splits)
  from l obtain ds ws where c: "sck_content K = Inr (ds, ws)" and "find (\<lambda>w. sw_window_id w = wd_id d) ws = Some w"
    by (auto simp: locate_window_def refresh_content_def split: sum.splits option.splits)
  then have "w \<in> set ws" by (auto simp: find_Some_iff)
  with assms(1) c im have "image_fits img (f64_as_i32 (cg_x (sw_frame w))) (f64_as_i32 (cg_y (sw_frame w)))"
    unfolding sck_wf_def by blast
  with fr show ?thesis by (rule image_to_frame_wf)
qed

interpretation mac_capture: capture_backend sck_wf "\<lambda>K. (mac_grab_screen K, K)" "\<lambda>d K. (mac_grab_window d K, K)"
  by unfold_locales
     (auto simp: mac_grab_screen_total mac_grab_window_total intro: mac_grab_screen_wf mac_grab_window_wf)

interpretation win_capture: capture_backend "\<lambda>u :: unit. True" "\<lambda>u. (Some windows_grab_screen, u)"
  "\<lambda>d u. (Some (windows_grab_window d), u)"
  by unfold_locales (simp_all add: windows_grab_screen_def windows_grab_window_def)

section \<open>Properties\<close>

lemma frame_2x_pixel:
  assumes fits: "raw_fits raw" and sc: "rb_scale raw = 2"
    and u32: "rb_width_px raw < 2 ^ 32" "rb_height_px raw < 2 ^ 32"
    and x: "x < rb_width_px raw div 2" and y: "y < rb_height_px raw div 2"
  shows "\<exists>f. bgra_to_frame sf raw = Some (Inr f) \<and>
    pixel_rgb f (int x) (int y) = Some (Inr (block_average raw x y 2, block_average raw x y 1, block_average raw x y 0))"
proof -
  let ?w = "rb_width_px raw div 2" and ?h = "rb_height_px raw div 2"
  have sc2: "scale_is 2 raw" using sc by (simp add: scale_is_def f32_epsilon_def)
  obtain out where f: "bgra_to_frame sf raw = Some (Inr
      \<lparr>fr_format = Bgra8, fr_bounds = raw_bounds raw ?w ?h, fr_stride = ?w * 4, fr_pixels = out,
       fr_captured_at_ns = rb_captured_at_ns raw\<rparr>)" and l: "length out = ?w * 4 * ?h"
    and px: "\<And>c. c < 4 \<Longrightarrow> out ! (y * (?w * 4) + x * 4 + c) = block_average raw x y c"
    using bgra_to_frame_2x [OF fits sc2, of sf] x y by blast
  have i: "i32_of_u32 ?w = int ?w" "i32_of_u32 ?h = int ?h"
    using u32 i32_of_u32_small [of ?w] i32_of_u32_small [of ?h] by simp_all
  have "y * (?w * 4) + x * 4 + 4 \<le> length out"
    using row_offset_bound [OF x y, of "?w * 4" "length out"] l by simp
  with px [of 0] px [of 1] px [of 2] x y i show ?thesis
    unfolding f by (simp add: pixel_rgb_def frame_width_def frame_height_def Let_def)
qed

text \<open>C14. A high-density picture is halved by averaging.  For every buffer that passes the length
  and stride tests, with scale 2, the converter returns a frame, and reading the pixel
  \<open>(x, y)\<close> of that frame through the accessor of the perception crate gives, per colour channel,
  the average of the four source bytes of the 2 by 2 block at \<open>(2x, 2y)\<close>, rounded down;
  source rows are found by the stride of the buffer, padding included.\<close>

theorem retina_capture_averages:
  assumes "rb_stride raw * rb_height_px raw \<le> length (rb_pixels raw)" "rb_width_px raw * 4 \<le> rb_stride raw"
    and "rb_stride raw * rb_height_px raw < 2 ^ 64" "rb_scale raw = 2"
    and "rb_width_px raw < 2 ^ 32" "rb_height_px raw < 2 ^ 32"
    and "x < rb_width_px raw div 2" "y < rb_height_px raw div 2"
  shows "\<exists>f r g b. bgra_to_frame sf raw = Some (Inr f) \<and> pixel_rgb f (int x) (int y) = Some (Inr (r, g, b)) \<and>
    (\<forall>(c, v) \<in> {(2, r), (1, g), (0, b)}.
       unat v = (unat (rb_pixels raw ! (2 * y * rb_stride raw + 2 * x * 4 + c))
               + unat (rb_pixels raw ! (2 * y * rb_stride raw + (2 * x + 1) * 4 + c))
               + unat (rb_pixels raw ! ((2 * y + 1) * rb_stride raw + 2 * x * 4 + c))
               + unat (rb_pixels raw ! ((2 * y + 1) * rb_stride raw + (2 * x + 1) * 4 + c))) div 4)"
proof -
  have "raw_fits raw" using assms(1-3) by (simp add: raw_fits_def raw_ok_def)
  from frame_2x_pixel [OF this assms(4-8), of sf] obtain f where f: "bgra_to_frame sf raw = Some (Inr f)"
    "pixel_rgb f (int x) (int y) = Some (Inr (block_average raw x y 2, block_average raw x y 1, block_average raw x y 0))"
    by blast
  then show ?thesis
    by (intro exI [of _ f] exI conjI) (assumption, assumption, simp add: block_average_def src_byte_def box_average_floor)
qed

theorem retina_capture_averages_witness:
  "\<exists>f r g b. bgra_to_frame (\<lambda>_. []) \<lparr>rb_width_px = 2, rb_height_px = 2, rb_stride = 12,
       rb_pixels = [10, 20, 30, 255, 12, 22, 32, 255, 7, 7, 7, 7, 14, 24, 34, 255, 19, 29, 39, 255, 7, 7, 7, 7],
       rb_captured_at_ns = 5, rb_scale = 2, rb_logical_origin_x = 0, rb_logical_origin_y = 0\<rparr> = Some (Inr f) \<and>
     pixel_rgb f 0 0 = Some (Inr (r, g, b)) \<and> unat r = 33 \<and> unat g = 23 \<and> unat b = 13"
  using retina_capture_averages [of "\<lparr>rb_width_px = 2, rb_height_px = 2, rb_stride = 12,
       rb_pixels = [10, 20, 30, 255, 12, 22, 32, 255, 7, 7, 7, 7, 14, 24, 34, 255, 19, 29, 39, 255, 7, 7, 7, 7],
       rb_captured_at_ns = 5, rb_scale = 2, rb_logical_origin_x = 0, rb_logical_origin_y = 0\<rparr>" 0 0 "\<lambda>_. []"]
  by (simp add: nth_append)

text \<open>Conversion never panics and rejects exactly the malformed buffers.  Whatever the width,
  height, stride, scale and buffer, the converter returns; it returns a frame precisely when the
  size fits \<open>usize\<close>, the buffer holds all rows, a row holds all pixels and the scale is 1 or 2 up
  to the machine epsilon; otherwise it returns an error whose code is \<open>capture_failed\<close>.\<close>

theorem conversion_total:
  "(\<exists>f. bgra_to_frame sf raw = Some (Inr f)) =
     (rb_stride raw * rb_height_px raw < 2 ^ 64 \<and> rb_stride raw * rb_height_px raw \<le> length (rb_pixels raw) \<and>
      rb_width_px raw * 4 \<le> rb_stride raw \<and>
      (\<bar>rb_scale raw - 1\<bar> < f32_epsilon \<or> \<bar>rb_scale raw - 2\<bar> < f32_epsilon)) \<and>
   ((\<exists>f. bgra_to_frame sf raw = Some (Inr f)) \<or>
    (\<exists>e. bgra_to_frame sf raw = Some (Inl e) \<and> capture_error_code e = ''capture_failed''))"
proof -
  let ?ok = "raw_fits raw \<and> (scale_is 1 raw \<or> scale_is 2 raw)"
  have yes: "\<exists>f. bgra_to_frame sf raw = Some (Inr f)" if ?ok
    using that bgra_to_frame_1x [of raw sf] bgra_to_frame_2x [of raw sf] by blast
  have no: "\<exists>m. bgra_to_frame sf raw = Some (Inl (CE_MalformedFrame m))" if "\<not> ?ok"
    using bgra_to_frame_rejects [OF that] .
  have "(\<exists>f. bgra_to_frame sf raw = Some (Inr f)) \<longleftrightarrow> ?ok" using yes no by fastforce
  with yes no show ?thesis by (fastforce simp: raw_fits_def raw_ok_def scale_is_def)
qed

subsection \<open>Window indices\<close>

definition same_group :: "nat \<times> string \<times> string \<times> Rect \<Rightarrow> nat \<times> string \<times> string \<times> Rect \<Rightarrow> bool" where
  "same_group a b \<longleftrightarrow> fst (snd a) = fst (snd b) \<and> fst (snd (snd a)) = fst (snd (snd b))"

lemma length_assign_indices [simp]: "length (assign_indices cs raw) = length raw"
  by (induction raw arbitrary: cs) (auto simp: Let_def)

text \<open>The counter of a group: how many windows of it were seen.\<close>

abbreviation seen_count :: "(string \<times> string \<rightharpoonup> u32) \<Rightarrow> string \<times> string \<Rightarrow> nat" where
  "seen_count cs g \<equiv> (case cs g of None \<Rightarrow> 0 | Some n \<Rightarrow> Suc n)"

lemma assign_indices_nth:
  assumes "k < length raw" and "\<forall>g. seen_count cs g + length raw < 2 ^ 32"
  shows "wd_window_index (assign_indices cs raw ! k)
    = seen_count cs (fst (snd (raw ! k)), fst (snd (snd (raw ! k)))) + length (filter (same_group (raw ! k)) (take k raw))"
  using assms
proof (induction raw arbitrary: cs k)
  case (Cons r raw)
  obtain i app title bounds where r: "r = (i, app, title, bounds)" by (cases r) auto
  let ?idx = "case cs (app, title) of Some n \<Rightarrow> u32_succ n | None \<Rightarrow> 0"
  have c: "seen_count cs (app, title) + length raw < 2 ^ 32" using spec [OF Cons(3), of "(app, title)"] by simp
  then have idx: "?idx = seen_count cs (app, title)" by (simp add: u32_succ_def split: option.splits)
  define cs' where "cs' = cs((app, title) \<mapsto> ?idx)"
  have at: "cs' g = (if g = (app, title) then Some (seen_count cs (app, title)) else cs g)" for g
    by (simp add: cs'_def idx)
  have cnt: "\<forall>g. seen_count cs' g + length raw < 2 ^ 32"
  proof
    fix g
    show "seen_count cs' g + length raw < 2 ^ 32"
      using spec [OF Cons(3), of g] spec [OF Cons(3), of "(app, title)"] by (simp add: at)
  qed
  show ?case
  proof (cases k)
    case 0
    with idx r show ?thesis by (simp add: Let_def)
  next
    case (Suc j)
    then have j: "j < length raw" using Cons(2) by simp
    let ?g = "(fst (snd (raw ! j)), fst (snd (snd (raw ! j))))"
    have "assign_indices cs (r # raw) ! k = assign_indices cs' raw ! j" by (simp add: Suc r cs'_def Let_def)
    then have "wd_window_index (assign_indices cs (r # raw) ! k)
        = seen_count cs' ?g + length (filter (same_group (raw ! j)) (take j raw))"
      by (simp only: Cons(1) [OF j cnt])
    also have "\<dots> = seen_count cs ?g + length (filter (same_group (raw ! j)) (r # take j raw))"
      using at [of ?g] by (auto simp: r same_group_def)
    finally show ?thesis by (simp only: Suc nth_Cons_Suc take_Suc_Cons)
  qed
qed simp

lemma assign_indices_fields:
  "map (\<lambda>d. (wd_id d, wd_app d, wd_title d, wd_bounds d)) (assign_indices cs raw) = raw"
  by (induction raw arbitrary: cs) (auto simp: Let_def)

lemma assign_window_index:
  assumes k: "k < length raw" and len: "length raw < 2 ^ 32 - 1"
  defines "ds \<equiv> assign_window_indices raw"
  shows "wd_window_index (ds ! k)
    = card {j. j < k \<and> wd_app (ds ! j) = wd_app (ds ! k) \<and> wd_title (ds ! j) = wd_title (ds ! k)}"
proof -
  have f: "raw ! j = (wd_id (ds ! j), wd_app (ds ! j), wd_title (ds ! j), wd_bounds (ds ! j))" if "j < length raw" for j
    using that arg_cong [OF assign_indices_fields [of Map.empty raw], of "\<lambda>xs. xs ! j"]
    by (simp add: ds_def assign_window_indices_def)
  have "wd_window_index (ds ! k) = length (filter (same_group (raw ! k)) (take k raw))"
    using assign_indices_nth [OF k, of Map.empty] len by (simp add: ds_def assign_window_indices_def)
  also have "\<dots> = card {j. j < k \<and> same_group (raw ! k) (raw ! j)}"
    using k by (simp add: length_filter_conv_card min_def conj_commute cong: conj_cong)
  also have "{j. j < k \<and> same_group (raw ! k) (raw ! j)}
      = {j. j < k \<and> wd_app (ds ! j) = wd_app (ds ! k) \<and> wd_title (ds ! j) = wd_title (ds ! k)}"
    using k f [OF k] f by (auto simp: same_group_def)
  finally show ?thesis .
qed

text \<open>Enumerated windows have a unique address.  The macOS backend lists the windows in the order of
  their identifiers; the index of a window counts the earlier windows with the same application
  and title, so application, title and index together name at most one window.\<close>

theorem window_address_unique:
  assumes "mac_enumerate_windows K = Inr ds" and "length ds < 2 ^ 32 - 1"
  shows "sorted (map wd_id ds) \<and>
    (\<forall>k < length ds. wd_window_index (ds ! k)
       = card {j. j < k \<and> wd_app (ds ! j) = wd_app (ds ! k) \<and> wd_title (ds ! j) = wd_title (ds ! k)}) \<and>
    distinct (map (\<lambda>d. (wd_app d, wd_title d, wd_window_index d)) ds)"
proof -
  from assms(1) obtain ws where ds: "ds = assign_window_indices (map raw_window (sort_key sw_window_id ws))"
    by (auto simp: mac_enumerate_windows_def build_descriptors_def split: sum.splits)
  have len: "length ds = length ws" by (simp add: ds assign_window_indices_def)
  have ids: "map wd_id ds = map sw_window_id (sort_key sw_window_id ws)"
    using arg_cong [OF assign_indices_fields [of Map.empty "map raw_window (sort_key sw_window_id ws)"], of "map fst"]
    by (simp add: ds assign_window_indices_def raw_window_def comp_def)
  let ?grp = "\<lambda>k. {j. j < k \<and> wd_app (ds ! j) = wd_app (ds ! k) \<and> wd_title (ds ! j) = wd_title (ds ! k)}"
  have idx: "wd_window_index (ds ! k) = card (?grp k)" if "k < length ds" for k
    using assign_window_index [of k "map raw_window (sort_key sw_window_id ws)"] that assms(2) len by (simp add: ds)
  have "wd_window_index (ds ! i) < wd_window_index (ds ! k)"
    if "i < k" "k < length ds" "wd_app (ds ! i) = wd_app (ds ! k)" "wd_title (ds ! i) = wd_title (ds ! k)" for i k
  proof -
    have "?grp i \<subset> ?grp k" using that by auto
    then show ?thesis using that idx [of i] idx [of k] psubset_card_mono [of "?grp k" "?grp i"] by simp
  qed
  then have "distinct (map (\<lambda>d. (wd_app d, wd_title d, wd_window_index d)) ds)"
    by (fastforce simp: distinct_conv_nth nat_neq_iff)
  with ids idx show ?thesis by simp
qed

definition demo_window :: "u32 \<Rightarrow> SckWindow" where
  "demo_window i = \<lparr>sw_window_id = i, sw_application = Some ''Safari'', sw_title = None,
     sw_frame = \<lparr>cg_x = 0, cg_y = 0, cg_width = 8, cg_height = 8\<rparr>\<rparr>"

definition demo_sck :: Sck where
  "demo_sck = \<lparr>sck_content = Inr ([(2, 1)], [demo_window 9, demo_window 4]),
     sck_display_image = \<lambda>_. Inr \<lparr>ci_width = 2, ci_height = 1, ci_rgba_data = Inr [1, 2, 3, 4, 5, 6, 7, 8]\<rparr>,
     sck_window_image = \<lambda>_ _ _. Inl (Sc_Other []), sck_error_text = \<lambda>_. [], sck_show_f32 = \<lambda>_. [], sck_now_ns = 0\<rparr>"

theorem window_address_unique_witness:
  "\<exists>ds. mac_enumerate_windows demo_sck = Inr ds \<and> length ds = 2 \<and> sorted (map wd_id ds) \<and>
     distinct (map (\<lambda>d. (wd_app d, wd_title d, wd_window_index d)) ds)"
proof -
  have "\<exists>a b. mac_enumerate_windows demo_sck = Inr [a, b]"
    by (simp add: demo_sck_def demo_window_def mac_enumerate_windows_def refresh_content_def build_descriptors_def
      assign_window_indices_def raw_window_def Let_def)
  then obtain a b where ab: "mac_enumerate_windows demo_sck = Inr [a, b]" by blast
  then show ?thesis using window_address_unique [OF ab] by auto
qed

text \<open>A frame from the macOS backend can be read.  Both grabs return, with a frame or an error, and
  never panic; when the pictures of the framework fit the coordinate type, no pixel access on a
  returned frame and no conversion of it to an image panics.\<close>

theorem mac_frames_readable:
  assumes "sck_wf K"
  shows "(\<exists>r. mac_grab_screen K = Some r) \<and> (\<exists>r. mac_grab_window d K = Some r) \<and>
    (\<forall>f. mac_grab_screen K = Some (Inr f) \<or> mac_grab_window d K = Some (Inr f) \<longrightarrow>
       pixel_rgb f x y \<noteq> None \<and> frame_to_rgb f \<noteq> None)"
  using mac_grab_screen_total [of K] mac_grab_window_total [of d K] mac_capture.frame_readable [OF assms, of 0]
    mac_capture.window_readable [OF assms] by auto

theorem mac_frames_readable_witness:
  "\<exists>f. mac_grab_screen demo_sck = Some (Inr f) \<and> pixel_rgb f 1 0 = Some (Inr (5, 6, 7)) \<and> frame_to_rgb f \<noteq> None"
proof -
  have wf: "sck_wf demo_sck" by (simp add: sck_wf_def demo_sck_def image_fits_def is_i32_def)
  have "\<exists>f. mac_grab_screen demo_sck = Some (Inr f) \<and> pixel_rgb f 1 0 = Some (Inr (5, 6, 7))"
    by (simp add: demo_sck_def mac_grab_screen_def refresh_content_def primary_display_def image_to_frame_def
      bgra_to_frame_def frame_new_def usize_as_u32_def f32_epsilon_def Let_def i32_of_u32_small pixel_rgb_def
      frame_width_def frame_height_def)
  then obtain f where f: "mac_grab_screen demo_sck = Some (Inr f)" "pixel_rgb f 1 0 = Some (Inr (5, 6, 7))" by blast
  with mac_frames_readable [OF wf, of undefined 1 0] show ?thesis by auto
qed

subsection \<open>The mock\<close>

text \<open>The mock repeats its frames in order, and an armed error is spent by one call.\<close>

lemma mock_grab_state:
  assumes "mc_next_error m = None" "mc_screen_frames m \<noteq> []" "mc_screen_cursor m + n < 2 ^ 64"
  shows "((\<lambda>m. snd (mock_grab_screen m)) ^^ n) m = m\<lparr>mc_screen_cursor := mc_screen_cursor m + n\<rparr>"
  using assms(3)
proof (induction n)
  case (Suc n)
  then show ?case using assms by (simp add: mock_grab_screen_def Let_def usize_succ_def)
qed simp

lemma mock_cycles:
  assumes "mc_next_error m = None" "mc_screen_frames m \<noteq> []" "mc_screen_cursor m = 0" "n < 2 ^ 64"
  shows "fst (mock_grab_screen (((\<lambda>m. snd (mock_grab_screen m)) ^^ n) m))
    = Inr (mc_screen_frames m ! (n mod length (mc_screen_frames m)))"
  using mock_grab_state [of m n] assms by (simp add: mock_grab_screen_def Let_def)

lemma armed_error_once:
  "mc_next_error m = None \<Longrightarrow> mock_grab_screen (arm_error e m) = (Inl e, m)"
  by (simp add: mock_grab_screen_def arm_error_def)

subsection \<open>The scheduler on a backend without frames\<close>

text \<open>The turns of the main loop when each tick grabs the screen of the mock: the commands and the
  iteration order of each turn come from outside.\<close>

fun mock_turns :: "MockCapture \<Rightarrow> (SchedulerCommand list \<times> ProgramId list) list \<Rightarrow> turn list" where
  "mock_turns m [] = []"
| "mock_turns m ((cmds, it) # rest) =
     (case mock_grab_screen m of (r, m') \<Rightarrow>
        (cmds, (case r of Inr f \<Rightarrow> Some f | Inl _ \<Rightarrow> None), it) # mock_turns m' rest)"

lemma mock_turns_empty: "mock_turns mock_capture_empty script = map (\<lambda>(cmds, it). (cmds, None, it)) script"
  by (induction script) (auto simp: mock_grab_screen_def mock_capture_empty_def mock_capture_new_def)

lemma emit_input [simp]: "sch_input (emit E d s) = sch_input s"
  by (simp add: emit_def clock_now_def Let_def split: prod.splits)

lemma exec_command_input [simp]: "sch_input (exec_command E c s) = sch_input s"
  by (simp add: exec_command_def put_program_def clock_now_def Let_def split: SchedulerCommand.splits option.splits)

lemma drain_commands_input: "drain_commands E cs s = (b, rest, s') \<Longrightarrow> sch_input s' = sch_input s"
  by (induction E cs s rule: drain_commands.induct) auto

lemma run_without_frames:
  "\<exists>b s'. run_until_shutdown E (map (\<lambda>(cmds, it). (cmds, None, it)) script) s = Some (b, s') \<and> sch_input s' = sch_input s"
proof (induction script arbitrary: s)
  case Nil
  show ?case by (intro exI [of _ False]) simp
next
  case (Cons t script)
  obtain cmds it where t: "t = (cmds, it)" by (cases t)
  obtain b rest s1 where d: "drain_commands E cmds s = (b, rest, s1)" by (cases "drain_commands E cmds s") auto
  with drain_commands_input [OF d] Cons [of "emit E (TickFrameSkipped ''capture_failed'') s1"] show ?case
    by (cases b) (auto simp: t tick_once_def)
qed

text \<open>Off macOS the daemon never acts.  The factory of the other platforms hands the scheduler the
  mock backend without frames; then the main loop returns for every script of commands, and the
  input sink is in its first state at the end: no program ever moves the pointer or presses a
  key, whatever was submitted.\<close>

theorem mock_daemon_never_acts:
  "\<exists>b s'. run_until_shutdown E (mock_turns mock_capture_empty script) s = Some (b, s') \<and> sch_input s' = sch_input s"
  unfolding mock_turns_empty by (rule run_without_frames)

end
