(* ===== verification/Mac_Input_Props.thy ===== *)
theory Mac_Input_Props
  imports Mac_Input
begin

text \<open>
  What the macOS sink guarantees: an engaged kill switch keeps every call from posting anything
  (the contract \<open>halting_sink\<close>, which the sink of the tests meets too), buttons are released
  whenever Core Graphics works and no segment of a drag is too long, and a drag stays on its
  segments.  The failures of these promises are stated as theorems as well.
\<close>

section \<open>The kill switch\<close>

locale halting_sink =
  fixes call :: "'i sink" and posted :: "'i \<Rightarrow> 'e list" and halted :: "'i \<Rightarrow> bool"
  assumes halts: "halted i \<Longrightarrow> fst (call i c) = Inl Halted"
    and halted_silent: "halted i \<Longrightarrow> posted (snd (call i c)) = posted i"
    and halted_latched: "halted i \<Longrightarrow> halted (snd (call i c))"
begin

lemma silent_run: "halted i \<Longrightarrow> posted (fold (\<lambda>c i. snd (call i c)) cs i) = posted i"
  by (induction cs arbitrary: i) (simp_all add: halted_silent halted_latched)

lemma halted_run: "halted i \<Longrightarrow> fst (call (fold (\<lambda>c i. snd (call i c)) cs i) c) = Inl Halted"
  by (induction cs arbitrary: i) (simp_all add: halts halted_latched)

end

sublocale input_sink \<subseteq> halting_sink call posted halted
  by unfold_locales (simp_all add: halt_first error_posts_nothing [OF halt_first] halted_stays)

text \<open>Engaged for good: every later read of the switch says so.\<close>

definition cg_halted :: "Cg \<Rightarrow> bool" where
  "cg_halted s \<longleftrightarrow> (\<forall>n \<ge> cg_reads s. cg_kill s n)"

lemma guard_halted: "cg_halted s \<Longrightarrow> cg_guard s = (Inl Halted, s\<lparr>cg_reads := Suc (cg_reads s)\<rparr>)"
  by (simp add: cg_guard_def cg_engaged_def cg_halted_def)

lemma mac_call_halted: "cg_halted s \<Longrightarrow> mac_call s c = (Inl Halted, s\<lparr>cg_reads := Suc (cg_reads s)\<rparr>)"
  by (cases c)
     (simp_all add: mac_call_def cg_seq_def guard_halted cg_drag_def cg_key_combo_def split: prod.splits)

interpretation mac_sink: halting_sink mac_call cg_trace cg_halted
  by unfold_locales (simp_all add: mac_call_halted cg_halted_def)

text \<open>C19. The kill switch silences the macOS sink.  Once the switch stays engaged, every
  further call of every kind returns \<open>Halted\<close> and no event is posted, however many calls the
  scheduler makes.\<close>

theorem mac_kill_switch_silences:
  assumes "\<forall>n \<ge> cg_reads s. cg_kill s n"
  shows "cg_trace (fold (\<lambda>c s. snd (mac_call s c)) cs s) = cg_trace s \<and>
    fst (mac_call (fold (\<lambda>c s. snd (mac_call s c)) cs s) c) = Inl Halted"
  using mac_sink.silent_run [of s cs] mac_sink.halted_run [of s cs c] assms by (simp add: cg_halted_def)

definition demo_cg :: "(nat \<Rightarrow> bool) \<Rightarrow> Cg" where
  "demo_cg kill = \<lparr>cg_trace = [], cg_made = 0, cg_fails = \<lambda>_. False, cg_reads = 0, cg_kill = kill,
     cg_trusted = False, cg_listen = 0\<rparr>"

theorem mac_kill_switch_silences_witness:
  "cg_trace (snd (mac_call (snd (mac_call (demo_cg (\<lambda>_. True)) (TypeCall ''hi'')))
     (MouseMove \<lparr>pt_x = 1, pt_y = 2\<rparr>))) = []"
  using mac_kill_switch_silences [of "demo_cg (\<lambda>_. True)" "[TypeCall ''hi'', MouseMove \<lparr>pt_x = 1, pt_y = 2\<rparr>]"]
  by (simp add: demo_cg_def)

text \<open>The accessibility test never refuses.  The probe reports a process without the permission as
  undetermined and the guard lets undetermined pass, so on macOS no call ever ends with
  \<open>PermissionDenied\<close>, whether or not the process is trusted: without the permission events are
  posted and lost instead of reported.\<close>

theorem mac_permission_never_denied:
  "fst (cg_guard s) \<noteq> Inl (InputPermissionDenied d) \<and>
   fst (cg_guard (s\<lparr>cg_trusted := False\<rparr>)) = (if cg_kill s (cg_reads s) then Inl Halted else Inr ())"
  by (cases "cg_kill s (cg_reads s)")
     (simp_all add: cg_guard_def cg_engaged_def probe_def probe_report_def accessibility_status_def)

section \<open>Buttons\<close>

text \<open>Core Graphics does not fail.\<close>

definition cg_sound :: "Cg \<Rightarrow> bool" where
  "cg_sound s \<longleftrightarrow> (\<forall>n. \<not> cg_fails s n)"

lemma cg_sound_upd [simp]:
  "cg_sound (s\<lparr>cg_made := n\<rparr>) = cg_sound s" "cg_sound (s\<lparr>cg_trace := tr\<rparr>) = cg_sound s"
  "cg_sound (s\<lparr>cg_reads := k\<rparr>) = cg_sound s"
  by (simp_all add: cg_sound_def)

lemma cg_make_sound [simp]: "cg_sound s \<Longrightarrow> cg_make d s = (Inr (), s\<lparr>cg_made := Suc (cg_made s)\<rparr>)"
  by (simp add: cg_make_def cg_sound_def)

text \<open>Whether a button is down after a trace.\<close>

fun press :: "Button \<Rightarrow> CgTrace \<Rightarrow> bool \<Rightarrow> bool" where
  "press b (CgMouse ty _ _ _ _) h =
     (if ty = fst (snd (button_types b)) then True else if ty = snd (snd (button_types b)) then False else h)"
| "press b _ h = h"

definition held :: "Button \<Rightarrow> Cg \<Rightarrow> bool" where
  "held b s = fold (press b) (cg_trace s) False"

lemma held_upd [simp]:
  "held b (s\<lparr>cg_made := n\<rparr>) = held b s" "held b (s\<lparr>cg_reads := k\<rparr>) = held b s"
  "held b (s\<lparr>cg_trace := cg_trace s @ [e]\<rparr>) = press b e (held b s)"
  "held b (s\<lparr>cg_made := n, cg_trace := cg_trace s @ [e]\<rparr>) = press b e (held b s)"
  by (simp_all add: held_def)

text \<open>Motions and sleeps leave the buttons alone.\<close>

lemma press_motion [simp]:
  "press b (CgMouse MouseMoved p k f c) h = h" "press b (CgMouse (drag_type b') p k f c) h = h"
  by (cases b; cases b'; simp)+

lemma press_up [simp]: "press b (CgMouse (snd (snd (button_types b'))) p k f c) h = (h \<and> b \<noteq> b')"
  by (cases b; cases b'; simp)

lemma press_down [simp]: "press b (CgMouse (fst (snd (button_types b'))) p k f c) h = (h \<or> b = b')"
  by (cases b; cases b'; simp)

declare press.simps(1) [simp del]

text \<open>The effect of an operation that works: it succeeds, Core Graphics keeps working, and the buttons
  change by \<open>g\<close>.\<close>

definition works :: "unit cg \<Rightarrow> Cg \<Rightarrow> (Button \<Rightarrow> bool \<Rightarrow> bool) \<Rightarrow> bool" where
  "works m s g \<longleftrightarrow> fst (m s) = Inr () \<and> cg_sound (snd (m s)) \<and> (\<forall>b. held b (snd (m s)) = g b (held b s))"

lemma works_Inr: "works m s g \<Longrightarrow> \<exists>s'. m s = (Inr (), s')"
  by (cases "m s") (simp add: works_def)

lemma works_seq:
  assumes "works m s g" and "cg_sound (snd (m s)) \<Longrightarrow> works k (snd (m s)) h"
  shows "works (cg_seq m k) s (\<lambda>b x. h b (g b x))"
proof -
  obtain s' where "m s = (Inr (), s')" using works_Inr [OF assms(1)] by blast
  with assms show ?thesis by (simp add: works_def cg_seq_def)
qed

lemma works_make: "cg_sound s \<Longrightarrow> works (cg_make d) s (\<lambda>b x. x)"
  by (simp add: works_def)

lemma works_post: "cg_sound s \<Longrightarrow> works (cg_post e) s (\<lambda>b. press b e)"
  by (simp add: works_def cg_post_def)

lemma works_sleep: "cg_sound s \<Longrightarrow> works (cg_sleep n) s (\<lambda>b x. x)"
  by (simp add: works_def cg_sleep_def cg_ok_def cg_post_def)

lemma works_source: "cg_sound s \<Longrightarrow> works event_source s (\<lambda>b x. x)"
  unfolding event_source_def by (rule works_make)

lemmas works_rules = works_seq works_make works_post works_sleep works_source

lemma works_cong: "works m s g \<Longrightarrow> (\<And>b x. g b x = h b x) \<Longrightarrow> works m s h"
  by (simp add: works_def)

lemma post_move_works: "cg_sound s \<Longrightarrow> works (post_move to) s (\<lambda>b x. x)"
  unfolding post_move_def by (rule works_cong, (rule works_rules | assumption)+) simp

lemma post_drag_move_works: "cg_sound s \<Longrightarrow> works (post_drag_move to btn) s (\<lambda>b x. x)"
  unfolding post_drag_move_def by (rule works_cong, (rule works_rules | assumption)+) simp

lemma post_key_works: "cg_sound s \<Longrightarrow> works (post_key code dn ms) s (\<lambda>b x. x)"
  unfolding post_key_def by (rule works_cong, (rule works_rules | assumption)+) simp

lemma post_chunk_works: "cg_sound s \<Longrightarrow> works (post_unicode_chunk c) s (\<lambda>b x. x)"
  unfolding post_unicode_chunk_def by (rule works_cong, (rule works_rules | assumption)+) simp

lemma post_click_works: "cg_sound s \<Longrightarrow> works (post_click p btn ms hold n) s (\<lambda>b x. x \<and> b \<noteq> btn)"
  unfolding post_click_def Let_def case_prod_unfold
  by (rule works_cong, (rule works_rules | assumption)+) auto

lemma post_chunks_works: "cg_sound s \<Longrightarrow> works (post_chunks cs) s (\<lambda>b x. x)"
proof (induction cs arbitrary: s)
  case Nil
  then show ?case by (simp add: works_def cg_ok_def)
next
  case (Cons c cs)
  then show ?case using works_seq [OF post_chunk_works Cons.IH] by simp
qed

subsection \<open>Drags\<close>

definition short_segments :: "DragSegment list \<Rightarrow> bool" where
  "short_segments segs \<longleftrightarrow> (\<forall>seg \<in> set segs. seg_duration_ns seg div 1000000 \<le> MAX_DRAG_SEGMENT_MS)"

text \<open>The outcome of a part of a drag with Core Graphics working: it goes on with the buttons as they
  were, or it was halted and the button is up.\<close>

definition goes_on :: "Button \<Rightarrow> Cg \<Rightarrow> (InputError + 'a) \<times> Cg \<Rightarrow> bool" where
  "goes_on btn s rs \<longleftrightarrow> cg_sound (snd rs) \<and>
     (case fst rs of
        Inr _ \<Rightarrow> (\<forall>b. held b (snd rs) = held b s)
      | Inl e \<Rightarrow> e = Halted \<and> (\<forall>b. held b (snd rs) = (held b s \<and> b \<noteq> btn)))"

lemma goes_on_seq:
  assumes "works m s (\<lambda>b x. x)" and "cg_sound (snd (m s)) \<Longrightarrow> goes_on btn (snd (m s)) (k (snd (m s)))"
  shows "goes_on btn s (cg_seq m k s)"
proof -
  obtain s' where "m s = (Inr (), s')" using works_Inr [OF assms(1)] by blast
  with assms show ?thesis by (simp add: works_def goes_on_def cg_seq_def split: sum.splits)
qed

lemma goes_on_trans:
  assumes "goes_on btn s (m s)"
    and "\<And>u. fst (m s) = Inr u \<Longrightarrow> cg_sound (snd (m s)) \<Longrightarrow> goes_on btn (snd (m s)) (k (snd (m s)))"
  shows "goes_on btn s (cg_seq m k s)"
proof -
  obtain r s' where m: "m s = (r, s')" by (cases "m s")
  with assms show ?thesis by (cases r) (simp_all add: cg_seq_def goes_on_def split: sum.splits)
qed

lemma goes_on_reads: "goes_on btn (s\<lparr>cg_reads := n\<rparr>) rs = goes_on btn s rs"
  by (simp add: goes_on_def split: sum.split)

lemma release_works:
  "cg_sound s \<Longrightarrow> works (cg_seq event_source (cg_seq (cg_make d)
     (cg_post (CgMouse (snd (snd (button_types btn))) p k None None)))) s (\<lambda>b x. x \<and> b \<noteq> btn)"
  by (rule works_cong, (rule works_rules | assumption)+) simp

lemma drag_abort_goes_on: "cg_sound s \<Longrightarrow> goes_on btn s (drag_abort p btn s)"
proof -
  assume "cg_sound s"
  note w = post_drag_move_works [OF this, of p btn]
  then have s1: "cg_sound (snd (post_drag_move p btn s))" by (simp add: works_def)
  show ?thesis
    using w release_works [OF s1, of "''mouse_event up failed''" btn p "fst (button_types btn)"]
    by (simp add: drag_abort_def goes_on_def works_def Let_def)
qed

lemma drag_loop_goes_on: "cg_sound s \<Longrightarrow> goes_on btn s (drag_loop p dx dy n zz btn is s)"
proof (induction "is" arbitrary: s)
  case Nil
  then show ?case by (simp add: goes_on_def cg_ok_def)
next
  case (Cons i "is")
  show ?case
  proof (cases "cg_kill s (cg_reads s)")
    case True
    then show ?thesis
      using drag_abort_goes_on [of "s\<lparr>cg_reads := Suc (cg_reads s)\<rparr>" btn p] Cons.prems
      by (simp add: cg_engaged_def goes_on_reads)
  next
    case False
    let ?s = "s\<lparr>cg_reads := Suc (cg_reads s)\<rparr>"
    have "goes_on btn ?s (cg_seq (post_drag_move (drag_point p dx dy n i) btn)
        (cg_seq (cg_sleep zz) (drag_loop p dx dy n zz btn is)) ?s)"
      using Cons by (intro goes_on_seq post_drag_move_works works_sleep) simp_all
    with False show ?thesis by (simp add: cg_engaged_def goes_on_reads)
  qed
qed

lemma drag_segments_goes_on:
  "cg_sound s \<Longrightarrow> short_segments segs \<Longrightarrow> goes_on btn s (drag_segments p btn segs s)"
proof (induction segs arbitrary: p s)
  case Nil
  then show ?case by (simp add: goes_on_def)
next
  case (Cons seg segs)
  then show ?case
    by (auto simp: short_segments_def Let_def not_less intro!: goes_on_trans drag_loop_goes_on)
qed

definition drag_ok :: "SinkCall \<Rightarrow> bool" where
  "drag_ok c \<longleftrightarrow> (case c of Drag _ segs _ \<Rightarrow> short_segments segs | _ \<Rightarrow> True)"

text \<open>No button is down and Core Graphics works, or the state is such after the guard.\<close>

definition released :: "Cg \<Rightarrow> bool" where
  "released s \<longleftrightarrow> cg_sound s \<and> (\<forall>b. \<not> held b s)"

lemma guard_released:
  assumes "released s" and "\<And>s'. released s' \<Longrightarrow> released (snd (k s'))"
  shows "released (snd (cg_seq cg_guard k s))"
proof -
  have r: "released (s\<lparr>cg_reads := n\<rparr>)" for n using assms(1) by (simp add: released_def)
  show ?thesis
    using r assms(2) by (simp add: cg_seq_def cg_guard_def cg_engaged_def split: sum.splits bool.splits if_splits)
qed

lemma works_released: "works m s g \<Longrightarrow> (\<And>b. \<not> g b False) \<Longrightarrow> released s \<Longrightarrow> released (snd (m s))"
  by (auto simp: works_def released_def)

lemma press_down_works:
  "cg_sound s \<Longrightarrow> works (cg_seq (post_move p) (cg_seq event_source (cg_seq (cg_make d)
     (cg_post (CgMouse (fst (snd (button_types btn))) p k None None))))) s (\<lambda>b x. x \<or> b = btn)"
  by (rule works_cong, (rule works_rules post_move_works | assumption)+) simp

lemma cg_seq_assoc: "cg_seq (cg_seq a b) c = cg_seq a (cg_seq b c)"
  by (simp add: cg_seq_def fun_eq_iff split: prod.splits sum.splits)

text \<open>The part of a drag behind the guard: the press, the segments, the release.\<close>

abbreviation drag_press :: "Point \<Rightarrow> Button \<Rightarrow> unit cg" where
  "drag_press p btn \<equiv> cg_seq (post_move p) (cg_seq event_source (cg_seq (cg_make ''mouse_event down failed'')
     (cg_post (CgMouse (fst (snd (button_types btn))) p (fst (button_types btn)) None None))))"

abbreviation drag_release :: "Point \<Rightarrow> Button \<Rightarrow> unit cg" where
  "drag_release p btn \<equiv> cg_seq event_source (cg_seq (cg_make ''mouse_event up failed'')
     (cg_post (CgMouse (snd (snd (button_types btn))) p (fst (button_types btn)) None None)))"

definition drag_body :: "Point \<Rightarrow> DragSegment list \<Rightarrow> Button \<Rightarrow> unit cg" where
  "drag_body from segs btn =
     cg_seq (post_move from) (cg_seq event_source (cg_seq (cg_make ''mouse_event down failed'')
       (cg_seq (cg_post (CgMouse (fst (snd (button_types btn))) from (fst (button_types btn)) None None))
       (\<lambda>s. case drag_segments from btn segs s of
              (Inl e, s') \<Rightarrow> (Inl e, s')
            | (Inr current, s') \<Rightarrow>
                cg_seq event_source (cg_seq (cg_make ''mouse_event up failed'')
                  (cg_post (CgMouse (snd (snd (button_types btn))) current (fst (button_types btn)) None None))) s'))))"

lemma cg_drag_body:
  "segs \<noteq> [] \<Longrightarrow> cg_drag from segs btn = cg_seq cg_guard (drag_body from segs btn)"
proof -
  assume ne: "segs \<noteq> []"
  obtain k dn up where bt: "button_types btn = (k, dn, up)" by (cases "button_types btn") auto
  show ?thesis by (simp only: cg_drag_def drag_body_def bt prod.case fst_conv snd_conv ne if_False simp_thms)
qed

lemma drag_body_run:
  assumes "drag_press p btn s = (Inr (), s1)" and "drag_segments p btn segs s1 = (r, s2)"
  shows "drag_body p segs btn s = (case r of Inl e \<Rightarrow> (Inl e, s2) | Inr current \<Rightarrow> drag_release current btn s2)"
  unfolding drag_body_def using assms by (simp add: cg_seq_assoc [symmetric]) (simp add: cg_seq_def)

lemma drag_press_run:
  assumes "cg_sound s"
  obtains s1 where "drag_press p btn s = (Inr (), s1)" "cg_sound s1" "\<And>b. held b s1 = (held b s \<or> b = btn)"
proof -
  have w: "works (drag_press p btn) s (\<lambda>b x. x \<or> b = btn)" by (rule press_down_works [OF assms])
  then obtain s1 where m: "drag_press p btn s = (Inr (), s1)" using works_Inr by blast
  with w have "cg_sound s1" "\<And>b. held b s1 = (held b s \<or> b = btn)" by (simp_all add: works_def)
  with m show ?thesis by (rule that)
qed

lemma drag_body_released:
  assumes "released s" "short_segments segs"
  shows "released (snd (drag_body p segs btn s))"
proof -
  obtain s1 where m: "drag_press p btn s = (Inr (), s1)" and s1: "cg_sound s1" "\<And>b. held b s1 = (b = btn)"
    using drag_press_run [of s p btn] assms(1) by (auto simp: released_def)
  obtain r s2 where r: "drag_segments p btn segs s1 = (r, s2)" by (cases "drag_segments p btn segs s1")
  have g: "goes_on btn s1 (r, s2)" using drag_segments_goes_on [OF s1(1) assms(2), of btn p] r by simp
  show ?thesis
  proof (cases r)
    case (Inl e)
    with g s1 show ?thesis by (simp add: drag_body_run [OF m r] goes_on_def released_def)
  next
    case (Inr current)
    with g s1 have s2: "cg_sound s2" "\<And>b. held b s2 = (b = btn)" by (simp_all add: goes_on_def)
    show ?thesis
      using release_works [OF s2(1), of "''mouse_event up failed''" btn current "fst (button_types btn)"] s2
      by (simp add: drag_body_run [OF m r] Inr works_def released_def)
  qed
qed

lemma released_sound: "released s \<Longrightarrow> cg_sound s"
  by (simp add: released_def)

lemma mac_call_released:
  assumes "released s" "drag_ok c"
  shows "released (snd (mac_call s c))"
proof (cases c)
  case (MouseMove p)
  then show ?thesis using assms(1)
    by (auto simp: mac_call_def intro!: guard_released works_released [OF post_move_works] released_sound)
next
  case (ClickCall p b ms hold)
  have "released (snd (cg_seq (post_move p) (post_click p b ms n 1) s))" if "released s" for s n
    using that by (auto intro!: works_released [OF works_seq [OF post_move_works post_click_works]] released_sound)
  with ClickCall assms(1) show ?thesis by (auto simp: mac_call_def intro!: guard_released)
next
  case (DoubleClick p b)
  have "released (snd (cg_seq (post_move p) (cg_seq (post_click p b [] 0 1) (post_click p b [] 0 2)) s))"
    if "released s" for s
    using that by (auto intro!: released_sound
      works_released [OF works_seq [OF post_move_works works_seq [OF post_click_works post_click_works]]])
  with DoubleClick assms(1) show ?thesis by (auto simp: mac_call_def intro!: guard_released)
next
  case (Drag p segs b)
  show ?thesis
  proof (cases "segs = []")
    case True
    with Drag assms(1) show ?thesis by (auto simp: mac_call_def cg_drag_def case_prod_unfold intro!: guard_released)
  next
    case False
    with Drag assms show ?thesis
      by (auto simp: mac_call_def cg_drag_body drag_ok_def intro!: guard_released drag_body_released)
  qed
next
  case (TypeCall t)
  have "released (snd (cg_type_text t s))" if "released s" for s
    using that by (auto simp: cg_type_text_def cg_ok_def intro!: works_released [OF post_chunks_works] released_sound)
  with TypeCall assms(1) show ?thesis by (auto simp: mac_call_def intro!: guard_released)
next
  case (KeyCombo ms k)
  have "released (snd (cg_seq (post_key n True ms) (post_key n False ms) s))" if "released s" for s n
    using that by (auto intro!: works_released [OF works_seq [OF post_key_works post_key_works]] released_sound)
  with KeyCombo assms(1) show ?thesis
    by (auto simp: mac_call_def cg_key_combo_def intro!: guard_released split: sum.splits option.splits)
qed

lemma mac_calls_released:
  "released s \<Longrightarrow> \<forall>c \<in> set cs. drag_ok c \<Longrightarrow> released (fold (\<lambda>c s. snd (mac_call s c)) cs s)"
  by (induction cs arbitrary: s) (simp_all add: mac_call_released)

text \<open>C12. No mouse button stays pressed.  As long as Core Graphics creates its events and no drag
  has a segment longer than five seconds, every sequence of calls, interrupted by the kill switch
  at any moment or not, ends with every button released if it began so.\<close>

theorem mac_buttons_released:
  assumes "\<forall>n. \<not> cg_fails s n" and "\<forall>b. \<not> held b s"
    and "\<forall>c \<in> set cs. \<forall>p segs b. c = Drag p segs b \<longrightarrow>
           (\<forall>seg \<in> set segs. seg_duration_ns seg div 1000000 \<le> MAX_DRAG_SEGMENT_MS)"
  shows "\<not> held b (fold (\<lambda>c s. snd (mac_call s c)) cs s)"
proof -
  have "\<forall>c \<in> set cs. drag_ok c"
    using assms(3) by (auto simp: drag_ok_def short_segments_def split: SinkCall.splits)
  with assms(1,2) mac_calls_released [of s cs] show ?thesis by (simp add: released_def cg_sound_def)
qed

abbreviation demo_drag :: "nat \<Rightarrow> SinkCall" where
  "demo_drag ns \<equiv> Drag \<lparr>pt_x = 0, pt_y = 0\<rparr> [\<lparr>seg_to = \<lparr>pt_x = 30, pt_y = 40\<rparr>, seg_duration_ns = ns\<rparr>] LeftButton"

theorem mac_buttons_released_witness:
  "\<not> held LeftButton (snd (mac_call (demo_cg (\<lambda>n. 3 \<le> n)) (demo_drag 1000000000)))"
  using mac_buttons_released [of "demo_cg (\<lambda>n. 3 \<le> n)" "[demo_drag 1000000000]" LeftButton]
  by (simp add: demo_cg_def held_def MAX_DRAG_SEGMENT_MS_def)

lemma cg_kill_kept [simp]:
  "cg_kill (snd (post_drag_move p b s)) = cg_kill s" "cg_kill (snd (cg_sleep n s)) = cg_kill s"
  by (simp_all add: post_drag_move_def event_source_def cg_seq_def cg_make_def cg_post_def cg_sleep_def cg_ok_def)

lemma drag_loop_live:
  assumes "cg_sound s" "\<forall>n. \<not> cg_kill s n"
  shows "fst (drag_loop p dx dy n zz btn is s) = Inr () \<and> cg_kill (snd (drag_loop p dx dy n zz btn is s)) = cg_kill s"
  using assms
proof (induction "is" arbitrary: s)
  case (Cons i "is")
  let ?s = "s\<lparr>cg_reads := Suc (cg_reads s)\<rparr>" and ?p = "drag_point p dx dy n i"
  have w: "works (post_drag_move ?p btn) ?s (\<lambda>b x. x)" using Cons.prems by (intro post_drag_move_works) simp
  then obtain s1 where s1: "post_drag_move ?p btn ?s = (Inr (), s1)" using works_Inr by blast
  then have k1: "cg_kill s1 = cg_kill s" using cg_kill_kept(1) [of ?p btn ?s] by simp
  have snd1: "cg_sound s1" using w s1 by (simp add: works_def)
  have w2: "works (cg_sleep zz) s1 (\<lambda>b x. x)" using snd1 by (rule works_sleep)
  then obtain s2 where s2: "cg_sleep zz s1 = (Inr (), s2)" using works_Inr by blast
  then have k2: "cg_kill s2 = cg_kill s" using cg_kill_kept(2) [of zz s1] k1 by simp
  have "cg_sound s2" using w2 s2 by (simp add: works_def)
  with Cons.IH [of s2] Cons.prems k2 s1 s2 show ?case by (simp add: cg_engaged_def cg_seq_def)
qed (simp add: cg_ok_def)

lemma long_segments:
  assumes "cg_sound s" "\<forall>n. \<not> cg_kill s n" "\<not> short_segments segs"
  shows "fst (drag_segments p btn segs s) = Inl (InvalidArgument ''drag segment longer than 5s'') \<and>
    (\<forall>b. held b (snd (drag_segments p btn segs s)) = held b s)"
  using assms
proof (induction segs arbitrary: p s)
  case Nil
  then show ?case by (simp add: short_segments_def)
next
  case (Cons seg segs)
  show ?case
  proof (cases "seg_duration_ns seg div 1000000 > MAX_DRAG_SEGMENT_MS")
    case False
    define dx dy where "dx = i32_sub (pt_x (seg_to seg)) (pt_x p)" and "dy = i32_sub (pt_y (seg_to seg)) (pt_y p)"
    let ?m = "drag_loop p dx dy (drag_steps dx dy) (seg_duration_ns seg div nat (drag_steps dx dy)) btn
                (map int [1..<Suc (nat (drag_steps dx dy))])"
    obtain s1 where m: "?m s = (Inr (), s1)" and k: "cg_kill s1 = cg_kill s"
      using drag_loop_live [OF Cons.prems(1,2)] by (metis prod.collapse)
    have "goes_on btn s (?m s)" by (rule drag_loop_goes_on [OF Cons.prems(1)])
    then have g: "cg_sound s1" "\<And>b. held b s1 = held b s" unfolding m by (simp_all add: goes_on_def)
    have "\<not> short_segments segs" using Cons.prems(3) False by (simp add: short_segments_def)
    then have "fst (drag_segments (seg_to seg) btn segs s1) = Inl (InvalidArgument ''drag segment longer than 5s'') \<and>
        (\<forall>b. held b (snd (drag_segments (seg_to seg) btn segs s1)) = held b s1)"
      using Cons.IH [OF g(1)] Cons.prems(2) k by simp
    moreover have "drag_segments p btn (seg # segs) s = drag_segments (seg_to seg) btn segs s1"
      using False m by (simp add: Let_def cg_seq_def dx_def dy_def del: upt_Suc)
    ultimately show ?thesis using g(2) by simp
  qed simp
qed

text \<open>A drag with a segment longer than five seconds leaves the button down.  The test of a segment
  comes after the press, and its early return posts no release: the call fails with
  \<open>InvalidArgument\<close>, although the interface promises that an error means that nothing was posted
  and that the button is held only until the final release.\<close>

theorem long_drag_keeps_button_down:
  assumes "\<forall>n. \<not> cg_fails s n" and "\<forall>n. \<not> cg_kill s n"
    and "\<exists>seg \<in> set segs. seg_duration_ns seg div 1000000 > MAX_DRAG_SEGMENT_MS"
  shows "fst (mac_call s (Drag p segs btn)) = Inl (InvalidArgument ''drag segment longer than 5s'') \<and>
    held btn (snd (mac_call s (Drag p segs btn)))"
proof -
  have ne: "segs \<noteq> []" using assms(3) by auto
  have so: "cg_sound s" using assms(1) by (simp add: cg_sound_def)
  let ?s = "s\<lparr>cg_reads := Suc (cg_reads s)\<rparr>"
  have guard: "cg_guard s = (Inr (), ?s)"
    using assms(2) by (simp add: cg_guard_def cg_engaged_def probe_def probe_report_def accessibility_status_def)
  obtain s1 where m: "drag_press p btn ?s = (Inr (), s1)" and s1: "cg_sound s1" "held btn s1"
    using drag_press_run [of ?s p btn] so by auto
  have k: "cg_kill s1 = cg_kill s"
    using arg_cong [OF m, of "\<lambda>r. cg_kill (snd r)"] so
    by (simp add: post_move_def event_source_def cg_seq_def cg_post_def)
  have "\<not> short_segments segs" using assms(3) by (auto simp: short_segments_def not_le)
  then have l: "fst (drag_segments p btn segs s1) = Inl (InvalidArgument ''drag segment longer than 5s'')"
      "held btn (snd (drag_segments p btn segs s1))"
    using long_segments [OF s1(1), of segs p btn] assms(2) k s1(2) by simp_all
  then obtain s2 where r: "drag_segments p btn segs s1 = (Inl (InvalidArgument ''drag segment longer than 5s''), s2)"
    by (cases "drag_segments p btn segs s1") simp
  show ?thesis using guard ne l r drag_body_run [OF m r] by (simp add: mac_call_def cg_drag_body cg_seq_def)
qed

theorem long_drag_keeps_button_down_witness:
  "held LeftButton (snd (mac_call (demo_cg (\<lambda>_. False)) (demo_drag 6000000000)))"
  using long_drag_keeps_button_down [of "demo_cg (\<lambda>_. False)"
      "[\<lparr>seg_to = \<lparr>pt_x = 30, pt_y = 40\<rparr>, seg_duration_ns = 6000000000\<rparr>]" "\<lparr>pt_x = 0, pt_y = 0\<rparr>" LeftButton]
  by (simp add: demo_cg_def MAX_DRAG_SEGMENT_MS_def)

section \<open>The path of a drag\<close>

lemma isqrt_bits:
  "r * r \<le> n \<Longrightarrow> n < (r + 2 ^ k) * (r + 2 ^ k) \<Longrightarrow>
   (let q = fold (\<lambda>b r. if (r + 2 ^ b) * (r + 2 ^ b) \<le> n then r + 2 ^ b else r) (rev [0..<k]) r
    in q * q \<le> n \<and> n < Suc q * Suc q)"
  for n r :: nat
proof (induction k arbitrary: r)
  case (Suc k)
  show ?case
  proof (cases "(r + 2 ^ k) * (r + 2 ^ k) \<le> n")
    case True
    moreover have "n < (r + 2 ^ k + 2 ^ k) * (r + 2 ^ k + 2 ^ k)" using Suc.prems(2) by (simp add: mult_2 add.assoc)
    ultimately show ?thesis using Suc.IH [of "r + 2 ^ k"] by simp
  next
    case False
    then show ?thesis using Suc.IH [of r] Suc.prems(1) by simp
  qed
qed simp

lemma isqrt_floor: "n < 2 ^ 32 \<Longrightarrow> isqrt n * isqrt n \<le> n \<and> n < Suc (isqrt n) * Suc (isqrt n)"
  using isqrt_bits [of 0 n 16] by (simp add: isqrt_def Let_def)

text \<open>Truncated interpolation stays between 0 and the whole difference, and reaches it.\<close>

lemma i32_div_between:
  assumes "0 \<le> i" "i \<le> n" "0 < n"
  shows "min 0 d \<le> i32_div (d * i) n \<and> i32_div (d * i) n \<le> max 0 d"
proof (cases "0 \<le> d")
  case True
  have "d * i \<le> d * n" using True assms by (intro mult_left_mono)
  then have "d * i div n \<le> d * n div n" using assms(3) by (intro zdiv_mono1)
  moreover have "0 \<le> d * i" using True assms(1) by simp
  moreover from this have "0 \<le> d * i div n" using assms(3) by (simp add: pos_imp_zdiv_nonneg_iff)
  ultimately show ?thesis using True assms(3) by (simp add: i32_div_def)
next
  case False
  have "(- d) * i \<le> (- d) * n" using False assms by (intro mult_left_mono) auto
  then have "(- d) * i div n \<le> (- d) * n div n" using assms(3) by (intro zdiv_mono1)
  moreover have "(- d) * n div n = - d" using assms(3) by (intro nonzero_mult_div_cancel_right) simp
  ultimately have up: "- (d * i) div n \<le> - d" by simp
  have "0 \<le> - (d * i) div n" using False assms by (simp add: pos_imp_zdiv_nonneg_iff mult_nonpos_nonneg)
  moreover have "d * i \<le> 0" using False assms(1) by (simp add: mult_nonpos_nonneg)
  ultimately show ?thesis using up False by (cases "d * i = 0") (auto simp: i32_div_def)
qed

lemma i32_div_whole: "0 < n \<Longrightarrow> i32_div (d * n) n = d"
  using nonzero_mult_div_cancel_right [of n "- d"] by (simp add: i32_div_def)

lemma abs_square_bound:
  fixes d :: int and n q :: nat
  assumes "d * d \<le> int n" "n < Suc q * Suc q"
  shows "\<bar>d\<bar> \<le> int q"
proof (rule ccontr)
  assume "\<not> \<bar>d\<bar> \<le> int q"
  then have "int (Suc q) \<le> \<bar>d\<bar>" by simp
  then have "int (Suc q) * int (Suc q) \<le> \<bar>d\<bar> * \<bar>d\<bar>" by (intro mult_mono) auto
  with assms(1) have "int (Suc q * Suc q) \<le> int n" by (simp only: abs_mult_self_eq of_nat_mult)
  then show False using assms(2) by (simp only: of_nat_le_iff)
qed

text \<open>Differences whose squares add up below the limit of \<open>i32\<close>: nothing wraps.\<close>

lemma drag_steps_bound:
  assumes "dx * dx + dy * dy \<le> i32_max"
  shows "0 < drag_steps dx dy" and "1 \<le> i \<Longrightarrow> i \<le> drag_steps dx dy \<Longrightarrow> is_i32 (dx * i) \<and> is_i32 (dy * i)"
proof -
  let ?n = "nat (dx * dx + dy * dy)" and ?q = "isqrt (nat (dx * dx + dy * dy))"
  have nn: "0 \<le> dx * dx" "0 \<le> dy * dy" by simp_all
  have lt: "?n < 2 ^ 32" using assms by simp
  have sq: "?q * ?q \<le> ?n" "?n < Suc ?q * Suc ?q" using isqrt_floor [OF lt] by blast+
  have ab: "\<bar>dx\<bar> \<le> int ?q" "\<bar>dy\<bar> \<le> int ?q"
    using nn by (intro abs_square_bound [OF _ sq(2)]; simp)+
  have wraps: "i32_mult dx dx = dx * dx" "i32_mult dy dy = dy * dy" "i32_add (dx * dx) (dy * dy) = dx * dx + dy * dy"
    using assms nn by (auto simp: i32_mult_def i32_add_def is_i32_def simp del: zero_le_square intro!: wrap_i32_id)
  have "isqrt 0 = 0" using isqrt_floor [of 0] by simp
  then have steps: "drag_steps dx dy = max (int ?q div 8) 1"
    by (simp add: drag_steps_def wraps Let_def i32_div_def DRAG_STEP_PX_def not_less)
  then show "0 < drag_steps dx dy" by simp
  have "int (?q * ?q) \<le> int ?n" using sq(1) by (simp only: of_nat_le_iff)
  moreover have "int ?n = dx * dx + dy * dy" using nn by (intro int_nat_eq [THEN trans] if_P) linarith
  ultimately have q2: "int ?q * int ?q \<le> i32_max" using assms by (simp only: of_nat_mult)
  show "is_i32 (dx * i) \<and> is_i32 (dy * i)" if i: "1 \<le> i" "i \<le> drag_steps dx dy"
  proof -
    have "\<bar>d * i\<bar> \<le> i32_max" if d: "\<bar>d\<bar> \<le> int ?q" for d
    proof (cases "int ?q = 0")
      case True
      with d show ?thesis by simp
    next
      case False
      then have "i \<le> int ?q" using i(2) unfolding steps by linarith
      then have "\<bar>d\<bar> * \<bar>i\<bar> \<le> int ?q * int ?q" using d i(1) by (intro mult_mono) auto
      with q2 show ?thesis by (simp add: abs_mult)
    qed
    from this [OF ab(1)] this [OF ab(2)] show ?thesis by (auto simp: is_i32_def abs_le_iff)
  qed
qed

lemma axis_between:
  assumes ab: "is_i32 a" "is_i32 b" and m: "is_i32 ((b - a) * i)" and i: "1 \<le> i" "i \<le> n"
  shows "min a b \<le> i32_add a (i32_div (i32_mult (b - a) i) n) \<and> i32_add a (i32_div (i32_mult (b - a) i) n) \<le> max a b"
    and "i = n \<Longrightarrow> i32_add a (i32_div (i32_mult (b - a) i) n) = b"
proof -
  let ?v = "i32_div ((b - a) * i) n"
  have v: "min 0 (b - a) \<le> ?v" "?v \<le> max 0 (b - a)" using i32_div_between [of i n "b - a"] i by simp_all
  then have "is_i32 (a + ?v)" using ab by (auto simp: is_i32_def min_def max_def split: if_splits)
  then have e: "i32_add a (i32_div (i32_mult (b - a) i) n) = a + ?v"
    using m by (simp add: i32_add_def i32_mult_def wrap_i32_id)
  show "min a b \<le> i32_add a (i32_div (i32_mult (b - a) i) n) \<and> i32_add a (i32_div (i32_mult (b - a) i) n) \<le> max a b"
    unfolding e using v by (auto simp: min_def max_def split: if_splits)
  show "i32_add a (i32_div (i32_mult (b - a) i) n) = b" if "i = n"
    unfolding e using that i i32_div_whole [of n "b - a"] by simp
qed

text \<open>C39. A drag follows its segment.  When the squared length of a segment fits \<open>i32\<close>, the
  interpolated positions lie between the two ends in each coordinate, and the last one is the
  end point itself, so the release happens exactly where the program asked.\<close>

theorem drag_follows_segment:
  assumes "is_i32 (pt_x p)" "is_i32 (pt_y p)" "is_i32 (pt_x q)" "is_i32 (pt_y q)"
    and len: "(pt_x q - pt_x p) * (pt_x q - pt_x p) + (pt_y q - pt_y p) * (pt_y q - pt_y p) \<le> i32_max"
  defines "dx \<equiv> i32_sub (pt_x q) (pt_x p)" and "dy \<equiv> i32_sub (pt_y q) (pt_y p)"
  shows "drag_point p dx dy (drag_steps dx dy) (drag_steps dx dy) = q \<and>
    (\<forall>i \<in> {1..drag_steps dx dy}. let r = drag_point p dx dy (drag_steps dx dy) i in
       min (pt_x p) (pt_x q) \<le> pt_x r \<and> pt_x r \<le> max (pt_x p) (pt_x q) \<and>
       min (pt_y p) (pt_y q) \<le> pt_y r \<and> pt_y r \<le> max (pt_y p) (pt_y q))"
proof -
  let ?X = "pt_x q - pt_x p" and ?Y = "pt_y q - pt_y p"
  have pos: "1 \<le> drag_steps ?X ?Y" using drag_steps_bound(1) [OF len] by simp
  have fit: "is_i32 (?X * i)" "is_i32 (?Y * i)" if "1 \<le> i" "i \<le> drag_steps ?X ?Y" for i
    using drag_steps_bound(2) [OF len that] by blast+
  have d: "dx = ?X" "dy = ?Y"
    using fit [of 1] pos by (simp_all add: dx_def dy_def i32_sub_def wrap_i32_id)
  have "drag_point p ?X ?Y (drag_steps ?X ?Y) (drag_steps ?X ?Y) = q"
    using axis_between(2) [OF assms(1,3) fit(1) pos order_refl refl] axis_between(2) [OF assms(2,4) fit(2) pos order_refl refl]
      pos by (simp add: drag_point_def)
  moreover have "min (pt_x p) (pt_x q) \<le> pt_x r \<and> pt_x r \<le> max (pt_x p) (pt_x q) \<and>
       min (pt_y p) (pt_y q) \<le> pt_y r \<and> pt_y r \<le> max (pt_y p) (pt_y q)"
    if "i \<in> {1..drag_steps ?X ?Y}" "r = drag_point p ?X ?Y (drag_steps ?X ?Y) i" for i r
    using that axis_between(1) [OF assms(1,3) fit(1), of i] axis_between(1) [OF assms(2,4) fit(2), of i]
    by (simp add: drag_point_def)
  ultimately show ?thesis unfolding d Let_def by blast
qed

theorem drag_follows_segment_witness:
  "drag_point \<lparr>pt_x = 100, pt_y = 50\<rparr> (-30) 40 (drag_steps (-30) 40) (drag_steps (-30) 40) = \<lparr>pt_x = 70, pt_y = 90\<rparr>"
  using drag_follows_segment [of "\<lparr>pt_x = 100, pt_y = 50\<rparr>" "\<lparr>pt_x = 70, pt_y = 90\<rparr>"]
  by (simp add: is_i32_def i32_sub_def wrap_i32_def)

end
