(* ===== verification/Cli_Time.thy ===== *)
theory Cli_Time
  imports Text_Numbers
begin

text \<open>
  Time stamps of the command line: printing milliseconds since 1970 as an RFC 3339 text
  (\<open>vcli-cli/src/util.rs\<close>) and reading one back (\<open>vcli-cli/src/commands/logs.rs\<close>).  Both go
  through the proleptic Gregorian calendar in closed form, with years counted from March in
  eras of 400 years.  Rust's signed division truncates; the \<open>u64\<close> and \<open>u32\<close> values inside an
  era are never negative, so they are integers here.
\<close>

definition trunc_div :: "int \<Rightarrow> int \<Rightarrow> int" where
  "trunc_div a b = (if 0 \<le> a then a div b else - ((- a) div b))"

section \<open>Printing\<close>

definition civil_from_days :: "i64 \<Rightarrow> i32 \<times> int \<times> int" where
  "civil_from_days z0 =
     (let z = wrap_i64 (z0 + 719468);
          era = trunc_div (if 0 \<le> z then z else wrap_i64 (z - 146096)) 146097;
          doe = z - era * 146097;
          yoe = (doe - doe div 1460 + doe div 36524 - doe div 146096) div 365;
          y = yoe + era * 400;
          doy = doe - (365 * yoe + yoe div 4 - yoe div 100);
          mp = (5 * doy + 2) div 153;
          d = doy - (153 * mp + 2) div 5 + 1;
          m = (if mp < 10 then mp + 3 else mp - 9);
          y' = (if m \<le> 2 then y + 1 else y)
      in (wrap_i32 y', m mod 256, d mod 256))"

definition format_unix_ms :: "UnixMs \<Rightarrow> string" where
  "format_unix_ms ms =
     (let total_secs = ms div 1000;
          sub_ms = ms mod 1000;
          days = total_secs div 86400;
          secs_of_day = total_secs mod 86400;
          hour = secs_of_day div 3600;
          minute = (secs_of_day mod 3600) div 60;
          second = secs_of_day mod 60
      in case civil_from_days days of (year, month, day) \<Rightarrow>
           zero_pad 4 year @ ''-'' @ zero_pad 2 month @ ''-'' @ zero_pad 2 day @ ''T'' @ zero_pad 2 hour @ '':'' @
           zero_pad 2 minute @ '':'' @ zero_pad 2 second @ ''.'' @ zero_pad 3 sub_ms @ ''Z'')"

section \<open>Reading\<close>

definition days_from_civil :: "i32 \<Rightarrow> u32 \<Rightarrow> u32 \<Rightarrow> i64 option" where
  "days_from_civil year0 month day =
     (if \<not> (1 \<le> month \<and> month \<le> 12) \<or> \<not> (1 \<le> day \<and> day \<le> 31) then None
      else let year = (if month \<le> 2 then wrap_i32 (year0 - 1) else year0);
               era = trunc_div (if 0 \<le> year then year else wrap_i32 (year - 399)) 400;
               yoe = wrap_i32 (year - era * 400)
           in if yoe < 0 then None
              else let doy = (153 * (if month > 2 then int month - 3 else int month + 9) + 2) div 5 + int day - 1;
                       doe = yoe * 365 + yoe div 4 - yoe div 100 + doy
                   in Some (era * 146097 + doe - 719468))"

definition parse_rfc3339_utc :: "string \<Rightarrow> i64 option" where
  "parse_rfc3339_utc s =
     (if s = [] \<or> last s \<noteq> CHR ''Z'' then None
      else case split_once (CHR ''T'') (butlast s) of
             None \<Rightarrow> None
           | Some (date, time0) \<Rightarrow>
              (case str_split (CHR ''-'') date of
                 a # b # c # _ \<Rightarrow>
                  (case (parse_i32 a, parse_u32 b, parse_u32 c) of
                     (Some year, Some month, Some day) \<Rightarrow>
                      (let (time, frac) = (case split_once (CHR ''.'') time0 of Some (t, f) \<Rightarrow> (t, f) | None \<Rightarrow> (time0, ''0''))
                       in case str_split (CHR '':'') time of
                            h # mi # sec # _ \<Rightarrow>
                             (case (parse_u32 h, parse_u32 mi, parse_u32 sec, parse_u32 frac) of
                                (Some hour, Some minute, Some second, Some millis) \<Rightarrow>
                                  (case days_from_civil year month day of
                                     None \<Rightarrow> None
                                   | Some days \<Rightarrow>
                                       Some (wrap_i64 (days * 86400000 + int hour * 3600000 + int minute * 60000 +
                                              int second * 1000 + int millis)))
                              | _ \<Rightarrow> None)
                          | _ \<Rightarrow> None)
                   | _ \<Rightarrow> None)
               | _ \<Rightarrow> None))"

section \<open>The calendar\<close>

text \<open>The calendar itself: leap years, lengths of months, and the day after a date.\<close>

definition leap_year :: "int \<Rightarrow> bool" where
  "leap_year y \<longleftrightarrow> 4 dvd y \<and> (\<not> 100 dvd y \<or> 400 dvd y)"

definition month_length :: "int \<Rightarrow> int \<Rightarrow> int" where
  "month_length y m = (if m = 2 then (if leap_year y then 29 else 28) else if m \<in> {4, 6, 9, 11} then 30 else 31)"

definition next_day :: "int \<times> int \<times> int \<Rightarrow> int \<times> int \<times> int" where
  "next_day ymd = (case ymd of (y, m, d) \<Rightarrow>
     if d < month_length y m then (y, m, d + 1) else if m < 12 then (y, m + 1, 1) else (y + 1, 1, 1))"

section \<open>Lemmas on the era\<close>

text \<open>
  A day of an era is a century \<open>c\<close>, a four-year group \<open>q\<close>, a year \<open>k\<close> of it and a day of
  that March-based year; the last day of the year exists when the following February has 29
  days.
\<close>

definition long_year :: "int \<Rightarrow> int \<Rightarrow> int \<Rightarrow> bool" where
  "long_year c q k \<longleftrightarrow> k = 3 \<and> (q \<noteq> 24 \<or> c = 3)"

definition era_day :: "int \<Rightarrow> int \<Rightarrow> int \<Rightarrow> int \<Rightarrow> bool" where
  "era_day c q k doy \<longleftrightarrow> 0 \<le> c \<and> c \<le> 3 \<and> 0 \<le> q \<and> q \<le> 24 \<and> 0 \<le> k \<and> k \<le> 3 \<and> 0 \<le> doy \<and>
     doy \<le> (if long_year c q k then 365 else 364)"

definition day_number :: "int \<Rightarrow> int \<Rightarrow> int \<Rightarrow> int \<Rightarrow> int" where
  "day_number c q k doy = 36524 * c + 1461 * q + 365 * k + doy"

lemma day_number_range: "era_day c q k doy \<Longrightarrow> 0 \<le> day_number c q k doy \<and> day_number c q k doy < 146097"
  by (auto simp: era_day_def day_number_def long_year_def split: if_splits)

lemma year_of_era:
  assumes "era_day c q k doy" "doe = day_number c q k doy"
  shows "(doe - doe div 1460 + doe div 36524 - doe div 146096) div 365 = 100 * c + 4 * q + k"
proof -
  have b: "0 \<le> c" "c \<le> 3" "0 \<le> q" "q \<le> 24" "0 \<le> k" "k \<le> 3" "0 \<le> doy"
    and d: "doy \<le> 364 \<or> doy = 365 \<and> k = 3 \<and> (q \<le> 23 \<or> c = 3)"
    using assms(1) by (auto simp: era_day_def long_year_def split: if_splits)
  have doe: "doe = 36524 * c + 1461 * q + 365 * k + doy" by (simp add: assms(2) day_number_def)
  define e where "e = (if 1460 \<le> 24 * c + q + 365 * k + doy then 1 else 0 :: int)"
  define t where "t = (if doe = 146096 then 1 else 0 :: int)"
  have q1: "doe div 1460 = 25 * c + q + e"
    by (rule int_div_pos_eq [of _ _ _ "24 * c + q + 365 * k + doy - 1460 * e"]) (use b d doe in \<open>auto simp: e_def\<close>)
  have q2: "doe div 36524 = c + t"
    by (rule int_div_pos_eq [of _ _ _ "1461 * q + 365 * k + doy - 36524 * t"]) (use b d doe in \<open>auto simp: t_def\<close>)
  have q3: "doe div 146096 = t"
    by (rule int_div_pos_eq [of _ _ _ "doe - 146096 * t"]) (use b d doe in \<open>auto simp: t_def\<close>)
  have g: "doe - doe div 1460 + doe div 36524 - doe div 146096 = 365 * (100 * c + 4 * q + k) + (doy - e)"
    unfolding q1 q2 q3 by (simp add: doe)
  have "0 \<le> doy - e" "doy - e < 365" using b d by (auto simp: e_def)
  then show ?thesis unfolding g by (simp add: div_pos_pos_trivial)
qed

lemma era_day_exists:
  assumes "0 \<le> doe" "doe < 146097"
  obtains c q k doy where "era_day c q k doy" "doe = day_number c q k doy"
proof -
  define c where "c = min 3 (doe div 36524)"
  define r where "r = doe - 36524 * c"
  define q where "q = min 24 (r div 1461)"
  define t where "t = r - 1461 * q"
  define k where "k = min 3 (t div 365)"
  have c: "0 \<le> c" "c \<le> 3" "0 \<le> r" "c < 3 \<longrightarrow> r < 36524" "r < 36525"
    using assms by (auto simp: c_def r_def min_def)
  have q: "0 \<le> q" "q \<le> 24" "0 \<le> t" "q < 24 \<longrightarrow> t < 1461" "t < 1461"
    using c by (auto simp: q_def t_def min_def)
  have k: "0 \<le> k" "k \<le> 3" "0 \<le> t - 365 * k" "k < 3 \<longrightarrow> t - 365 * k < 365" "t - 365 * k < 366"
    using q by (auto simp: k_def min_def)
  have "\<not> long_year c q k \<longrightarrow> t - 365 * k \<noteq> 365"
    using c q k by (auto simp: long_year_def t_def r_def)
  then have "era_day c q k (t - 365 * k)" using c q k by (auto simp: era_day_def)
  moreover have "doe = day_number c q k (t - 365 * k)" by (simp add: day_number_def t_def r_def)
  ultimately show thesis by (rule that)
qed

text \<open>A date from its era, March-based year and day of that year.\<close>

definition date_of :: "int \<Rightarrow> int \<Rightarrow> int \<times> int \<times> int" where
  "date_of y doy =
     (let mp = (5 * doy + 2) div 153; m = (if mp < 10 then mp + 3 else mp - 9)
      in (if m \<le> 2 then y + 1 else y, m, doy - (153 * mp + 2) div 5 + 1))"

lemma trunc_floor:
  assumes "0 < b"
  shows "trunc_div (if 0 \<le> z then z else z - (b - 1)) b = z div b"
proof (cases "0 \<le> z")
  case False
  have "z = b * (z div b) + z mod b" by simp
  moreover have "0 \<le> z mod b" "z mod b < b" using assms by simp_all
  ultimately have "(b - 1 - z) div b = - (z div b)"
    by (intro int_div_pos_eq [of _ _ _ "b - 1 - z mod b"]) (simp_all add: algebra_simps)
  with False assms show ?thesis by (simp add: trunc_div_def algebra_simps)
qed (simp add: trunc_div_def)

lemma wrap_i64_id [int_ops]: "is_i64 x \<Longrightarrow> wrap_i64 x = x"
  by (simp add: wrap_i64_def is_i64_def)

abbreviation days_in_range :: "int \<Rightarrow> bool" where
  "days_in_range z \<equiv> - 106751991168 \<le> z \<and> z \<le> 106751991167"

lemma civil_from_days_era:
  assumes z: "days_in_range z" and day: "era_day c q k doy"
    and eq: "z + 719468 = 146097 * era + day_number c q k doy"
  shows "civil_from_days z = date_of (400 * era + 100 * c + 4 * q + k) doy"
proof -
  define doe where "doe = day_number c q k doy"
  have doe: "0 \<le> doe" "doe < 146097" using day_number_range [OF day] by (simp_all add: doe_def)
  have w: "wrap_i64 (z + 719468) = z + 719468" "wrap_i64 (z + 719468 - 146096) = z + 719468 - 146096"
    using z by (simp_all add: wrap_i64_id is_i64_def)
  have era: "trunc_div (if 0 \<le> z + 719468 then z + 719468 else z + 719468 - 146096) 146097 = era"
  proof -
    have "(z + 719468) div 146097 = era" using doe eq by (simp add: doe_def)
    with trunc_floor [of 146097 "z + 719468"] show ?thesis by (auto split: if_splits)
  qed
  have doe_eq: "z + 719468 - era * 146097 = doe" using eq by (simp add: doe_def)
  define yoe where "yoe = 100 * c + 4 * q + k"
  have yoe: "(doe - doe div 1460 + doe div 36524 - doe div 146096) div 365 = yoe"
    using year_of_era [OF day doe_def] by (simp add: yoe_def)
  have b: "0 \<le> c" "c \<le> 3" "0 \<le> q" "q \<le> 24" "0 \<le> k" "k \<le> 3" "0 \<le> doy" "doy \<le> 365"
    using day by (auto simp: era_day_def split: if_splits)
  have y4: "yoe div 4 = 25 * c + q" and y100: "yoe div 100 = c"
    using b by (auto simp: yoe_def intro: int_div_pos_eq [of _ _ _ k] int_div_pos_eq [of _ _ _ "4 * q + k"])
  have doy: "doe - (365 * yoe + yoe div 4 - yoe div 100) = doy"
    unfolding y4 y100 by (simp add: doe_def day_number_def yoe_def)
  have mp: "0 \<le> (5 * doy + 2) div 153" "(5 * doy + 2) div 153 \<le> 11" using b by simp_all
  have d: "0 \<le> doy - (153 * ((5 * doy + 2) div 153) + 2) div 5 + 1"
     "doy - (153 * ((5 * doy + 2) div 153) + 2) div 5 + 1 < 256" using b by simp_all
  have y: "is_i32 (yoe + era * 400)" "is_i32 (yoe + era * 400 + 1)"
    using z eq doe b by (auto simp: is_i32_def yoe_def doe_def)
  show ?thesis
    unfolding civil_from_days_def Let_def w era doe_eq yoe doy date_of_def
    using mp d y by (simp add: wrap_i32_id yoe_def algebra_simps)
qed

text \<open>Inside a March-based year the date moves as the calendar says, checked day by day.\<close>

definition month_day :: "int \<Rightarrow> int \<times> int" where
  "month_day doy = (let mp = (5 * doy + 2) div 153
     in (if mp < 10 then mp + 3 else mp - 9, doy - (153 * mp + 2) div 5 + 1))"

definition moves :: "int \<Rightarrow> bool" where
  "moves doy = (case (month_day doy, month_day (doy + 1)) of ((m, d), (m', d')) \<Rightarrow>
     if d < (if m = 2 then 28 else if m \<in> {4, 6, 9, 11} then 30 else 31) then m' = m \<and> d' = d + 1
     else m \<noteq> 2 \<and> d' = 1 \<and> m' = (if m = 12 then 1 else m + 1))"

text \<open>The months of the March-based year start on these days.\<close>

lemma month_start:
  assumes "0 \<le> doy" "doy \<le> (365 :: int)"
  obtains mp where "(5 * doy + 2) div 153 = mp"
    "mp \<in> {0, 1, 2, 3, 4, 5, 6, 7, 8, 9, 10, 11}" "153 * mp \<le> 5 * doy + 2" "5 * doy + 2 < 153 * mp + 153"
proof -
  have "0 \<le> (5 * doy + 2) div 153" "(5 * doy + 2) div 153 \<le> 11" using assms by simp_all
  then have "(5 * doy + 2) div 153 \<in> set [0..11]" by simp
  also have "set [0..11] = {0, 1, 2, 3, 4, 5, 6, 7, 8, 9, 10, 11 :: int}" by (simp add: upto_rec1)
  finally have "(5 * doy + 2) div 153 \<in> {0, 1, 2, 3, 4, 5, 6, 7, 8, 9, 10, 11}" .
  then show thesis using that by simp
qed

lemma month_day_bounds:
  assumes "0 \<le> doy" "doy \<le> 365" "month_day doy = (m, d)"
  shows "1 \<le> m \<and> m \<le> 12 \<and> 1 \<le> d \<and> d \<le> 31"
  using assms(1,2)
proof (rule month_start)
  fix mp
  assume "(5 * doy + 2) div 153 = mp" "mp \<in> {0, 1, 2, 3, 4, 5, 6, 7, 8, 9, 10, 11}"
    "153 * mp \<le> 5 * doy + 2" "5 * doy + 2 < 153 * mp + 153"
  with assms(3) show ?thesis by (auto simp: month_day_def Let_def)
qed

lemma month_day_moves:
  assumes "0 \<le> doy" "doy \<le> 363"
  shows "moves doy"
proof -
  have "0 \<le> doy" "doy \<le> 365" using assms by simp_all
  then show ?thesis
  proof (rule month_start)
    fix mp
    assume mp: "(5 * doy + 2) div 153 = mp" "mp \<in> {0, 1, 2, 3, 4, 5, 6, 7, 8, 9, 10, 11}"
      "153 * mp \<le> 5 * doy + 2" "5 * doy + 2 < 153 * mp + 153"
    have "(5 * (doy + 1) + 2) div 153 = (if 5 * (doy + 1) + 2 < 153 * mp + 153 then mp else mp + 1)"
      using mp by (auto intro!: int_div_pos_eq [of _ _ mp "5 * (doy + 1) + 2 - 153 * mp"]
        int_div_pos_eq [of _ _ "mp + 1" "5 * (doy + 1) + 2 - 153 * (mp + 1)"])
    then have "moves doy" if "mp = n" "n \<in> {0, 1, 2, 3, 4, 5, 6, 7, 8, 9, 10, 11}" for n
      using that(2) unfolding that(1) using mp(1,3,4) assms that(1)
      by (elim insertE emptyE) (auto simp: moves_def month_day_def Let_def)
    with mp(2) show ?thesis by blast
  qed
qed

lemma date_of_eq: "date_of y doy = (case month_day doy of (m, d) \<Rightarrow> (if m \<le> 2 then y + 1 else y, m, d))"
  by (simp add: date_of_def month_day_def Let_def)

lemma date_of_move:
  assumes "0 \<le> doy" "doy \<le> 363"
  shows "date_of y (doy + 1) = next_day (date_of y doy)"
proof -
  obtain m d where md: "month_day doy = (m, d)" by fastforce
  then have "m \<le> 12" using month_day_bounds [of doy m d] assms by simp
  with md month_day_moves [OF assms] show ?thesis
    by (auto simp: moves_def date_of_eq next_day_def month_length_def split: prod.splits if_splits)
qed

lemma date_of_ends:
  "date_of y 364 = (y + 1, 2, 28)" "date_of y 365 = (y + 1, 2, 29)" "date_of y 0 = (y, 3, 1)"
  by (simp_all add: date_of_def)

lemma dvd_add_only:
  assumes "n dvd a" "0 < x" "x \<le> (n :: int)"
  shows "n dvd a + x \<longleftrightarrow> x = n"
  using assms dvd_add_right_iff [of n a x] by (auto dest: zdvd_imp_le)

lemma long_year_leap:
  assumes "0 \<le> c" "c \<le> 3" "0 \<le> q" "q \<le> 24" "0 \<le> k" "k \<le> 3"
  shows "leap_year (400 * era + 100 * c + 4 * q + k + 1) \<longleftrightarrow> long_year c q k"
proof -
  have "4 dvd (400 * era + 100 * c + 4 * q) + (k + 1) \<longleftrightarrow> k + 1 = 4"
    by (rule dvd_add_only) (use assms in simp_all)
  moreover have "100 dvd (400 * era + 100 * c) + (4 * q + k + 1) \<longleftrightarrow> 4 * q + k + 1 = 100"
    by (rule dvd_add_only) (use assms in simp_all)
  moreover have "400 dvd 400 * era + (100 * c + 4 * q + k + 1) \<longleftrightarrow> 100 * c + 4 * q + k + 1 = 400"
    by (rule dvd_add_only) (use assms in simp_all)
  ultimately show ?thesis using assms by (auto simp: leap_year_def long_year_def add.assoc)
qed

text \<open>The day after a day of an era is again one, of this era or the next.\<close>

lemma date_of_year_end:
  assumes "era_day c q k doy" "doy = (if long_year c q k then 365 else 364)"
  shows "next_day (date_of (400 * era + 100 * c + 4 * q + k) doy)
    = date_of (400 * era + 100 * c + 4 * q + k + 1) 0"
proof -
  have "0 \<le> c" "c \<le> 3" "0 \<le> q" "q \<le> 24" "0 \<le> k" "k \<le> 3" using assms(1) by (simp_all add: era_day_def)
  from long_year_leap [OF this, of era] assms(2) show ?thesis
    by (cases "long_year c q k") (simp_all add: date_of_ends next_day_def month_length_def)
qed

lemma next_era_day:
  assumes day: "era_day c q k doy"
  obtains era' c' q' k' doy' where "era_day c' q' k' doy'"
    "146097 * era + day_number c q k doy + 1 = 146097 * era' + day_number c' q' k' doy'"
    "date_of (400 * era' + 100 * c' + 4 * q' + k') doy' = next_day (date_of (400 * era + 100 * c + 4 * q + k) doy)"
proof (cases "doy = (if long_year c q k then 365 else 364)")
  case True
  have fin: "date_of n 0 = next_day (date_of (400 * era + 100 * c + 4 * q + k) doy)"
    if "n = 400 * era + 100 * c + 4 * q + k + 1" for n
    using that date_of_year_end [OF day True, of era] by simp
  have b: "0 \<le> c" "c \<le> 3" "0 \<le> q" "q \<le> 24" "0 \<le> k" "k \<le> 3" using day by (simp_all add: era_day_def)
  consider "k < 3" | "k = 3" "q < 24" | "k = 3" "q = 24" "c < 3" | "k = 3" "q = 24" "c = 3" using b by linarith
  then show thesis
  proof cases
    case 1
    with b True show thesis
      by (intro that [of c q "k + 1" 0 era] fin) (simp_all add: era_day_def day_number_def long_year_def)
  next
    case 2
    with b True show thesis
      by (intro that [of c "q + 1" 0 0 era] fin) (simp_all add: era_day_def day_number_def long_year_def)
  next
    case 3
    with b True show thesis
      by (intro that [of "c + 1" 0 0 0 era] fin) (simp_all add: era_day_def day_number_def long_year_def)
  next
    case 4
    with b True show thesis
      by (intro that [of 0 0 0 0 "era + 1"] fin) (simp_all add: era_day_def day_number_def long_year_def)
  qed
next
  case False
  let ?y = "400 * era + 100 * c + 4 * q + k"
  have d: "0 \<le> doy" "doy \<le> 364" using day False by (auto simp: era_day_def split: if_splits)
  have "date_of ?y (doy + 1) = next_day (date_of ?y doy)"
  proof (cases "doy = 364")
    case True
    then have "long_year c q k" using False by (auto split: if_splits)
    moreover have "0 \<le> c" "c \<le> 3" "0 \<le> q" "q \<le> 24" "0 \<le> k" "k \<le> 3" using day by (simp_all add: era_day_def)
    ultimately have "leap_year (?y + 1)" using long_year_leap by blast
    with True show ?thesis by (simp add: date_of_ends next_day_def month_length_def)
  next
    case False
    with d show ?thesis by (intro date_of_move) simp_all
  qed
  then show thesis
    using day False by (intro that [of c q k "doy + 1" era]) (auto simp: era_day_def day_number_def split: if_splits)
qed

lemma civil_from_days_next:
  assumes "days_in_range z" "days_in_range (z + 1)"
  shows "civil_from_days (z + 1) = next_day (civil_from_days z)"
proof -
  define era where "era = (z + 719468) div 146097"
  have "0 \<le> (z + 719468) mod 146097" "(z + 719468) mod 146097 < 146097" by simp_all
  then obtain c q k doy where day: "era_day c q k doy" "(z + 719468) mod 146097 = day_number c q k doy"
    by (rule era_day_exists)
  have z: "z + 719468 = 146097 * era + day_number c q k doy"
    unfolding era_def day(2) [symmetric] by simp
  obtain era' c' q' k' doy' where n: "era_day c' q' k' doy'"
    "146097 * era + day_number c q k doy + 1 = 146097 * era' + day_number c' q' k' doy'"
    "date_of (400 * era' + 100 * c' + 4 * q' + k') doy' = next_day (date_of (400 * era + 100 * c + 4 * q + k) doy)"
    using next_era_day [OF day(1)] by metis
  have "z + 1 + 719468 = 146097 * era' + day_number c' q' k' doy'" using z n(2) by simp
  with civil_from_days_era [OF assms(2) n(1)] civil_from_days_era [OF assms(1) day(1) z] n(3)
  show ?thesis by simp
qed

section \<open>Reading back what is printed\<close>

lemma era_split:
  assumes "era_day c q k doy" "y = 400 * era + 100 * c + 4 * q + k"
  shows "y div 400 = era" "(y mod 400) div 4 = 25 * c + q" "(y mod 400) div 100 = c" "y mod 400 = 100 * c + 4 * q + k"
proof -
  have b: "0 \<le> c" "c \<le> 3" "0 \<le> q" "q \<le> 24" "0 \<le> k" "k \<le> 3" using assms(1) by (simp_all add: era_day_def)
  then have r: "0 \<le> 100 * c + 4 * q + k" "100 * c + 4 * q + k < 400" by simp_all
  show "y div 400 = era"
    by (rule int_div_pos_eq [of _ _ _ "100 * c + 4 * q + k"]) (use assms(2) r in simp_all)
  show m: "y mod 400 = 100 * c + 4 * q + k"
    by (rule int_mod_pos_eq [of _ _ era]) (use assms(2) r in simp_all)
  show "(y mod 400) div 4 = 25 * c + q"
    unfolding m by (rule int_div_pos_eq [of _ _ _ k]) (use b in simp_all)
  show "(y mod 400) div 100 = c"
    unfolding m by (rule int_div_pos_eq [of _ _ _ "4 * q + k"]) (use b in simp_all)
qed

lemma days_from_civil_date:
  assumes day: "era_day c q k doy" and y: "y = 400 * era + 100 * c + 4 * q + k"
    and date: "date_of y doy = (y', m, d)" and range: "is_i32 (y - 399)" "is_i32 (y + 1)"
  shows "days_from_civil y' (nat m) (nat d) = Some (146097 * era + day_number c q k doy - 719468)"
proof -
  have doy: "0 \<le> doy" "doy \<le> 365" using day by (auto simp: era_day_def split: if_splits)
  define mp where "mp = (5 * doy + 2) div 153"
  have mp: "0 \<le> mp" "mp \<le> 11" using doy by (simp_all add: mp_def)
  have m: "m = (if mp < 10 then mp + 3 else mp - 9)" and d: "d = doy - (153 * mp + 2) div 5 + 1"
    and y': "y' = (if m \<le> 2 then y + 1 else y)"
    using date by (auto simp: date_of_def Let_def mp_def)
  have "month_day doy = (m, d)" using m d by (simp add: month_day_def mp_def Let_def)
  from month_day_bounds [OF doy this] have md: "1 \<le> m" "m \<le> 12" "1 \<le> d" "d \<le> 31" by simp_all
  have yy: "(if nat m \<le> 2 then wrap_i32 (y' - 1) else y') = y"
    using md y' range by (auto simp: wrap_i32_id is_i32_def)
  have wrap: "wrap_i32 (y - 399) = y - 399" using range by (simp add: wrap_i32_id)
  have era: "trunc_div (if 0 \<le> y then y else y - 399) 400 = era"
    using trunc_floor [of 400 y] era_split(1) [OF day y] by (auto split: if_splits)
  have yoe: "wrap_i32 (y - era * 400) = y mod 400"
  proof -
    have "y - era * 400 = y mod 400" using era_split(1) [OF day y] minus_div_mult_eq_mod [of y 400] by simp
    moreover have "is_i32 (y mod 400)"
      unfolding is_i32_def using pos_mod_sign [of 400 y] pos_mod_bound [of 400 y] by linarith
    ultimately show ?thesis by (simp add: wrap_i32_id)
  qed
  have mm: "(if nat m > 2 then int (nat m) - 3 else int (nat m) + 9) = mp" using md mp m by auto
  have "int (nat d) = d" using md by simp
  then have "(153 * mp + 2) div 5 + int (nat d) - 1 = doy" using d by simp
  moreover have "1 \<le> nat m" "nat m \<le> 12" "1 \<le> nat d" "nat d \<le> 31" using md by linarith+
  moreover define ye where "ye = y mod 400"
  have "0 \<le> ye" by (simp add: ye_def)
  moreover have "ye div 4 = 25 * c + q" "ye div 100 = c" "365 * ye = 36500 * c + 1460 * q + 365 * k"
    using era_split(2-4) [OF day y] by (simp_all add: ye_def)
  ultimately show ?thesis
    unfolding days_from_civil_def yy wrap Let_def era yoe mm ye_def [symmetric] by (simp add: day_number_def)
qed

lemma days_from_civil_inverse:
  assumes z: "days_in_range z" and date: "civil_from_days z = (y, m, d)"
  shows "days_from_civil y (nat m) (nat d) = Some z"
    and "1 \<le> m" "m \<le> 12" "1 \<le> d" "d \<le> 31" "is_i32 y"
proof -
  define era where "era = (z + 719468) div 146097"
  have "0 \<le> (z + 719468) mod 146097" "(z + 719468) mod 146097 < 146097" by simp_all
  then obtain c q k doy where day: "era_day c q k doy" "(z + 719468) mod 146097 = day_number c q k doy"
    by (rule era_day_exists)
  have eq: "z + 719468 = 146097 * era + day_number c q k doy"
    unfolding era_def day(2) [symmetric] by simp
  have d: "date_of (400 * era + 100 * c + 4 * q + k) doy = (y, m, d)"
    using civil_from_days_era [OF z day(1) eq] date by simp
  have b: "0 \<le> c" "c \<le> 3" "0 \<le> q" "q \<le> 24" "0 \<le> k" "k \<le> 3" "0 \<le> doy" "doy \<le> 365"
    using day(1) by (auto simp: era_day_def split: if_splits)
  have r: "is_i32 (400 * era + 100 * c + 4 * q + k - 399)" "is_i32 (400 * era + 100 * c + 4 * q + k + 1)"
    using z eq day_number_range [OF day(1)] b by (auto simp: is_i32_def)
  show "days_from_civil y (nat m) (nat d) = Some z"
    using days_from_civil_date [OF day(1) refl d r] eq by simp
  show "1 \<le> m" "m \<le> 12" "1 \<le> d" "d \<le> 31"
    using month_day_bounds [OF b(7,8)] d by (auto simp: date_of_eq split: prod.splits)
  show "is_i32 y" using d r by (auto simp: date_of_eq is_i32_def split: prod.splits if_splits)
qed

text \<open>A printed field holds digits only, so no separator of the format.\<close>

lemma digit_separators:
  "list_all is_digit s \<Longrightarrow> CHR ''-'' \<notin> set s \<and> CHR ''T'' \<notin> set s \<and> CHR '':'' \<notin> set s \<and> CHR ''.'' \<notin> set s"
  by (auto simp: list_all_iff is_digit_def)

lemma parse_fields:
  assumes "list_all is_digit a" "list_all is_digit b" "list_all is_digit c" "list_all is_digit h"
    and "list_all is_digit mi" "list_all is_digit sec" "list_all is_digit fr"
    and "parse_i32 a = Some year" "parse_u32 b = Some month" "parse_u32 c = Some day" "parse_u32 h = Some hour"
    and "parse_u32 mi = Some minute" "parse_u32 sec = Some second" "parse_u32 fr = Some millis"
    and "days_from_civil year month day = Some days"
  shows "parse_rfc3339_utc (a @ ''-'' @ b @ ''-'' @ c @ ''T'' @ h @ '':'' @ mi @ '':'' @ sec @ ''.'' @ fr @ ''Z'')
    = Some (wrap_i64 (days * 86400000 + int hour * 3600000 + int minute * 60000 + int second * 1000 + int millis))"
proof -
  let ?date = "a @ CHR ''-'' # b @ CHR ''-'' # c" and ?time = "h @ CHR '':'' # mi @ CHR '':'' # sec"
  note sep = assms(1-7) [THEN digit_separators]
  have t: "split_once (CHR ''T'') (?date @ CHR ''T'' # ?time @ CHR ''.'' # fr)
      = Some (?date, ?time @ CHR ''.'' # fr)"
    using sep by (simp add: split_once_Some)
  have f: "split_once (CHR ''.'') (?time @ CHR ''.'' # fr) = Some (?time, fr)"
    using sep by (simp add: split_once_Some)
  have d: "str_split (CHR ''-'') ?date = [a, b, c]" and m: "str_split (CHR '':'') ?time = [h, mi, sec]"
    using sep by (simp_all add: str_split_append str_split_no_sep)
  have s: "a @ ''-'' @ b @ ''-'' @ c @ ''T'' @ h @ '':'' @ mi @ '':'' @ sec @ ''.'' @ fr @ ''Z''
      = (?date @ CHR ''T'' # ?time @ CHR ''.'' # fr) @ [CHR ''Z'']" by simp
  show ?thesis unfolding s parse_rfc3339_utc_def
    using t f d m assms(8-15) by (simp del: append_assoc add: append_assoc [symmetric])
qed

lemma parse_padded:
  assumes "0 \<le> y" "y \<le> i32_max" "1 \<le> m" "m \<le> 12" "1 \<le> d" "d \<le> 31" "0 \<le> h" "h \<le> 23"
    and "0 \<le> mi" "mi \<le> 59" "0 \<le> sec" "sec \<le> 59" "0 \<le> fr" "fr \<le> 999"
    and "days_from_civil y (nat m) (nat d) = Some z"
  shows "parse_rfc3339_utc (zero_pad 4 y @ ''-'' @ zero_pad 2 m @ ''-'' @ zero_pad 2 d @ ''T'' @ zero_pad 2 h @ '':'' @
      zero_pad 2 mi @ '':'' @ zero_pad 2 sec @ ''.'' @ zero_pad 3 fr @ ''Z'')
    = Some (wrap_i64 (z * 86400000 + h * 3600000 + mi * 60000 + sec * 1000 + fr))"
proof -
  have u32: "parse_u32 (zero_pad w i) = Some (nat i)" if "0 \<le> i" "i \<le> 999" for i w
    using that by (intro parse_zero_pad(1)) simp_all
  have "parse_rfc3339_utc (zero_pad 4 y @ ''-'' @ zero_pad 2 m @ ''-'' @ zero_pad 2 d @ ''T'' @ zero_pad 2 h @ '':'' @
      zero_pad 2 mi @ '':'' @ zero_pad 2 sec @ ''.'' @ zero_pad 3 fr @ ''Z'')
    = Some (wrap_i64 (z * 86400000 + int (nat h) * 3600000 + int (nat mi) * 60000 + int (nat sec) * 1000 + int (nat fr)))"
    by (rule parse_fields [where year = y and month = "nat m" and day = "nat d"])
       (use assms in \<open>simp_all add: zero_pad_nat(1) parse_zero_pad(2) u32\<close>)
  with assms show ?thesis by simp
qed

lemma recombine:
  fixes t :: int
  assumes "t = a * 3600 + b" "b = c * 60 + e" "w = z * 86400 + t" "ms = w * 1000 + f"
  shows "z * 86400000 + a * 3600000 + c * 60000 + e * 1000 + f = ms"
  using assms by simp

lemma parse_format:
  assumes "is_i64 ms" "civil_from_days (ms div 1000 div 86400) = (y, m, d)" "0 \<le> y"
  shows "parse_rfc3339_utc (format_unix_ms ms) = Some ms"
proof -
  define z where "z = ms div 1000 div 86400"
  have "z = ms div 86400000" by (simp add: z_def flip: zdiv_zmult2_eq)
  then have "- 106751991168 \<le> z" "z \<le> 106751991167"
    using assms(1) zdiv_mono1 [of i64_min ms 86400000] zdiv_mono1 [of ms i64_max 86400000]
    by (simp_all add: is_i64_def)
  then have z: "days_in_range z" by simp
  note inv = days_from_civil_inverse [OF z assms(2) [folded z_def]]
  define t where "t = ms div 1000 mod 86400"
  have t: "0 \<le> t" "t < 86400" by (simp_all add: t_def)
  then have hms: "0 \<le> t div 3600" "t div 3600 \<le> 23" "0 \<le> t mod 3600 div 60" "t mod 3600 div 60 \<le> 59"
    "0 \<le> t mod 60" "t mod 60 \<le> 59" "0 \<le> ms mod 1000" "ms mod 1000 \<le> 999" by simp_all
  have y: "y \<le> i32_max" using inv(6) by (simp add: is_i32_def)
  have eq: "z * 86400000 + t div 3600 * 3600000 + t mod 3600 div 60 * 60000 + t mod 60 * 1000 + ms mod 1000 = ms"
  proof -
    have "t mod 60 = t mod 3600 mod 60" by (simp add: mod_mod_cancel)
    then show ?thesis
      by (simp only:) (rule recombine [where t = t and w = "ms div 1000" and b = "t mod 3600"];
          simp only: z_def t_def div_mult_mod_eq)
  qed
  have "format_unix_ms ms = zero_pad 4 y @ ''-'' @ zero_pad 2 m @ ''-'' @ zero_pad 2 d @ ''T'' @
      zero_pad 2 (t div 3600) @ '':'' @ zero_pad 2 (t mod 3600 div 60) @ '':'' @ zero_pad 2 (t mod 60) @ ''.'' @
      zero_pad 3 (ms mod 1000) @ ''Z''"
    by (simp only: format_unix_ms_def Let_def t_def assms(2) prod.case)
  then show ?thesis
    using parse_padded [OF assms(3) y inv(2-5) hms inv(1)] wrap_i64_id [OF assms(1)] by (simp only: eq)
qed

end
