(* ===== verification/Cli.thy ===== *)
theory Cli
  imports Cli_Time Ipc Dsl_Validate
begin

text \<open>
  The command line, crate \<open>vcli-cli\<close>: its errors and exit codes (\<open>error.rs\<close>), tables and
  output modes (\<open>format.rs\<close>), reading a program file (\<open>util.rs\<close>), and one definition per
  subcommand (\<open>commands\<close>).  A command writes text and may end with an error: its result is
  what it has written and the error, if any.  Parameters (\<open>CliExt\<close>) are the text forms of
  \<open>serde_json\<close>, the parser of program identifiers, the file system calls and the kind of an
  operating-system error; the daemon is a function from requests to responses, and a stream
  is what the client of \<open>Ipc\<close> reads.  Writing to the terminal does not fail.
\<close>

section \<open>Errors and exit codes\<close>

datatype ExitCode = ExitSuccess | ExitGeneric | ExitValidation | ExitNotFound | ExitDaemonDown

fun exit_code_i32 :: "ExitCode \<Rightarrow> i32" where
  "exit_code_i32 ExitSuccess = 0"
| "exit_code_i32 ExitGeneric = 1"
| "exit_code_i32 ExitValidation = 2"
| "exit_code_i32 ExitNotFound = 3"
| "exit_code_i32 ExitDaemonDown = 4"

datatype CliError = Cli_Validation string | Cli_NotFound string | Cli_DaemonDown string | Cli_Generic string

fun cli_error_display :: "CliError \<Rightarrow> string" where
  "cli_error_display (Cli_Validation m) = ''validation error: '' @ m"
| "cli_error_display (Cli_NotFound m) = ''not found: '' @ m"
| "cli_error_display (Cli_DaemonDown m) = ''daemon not running (socket: '' @ m @ '')''"
| "cli_error_display (Cli_Generic m) = m"

fun cli_exit_code :: "CliError \<Rightarrow> ExitCode" where
  "cli_exit_code (Cli_Validation _) = ExitValidation"
| "cli_exit_code (Cli_NotFound _) = ExitNotFound"
| "cli_exit_code (Cli_DaemonDown _) = ExitDaemonDown"
| "cli_exit_code (Cli_Generic _) = ExitGeneric"

text \<open>The em dash and the arrow of the messages, in UTF-8.\<close>

definition em_dash :: string where "em_dash = [CHR 0xE2, CHR 0x80, CHR 0x94]"
definition arrow :: string where "arrow = [CHR 0xE2, CHR 0x86, CHR 0x92]"

definition format_payload :: "ErrorPayload \<Rightarrow> string" where
  "format_payload p =
     ep_message p
     @ (case ep_path p of None \<Rightarrow> [] | Some path \<Rightarrow> '' (at '' @ path @ '')'')
     @ (case (ep_line p, ep_column p) of
          (Some line, Some col) \<Rightarrow> '' [line '' @ nat_str line @ '', col '' @ nat_str col @ '']'' | _ \<Rightarrow> [])
     @ (case ep_hint p of None \<Rightarrow> []
        | Some hint \<Rightarrow> '' '' @ em_dash @ '' did you mean `'' @ hint @ ''`?'')"

definition from_payload :: "ErrorPayload \<Rightarrow> CliError" where
  "from_payload p =
     (let t = format_payload p
      in case ep_code p of
           InvalidProgram \<Rightarrow> Cli_Validation t
         | UnknownProgram \<Rightarrow> Cli_NotFound t
         | _ \<Rightarrow> Cli_Generic t)"

datatype IoKind = IoNotFound | IoConnectionRefused | IoOther

record CliExt =
  cx_dsl :: DslExt
  cx_debug_str :: "string \<Rightarrow> string"
  cx_debug_list :: "string list \<Rightarrow> string"
  cx_pretty_json :: "JsonValue \<Rightarrow> string"
  cx_value_json :: "JsonValue \<Rightarrow> string"
  cx_event_json :: "Event \<Rightarrow> string"
  cx_frame_json :: "StreamFrame \<Rightarrow> string"
  cx_parse_id :: "string \<Rightarrow> string + ProgramId"
  cx_io_kind :: "string \<Rightarrow> IoKind"
  cx_stat :: "string \<Rightarrow> string + nat"
  cx_read :: "string \<Rightarrow> string + bytes"
  cx_json_bytes :: "bytes \<Rightarrow> string + JsonValue"
  cx_parent :: "string \<Rightarrow> string option"

text \<open>\<open>From<IpcError>\<close>: an absent or refused socket means that the daemon is down.\<close>

definition cli_of_ipc :: "CliExt \<Rightarrow> IpcError \<Rightarrow> CliError" where
  "cli_of_ipc X e =
     (case e of
        IE_Io m \<Rightarrow> if cx_io_kind X m \<in> {IoNotFound, IoConnectionRefused} then Cli_DaemonDown m
                   else Cli_Generic (ipc_error_display e)
      | _ \<Rightarrow> Cli_Generic (ipc_error_display e))"

text \<open>Dialling the socket gives nothing or the message of the operating system.\<close>

definition connect :: "CliExt \<Rightarrow> string \<Rightarrow> string option \<Rightarrow> CliError option" where
  "connect X socket dial =
     (case dial of
        None \<Rightarrow> None
      | Some m \<Rightarrow>
          if cx_io_kind X m \<in> {IoNotFound, IoConnectionRefused} then Some (Cli_DaemonDown socket)
          else Some (Cli_Generic (ipc_error_display (IE_Io m))))"

section \<open>Output\<close>

datatype OutputMode = Pretty | JsonMode

definition output_mode :: "bool \<Rightarrow> OutputMode" where
  "output_mode json = (if json then JsonMode else Pretty)"

record Table =
  headers :: "string list"
  trows :: "string list list"

definition table_new :: "string list \<Rightarrow> Table" where
  "table_new hs = \<lparr>headers = hs, trows = []\<rparr>"

text \<open>\<open>Vec::resize\<close>: extra cells are cut, missing ones are empty.\<close>

definition table_push :: "string list \<Rightarrow> Table \<Rightarrow> Table" where
  "table_push cells t =
     (let n = length (headers t)
      in t\<lparr>trows := trows t @ [take n cells @ replicate (n - length cells) []]\<rparr>)"

definition char_count :: "string \<Rightarrow> nat" where
  "char_count s = length (str_chars s)"

text \<open>The widths: those of the headers, then the maximum with each row.\<close>

definition table_widths :: "Table \<Rightarrow> nat list" where
  "table_widths t =
     fold (\<lambda>row ws. map (\<lambda>(w, cell). max w (char_count cell)) (zip ws row)) (trows t)
       (map char_count (headers t))"

text \<open>The format \<open>{:<w}\<close> pads with spaces up to \<open>w\<close> scalar values.\<close>

definition pad_right :: "nat \<Rightarrow> string \<Rightarrow> string" where
  "pad_right w s = s @ replicate (w - char_count s) (CHR '' '')"

fun render_cells :: "nat list \<Rightarrow> string list \<Rightarrow> string" where
  "render_cells (w # ws) (c # cs) = pad_right w c @ (if cs = [] then [] else ''  '' @ render_cells ws cs)"
| "render_cells _ _ = []"

definition newline :: string where "newline = [CHR 0x0A]"

definition render_pretty :: "Table \<Rightarrow> string" where
  "render_pretty t =
     (let ws = table_widths t
      in concat (map (\<lambda>row. render_cells ws row @ newline) (headers t # trows t)))"

definition render_value :: "CliExt \<Rightarrow> OutputMode \<Rightarrow> string \<Rightarrow> JsonValue \<Rightarrow> string" where
  "render_value X mode pretty json = (case mode of Pretty \<Rightarrow> pretty | JsonMode \<Rightarrow> cx_pretty_json X json)"

section \<open>Reading JSON results\<close>

definition value_get :: "string \<Rightarrow> JsonValue \<Rightarrow> JsonValue option" where
  "value_get key v = (case v of JObject m \<Rightarrow> btree_get m key | _ \<Rightarrow> None)"

definition as_str :: "JsonValue \<Rightarrow> string option" where
  "as_str v = (case v of JString s \<Rightarrow> Some s | _ \<Rightarrow> None)"

definition as_u64 :: "JsonValue \<Rightarrow> nat option" where
  "as_u64 v = (case v of JNumber (JInt i) \<Rightarrow> if 0 \<le> i then Some (nat i) else None | _ \<Rightarrow> None)"

definition as_array :: "JsonValue \<Rightarrow> JsonValue list option" where
  "as_array v = (case v of JArray vs \<Rightarrow> Some vs | _ \<Rightarrow> None)"

definition str_at :: "string \<Rightarrow> string \<Rightarrow> JsonValue \<Rightarrow> string" where
  "str_at key dflt v = (case Option.bind (value_get key v) as_str of None \<Rightarrow> dflt | Some s \<Rightarrow> s)"

definition u64_at :: "string \<Rightarrow> JsonValue \<Rightarrow> nat" where
  "u64_at key v = (case Option.bind (value_get key v) as_u64 of None \<Rightarrow> 0 | Some n \<Rightarrow> n)"

end
