(* ===== verification/Cli_Commands.thy ===== *)
theory Cli_Commands
  imports Cli
begin

text \<open>
  The subcommands of \<open>vcli\<close> (\<open>vcli-cli/src/commands\<close>) and the entry point (\<open>lib.rs\<close>).  A
  \<open>CliLink\<close> is what a command meets on the other side: the outcome of each dial, the
  daemon's answer to a one-shot request, the stream a streaming request opens, the results of
  polling for the socket file, and the outcome of starting the daemon binary.
\<close>

record CliLink =
  ln_socket :: string
  ln_dial :: "nat \<Rightarrow> string option"
  ln_ask :: "RequestOp \<Rightarrow> IpcError + Response"
  ln_codec :: Codec
  ln_stream :: "RequestOp \<Rightarrow> IpcError + ResponseStream"
  ln_exists :: bool
  ln_polls :: "bool list"
  ln_spawn :: "string option"
  ln_exec :: string

type_synonym cli_result = "string \<times> CliError option"

section \<open>Requests and streams\<close>

definition request :: "CliExt \<Rightarrow> CliLink \<Rightarrow> RequestOp \<Rightarrow> CliError + ResponseBody" where
  "request X L op =
     (case connect X (ln_socket L) (ln_dial L 0) of
        Some e \<Rightarrow> Inl e
      | None \<Rightarrow> (case ln_ask L op of Inl e \<Rightarrow> Inl (cli_of_ipc X e) | Inr resp \<Rightarrow> Inr (rs_body resp)))"

text \<open>The loop \<open>while let Some(frame) = stream.next_frame().await?\<close>: the frames, and the error that ends it.\<close>

function drain :: "Codec \<Rightarrow> ResponseStream \<Rightarrow> StreamFrame list \<times> IpcError option" where
  "drain C st =
     (case next_frame C st of
        (Inl e, _) \<Rightarrow> ([], Some e)
      | (Inr None, _) \<Rightarrow> ([], None)
      | (Inr (Some f), st') \<Rightarrow> (case drain C st' of (fs, e) \<Rightarrow> (f # fs, e)))"
  by pat_completeness auto
termination
  by (relation "measure (\<lambda>(C, st). length (concat (rst_reader st)))")
     (auto simp: next_frame_def Let_def dest!: read_frame_progress split: if_splits sum.splits prod.splits)

declare drain.simps [simp del]

definition open_stream :: "CliExt \<Rightarrow> CliLink \<Rightarrow> nat \<Rightarrow> RequestOp \<Rightarrow> CliError + (StreamFrame list \<times> IpcError option)" where
  "open_stream X L n op =
     (case connect X (ln_socket L) (ln_dial L n) of
        Some e \<Rightarrow> Inl e
      | None \<Rightarrow> (case ln_stream L op of
                   Inl e \<Rightarrow> Inl (cli_of_ipc X e)
                 | Inr st \<Rightarrow> Inr (drain (ln_codec L) st)))"

text \<open>A command that prints one rendered result.\<close>

definition print_result ::
  "CliExt \<Rightarrow> OutputMode \<Rightarrow> (ErrorPayload \<Rightarrow> CliError) \<Rightarrow> (JsonValue \<Rightarrow> string) \<Rightarrow>
   CliError + ResponseBody \<Rightarrow> cli_result" where
  "print_result X mode err pretty r =
     (case r of
        Inl e \<Rightarrow> ([], Some e)
      | Inr (RB_Ok result) \<Rightarrow> (render_value X mode (pretty result) result, None)
      | Inr (RB_Err p) \<Rightarrow> ([], Some (err p)))"

section \<open>One-shot commands\<close>

definition cancel_summary :: "string \<Rightarrow> string option \<Rightarrow> JsonValue \<Rightarrow> string" where
  "cancel_summary pid reason result =
     (let state = str_at ''state'' ''cancelled'' result
      in ''cancelled '' @ pid @ '' '' @ arrow @ '' '' @ state
         @ (case reason of Some r \<Rightarrow> '' (reason: '' @ r @ '')'' | None \<Rightarrow> []) @ newline)"

definition cancel_run :: "CliExt \<Rightarrow> CliLink \<Rightarrow> OutputMode \<Rightarrow> ProgramId \<Rightarrow> string option \<Rightarrow> cli_result" where
  "cancel_run X L mode pid reason =
     print_result X mode from_payload (cancel_summary pid reason) (request X L (Op_Cancel pid))"

definition gc_summary :: "JsonValue \<Rightarrow> string" where
  "gc_summary v =
     ''gc: ok (removed '' @ nat_str (u64_at ''removed'' v) @ '', freed '' @ nat_str (u64_at ''bytes_freed'' v)
     @ '' bytes)'' @ newline"

definition gc_run :: "CliExt \<Rightarrow> CliLink \<Rightarrow> OutputMode \<Rightarrow> cli_result" where
  "gc_run X L mode = print_result X mode from_payload gc_summary (request X L Op_Gc)"

definition health_pretty :: "CliExt \<Rightarrow> JsonValue \<Rightarrow> string" where
  "health_pretty X v =
     ''daemon: ok'' @ newline
     @ (case Option.bind (value_get ''version'' v) as_str of None \<Rightarrow> [] | Some t \<Rightarrow> ''version: '' @ t @ newline)
     @ (case Option.bind (value_get ''uptime_ms'' v) as_u64 of None \<Rightarrow> [] | Some n \<Rightarrow> ''uptime_ms: '' @ nat_str n @ newline)
     @ (case value_get ''programs'' v of None \<Rightarrow> [] | Some p \<Rightarrow> ''programs: '' @ cx_value_json X p @ newline)
     @ (case value_get ''last_error'' v of
          None \<Rightarrow> [] | Some e \<Rightarrow> if e = JNull then [] else ''last_error: '' @ cx_value_json X e @ newline)"

definition health_run :: "CliExt \<Rightarrow> CliLink \<Rightarrow> OutputMode \<Rightarrow> cli_result" where
  "health_run X L mode = print_result X mode from_payload (health_pretty X) (request X L Op_Health)"

datatype StateFilter = SF_Waiting | SF_Running | SF_Completed | SF_Failed | SF_Cancelled

fun as_wire :: "StateFilter \<Rightarrow> string" where
  "as_wire SF_Waiting = ''waiting''"
| "as_wire SF_Running = ''running''"
| "as_wire SF_Completed = ''completed''"
| "as_wire SF_Failed = ''failed''"
| "as_wire SF_Cancelled = ''cancelled''"

definition list_row :: "JsonValue \<Rightarrow> string list" where
  "list_row item = [str_at ''program_id'' ''?'' item, str_at ''name'' [] item, str_at ''state'' ''?'' item,
                    str_at ''submitted_at'' [] item]"

definition format_table :: "JsonValue \<Rightarrow> string" where
  "format_table v =
     render_pretty
       (fold (\<lambda>item t. table_push (list_row item) t)
         (case Option.bind (value_get ''items'' v) as_array of None \<Rightarrow> [] | Some items \<Rightarrow> items)
         (table_new [''id'', ''name'', ''state'', ''submitted_at'']))"

definition list_run :: "CliExt \<Rightarrow> CliLink \<Rightarrow> OutputMode \<Rightarrow> StateFilter option \<Rightarrow> cli_result" where
  "list_run X L mode state =
     print_result X mode from_payload format_table (request X L (Op_List (map_option as_wire state)))"

definition resume_summary :: "string \<Rightarrow> JsonValue \<Rightarrow> string" where
  "resume_summary pid result =
     ''resumed '' @ pid @ '' from step '' @ nat_str (u64_at ''from_step'' result) @ newline"

definition format_msg :: "ErrorPayload \<Rightarrow> string" where
  "format_msg p = (case ep_path p of Some path \<Rightarrow> ep_message p @ '' (at '' @ path @ '')'' | None \<Rightarrow> ep_message p)"

definition map_resume_error :: "ErrorPayload \<Rightarrow> CliError" where
  "map_resume_error p =
     (case ep_code p of
        BadStateTransition \<Rightarrow> Cli_Validation (format_msg p)
      | NotResumable \<Rightarrow> Cli_Validation (format_msg p)
      | ResumePreconditionFailed \<Rightarrow> Cli_Validation (format_msg p)
      | _ \<Rightarrow> from_payload p)"

definition resume_run :: "CliExt \<Rightarrow> CliLink \<Rightarrow> OutputMode \<Rightarrow> ProgramId \<Rightarrow> bool \<Rightarrow> cli_result" where
  "resume_run X L mode pid from_start =
     print_result X mode map_resume_error (resume_summary pid) (request X L (Op_Resume pid from_start))"

section \<open>Events as lines\<close>

text \<open>The derived serialisation of an event's payload, tagged with its type.\<close>

fun event_fields :: "EventData \<Rightarrow> (string \<times> JsonValue) list" where
  "event_fields (ProgramSubmitted p n) = [(''program_id'', JString p), (''name'', JString n)]"
| "event_fields (ProgramStateChanged p a b r) =
     [(''program_id'', JString p), (''from'', JString (state_as_str a)), (''to'', JString (state_as_str b)),
      (''reason'', JString r)]"
| "event_fields (ProgramCompleted p e) = (''program_id'', JString p) # opt_field ''emit'' JString e"
| "event_fields (ProgramFailed p r st e) =
     [(''program_id'', JString p), (''reason'', JString r)] @ opt_field ''step'' JString st @ opt_field ''emit'' JString e"
| "event_fields (ProgramResumed p n) = [(''program_id'', JString p), (''from_step'', jnat n)]"
| "event_fields (WatchFired p i q) =
     [(''program_id'', JString p), (''watch_index'', jnat i), (''predicate'', JString q)]"
| "event_fields (ActionDispatched p st t) =
     [(''program_id'', JString p), (''step'', st)] @ opt_field ''target'' point_to_value t"
| "event_fields (ActionDeferred p st r) = [(''program_id'', JString p), (''step'', st), (''reason'', r)]"
| "event_fields (TickFrameSkipped r) = [(''reason'', JString r)]"
| "event_fields (DaemonPressure n) = [(''tick_budget_ms'', jnat n)]"
| "event_fields (StreamDropped n t) = [(''count'', jnat n), (''since'', jint t)]"
| "event_fields (CapturePermissionMissing b) = [(''backend'', JString b)]"
| "event_fields (DaemonStarted v) = [(''version'', JString v)]"
| "event_fields DaemonStopped = []"

definition event_data_to_value :: "EventData \<Rightarrow> JsonValue" where
  "event_data_to_value d = json_obj ((''type'', JString (event_type_tag d)) # event_fields d)"

definition format_event_line :: "CliExt \<Rightarrow> Event \<Rightarrow> string" where
  "format_event_line X ev =
     (let ts = format_unix_ms (ev_at ev);
          raw = event_data_to_value (ev_data ev);
          kind = str_at ''type'' ''event'' raw
      in ts @ ''  '' @ kind @ ''  '' @ cx_value_json X raw @ newline)"

section \<open>Logs\<close>

definition parse_since :: "string option \<Rightarrow> CliError + i64 option" where
  "parse_since s =
     (case s of
        None \<Rightarrow> Inr None
      | Some t \<Rightarrow> (case parse_rfc3339_utc t of
                     Some ms \<Rightarrow> Inr (Some ms)
                   | None \<Rightarrow> Inl (Cli_Generic (''--since: unrecognized timestamp: '' @ t))))"

definition log_line :: "CliExt \<Rightarrow> OutputMode \<Rightarrow> i64 option \<Rightarrow> StreamFrame \<Rightarrow> string" where
  "log_line X mode since_ms frame =
     (case sf_event frame of
        None \<Rightarrow> []
      | Some ev \<Rightarrow>
          if (case since_ms of Some t \<Rightarrow> ev_at ev < t | None \<Rightarrow> False) then []
          else (case mode of JsonMode \<Rightarrow> cx_frame_json X frame @ newline | Pretty \<Rightarrow> format_event_line X ev))"

definition logs_run ::
  "CliExt \<Rightarrow> CliLink \<Rightarrow> OutputMode \<Rightarrow> ProgramId \<Rightarrow> bool \<Rightarrow> string option \<Rightarrow> cli_result" where
  "logs_run X L mode pid follow since_arg =
     (case open_stream X L 0 (Op_Logs pid follow) of
        Inl e \<Rightarrow> ([], Some e)
      | Inr (frames, err) \<Rightarrow>
          (case parse_since since_arg of
             Inl e \<Rightarrow> ([], Some e)
           | Inr since_ms \<Rightarrow>
               (concat (map (log_line X mode since_ms) frames), map_option (cli_of_ipc X) err)))"

section \<open>Submit\<close>

definition MAX_PROGRAM_BYTES :: nat where "MAX_PROGRAM_BYTES = 2 * 1024 * 1024"

definition read_program_file :: "CliExt \<Rightarrow> string \<Rightarrow> CliError + JsonValue" where
  "read_program_file X path =
     (case cx_stat X path of
        Inl e \<Rightarrow> Inl (Cli_Generic (''stat '' @ path @ '': '' @ e))
      | Inr len \<Rightarrow>
          if len > MAX_PROGRAM_BYTES
          then Inl (Cli_Generic (''program file too large: '' @ nat_str len @ '' bytes (max ''
                     @ nat_str MAX_PROGRAM_BYTES @ '')''))
          else (case cx_read X path of
                  Inl e \<Rightarrow> Inl (Cli_Generic (''read '' @ path @ '': '' @ e))
                | Inr bs \<Rightarrow>
                    (case cx_json_bytes X bs of
                       Inl e \<Rightarrow> Inl (Cli_Validation (''invalid JSON in '' @ path @ '': '' @ e))
                     | Inr v \<Rightarrow> Inr v)))"

definition format_dsl_error :: "CliExt \<Rightarrow> DslError \<Rightarrow> string" where
  "format_dsl_error X e =
     ''local preflight: '' @ kind_display (cx_debug_str X) (cx_debug_list X) (err_kind e)
     @ '' at '' @ path_display (err_path e)"

definition extract_program_id :: "CliExt \<Rightarrow> JsonValue \<Rightarrow> CliError + ProgramId" where
  "extract_program_id X v =
     (case Option.bind (value_get ''program_id'' v) as_str of
        None \<Rightarrow> Inl (Cli_Generic (''daemon response missing program_id: '' @ cx_value_json X v))
      | Some s \<Rightarrow> (case cx_parse_id X s of
                     Inl e \<Rightarrow> Inl (Cli_Generic (''daemon returned malformed program_id: '' @ e))
                   | Inr pid \<Rightarrow> Inr pid))"

fun event_is_terminal :: "EventData \<Rightarrow> bool" where
  "event_is_terminal (ProgramCompleted _ _) = True"
| "event_is_terminal (ProgramFailed _ _ _ _) = True"
| "event_is_terminal (ProgramStateChanged _ _ to _) = (to = Cancelled)"
| "event_is_terminal _ = False"

definition emit_event :: "CliExt \<Rightarrow> OutputMode \<Rightarrow> Event \<Rightarrow> string" where
  "emit_event X mode ev =
     (case mode of JsonMode \<Rightarrow> cx_event_json X ev @ newline | Pretty \<Rightarrow> format_event_line X ev)"

text \<open>The loop stops behind the first terminal event; an error of the stream counts only if it comes first.\<close>

fun watch_frames :: "CliExt \<Rightarrow> OutputMode \<Rightarrow> StreamFrame list \<Rightarrow> IpcError option \<Rightarrow> cli_result" where
  "watch_frames X mode [] err = ([], map_option (cli_of_ipc X) err)"
| "watch_frames X mode (f # fs) err =
     (case sf_event f of
        None \<Rightarrow> watch_frames X mode fs err
      | Some ev \<Rightarrow>
          if event_is_terminal (ev_data ev) then (emit_event X mode ev, None)
          else (case watch_frames X mode fs err of (out, e) \<Rightarrow> (emit_event X mode ev @ out, e)))"

definition watch_until_terminal :: "CliExt \<Rightarrow> CliLink \<Rightarrow> OutputMode \<Rightarrow> ProgramId \<Rightarrow> cli_result" where
  "watch_until_terminal X L mode pid =
     (case open_stream X L 1 (Op_Logs pid True) of
        Inl e \<Rightarrow> ([], Some e)
      | Inr (frames, err) \<Rightarrow> watch_frames X mode frames err)"

text \<open>A rendered text gets a line feed when it has none.\<close>

definition with_newline :: "string \<Rightarrow> string" where
  "with_newline s = (if s \<noteq> [] \<and> last s = CHR 0x0A then s else s @ newline)"

definition submit_run :: "CliExt \<Rightarrow> CliLink \<Rightarrow> OutputMode \<Rightarrow> string \<Rightarrow> bool \<Rightarrow> cli_result" where
  "submit_run X L mode file watch =
     (case read_program_file X file of
        Inl e \<Rightarrow> ([], Some e)
      | Inr program \<Rightarrow>
          (case validate_value (cx_dsl X) program of
             Inl e \<Rightarrow> ([], Some (Cli_Validation (format_dsl_error X e)))
           | Inr _ \<Rightarrow>
               (case request X L (Op_Submit program (cx_parent X file)) of
                  Inl e \<Rightarrow> ([], Some e)
                | Inr (RB_Err p) \<Rightarrow> ([], Some (from_payload p))
                | Inr (RB_Ok result) \<Rightarrow>
                    (case extract_program_id X result of
                       Inl e \<Rightarrow> ([], Some e)
                     | Inr pid \<Rightarrow>
                         (let out = with_newline (render_value X mode (pid @ newline) result)
                          in if watch
                             then (case watch_until_terminal X L mode pid of (out', e) \<Rightarrow> (out @ out', e))
                             else (out, None))))))"

end
