(* ===== verification/Cli_Main.thy ===== *)
theory Cli_Main
  imports Cli_Commands Locations
begin

text \<open>
  \<open>vcli daemon\<close> (\<open>commands/daemon.rs\<close>), the parsed command line (\<open>cli.rs\<close>) and the entry
  point (\<open>lib.rs\<close>).  The two waiting loops poll the socket file every 50 ms for five
  seconds: the polls that fit before the deadline are the list \<open>ln_polls\<close>.  Parsing the
  arguments belongs to \<open>clap\<close>, so its outcome is an argument of \<open>run\<close>; so are the world
  behind each socket path and the start of the asynchronous runtime.
\<close>

section \<open>The daemon subcommands\<close>

datatype DaemonCommand = Daemon_Start | Daemon_Run | Daemon_Stop | Daemon_Status

definition DAEMON_BINARY :: string where "DAEMON_BINARY = ''vcli-daemon''"

fun wait_for_socket :: "path \<Rightarrow> bool list \<Rightarrow> CliError option" where
  "wait_for_socket socket [] = Some (Cli_Generic (''timed out waiting for '' @ socket @ '' to appear''))"
| "wait_for_socket socket (there # polls) = (if there then None else wait_for_socket socket polls)"

fun wait_for_socket_gone :: "path \<Rightarrow> bool list \<Rightarrow> CliError option" where
  "wait_for_socket_gone socket [] = Some (Cli_Generic (''timed out waiting for '' @ socket @ '' to disappear''))"
| "wait_for_socket_gone socket (there # polls) = (if \<not> there then None else wait_for_socket_gone socket polls)"

definition daemon_start :: "CliExt \<Rightarrow> CliLink \<Rightarrow> OutputMode \<Rightarrow> cli_result" where
  "daemon_start X L mode =
     (if ln_exists L
      then (render_value X mode (''daemon already running'' @ newline)
              (json_obj [(''started'', JBool False), (''reason'', JString ''already_running'')]), None)
      else (case ln_spawn L of
              Some e \<Rightarrow> ([], Some (Cli_Generic (''spawn daemon: '' @ e)))
            | None \<Rightarrow>
                (case wait_for_socket (ln_socket L) (ln_polls L) of
                   Some e \<Rightarrow> ([], Some e)
                 | None \<Rightarrow> (render_value X mode (''daemon started'' @ newline)
                              (json_obj [(''started'', JBool True), (''socket'', JString (ln_socket L))]), None))))"

definition daemon_run_foreground :: "CliLink \<Rightarrow> cli_result" where
  "daemon_run_foreground L = ([], Some (Cli_Generic (''exec '' @ DAEMON_BINARY @ '': '' @ ln_exec L)))"

text \<open>Whether the daemon runs and what it says of itself; an error other than a missing daemon ends the command.\<close>

definition daemon_probe :: "CliExt \<Rightarrow> CliLink \<Rightarrow> CliError + bool \<times> JsonValue" where
  "daemon_probe X L =
     (if ln_exists L
      then (case connect X (ln_socket L) (ln_dial L 0) of
              None \<Rightarrow>
                (case ln_ask L Op_Health of
                   Inr resp \<Rightarrow> (case rs_body resp of
                                  RB_Ok result \<Rightarrow> Inr (True, result)
                                | RB_Err p \<Rightarrow> Inr (True, json_obj [(''error'', JString (ep_message p))]))
                 | Inl e \<Rightarrow> Inr (False, json_obj [(''error'', JString (ipc_error_display e))]))
            | Some (Cli_DaemonDown _) \<Rightarrow> Inr (False, JNull)
            | Some e \<Rightarrow> Inl e)
      else Inr (False, JNull))"

definition daemon_status :: "CliExt \<Rightarrow> CliLink \<Rightarrow> OutputMode \<Rightarrow> cli_result" where
  "daemon_status X L mode =
     (case daemon_probe X L of
        Inl e \<Rightarrow> ([], Some e)
      | Inr (running, detail) \<Rightarrow>
          (let json = json_obj [(''running'', JBool running), (''socket'', JString (ln_socket L)), (''detail'', detail)];
               pretty = (if running then ''running'' else ''not running'') @ newline
                        @ ''socket: '' @ ln_socket L @ newline
           in (with_newline (render_value X mode pretty json), None)))"

text \<open>The answer to \<open>Shutdown\<close> is ignored.\<close>

definition daemon_stop :: "CliExt \<Rightarrow> CliLink \<Rightarrow> OutputMode \<Rightarrow> cli_result" where
  "daemon_stop X L mode =
     (if \<not> ln_exists L
      then (render_value X mode (''daemon not running'' @ newline)
              (json_obj [(''stopped'', JBool False), (''reason'', JString ''not_running'')]), None)
      else (case connect X (ln_socket L) (ln_dial L 0) of
              Some e \<Rightarrow> ([], Some e)
            | None \<Rightarrow>
                (let _ = ln_ask L Op_Shutdown
                 in case wait_for_socket_gone (ln_socket L) (ln_polls L) of
                      Some e \<Rightarrow> ([], Some e)
                    | None \<Rightarrow> (render_value X mode (''stopped'' @ newline)
                                 (json_obj [(''stopped'', JBool True)]), None))))"

fun daemon_command :: "CliExt \<Rightarrow> CliLink \<Rightarrow> OutputMode \<Rightarrow> DaemonCommand \<Rightarrow> cli_result" where
  "daemon_command X L mode Daemon_Status = daemon_status X L mode"
| "daemon_command X L mode Daemon_Stop = daemon_stop X L mode"
| "daemon_command X L mode Daemon_Start = daemon_start X L mode"
| "daemon_command X L mode Daemon_Run = daemon_run_foreground L"

section \<open>The command line\<close>

datatype Command =
    Cmd_Submit path bool
  | Cmd_List "StateFilter option"
  | Cmd_Cancel ProgramId "string option"
  | Cmd_Logs ProgramId bool "string option"
  | Cmd_Resume ProgramId bool
  | Cmd_Daemon DaemonCommand
  | Cmd_Health
  | Cmd_Gc

record Cli =
  cli_socket :: "path option"
  cli_json :: bool
  cli_command :: Command

definition resolve_socket :: "Platform \<Rightarrow> path option \<Rightarrow> CliError + path" where
  "resolve_socket P explicit =
     (case explicit of
        Some p \<Rightarrow> Inr p
      | None \<Rightarrow> (case default_socket_path P of
                   Inl e \<Rightarrow> Inl (Cli_Generic (''resolve socket: '' @ ipc_error_display e))
                 | Inr sp \<Rightarrow> Inr (sp_path sp)))"

fun run_command :: "CliExt \<Rightarrow> CliLink \<Rightarrow> OutputMode \<Rightarrow> Command \<Rightarrow> cli_result" where
  "run_command X L mode (Cmd_Submit file watch) = submit_run X L mode file watch"
| "run_command X L mode (Cmd_List state) = list_run X L mode state"
| "run_command X L mode (Cmd_Cancel pid reason) = cancel_run X L mode pid reason"
| "run_command X L mode (Cmd_Logs pid follow since_arg) = logs_run X L mode pid follow since_arg"
| "run_command X L mode (Cmd_Resume pid from_start) = resume_run X L mode pid from_start"
| "run_command X L mode (Cmd_Daemon sub) = daemon_command X L mode sub"
| "run_command X L mode Cmd_Health = health_run X L mode"
| "run_command X L mode Cmd_Gc = gc_run X L mode"

definition run_async :: "CliExt \<Rightarrow> Platform \<Rightarrow> (path \<Rightarrow> CliLink) \<Rightarrow> Cli \<Rightarrow> cli_result" where
  "run_async X P world cli =
     (case resolve_socket P (cli_socket cli) of
        Inl e \<Rightarrow> ([], Some e)
      | Inr socket \<Rightarrow>
          run_command X ((world socket)\<lparr>ln_socket := socket\<rparr>) (output_mode (cli_json cli)) (cli_command cli))"

text \<open>What the argument parser returns: a command line, or an error that prints help or the version, or another.\<close>

datatype ParseOutcome = Parsed Cli | DisplayHelpOrVersion string | UsageError string

text \<open>The entry point: standard output, standard error and the exit code of the process.\<close>

definition run :: "CliExt \<Rightarrow> Platform \<Rightarrow> (path \<Rightarrow> CliLink) \<Rightarrow> string option \<Rightarrow> ParseOutcome \<Rightarrow> string \<times> string \<times> i32" where
  "run X P world runtime_error parsed =
     (case parsed of
        DisplayHelpOrVersion t \<Rightarrow> (t, [], exit_code_i32 ExitSuccess)
      | UsageError t \<Rightarrow> ([], t, exit_code_i32 ExitGeneric)
      | Parsed cli \<Rightarrow>
          (case runtime_error of
             Some e \<Rightarrow> ([], ''vcli: tokio runtime init failed: '' @ e @ newline, exit_code_i32 ExitGeneric)
           | None \<Rightarrow>
               (case run_async X P world cli of
                  (out, None) \<Rightarrow> (out, [], exit_code_i32 ExitSuccess)
                | (out, Some e) \<Rightarrow> (out, ''vcli: '' @ cli_error_display e @ newline, exit_code_i32 (cli_exit_code e)))))"

end
