(* ===== verification/Cli_Props.thy ===== *)
theory Cli_Props
  imports Cli_Main Daemon_Handler Pidfile_Props Demo
begin

text \<open>
  What a user of the command line relies on: time stamps follow the calendar and read back,
  tables are rectangular, exit codes tell the outcome, a rejected program never reaches the
  daemon, a watch ends with the program, clients and daemon meet at one socket that no other
  user shares.  The last section composes commands with the daemon's handler and states where
  the two disagree.
\<close>

section \<open>Time\<close>

lemma civil_from_days_steps:
  "int n \<le> 106751991167 \<Longrightarrow> days_in_range z \<Longrightarrow> days_in_range (z + int n) \<Longrightarrow>
   civil_from_days (z + int n) = (next_day ^^ n) (civil_from_days z)"
proof (induction n)
  case (Suc n)
  then have "civil_from_days (z + int n) = (next_day ^^ n) (civil_from_days z)" by simp
  with civil_from_days_next [of "z + int n"] Suc.prems show ?case by (simp add: algebra_simps)
qed simp

lemma civil_epoch: "civil_from_days 0 = (1970, 1, 1)"
  by code_simp

text \<open>C17. The date algorithm is the Gregorian calendar.  \<open>civil_from_days\<close> computes with eras of 400 years
  and no table; for every day that a 64-bit millisecond clock can name it gives the date that counting
  day by day from 1 January 1970 gives, forwards and backwards, with the usual leap years.\<close>

theorem civil_from_days_calendar:
  assumes "n \<le> 106751991167"
  shows "civil_from_days (int n) = (next_day ^^ n) (1970, 1, 1) \<and>
    (next_day ^^ n) (civil_from_days (- int n)) = (1970, 1, 1)"
  using civil_from_days_steps [of n 0] civil_from_days_steps [of n "- int n"] assms by (simp add: civil_epoch)

theorem civil_from_days_calendar_witness:
  "civil_from_days 59 = (next_day ^^ 59) (1970, 1, 1) \<and> civil_from_days 59 = (1970, 3, 1)"
proof -
  have "civil_from_days 59 = (1970, 3, 1)" by code_simp
  with civil_from_days_calendar [of 59] show ?thesis by simp
qed

text \<open>C24. A printed time stamp can be given back.  For every instant of a 64-bit clock whose year is not
  negative, the text that \<open>vcli logs\<close> prints is accepted by \<open>--since\<close> and names the same
  millisecond, and the filter then drops exactly the events that are strictly older.\<close>

theorem since_round_trip:
  assumes "is_i64 ms" and "civil_from_days (ms div 1000 div 86400) = (y, m, d)" and "0 \<le> y"
  shows "parse_since (Some (format_unix_ms ms)) = Inr (Some ms) \<and>
    (log_line X JsonMode (Some ms) \<lparr>sf_id = i, sf_stream = k, sf_end = e, sf_event = Some ev, sf_trace = tr\<rparr> = []
      \<longleftrightarrow> ev_at ev < ms)"
  using parse_format [OF assms] by (simp add: parse_since_def log_line_def newline_def)

theorem since_round_trip_witness:
  "parse_since (Some (format_unix_ms 951782400123)) = Inr (Some 951782400123)"
proof -
  have "civil_from_days (951782400123 div 1000 div 86400) = (2000, 2, 29)" by code_simp
  with since_round_trip [of 951782400123 2000 2 29] show ?thesis by (simp add: is_i64_def)
qed

section \<open>Sockets\<close>

text \<open>Clients find the daemon, and nobody else's.  Without \<open>--socket\<close> the command line dials the path that
  the daemon binds, on every platform and environment, and the resolution never fails; two users
  whose paths come from the defaults under \<open>TMPDIR\<close> on macOS, \<open>/run/user\<close> or \<open>/tmp\<close> have different
  paths.\<close>

theorem socket_agreement:
  shows "(\<exists>sp. default_socket_path P = Inr sp \<and> resolve_socket P None = Inr (sp_path sp) \<and>
           (\<forall>cfg. from_platform_defaults P = Inr cfg \<longrightarrow> cf_socket cfg = sp)) \<and>
    (\<forall>sp sq. default_socket_path P = Inr sp \<and> default_socket_path Q = Inr sq \<and> uid P \<noteq> uid Q \<and>
       sp_origin sp \<in> {MacTmpdir, RunUser, TmpFallback} \<and> sp_origin sq \<in> {MacTmpdir, RunUser, TmpFallback} \<longrightarrow>
       sp_path sp \<noteq> sp_path sq)"
proof -
  obtain sp where sp: "default_socket_path P = Inr sp" using default_socket_path_total by blast
  have "\<forall>cfg. from_platform_defaults P = Inr cfg \<longrightarrow> cf_socket cfg = sp"
    by (auto simp: from_platform_defaults_def sp split: sum.splits)
  moreover have "sp_path sp \<noteq> sp_path sq"
    if "default_socket_path P = Inr sp" "default_socket_path Q = Inr sq" "uid P \<noteq> uid Q"
      "sp_origin sp \<in> {MacTmpdir, RunUser, TmpFallback}" "sp_origin sq \<in> {MacTmpdir, RunUser, TmpFallback}" for sp sq
  proof (cases "sp_origin sp = RunUser"; cases "sp_origin sq = RunUser")
    assume "sp_origin sp = RunUser" "sp_origin sq = RunUser"
    then show ?thesis using that socket_run_user [of P sp] socket_run_user [of Q sq] by (auto dest: nat_str_inj)
  next
    assume "sp_origin sp = RunUser" "sp_origin sq \<noteq> RunUser"
    then show ?thesis
      using that socket_run_user_file [of P sp] socket_file_part [of Q sq] user_sock_differs [of "uid Q"] by auto
  next
    assume "sp_origin sp \<noteq> RunUser" "sp_origin sq = RunUser"
    then show ?thesis
      using that socket_run_user_file [of Q sq] socket_file_part [of P sp] user_sock_differs [of "uid P"] by auto
  next
    assume "sp_origin sp \<noteq> RunUser" "sp_origin sq \<noteq> RunUser"
    then show ?thesis
      using that socket_file_part [of P sp] socket_file_part [of Q sq] user_sock_inj [of "uid P" "uid Q"] by auto
  qed
  ultimately show ?thesis using sp by (auto simp: resolve_socket_def)
qed

definition demo_platform :: "u32 \<Rightarrow> Platform" where
  "demo_platform user = \<lparr>pf_os = LinuxOs, pf_env = \<lambda>_. None, pf_id_output = Some (nat_str user @ newline),
     pf_is_dir = \<lambda>_. False, pf_home_dir = None, pf_data_local_dir = Some ''/d'', pf_cache_dir = Some ''/c''\<rparr>"

lemma uid_demo: "n \<le> u32_max \<Longrightarrow> uid (demo_platform n) = n"
  using recorded_pid_line [of n] by (simp add: uid_def demo_platform_def recorded_pid_def newline_def split: option.splits)

theorem socket_agreement_witness:
  "\<exists>sp sq. default_socket_path (demo_platform 1000) = Inr sp \<and> default_socket_path (demo_platform 1001) = Inr sq \<and>
     sp_path sp \<noteq> sp_path sq"
proof -
  have u: "uid (demo_platform 1000) = 1000" "uid (demo_platform 1001) = 1001" by (simp_all add: uid_demo)
  have orig: "\<exists>sp. default_socket_path (demo_platform n) = Inr sp \<and> sp_origin sp = TmpFallback" for n
    by (simp add: default_socket_path_def demo_platform_def try_run_user_def try_xdg_runtime_dir_def Let_def)
  obtain sp where sp: "default_socket_path (demo_platform 1000) = Inr sp" "sp_origin sp = TmpFallback"
    using orig [of 1000] by blast
  obtain sq where sq: "default_socket_path (demo_platform 1001) = Inr sq" "sp_origin sq = TmpFallback"
    using orig [of 1001] by blast
  have "sp_path sp \<noteq> sp_path sq"
    using socket_agreement [of "demo_platform 1000" "demo_platform 1001"] sp sq u by auto
  with sp sq show ?thesis by blast
qed

section \<open>Tables\<close>

text \<open>Text never starts in the middle of a scalar value.\<close>

definition text_start :: "string \<Rightarrow> bool" where
  "text_start s \<longleftrightarrow> (s = [] \<or> \<not> is_cont (hd s))"

lemma str_chars_append: "text_start t \<Longrightarrow> str_chars (s @ t) = str_chars s @ str_chars t"
proof (induction s rule: str_chars.induct)
  case (2 c cs)
  have t: "takeWhile is_cont t = []" "dropWhile is_cont t = t"
    using 2(2) by (cases t; simp add: text_start_def)+
  show ?case
  proof (cases "\<forall>x \<in> set cs. is_cont x")
    case True
    then have "takeWhile is_cont (cs @ t) = cs" "dropWhile is_cont (cs @ t) = t"
        "takeWhile is_cont cs = cs" "dropWhile is_cont cs = []"
      using t by (simp_all add: takeWhile_append2 dropWhile_append2 takeWhile_eq_all_conv dropWhile_eq_Nil_conv)
    then show ?thesis by (simp only: append_Cons str_chars.simps append_Nil)
  next
    case False
    then have "takeWhile is_cont (cs @ t) = takeWhile is_cont cs" "dropWhile is_cont (cs @ t) = dropWhile is_cont cs @ t"
      by (auto simp: takeWhile_append dropWhile_append)
    with 2 show ?thesis by simp
  qed
qed simp

lemma char_count_append [simp]: "text_start t \<Longrightarrow> char_count (s @ t) = char_count s + char_count t"
  by (simp add: char_count_def str_chars_append)

lemma space_not_cont [simp]: "\<not> is_cont (CHR '' '')"
  by (simp add: is_cont_def)

lemma spaces [simp]: "text_start (replicate n (CHR '' ''))" "char_count (replicate n (CHR '' '')) = n"
proof -
  show "text_start (replicate n (CHR '' ''))" by (cases n) (simp_all add: text_start_def)
  show "char_count (replicate n (CHR '' '')) = n"
    by (subst char_count_def, subst str_chars_ascii) (simp_all add: list_all_iff)
qed

lemma char_count_pad: "char_count (pad_right w c) = max w (char_count c)"
  by (simp add: pad_right_def max_def)

lemma text_start_pad: "text_start c \<Longrightarrow> text_start (pad_right w c)"
  using spaces(1) [of "w - char_count c"] by (cases c) (simp_all add: pad_right_def text_start_def)

lemma gap: "text_start s \<Longrightarrow> char_count (''  '' @ s) = 2 + char_count s" "text_start (''  '' @ s)"
proof -
  have "char_count ''  '' = 2" by (simp add: char_count_def is_cont_def)
  then show "text_start s \<Longrightarrow> char_count (''  '' @ s) = 2 + char_count s" by (simp only: char_count_append)
  show "text_start (''  '' @ s)" by (simp add: text_start_def)
qed

text \<open>A row whose cells fit their columns.\<close>

lemma render_cells_width:
  assumes "list_all2 (\<lambda>w c. char_count c \<le> w) ws cs" "list_all text_start cs" "cs \<noteq> []"
  shows "char_count (render_cells ws cs) = sum_list ws + 2 * (length cs - 1) \<and> text_start (render_cells ws cs)"
  using assms
proof (induction ws cs rule: list_all2_induct)
  case (Cons w ws c cs)
  show ?case
  proof (cases "cs = []")
    case True
    with Cons show ?thesis by (simp add: char_count_pad text_start_pad)
  next
    case False
    with Cons have ih: "char_count (render_cells ws cs) = sum_list ws + 2 * (length cs - 1)" "text_start (render_cells ws cs)"
      by simp_all
    have "render_cells (w # ws) (c # cs) = pad_right w c @ (''  '' @ render_cells ws cs)" using False by simp
    then have "char_count (render_cells (w # ws) (c # cs)) = w + (2 + (sum_list ws + 2 * (length cs - 1)))"
      using Cons(1) ih by (simp only: char_count_append [OF gap(2)] gap(1) [OF ih(2)] char_count_pad max_absorb1)
    moreover have "text_start (render_cells (w # ws) (c # cs))"
      using text_start_pad [of c w] Cons.prems False by (cases "pad_right w c") (simp_all add: text_start_def)
    ultimately show ?thesis using False by (cases cs) simp_all
  qed
qed simp

abbreviation widen :: "string list \<Rightarrow> nat list \<Rightarrow> nat list" where
  "widen row ws \<equiv> map (\<lambda>(w, cell). max w (char_count cell)) (zip ws row)"

lemma widen_nth: "length row = length ws \<Longrightarrow> k < length ws \<Longrightarrow> widen row ws ! k = max (ws ! k) (char_count (row ! k))"
  by simp

lemma widths_bound:
  assumes "\<forall>row \<in> set rows. length row = length ws"
  shows "length (fold widen rows ws) = length ws \<and>
    (\<forall>k < length ws. ws ! k \<le> fold widen rows ws ! k \<and> (\<forall>row \<in> set rows. char_count (row ! k) \<le> fold widen rows ws ! k))"
  using assms
proof (induction rows arbitrary: ws)
  case (Cons row rows)
  then have len: "length row = length ws" "length (widen row ws) = length ws" by simp_all
  have ih: "length (fold widen rows (widen row ws)) = length ws \<and>
    (\<forall>k < length ws. widen row ws ! k \<le> fold widen rows (widen row ws) ! k \<and>
       (\<forall>r \<in> set rows. char_count (r ! k) \<le> fold widen rows (widen row ws) ! k))"
    using Cons.IH [of "widen row ws"] Cons.prems len by simp
  have "ws ! k \<le> widen row ws ! k" "char_count (row ! k) \<le> widen row ws ! k" if "k < length ws" for k
    using widen_nth [OF len(1) that] by simp_all
  with ih show ?case by (fastforce intro: le_trans)
qed simp

lemma table_pushes:
  "headers (fold table_push rows t) = headers t \<and>
   trows (fold table_push rows t) = trows t @ map (\<lambda>cells. take (length (headers t)) cells
      @ replicate (length (headers t) - length cells) []) rows"
  by (induction rows arbitrary: t) (simp_all add: table_push_def Let_def)

text \<open>C40. A printed table is rectangular.  A table built from headers and any rows, too short or too long
  ones included, has in every row exactly one cell per header; in the pretty rendering every line
  has the same number of characters, namely the column widths and two spaces between columns, where
  characters are counted as scalar values of UTF-8 and not as bytes.\<close>

theorem table_rectangular:
  assumes "hs \<noteq> []" and "list_all text_start hs" and "\<forall>cells \<in> set rows. list_all text_start cells"
  defines "t \<equiv> fold table_push rows (table_new hs)"
  shows "length (table_widths t) = length hs \<and> length (trows t) = length rows \<and>
    (\<forall>row \<in> set (headers t # trows t). length row = length hs \<and>
       char_count (render_cells (table_widths t) row) = sum_list (table_widths t) + 2 * (length hs - 1))"
proof -
  have hd: "headers t = hs" and tr: "trows t = map (\<lambda>cells. take (length hs) cells @ replicate (length hs - length cells) []) rows"
    using table_pushes [of rows "table_new hs"] by (simp_all add: t_def table_new_def)
  have len: "\<forall>row \<in> set (trows t). length row = length (map char_count hs)" by (auto simp: tr)
  have ok: "list_all text_start row" if "row \<in> set (trows t)" for row
    using that assms(3) by (auto simp: tr list_all_iff text_start_def dest!: in_set_takeD) blast
  have tw: "table_widths t = fold widen (trows t) (map char_count hs)" by (simp add: table_widths_def hd)
  note w = widths_bound [OF len, folded tw]
  have fit: "list_all2 (\<lambda>w c. char_count c \<le> w) (table_widths t) row" if "row \<in> set (hs # trows t)" for row
    using that w len by (auto simp: list_all2_conv_all_nth)
  have "char_count (render_cells (table_widths t) row) = sum_list (table_widths t) + 2 * (length hs - 1)"
    if r: "row \<in> set (hs # trows t)" for row
  proof -
    have "length row = length hs" using r len by auto
    then show ?thesis using render_cells_width [OF fit [OF r]] r ok assms(1,2) by fastforce
  qed
  note wide = this
  show ?thesis
  proof (intro conjI ballI)
    show "length (table_widths t) = length hs" using w by simp
    show "length (trows t) = length rows" by (simp add: tr)
    fix row assume "row \<in> set (headers t # trows t)"
    then have r: "row \<in> set (hs # trows t)" by (simp add: hd)
    then show "length row = length hs" using len by auto
    from wide [OF r] show "char_count (render_cells (table_widths t) row)
        = sum_list (table_widths t) + 2 * (length hs - 1)" .
  qed
qed

theorem table_rectangular_witness:
  "char_count (render_cells (table_widths (table_push [''a''] (table_new [''id'', ''name'']))) [''id'', ''name'']) = 8"
proof -
  have "list_all text_start [''id'', ''name'']" "list_all text_start [''a'']"
    by (simp_all add: text_start_def is_cont_def)
  then have "char_count (render_cells (table_widths (table_push [''a''] (table_new [''id'', ''name'']))) [''id'', ''name''])
      = sum_list (table_widths (table_push [''a''] (table_new [''id'', ''name'']))) + 2"
    using table_rectangular [of "[''id'', ''name'']" "[[''a'']]"] by (simp add: table_push_def table_new_def)
  moreover have "table_widths (table_push [''a''] (table_new [''id'', ''name''])) = [2, 4]"
    by (simp add: table_widths_def table_push_def table_new_def char_count_def is_cont_def)
  ultimately show ?thesis by simp
qed

section \<open>Exit codes\<close>

text \<open>The commands that send one request, the request each of them sends, and the codes of refusals.\<close>

fun oneshot_op :: "Command \<Rightarrow> RequestOp option" where
  "oneshot_op (Cmd_List state) = Some (Op_List (map_option as_wire state))"
| "oneshot_op (Cmd_Cancel pid _) = Some (Op_Cancel pid)"
| "oneshot_op (Cmd_Resume pid from_start) = Some (Op_Resume pid from_start)"
| "oneshot_op Cmd_Health = Some Op_Health"
| "oneshot_op Cmd_Gc = Some Op_Gc"
| "oneshot_op _ = None"

fun refusal_code :: "Command \<Rightarrow> ErrorCode \<Rightarrow> i32" where
  "refusal_code c InvalidProgram = 2"
| "refusal_code c UnknownProgram = 3"
| "refusal_code (Cmd_Resume _ _) BadStateTransition = 2"
| "refusal_code (Cmd_Resume _ _) NotResumable = 2"
| "refusal_code (Cmd_Resume _ _) ResumePreconditionFailed = 2"
| "refusal_code c _ = 1"

text \<open>Each such command prints one rendered result.\<close>

lemma oneshot_run:
  assumes "oneshot_op c = Some rq"
  shows "\<exists>pretty err. run_command X L mode c = print_result X mode err pretty (request X L rq) \<and>
    (\<forall>p. exit_code_i32 (cli_exit_code (err p)) = refusal_code c (ep_code p))"
proof -
  have "exit_code_i32 (cli_exit_code (from_payload p)) = (case ep_code p of InvalidProgram \<Rightarrow> 2 | UnknownProgram \<Rightarrow> 3 | _ \<Rightarrow> 1)" for p
    by (cases "ep_code p") (simp_all add: from_payload_def)
  moreover have "exit_code_i32 (cli_exit_code (map_resume_error p)) = refusal_code (Cmd_Resume pid fs) (ep_code p)" for p pid fs
    by (cases "ep_code p") (simp_all add: map_resume_error_def from_payload_def)
  moreover have "(case e of InvalidProgram \<Rightarrow> 2 | UnknownProgram \<Rightarrow> 3 | _ \<Rightarrow> 1) = refusal_code c e"
    if "\<forall>pid fs. c \<noteq> Cmd_Resume pid fs" for e
    using that by (cases e; cases c) auto
  ultimately show ?thesis
    using assms by (cases c) (auto simp: list_run_def cancel_run_def resume_run_def health_run_def gc_run_def)
qed

text \<open>C36. Exit codes tell what happened.  For \<open>list\<close>, \<open>cancel\<close>, \<open>resume\<close>, \<open>health\<close> and \<open>gc\<close>: when the socket is
  missing or refuses, the process ends with code 4, prints nothing on standard output and names the
  socket; an accepted request ends with 0 and nothing on standard error; a refused one prints no
  result and ends with 2 for an invalid program or, for \<open>resume\<close>, a program that cannot be resumed,
  with 3 for an unknown program and with 1 otherwise.\<close>

theorem oneshot_exit_codes:
  assumes "oneshot_op (cli_command cli) = Some rq" and "resolve_socket P (cli_socket cli) = Inr sock"
  shows "(\<forall>m. ln_dial (world sock) 0 = Some m \<and> cx_io_kind X m \<in> {IoNotFound, IoConnectionRefused} \<longrightarrow>
           run X P world None (Parsed cli)
             = ([], ''vcli: daemon not running (socket: '' @ sock @ '')'' @ newline, 4)) \<and>
    (\<forall>resp v. ln_dial (world sock) 0 = None \<and> ln_ask (world sock) rq = Inr resp \<and> rs_body resp = RB_Ok v \<longrightarrow>
       (\<exists>out. run X P world None (Parsed cli) = (out, [], 0))) \<and>
    (\<forall>resp p. ln_dial (world sock) 0 = None \<and> ln_ask (world sock) rq = Inr resp \<and> rs_body resp = RB_Err p \<longrightarrow>
       (\<exists>err. run X P world None (Parsed cli) = ([], err, refusal_code (cli_command cli) (ep_code p))))"
proof -
  let ?L = "(world sock)\<lparr>ln_socket := sock\<rparr>" and ?mode = "output_mode (cli_json cli)"
  obtain pretty err where r: "run_command X ?L ?mode (cli_command cli) = print_result X ?mode err pretty (request X ?L rq)"
    and e: "\<And>p. exit_code_i32 (cli_exit_code (err p)) = refusal_code (cli_command cli) (ep_code p)"
    using oneshot_run [OF assms(1), of X ?L ?mode] by blast
  have a: "run_async X P world cli = print_result X ?mode err pretty (request X ?L rq)"
    using assms(2) r by (simp add: run_async_def)
  show ?thesis
    by (auto simp: run_def a request_def connect_def print_result_def e)
qed

definition demo_link :: "string option \<Rightarrow> Response \<Rightarrow> CliLink" where
  "demo_link dial resp = \<lparr>ln_socket = [], ln_dial = \<lambda>_. dial, ln_ask = \<lambda>_. Inr resp, ln_codec = undefined,
     ln_stream = \<lambda>_. Inl IE_StreamClosed, ln_exists = True, ln_polls = [], ln_spawn = None, ln_exec = []\<rparr>"

theorem oneshot_exit_codes_witness:
  "\<forall>X. \<exists>err. run X (demo_platform 1000)
     (\<lambda>_. demo_link None \<lparr>rs_id = [], rs_body = RB_Err (payload_simple UnknownProgram ''not found'')\<rparr>) None
     (Parsed \<lparr>cli_socket = Some ''/s'', cli_json = False, cli_command = Cmd_Resume ''p'' True\<rparr>) = ([], err, 3)"
  using oneshot_exit_codes [of "\<lparr>cli_socket = Some ''/s'', cli_json = False, cli_command = Cmd_Resume ''p'' True\<rparr>"
      "Op_Resume ''p'' True" "demo_platform 1000" "''/s''"
      "\<lambda>_. demo_link None \<lparr>rs_id = [], rs_body = RB_Err (payload_simple UnknownProgram ''not found'')\<rparr>"]
  by (simp add: demo_link_def resolve_socket_def payload_simple_def)

section \<open>Submitting and watching\<close>


definition demo_cli :: "DslExt \<Rightarrow> JsonValue \<Rightarrow> CliExt" where
  "demo_cli D v = \<lparr>cx_dsl = D, cx_debug_str = \<lambda>s. s, cx_debug_list = concat, cx_pretty_json = \<lambda>_. [],
     cx_value_json = \<lambda>_. [], cx_event_json = \<lambda>_. [], cx_frame_json = \<lambda>_. [], cx_parse_id = Inr,
     cx_io_kind = \<lambda>_. IoConnectionRefused, cx_stat = \<lambda>_. Inr 4, cx_read = \<lambda>_. Inr [], cx_json_bytes = \<lambda>_. Inr v,
     cx_parent = \<lambda>_. None\<rparr>"



definition frame_terminal :: "StreamFrame \<Rightarrow> bool" where
  "frame_terminal f \<longleftrightarrow> (case sf_event f of None \<Rightarrow> False | Some ev \<Rightarrow> event_is_terminal (ev_data ev))"

definition frame_text :: "CliExt \<Rightarrow> OutputMode \<Rightarrow> StreamFrame \<Rightarrow> string" where
  "frame_text X mode f = (case sf_event f of None \<Rightarrow> [] | Some ev \<Rightarrow> emit_event X mode ev)"

lemma watch_stops:
  "\<forall>g \<in> set fs. \<not> frame_terminal g \<Longrightarrow> frame_terminal f \<Longrightarrow>
   watch_frames X mode (fs @ f # rest) err = (concat (map (frame_text X mode) (fs @ [f])), None)"
  by (induction fs) (auto simp: frame_terminal_def frame_text_def split: option.splits)

lemma watch_open_ended:
  "\<forall>g \<in> set fs. \<not> frame_terminal g \<Longrightarrow>
   watch_frames X mode fs err = (concat (map (frame_text X mode) fs), map_option (cli_of_ipc X) err)"
  by (induction fs) (auto simp: frame_terminal_def frame_text_def split: option.splits)

text \<open>A watch ends with the program.  \<open>vcli submit --watch\<close> prints every event of the stream up to and
  including the first one that says the program completed, failed or was cancelled, and then ends
  without an error, whatever the stream holds afterwards and however it breaks; a stream without
  such an event is printed whole, and its error, if any, is the error of the command.\<close>

theorem watch_until_first_terminal:
  assumes "\<forall>g \<in> set fs. \<not> frame_terminal g"
    and "connect X (ln_socket L) (ln_dial L 1) = None" and "ln_stream L (Op_Logs pid True) = Inr st"
  shows "(\<forall>f rest err. frame_terminal f \<and> drain (ln_codec L) st = (fs @ f # rest, err) \<longrightarrow>
           watch_until_terminal X L mode pid = (concat (map (frame_text X mode) (fs @ [f])), None)) \<and>
    (\<forall>err. drain (ln_codec L) st = (fs, err) \<longrightarrow>
       watch_until_terminal X L mode pid = (concat (map (frame_text X mode) fs), map_option (cli_of_ipc X) err))"
  using assms by (simp add: watch_until_terminal_def open_stream_def watch_stops watch_open_ended)

definition demo_end :: StreamFrame where
  "demo_end = \<lparr>sf_id = ''r'', sf_stream = SK_Events, sf_end = False,
     sf_event = Some \<lparr>ev_at = 0, ev_data = ProgramCompleted ''p'' None\<rparr>, sf_trace = None\<rparr>"

definition demo_stream :: "bytes list \<Rightarrow> ResponseStream" where
  "demo_stream chunks = \<lparr>rst_reader = chunks, rst_id = ''r'', rst_done = False\<rparr>"

definition watch_link :: CliLink where
  "watch_link = (demo_link None \<lparr>rs_id = [], rs_body = RB_Ok JNull\<rparr>)
     \<lparr>ln_codec := \<lparr>cd_enc_request = \<lambda>_. Inr [], cd_dec_request = \<lambda>_. Inl [], cd_enc_response = \<lambda>_. Inr [],
        cd_dec_response = \<lambda>_. Inl [], cd_enc_frame = \<lambda>_. Inr [], cd_dec_frame = \<lambda>_. Inr demo_end\<rparr>,
      ln_stream := \<lambda>_. Inr (demo_stream [[0, 0, 0, 0], [0, 0, 0, 0]])\<rparr>"

lemma demo_next_frame:
  "next_frame (ln_codec watch_link) (demo_stream ([0, 0, 0, 0] # cs)) = (Inr (Some demo_end), demo_stream cs)"
  "\<exists>e. next_frame (ln_codec watch_link) (demo_stream []) = (Inl e, demo_stream [])"
proof -
  have full: "fill 4 [0, 0, 0, 0] cs = Inr ([0, 0, 0, 0], cs)" by (subst fill.simps) (simp del: fill.simps)
  have f: "fill 4 [] ([0, 0, 0, 0] # cs) = Inr ([0, 0, 0, 0], cs)" by (subst fill.simps) (simp add: full del: fill.simps)
  have f0: "fill 0 [] cs = Inr ([], cs)" by (subst fill.simps) (simp del: fill.simps)
  have fe: "fill 4 [] [] = Inl 0" by (subst fill.simps) (simp del: fill.simps)
  have "from_be_bytes [0, 0, 0, 0] = 0" by simp
  then show "next_frame (ln_codec watch_link) (demo_stream ([0, 0, 0, 0] # cs)) = (Inr (Some demo_end), demo_stream cs)"
      "\<exists>e. next_frame (ln_codec watch_link) (demo_stream []) = (Inl e, demo_stream [])"
    by (simp_all add: next_frame_def read_frame_def f f0 fe watch_link_def demo_stream_def demo_end_def MAX_FRAME_LEN_def
      del: fill.simps)
qed

lemma watch_link_drain: "\<exists>err. drain (ln_codec watch_link) (demo_stream [[0, 0, 0, 0], [0, 0, 0, 0]]) = ([demo_end, demo_end], err)"
proof -
  obtain e where "next_frame (ln_codec watch_link) (demo_stream []) = (Inl e, demo_stream [])"
    using demo_next_frame(2) by blast
  then have "drain (ln_codec watch_link) (demo_stream []) = ([], Some e)" by (subst drain.simps) simp
  then have "drain (ln_codec watch_link) (demo_stream [[0, 0, 0, 0]]) = ([demo_end], Some e)"
    by (subst drain.simps) (simp add: demo_next_frame(1))
  then have "drain (ln_codec watch_link) (demo_stream [[0, 0, 0, 0], [0, 0, 0, 0]]) = ([demo_end, demo_end], Some e)"
    by (subst drain.simps) (simp add: demo_next_frame(1))
  then show ?thesis by blast
qed

theorem watch_until_first_terminal_witness:
  "\<forall>D. watch_until_terminal (demo_cli D JNull) watch_link JsonMode ''p'' = (newline, None)"
proof
  fix D
  have t: "frame_terminal demo_end" by (simp add: frame_terminal_def demo_end_def)
  obtain err where d: "drain (ln_codec watch_link) (demo_stream [[0, 0, 0, 0], [0, 0, 0, 0]]) = ([] @ demo_end # [demo_end], err)"
    using watch_link_drain by auto
  have w: "connect (demo_cli D JNull) (ln_socket watch_link) (ln_dial watch_link 1) = None"
      "ln_stream watch_link (Op_Logs ''p'' True) = Inr (demo_stream [[0, 0, 0, 0], [0, 0, 0, 0]])"
    by (simp_all add: watch_link_def demo_link_def connect_def)
  show "watch_until_terminal (demo_cli D JNull) watch_link JsonMode ''p'' = (newline, None)"
    using watch_until_first_terminal [OF _ w, of "[]" JsonMode] t d
    by (simp add: frame_text_def demo_end_def emit_event_def demo_cli_def)
qed

text \<open>A stale socket stops the command line.  When a daemon was killed its socket file remains; then
  \<open>vcli daemon start\<close> starts nothing and reports success with ``already running'', \<open>vcli daemon
  status\<close> reports that nothing runs, and \<open>vcli daemon stop\<close> fails with code 4 and removes nothing, so
  that none of the three commands leads out of this state.\<close>

theorem stale_socket_blocks_start:
  assumes "ln_exists L" and "ln_dial L 0 = Some m" and "cx_io_kind X m = IoConnectionRefused"
  shows "daemon_start X L Pretty = (''daemon already running'' @ newline, None) \<and>
    daemon_status X L Pretty = (''not running'' @ newline @ ''socket: '' @ ln_socket L @ newline, None) \<and>
    daemon_stop X L Pretty = ([], Some (Cli_DaemonDown (ln_socket L))) \<and>
    cli_exit_code (Cli_DaemonDown (ln_socket L)) = ExitDaemonDown"
  using assms
  by (simp add: daemon_start_def daemon_status_def daemon_stop_def daemon_probe_def connect_def render_value_def
    with_newline_def newline_def Let_def)

theorem stale_socket_blocks_start_witness:
  "\<forall>D. daemon_start (demo_cli D JNull) (demo_link (Some ''refused'') \<lparr>rs_id = [], rs_body = RB_Ok JNull\<rparr>) Pretty
     = (''daemon already running'' @ newline, None)"
  using stale_socket_blocks_start [of "demo_link (Some ''refused'') \<lparr>rs_id = [], rs_body = RB_Ok JNull\<rparr>" "''refused''"]
  by (simp add: demo_link_def demo_cli_def)

section \<open>Commands against the daemon\<close>

text \<open>A link to a running daemon: the dial succeeds and a request is answered by the handler.\<close>

definition served_by :: "DaemonEnv \<Rightarrow> RequestId \<Rightarrow> Daemon \<Rightarrow> CliLink \<Rightarrow> bool" where
  "served_by E i d L \<longleftrightarrow> ln_dial L 0 = None \<and> (\<forall>rq. ln_ask L rq = fst (daemon_handle E i rq d))"

lemma request_served:
  "served_by E i d L \<Longrightarrow> request X L rq
     = (case fst (daemon_handle E i rq d) of Inl e \<Rightarrow> Inl (cli_of_ipc X e) | Inr resp \<Rightarrow> Inr (rs_body resp))"
  by (simp add: request_def connect_def served_by_def)

lemma nat_str_0: "nat_str 0 = ''0''"
  by code_simp

lemma gc_body:
  "\<exists>r. fst (daemon_handle E i Op_Gc d) = Inr r \<and>
     ((\<exists>p. rs_body r = RB_Err p) \<or> (\<exists>v. rs_body r = RB_Ok v \<and> gc_summary v = ''gc: ok (removed 0, freed 0 bytes)'' @ newline))"
  by (auto simp: daemon_handle_def handle_gc_def internal_err_def response_ok_def response_err_def gc_summary_def
    u64_at_def value_get_def json_obj_def map_of_btree_insert nat_str_0
    split: prod.splits option.splits)

lemma list_item_row: "list_row (list_item r) = [row_id r, row_name r, state_as_str (row_state r), []]"
  by (simp add: list_row_def list_item_def str_at_def value_get_def json_obj_def map_of_btree_insert as_str_def jint_def)

text \<open>Two commands look for fields that the daemon does not send.  Whatever a garbage collection deleted,
  \<open>vcli gc\<close> reports that nothing was removed or freed, because the daemon's counts have other names; and
  in the table of \<open>vcli list\<close> the column of submission times is empty for every program, because the
  daemon sends a number where the command expects text.\<close>

theorem gc_and_list_show_nothing:
  assumes "served_by E i d L"
  shows "((\<exists>e. gc_run X L Pretty = ([], Some e)) \<or>
      gc_run X L Pretty = (''gc: ok (removed 0, freed 0 bytes)'' @ newline, None)) \<and>
    (\<forall>rows d'. fst (daemon_handle E i (Op_List st) d)
         = Inr (response_ok i (json_obj [(''items'', JArray (map list_item rows))])) \<longrightarrow>
       request X L (Op_List st) = Inr (RB_Ok (json_obj [(''items'', JArray (map list_item rows))])) \<and>
       (\<forall>r \<in> set rows. last (list_row (list_item r)) = []))"
proof -
  have "(\<exists>e. gc_run X L Pretty = ([], Some e)) \<or>
      gc_run X L Pretty = (''gc: ok (removed 0, freed 0 bytes)'' @ newline, None)"
    using gc_body [of E i d] request_served [OF assms, of X Op_Gc]
    by (auto simp: gc_run_def print_result_def render_value_def)
  then show ?thesis
    using request_served [OF assms, of X "Op_List st"] by (simp add: list_item_row response_ok_def)
qed

definition daemon_link :: "DaemonEnv \<Rightarrow> Daemon \<Rightarrow> CliLink" where
  "daemon_link E d = (demo_link None \<lparr>rs_id = [], rs_body = RB_Ok JNull\<rparr>)\<lparr>ln_ask := \<lambda>rq. fst (daemon_handle E ''r'' rq d)\<rparr>"

definition live_daemon :: "Store \<Rightarrow> Daemon" where
  "live_daemon s = \<lparr>dm_store = s, dm_poisoned = False, dm_cmds = [], dm_sched_alive = True,
     dm_shutdown_armed = True, dm_shutdown_fired = False, dm_requests = 0\<rparr>"

lemma daemon_link_served: "served_by E ''r'' d (daemon_link E d)"
  by (simp add: served_by_def daemon_link_def demo_link_def)

theorem gc_and_list_show_nothing_witness:
  "\<forall>E s. (\<exists>e. gc_run (demo_cli demo_dsl JNull) (daemon_link E (live_daemon s)) Pretty = ([], Some e)) \<or>
     gc_run (demo_cli demo_dsl JNull) (daemon_link E (live_daemon s)) Pretty
       = (''gc: ok (removed 0, freed 0 bytes)'' @ newline, None)"
  using gc_and_list_show_nothing [OF daemon_link_served] by blast

text \<open>Cancelling an unknown program looks like success.  As long as the scheduler accepts commands, \<open>vcli
  cancel\<close> reports every identifier as cancelled and ends without an error, known to the daemon or
  not: the daemon does not look the program up and sends no state, and the command line fills in
  the state it hoped for, although it has an exit code for unknown programs.\<close>

theorem cancel_always_reports_success:
  assumes "served_by E i d L" and "dm_sched_alive d"
  shows "cancel_run X L Pretty pid None = (''cancelled '' @ pid @ '' '' @ arrow @ '' '' @ ''cancelled'' @ newline, None)"
  using request_served [OF assms(1), of X "Op_Cancel pid"] assms(2)
  by (simp add: cancel_run_def print_result_def render_value_def daemon_handle_def handle_cancel_def send_cmd_def
    response_ok_def cancel_summary_def str_at_def value_get_def json_obj_def Let_def)

theorem cancel_always_reports_success_witness:
  "\<forall>E s. snd (cancel_run (demo_cli demo_dsl JNull) (daemon_link E (live_daemon s)) Pretty ''nobody'' None) = None"
  using cancel_always_reports_success [OF daemon_link_served, of "live_daemon _"] by (simp add: live_daemon_def)

end
