(* ===== verification/Daemon_System.thy ===== *)
theory Daemon_System
  imports Daemon_Assets Scheduler_Runs Store_Props
begin

text \<open>
  The running daemon as one system: the request handler on the tokio side, the scheduler thread
  and the event pump (\<open>run.rs\<close>).  They share the command channel, the event channel and the
  store.  A step is one request, one turn of the scheduler's main loop or one event of the pump;
  steps of the three interleave freely.  The lemmas say how the state column of the database
  relates to the table of the scheduler in between.
\<close>

section \<open>State and steps\<close>

record 'i System =
  sy_daemon :: Daemon
  sy_sched :: "'i Sched"
  sy_channel :: "Event list"
  sy_broadcast :: "Event list"
  sy_pump_alive :: bool

text \<open>The daemon when the server is bound: what was recovered has been announced, the waiting
  programs are queued, the scheduler knows nothing yet.\<close>

definition sys_boot ::
  "DaemonEnv \<Rightarrow> (nat \<Rightarrow> UnixMs) \<Rightarrow> 'i \<Rightarrow> Store \<Rightarrow> RecoveredProgram list \<Rightarrow> SchedulerCommand list \<Rightarrow> 'i System" where
  "sys_boot DE now input s recovered q =
     \<lparr>sy_daemon = \<lparr>dm_store = s, dm_poisoned = False, dm_cmds = q, dm_sched_alive = True,
                   dm_shutdown_armed = True, dm_shutdown_fired = False, dm_requests = 0\<rparr>,
      sy_sched = sched_new input perception_new,
      sy_channel = emit_recovery_events (now 0) recovered @ emit_daemon_started (de_ext DE) (now 1),
      sy_broadcast = [], sy_pump_alive = True\<rparr>"

definition sys_request :: "DaemonEnv \<Rightarrow> RequestId \<Rightarrow> RequestOp \<Rightarrow> 'i System \<Rightarrow> 'i System" where
  "sys_request DE i op y =
     y\<lparr>sy_daemon := (if is_streaming op then snd (daemon_handle_stream DE i op (sy_daemon y))
                      else snd (daemon_handle DE i op (sy_daemon y)))\<rparr>"

text \<open>One turn of \<open>run_until_shutdown\<close>: the commands that have arrived, then a tick.  When the
  loop ends the receiver of the command channel is dropped.\<close>

definition sys_turn :: "'i Env \<Rightarrow> Frame option \<Rightarrow> ProgramId list \<Rightarrow> 'i System \<Rightarrow> 'i System option" where
  "sys_turn E cap it y =
     (let d = sy_daemon y; s = sy_sched y;
          ran = (\<lambda>left alive s'. y\<lparr>sy_daemon := d\<lparr>dm_cmds := left, dm_sched_alive := alive\<rparr>, sy_sched := s',
                   sy_channel := sy_channel y @ drop (length (sch_events s)) (sch_events s')\<rparr>)
      in case drain_commands E (dm_cmds d) s of
           (True, left, s1) \<Rightarrow> Some (ran left False s1)
         | (False, left, s1) \<Rightarrow> map_option (ran left True) (tick_once E cap it s1))"

text \<open>One event of the pump, which dies when it needs the store and the mutex is poisoned.\<close>

definition sys_pump :: "StoreExt \<Rightarrow> 'i System \<Rightarrow> 'i System" where
  "sys_pump X y =
     (case sy_channel y of
        [] \<Rightarrow> y
      | ev # evs \<Rightarrow>
          if \<not> sy_pump_alive y then y
          else if dm_poisoned (sy_daemon y) \<and> program_id_of (ev_data ev) \<noteq> None
          then y\<lparr>sy_channel := evs, sy_pump_alive := False\<rparr>
          else y\<lparr>sy_daemon := (sy_daemon y)\<lparr>dm_store := persist_event X ev (dm_store (sy_daemon y))\<rparr>,
                 sy_channel := evs, sy_broadcast := sy_broadcast y @ [ev]\<rparr>)"

text \<open>The end of \<open>run_foreground\<close>: the scheduler is told to stop and the end is announced, whatever
  the scheduler still sends.\<close>

definition sys_stop :: "UnixMs \<Rightarrow> 'i System \<Rightarrow> 'i System" where
  "sys_stop now y = y\<lparr>sy_daemon := snd (send_cmd ShutdownCmd (sy_daemon y)),
                      sy_channel := sy_channel y @ emit_daemon_stopped now\<rparr>"

text \<open>A signal fires the shutdown trigger of the server (\<open>shutdown.rs\<close>), once.\<close>

definition sys_signal :: "'i System \<Rightarrow> 'i System" where
  "sys_signal y = y\<lparr>sy_daemon := trigger_shutdown (sy_daemon y)\<rparr>"

text \<open>The program that a command hands over to the scheduler.\<close>

fun hands_over :: "SchedulerCommand \<Rightarrow> ProgramId option" where
  "hands_over (SubmitValidated pid _ _) = Some pid"
| "hands_over (ResumeRunning pid _ _ _) = Some pid"
| "hands_over _ = None"

definition queued :: "Daemon \<Rightarrow> ProgramId set" where
  "queued d = {pid. Some pid \<in> hands_over ` set (dm_cmds d)}"

lemma queued_requests [simp]: "queued (d\<lparr>dm_requests := n\<rparr>) = queued d" "queued (d\<lparr>dm_store := s\<rparr>) = queued d"
  by (simp_all add: queued_def)

text \<open>
  Every interleaving.  A submission reaches the handler while the scheduler runs, and a program that is
  resumed is not one the scheduler holds: the only programs that can be resumed are those that
  the recovery at the start has failed.
\<close>

inductive system_run :: "DaemonEnv \<Rightarrow> 'i Env \<Rightarrow> 'i System \<Rightarrow> bool" for DE E where
  booted: "distinct (map db_id (st_programs disk)) \<Longrightarrow> store_open disk = Inr (s, recovered) \<Longrightarrow>
    reload_waiting_programs (de_ext DE) t s = Some (q, n, s1) \<Longrightarrow>
    system_run DE E (sys_boot DE now input s1 recovered q)"
| requested: "system_run DE E y \<Longrightarrow>
    (\<And>prog dir. op = Op_Submit prog dir \<Longrightarrow> dm_sched_alive (sy_daemon y)) \<Longrightarrow>
    (\<And>pid fs. op = Op_Resume pid fs \<Longrightarrow> states (sy_sched y) pid = None) \<Longrightarrow>
    system_run DE E (sys_request DE i op y)"
| turned: "system_run DE E y \<Longrightarrow> dm_sched_alive (sy_daemon y) \<Longrightarrow> \<forall>c \<in> set (dm_cmds (sy_daemon y)). cmd_ok E c \<Longrightarrow>
    distinct it \<Longrightarrow> set it = dom (sch_programs (snd (snd (drain_commands E (dm_cmds (sy_daemon y)) (sy_sched y))))) \<Longrightarrow>
    sys_turn E cap it y = Some y' \<Longrightarrow> system_run DE E y'"
| pumped: "system_run DE E y \<Longrightarrow> system_run DE E (sys_pump (dx_store (de_ext DE)) y)"
| stopped: "system_run DE E y \<Longrightarrow> system_run DE E (sys_stop now y)"
| signalled: "system_run DE E y \<Longrightarrow> system_run DE E (sys_signal y)"

section \<open>The last state written\<close>

fun last_written :: "ProgramId \<Rightarrow> Event list \<Rightarrow> ProgramState option" where
  "last_written pid [] = None"
| "last_written pid (e # es) =
     (case last_written pid es of
        Some x \<Rightarrow> Some x
      | None \<Rightarrow> if program_id_of (ev_data e) = Some pid then written_state (ev_data e) else None)"

lemma last_written_append:
  "last_written pid (es @ fs) = (case last_written pid fs of Some x \<Rightarrow> Some x | None \<Rightarrow> last_written pid es)"
  by (induction es) (auto split: option.splits)

text \<open>What is written is what is announced.\<close>

lemma says_written:
  "says_ok st es \<Longrightarrow> replay es st pid = (case last_written pid es of Some x \<Rightarrow> Some x | None \<Rightarrow> st pid)"
proof (induction es arbitrary: st)
  case (Cons e es)
  then have "apply_event (ev_data e) st pid
      = (case (if program_id_of (ev_data e) = Some pid then written_state (ev_data e) else None) of
           Some x \<Rightarrow> Some x | None \<Rightarrow> st pid)"
    by (cases "ev_data e") auto
  with Cons show ?case by (auto split: option.splits)
qed simp


section \<open>What the scheduler announces in a turn\<close>

definition announces :: "'i Sched \<Rightarrow> 'i Sched \<Rightarrow> ProgramId set \<Rightarrow> Event list \<Rightarrow> bool" where
  "announces s s' P es \<longleftrightarrow> sch_events s' = sch_events s @ es \<and> states s' = replay es (states s) \<and>
     says_ok (states s) es \<and> (\<forall>pid \<in> P. last_written pid es \<noteq> None)"

lemma announces_trans:
  assumes "announces s s1 P es" "announces s1 s2 Q fs"
  shows "announces s s2 (P \<union> Q) (es @ fs)"
  using assms unfolding announces_def by (auto simp: last_written_append split: option.splits)

lemma command_announces: "\<exists>es. announces s (exec_command E c s) {pid. hands_over c = Some pid} es"
proof (cases c)
  case (SubmitValidated pid p as)
  then show ?thesis by (auto simp: announces_def exec_command_def Let_def sched_simps)
next
  case (ResumeRunning pid n p as)
  then show ?thesis by (auto simp: announces_def exec_command_def Let_def split_beta sched_simps)
qed (use exec_command_says [of E c s] in \<open>auto simp: announces_def\<close>)

lemma commands_announce:
  "\<exists>es. announces s (fold (exec_command E) cs s) {pid. Some pid \<in> hands_over ` set cs} es"
proof (induction cs arbitrary: s)
  case Nil
  have "announces s s {} []" by (simp add: announces_def)
  then show ?case by auto
next
  case (Cons c cs)
  obtain es where es: "announces s (exec_command E c s) {pid. hands_over c = Some pid} es"
    using command_announces by blast
  obtain fs where fs: "announces (exec_command E c s) (fold (exec_command E) cs (exec_command E c s))
      {pid. Some pid \<in> hands_over ` set cs} fs"
    using Cons.IH by blast
  have "{pid. Some pid \<in> hands_over ` set (c # cs)} = {pid. hands_over c = Some pid} \<union> {pid. Some pid \<in> hands_over ` set cs}"
    by (auto simp: eq_commute)
  with announces_trans [OF es fs] show ?case by auto
qed

lemma commands_reach: "reachable E s \<Longrightarrow> \<forall>c \<in> set cs. cmd_ok E c \<Longrightarrow> reachable E (fold (exec_command E) cs s)"
  by (induction cs arbitrary: s) (auto intro: reach_cmd)

lemma tick_announces:
  assumes "reachable E s" "distinct it" "tick_once E cap it s = Some s'"
  shows "\<exists>es. announces s s' {} es"
proof -
  have "tick_rel E s s'"
    using assms reachable_inv [OF assms(1)] by (intro tick_once_rel) (auto intro: sched_ok_small)
  then show ?thesis by (auto simp: announces_def tick_rel_def intro: trace_says)
qed

lemma announces_mono: "announces s s' P es \<Longrightarrow> Q \<subseteq> P \<Longrightarrow> announces s s' Q es"
  by (auto simp: announces_def)

text \<open>The commands that a turn executes are those in front of the first shutdown.\<close>

lemma handed_over_or_left:
  "Some pid \<in> hands_over ` set cs \<Longrightarrow>
   Some pid \<in> hands_over ` set (takeWhile (\<lambda>c. c \<noteq> ShutdownCmd) cs) \<or>
   Some pid \<in> hands_over ` set (drop 1 (dropWhile (\<lambda>c. c \<noteq> ShutdownCmd) cs))"
  by (induction cs) (auto simp: image_iff)

lemma turn_announces:
  assumes r: "reachable E (sy_sched y)" and ok: "\<forall>c \<in> set (dm_cmds (sy_daemon y)). cmd_ok E c" and it: "distinct it"
    and dom: "set it = dom (sch_programs (snd (snd (drain_commands E (dm_cmds (sy_daemon y)) (sy_sched y)))))"
    and turn: "sys_turn E cap it y = Some y'"
  obtains es where "announces (sy_sched y) (sy_sched y') (queued (sy_daemon y) - queued (sy_daemon y')) es"
    "sy_channel y' = sy_channel y @ es" "reachable E (sy_sched y')"
    "dm_store (sy_daemon y') = dm_store (sy_daemon y)" "sy_pump_alive y' = sy_pump_alive y"
proof -
  let ?cs = "dm_cmds (sy_daemon y)"
  let ?run = "takeWhile (\<lambda>c. c \<noteq> ShutdownCmd) ?cs" and ?left = "drop 1 (dropWhile (\<lambda>c. c \<noteq> ShutdownCmd) ?cs)"
  define s1 where "s1 = fold (exec_command E) ?run (sy_sched y)"
  have r1: "reachable E s1"
    unfolding s1_def by (rule commands_reach [OF r]) (use ok in \<open>auto dest: set_takeWhileD\<close>)
  have dom1: "set it = dom (sch_programs s1)"
    using dom by (simp add: drain_commands_split s1_def)
  obtain es where es: "announces (sy_sched y) s1 {pid. Some pid \<in> hands_over ` set ?run} es"
    unfolding s1_def using commands_announce by blast
  have q: "queued (sy_daemon y) - {pid. Some pid \<in> hands_over ` set ?left} \<subseteq> {pid. Some pid \<in> hands_over ` set ?run}"
    using handed_over_or_left [of _ ?cs] by (auto simp: queued_def)
  show thesis
  proof (cases "ShutdownCmd \<in> set ?cs")
    case True
    then have y': "y' = y\<lparr>sy_daemon := (sy_daemon y)\<lparr>dm_cmds := ?left, dm_sched_alive := False\<rparr>, sy_sched := s1,
        sy_channel := sy_channel y @ drop (length (sch_events (sy_sched y))) (sch_events s1)\<rparr>"
      using turn by (auto simp: sys_turn_def Let_def drain_commands_split s1_def)
    have "sch_events s1 = sch_events (sy_sched y) @ es" using es by (simp add: announces_def)
    with announces_mono [OF es q] r1 show ?thesis
      by (intro that [of es]) (simp_all add: y' queued_def)
  next
    case False
    then obtain s2 where t: "tick_once E cap it s1 = Some s2"
      and y': "y' = y\<lparr>sy_daemon := (sy_daemon y)\<lparr>dm_cmds := ?left, dm_sched_alive := True\<rparr>, sy_sched := s2,
        sy_channel := sy_channel y @ drop (length (sch_events (sy_sched y))) (sch_events s2)\<rparr>"
      using turn by (auto simp: sys_turn_def Let_def drain_commands_split s1_def)
    obtain fs where "announces s1 s2 {} fs" using tick_announces [OF r1 it t] by blast
    note a = announces_trans [OF es this]
    then have "sch_events s2 = sch_events (sy_sched y) @ es @ fs" by (simp add: announces_def)
    moreover have "reachable E s2" by (rule reach_tick [OF r1 it dom1 t])
    moreover have "announces (sy_sched y) s2 (queued (sy_daemon y) - {pid. Some pid \<in> hands_over ` set ?left}) (es @ fs)"
      by (rule announces_mono [OF a]) (use q in blast)
    ultimately show ?thesis
      by (intro that [of "es @ fs"]) (simp_all add: y' queued_def)
  qed
qed

section \<open>What a request does to the rows\<close>

text \<open>Ids stay unique, and the rows outside \<open>P\<close> stay or are deleted.\<close>

definition rows_kept :: "ProgramId set \<Rightarrow> Store \<Rightarrow> Store \<Rightarrow> bool" where
  "rows_kept P s s' \<longleftrightarrow> (distinct (map db_id (st_programs s)) \<longrightarrow> distinct (map db_id (st_programs s')) \<and>
     (\<forall>pid. pid \<notin> P \<longrightarrow> find_program s' pid = find_program s pid \<or> find_program s' pid = None))"

lemma rows_kept_same: "st_programs s' = st_programs s \<Longrightarrow> rows_kept P s s'"
  by (simp add: rows_kept_def find_program_def)

lemma find_snoc: "find f (xs @ [x]) = (case find f xs of Some y \<Rightarrow> Some y | None \<Rightarrow> if f x then Some x else None)"
  by (induction xs) auto

lemma rows_kept_append:
  assumes "st_programs s' = st_programs s @ [row]" "find_program s (db_id row) = None"
  shows "rows_kept {db_id row} s s'"
proof -
  have "db_id row \<notin> db_id ` set (st_programs s)" using assms(2) by (simp add: find_program_None)
  then show ?thesis using assms(1) by (auto simp: rows_kept_def find_program_def find_snoc split: option.splits)
qed

lemma rows_kept_filter:
  assumes "st_programs s' = filter f (st_programs s)"
  shows "rows_kept P s s'"
proof -
  have none: "pid \<notin> db_id ` set rs \<Longrightarrow> find (\<lambda>r. db_id r = pid) (filter f rs) = None" for pid rs
    by (auto simp: find_None_iff)
  have "find (\<lambda>r. db_id r = pid) (filter f rs) = find (\<lambda>r. db_id r = pid) rs \<or>
      find (\<lambda>r. db_id r = pid) (filter f rs) = None" if "distinct (map db_id rs)" for pid rs
    using that by (induction rs) (auto simp: none)
  moreover have "distinct (map db_id rs) \<Longrightarrow> distinct (map db_id (filter f rs))" for rs
    by (simp add: distinct_map_filter)
  ultimately show ?thesis by (simp add: rows_kept_def find_program_def assms)
qed

lemma rows_kept_update:
  assumes "\<And>r. db_id (f r) = db_id r"
  shows "rows_kept {pid} s (update_where pid f s)"
proof -
  have "map db_id (st_programs (update_where pid f s)) = map db_id (st_programs s)"
    using assms by (simp add: update_where_def)
  then show ?thesis using rows.find_upd [OF assms] by (simp add: rows_kept_def)
qed

lemma rows_kept_trans_same: "rows_kept P s s1 \<Longrightarrow> st_programs s2 = st_programs s1 \<Longrightarrow> rows_kept P s s2"
  by (simp add: rows_kept_def find_program_def)

lemma delete_blobs_programs: "delete_blobs as n s = Some (k, s') \<Longrightarrow> st_programs s' = st_programs s"
  by (induction as n s rule: delete_blobs.induct) (auto simp: fs_remove_drop split: option.splits if_splits)

lemma gc_assets_programs:
  assumes "gc_assets s = Some (k, s')"
  shows "st_programs s' = st_programs s"
proof -
  obtain b s1 where b: "delete_blobs (unreferenced_assets s) 0 s = Some (b, s1)"
    and s': "s' = snd (delete_asset_rows (unreferenced_assets s) 0 s1)"
    using assms by (auto simp: gc_assets_def Let_def split: option.splits prod.splits)
  obtain m where "delete_asset_rows (unreferenced_assets s) 0 s1
      = (m, s1\<lparr>st_assets := filter (\<lambda>b. as_hash b \<notin> as_hash ` set (unreferenced_assets s)) (st_assets s1)\<rparr>)"
    using delete_asset_rows_eq by blast
  with s' delete_blobs_programs [OF b] show ?thesis by simp
qed

lemma gc_txn_rows: "rows_kept P s (snd (gc_txn t s))"
proof (cases "gc_all t s")
  case None
  then show ?thesis by (simp add: gc_txn_def rows_kept_same)
next
  case (Some rs)
  obtain r s' where rs: "rs = (r, s')" by fastforce
  obtain n s1 k s2 where "gc_programs t s = (n, s1)" "gc_assets s1 = Some (k, s2)" "s' = snd (gc_orphan_blobs s2)"
    using Some rs by (auto simp: gc_all_def split: prod.splits option.splits)
  moreover from this(2) have "st_programs s2 = st_programs s1"
    by (rule gc_assets_programs)
  moreover obtain m where "gc_orphan_blobs s2 = m" "st_programs (snd m) = st_programs s2"
    using gc_orphan_blobs_eq [of s2] by auto
  ultimately show ?thesis
    using gc_programs_state [of t s n s1] Some rs by (intro rows_kept_filter) (auto simp: gc_txn_def)
qed

lemma rows_kept_mono: "rows_kept P s s' \<Longrightarrow> P \<subseteq> Q \<Longrightarrow> rows_kept Q s s'"
  by (auto simp: rows_kept_def)

lemma with_store_cases:
  assumes "with_store f d = (r, d')"
  shows "dm_cmds d' = dm_cmds d \<and> dm_sched_alive d' = dm_sched_alive d \<and>
    (dm_store d' = dm_store d \<and> r = None \<or> f (dm_store d) = (r, dm_store d'))"
  using assms by (auto simp: with_store_def split: if_splits prod.splits option.splits)

lemma send_cmd_cases:
  "dm_store (snd (send_cmd c d)) = dm_store d" "queued d \<subseteq> queued (snd (send_cmd c d))"
  "dm_sched_alive d \<Longrightarrow> hands_over c = Some pid \<Longrightarrow> pid \<in> queued (snd (send_cmd c d))"
  by (auto simp: send_cmd_def queued_def)

lemma trigger_shutdown_rows:
  "dm_store (trigger_shutdown d) = dm_store d" "queued (trigger_shutdown d) = queued d"
  by (simp_all add: trigger_shutdown_def queued_def)

lemma submit_rows:
  assumes "dm_sched_alive d"
  shows "rows_kept (queued (snd (submit_program DE i pid p dir d))) (dm_store d) (dm_store (snd (submit_program DE i pid p dir d)))
    \<and> queued d \<subseteq> queued (snd (submit_program DE i pid p dir d))"
proof -
  obtain r d1 where w: "with_store (submit_txn (de_ext DE) pid p dir (de_now DE (dm_requests d))) d = (r, d1)"
    by fastforce
  have q: "queued d1 = queued d" "dm_sched_alive d1" using with_store_cases [OF w] assms by (auto simp: queued_def)
  show ?thesis
  proof (cases "\<exists>p' as. r = Some (Inr (p', as))")
    case False
    then have "dm_store d1 = dm_store d \<or> st_programs (dm_store d1) = st_programs (dm_store d)"
      using with_store_cases [OF w] submit_txn_cases [of "de_ext DE" pid p dir "de_now DE (dm_requests d)" "dm_store d" r "dm_store d1"]
      by auto
    moreover have "snd (submit_program DE i pid p dir d) = d1"
      using w False by (auto simp: submit_program_def split: option.split sum.split)
    ultimately show ?thesis using q by (auto intro: rows_kept_same)
  next
    case True
    then obtain p' as where r: "r = Some (Inr (p', as))" by blast
    then obtain row where row: "find_program (dm_store d) pid = None"
      "st_programs (dm_store d1) = st_programs (dm_store d) @ [row]" "db_id row = pid"
      using with_store_cases [OF w] submit_txn_cases [of "de_ext DE" pid p dir "de_now DE (dm_requests d)" "dm_store d" r "dm_store d1"]
      by auto
    let ?d2 = "snd (send_cmd (SubmitValidated pid p' as) d1)"
    have d2: "snd (submit_program DE i pid p dir d) = ?d2"
      using w r by (auto simp: submit_program_def split: prod.split bool.split)
    have "pid \<in> queued ?d2" using send_cmd_cases(3) [OF q(2)] by simp
    moreover have "rows_kept {pid} (dm_store d) (dm_store ?d2)"
      using rows_kept_append [of "dm_store d1" "dm_store d" row] row by (simp add: send_cmd_cases)
    ultimately show ?thesis
      unfolding d2 using send_cmd_cases(2) [of d1] q(1) by (auto elim: rows_kept_mono)
  qed
qed

lemma resume_program_rows:
  "resume_program X pid fs t s = Inr (n, s') \<Longrightarrow> rows_kept {pid} s s'"
  by (auto simp: resume_program_def resume_row_def Let_def split: option.splits if_splits intro!: rows_kept_update)

lemma resume_txn_rows:
  assumes "resume_txn D pid fs t s = (r, s')"
  shows "rows_kept {pid} s s'"
proof (cases "resume_program (dx_store D) pid fs t s")
  case (Inl e)
  with assms show ?thesis by (auto simp: resume_txn_def Let_def rows_kept_same)
next
  case (Inr ns)
  obtain n s1 where ns: "ns = (n, s1)" by fastforce
  have same: "st_programs s2 = st_programs s1" if "materialize_template_assets D p base t' s1 = (x, s2)" for p base t' x s2
    using materialize_ok(1) [OF that] by simp
  have "st_programs s' = st_programs s1"
    using assms Inr ns
    by (auto simp: resume_txn_def Let_def dest!: same split: sum.splits prod.splits option.splits)
  with resume_program_rows [of "dx_store D" pid fs t s n s1] Inr ns show ?thesis
    by (auto intro: rows_kept_trans_same)
qed

lemma resume_rows:
  "rows_kept {pid} (dm_store d) (dm_store (snd (handle_resume DE i pid fs d)))
   \<and> queued d \<subseteq> queued (snd (handle_resume DE i pid fs d))"
proof -
  obtain r d1 where w: "with_store (resume_txn (de_ext DE) pid fs (de_now DE (dm_requests d))) d = (r, d1)"
    by fastforce
  have "rows_kept {pid} (dm_store d) (dm_store d1)"
    using with_store_cases [OF w] by (auto intro: resume_txn_rows rows_kept_same)
  moreover have "queued d1 = queued d" using with_store_cases [OF w] by (simp add: queued_def)
  ultimately show ?thesis
    using w send_cmd_cases(2) [of d1]
    by (auto simp: handle_resume_def send_cmd_cases(1) split: option.splits sum.splits)
qed

lemma gc_rows:
  "rows_kept {} (dm_store d) (dm_store (snd (handle_gc DE i d))) \<and> queued (snd (handle_gc DE i d)) = queued d"
proof -
  obtain r d1 where w: "with_store (gc_txn (gc_cutoff (de_now DE (dm_requests d)))) d = (r, d1)" by fastforce
  have "rows_kept {} (dm_store d) (dm_store d1)"
    using with_store_cases [OF w] gc_txn_rows [of "{}" "dm_store d" "gc_cutoff (de_now DE (dm_requests d))"]
    by (auto intro: rows_kept_same)
  moreover have "queued d1 = queued d" using with_store_cases [OF w] by (simp add: queued_def)
  ultimately show ?thesis using w by (auto simp: handle_gc_def split: option.splits)
qed

lemma read_only:
  "dm_store (snd (handle_list DE i st d)) = dm_store d" "queued (snd (handle_list DE i st d)) = queued d"
  "dm_store (snd (handle_status DE i pid d)) = dm_store d" "queued (snd (handle_status DE i pid d)) = queued d"
  "dm_store (snd (daemon_handle_stream DE i op d)) = dm_store d" "queued (snd (daemon_handle_stream DE i op d)) = queued d"
  by (auto simp: handle_list_def handle_status_def daemon_handle_stream_def daemon_stream_events_def with_store_def
      queued_def split: option.splits sum.splits prod.splits RequestOp.splits StoreError.splits)

lemma request_rows:
  assumes "\<And>prog dir. op = Op_Submit prog dir \<Longrightarrow> dm_sched_alive d"
  shows "rows_kept (queued (snd (daemon_handle DE i op d)) \<union> {pid. \<exists>fs. op = Op_Resume pid fs})
      (dm_store d) (dm_store (snd (daemon_handle DE i op d))) \<and> queued d \<subseteq> queued (snd (daemon_handle DE i op d))"
proof -
  have "queued (snd (case x of (resp, d') \<Rightarrow> (Inr resp, d'\<lparr>dm_requests := n\<rparr>))) = queued (snd x)"
    "dm_store (snd (case x of (resp, d') \<Rightarrow> (Inr resp, d'\<lparr>dm_requests := n\<rparr>))) = dm_store (snd x)" for x n
    by (simp_all add: queued_def split_beta)
  note simps = daemon_handle_def this
  show ?thesis
  proof (cases op)
    case (Op_Submit prog dir)
    then show ?thesis
      using assms submit_rows [of d] by (auto simp: simps handle_submit_def Let_def rows_kept_same split: sum.split)
  next
    case (Op_Resume pid fs)
    then show ?thesis using resume_rows [of pid d DE i fs] by (auto simp: simps elim: rows_kept_mono)
  next
    case Op_Gc
    then show ?thesis using gc_rows [of d DE i] by (auto simp: simps elim: rows_kept_mono)
  next
    case (Op_List st)
    then show ?thesis by (simp add: simps read_only rows_kept_same)
  next
    case (Op_Status pid)
    then show ?thesis by (simp add: simps read_only rows_kept_same)
  next
    case (Op_Cancel pid)
    then show ?thesis
      using send_cmd_cases(1) [of "CancelCmd pid ''user''" d] send_cmd_cases(2) [of d "CancelCmd pid ''user''"]
      by (auto simp: simps handle_cancel_def split_beta rows_kept_same split: bool.split)
  next
    case (Op_Start pid)
    then show ?thesis
      using send_cmd_cases(1) [of "StartCmd pid" d] send_cmd_cases(2) [of d "StartCmd pid"]
      by (auto simp: simps handle_start_def split_beta rows_kept_same split: bool.split)
  next
    case Op_Shutdown
    with trigger_shutdown_rows [of d] send_cmd_cases(1) [of ShutdownCmd "trigger_shutdown d"] send_cmd_cases(2) [of "trigger_shutdown d" ShutdownCmd] show ?thesis
      by (simp add: simps handle_shutdown_def rows_kept_same)
  qed (simp_all add: simps handle_health_def rows_kept_same)
qed

section \<open>The invariant\<close>

text \<open>
  As long as the pump lives: for a program the scheduler holds and no command hands over anew, the
  last state in the event channel is the scheduler's state, or the channel writes no state and the row, if
  there is one, has it already.
\<close>

definition mirrors :: "'i System \<Rightarrow> bool" where
  "mirrors y \<longleftrightarrow> (sy_pump_alive y \<longrightarrow>
     (\<forall>pid st. states (sy_sched y) pid = Some st \<and> pid \<notin> queued (sy_daemon y) \<longrightarrow>
        (case last_written pid (sy_channel y) of
           Some x \<Rightarrow> x = st
         | None \<Rightarrow> db_state_of (dm_store (sy_daemon y)) pid \<in> {None, Some (state_as_str st)})))"

lemma mirrors_request:
  assumes "mirrors y" "sy_daemon y' = d'" "y' = y\<lparr>sy_daemon := d'\<rparr>"
    and rows: "rows_kept P (dm_store (sy_daemon y)) (dm_store d')" "queued (sy_daemon y) \<subseteq> queued d'"
    and P: "\<And>pid. pid \<in> P \<Longrightarrow> pid \<in> queued d' \<or> states (sy_sched y) pid = None"
    and "distinct (map db_id (st_programs (dm_store (sy_daemon y))))"
  shows "mirrors y'"
  unfolding mirrors_def
proof (intro impI allI)
  fix pid st
  assume a: "sy_pump_alive y'" "states (sy_sched y') pid = Some st \<and> pid \<notin> queued (sy_daemon y')"
  then have old: "states (sy_sched y) pid = Some st" "pid \<notin> queued (sy_daemon y)" "pid \<notin> P"
    using assms(2,3) rows(2) P [of pid] by auto
  then have "db_state_of (dm_store d') pid \<in> {None, db_state_of (dm_store (sy_daemon y)) pid}"
    using rows(1) assms(7) by (auto simp: rows_kept_def db_state_of_def)
  moreover have "case last_written pid (sy_channel y) of Some x \<Rightarrow> x = st
      | None \<Rightarrow> db_state_of (dm_store (sy_daemon y)) pid \<in> {None, Some (state_as_str st)}"
    using assms(1,3) a(1) old unfolding mirrors_def by simp
  ultimately show "case last_written pid (sy_channel y') of Some x \<Rightarrow> x = st
      | None \<Rightarrow> db_state_of (dm_store (sy_daemon y')) pid \<in> {None, Some (state_as_str st)}"
    using assms(2,3) by (auto split: option.splits)
qed

lemma mirrors_daemon_event: "mirrors y \<Longrightarrow> mirrors (y\<lparr>sy_channel := sy_channel y @ emit_daemon_stopped now\<rparr>)"
  by (simp add: mirrors_def last_written_append emit_daemon_stopped_def cong: option.case_cong)

lemma mirrors_turn:
  assumes "mirrors y" "announces (sy_sched y) (sy_sched y') (queued (sy_daemon y) - queued (sy_daemon y')) es"
    "sy_channel y' = sy_channel y @ es" "dm_store (sy_daemon y') = dm_store (sy_daemon y)" "sy_pump_alive y' = sy_pump_alive y"
  shows "mirrors y'"
  unfolding mirrors_def
proof (intro impI allI)
  fix pid st
  assume a: "sy_pump_alive y'" "states (sy_sched y') pid = Some st \<and> pid \<notin> queued (sy_daemon y')"
  have st: "states (sy_sched y') pid = (case last_written pid es of Some x \<Rightarrow> Some x | None \<Rightarrow> states (sy_sched y) pid)"
    using assms(2) says_written by (simp add: announces_def)
  show "case last_written pid (sy_channel y') of Some x \<Rightarrow> x = st
      | None \<Rightarrow> db_state_of (dm_store (sy_daemon y')) pid \<in> {None, Some (state_as_str st)}"
  proof (cases "last_written pid es")
    case (Some x)
    with st a show ?thesis by (simp add: assms(3) last_written_append)
  next
    case None
    with assms(2) a(2) have "pid \<notin> queued (sy_daemon y)" unfolding announces_def by blast
    moreover have "states (sy_sched y) pid = Some st" "sy_pump_alive y" using None st a assms(5) by auto
    ultimately have "case last_written pid (sy_channel y) of Some x \<Rightarrow> x = st
        | None \<Rightarrow> db_state_of (dm_store (sy_daemon y)) pid \<in> {None, Some (state_as_str st)}"
      using assms(1) unfolding mirrors_def by blast
    then show ?thesis using None unfolding assms(3,4) by (simp add: last_written_append)
  qed
qed

lemma mirrors_pump:
  assumes "mirrors y"
  shows "mirrors (sys_pump X y)"
proof (cases "sy_channel y")
  case (Cons e es)
  show ?thesis
    unfolding mirrors_def
  proof (intro impI allI)
    fix pid st
    assume a: "sy_pump_alive (sys_pump X y)"
      "states (sy_sched (sys_pump X y)) pid = Some st \<and> pid \<notin> queued (sy_daemon (sys_pump X y))"
    then have y': "sys_pump X y = y\<lparr>sy_daemon := (sy_daemon y)\<lparr>dm_store := persist_event X e (dm_store (sy_daemon y))\<rparr>,
        sy_channel := es, sy_broadcast := sy_broadcast y @ [e]\<rparr>" and alive: "sy_pump_alive y"
      using Cons by (auto simp: sys_pump_def split: if_splits)
    with a assms have m: "case last_written pid (e # es) of Some x \<Rightarrow> x = st
        | None \<Rightarrow> db_state_of (dm_store (sy_daemon y)) pid \<in> {None, Some (state_as_str st)}"
      unfolding mirrors_def Cons [symmetric] by auto
    have none: "db_state_of (dm_store (sy_daemon y)) pid = None \<longleftrightarrow> find_program (dm_store (sy_daemon y)) pid = None"
      by (simp add: db_state_of_def)
    show "case last_written pid (sy_channel (sys_pump X y)) of Some x \<Rightarrow> x = st
        | None \<Rightarrow> db_state_of (dm_store (sy_daemon (sys_pump X y))) pid \<in> {None, Some (state_as_str st)}"
      using m none unfolding y' by (auto simp: persist_state split: option.splits if_splits)
  qed
qed (use assms in \<open>simp add: sys_pump_def\<close>)

text \<open>Start-up keeps the ids: recovery changes fields, reloading only stores assets.\<close>

lemma store_open_ids:
  assumes "store_open disk = Inr (s, recovered)"
  shows "map db_id (st_programs s) = map db_id (st_programs disk)"
proof -
  obtain s1 where s1: "run_migrations disk = Inr s1" "recover_running_programs s1 = (recovered, s)"
    using assms by (rule store_open_cases)
  have "st_programs s1 = st_programs disk" by (subst migrations_same [OF s1(1)]) simp
  with s1(2) show ?thesis by (auto simp: recover_running_programs_def fail_running_row_def Let_def split: if_splits)
qed

lemma reload_rows_programs: "reload_rows D t rows s = (r, s') \<Longrightarrow> st_programs s' = st_programs s"
proof (induction rows arbitrary: s r s')
  case (Cons row rows)
  have one: "st_programs s1 = st_programs s" if "reload_row D t row s = (x, s1)" for x s1
    using that materialize_ok(1) by (auto simp: reload_row_def split: sum.splits option.splits prod.splits)
  show ?case
    using Cons.prems Cons.IH one by (auto split: option.splits prod.splits)
qed simp

lemma reload_programs: "reload_waiting_programs D t s = Some (q, n, s') \<Longrightarrow> st_programs s' = st_programs s"
  by (auto simp: reload_waiting_programs_def dest: reload_rows_programs split: option.splits prod.splits)

lemma system_inv:
  "system_run DE E y \<Longrightarrow>
   reachable E (sy_sched y) \<and> distinct (map db_id (st_programs (dm_store (sy_daemon y)))) \<and> mirrors y"
proof (induction rule: system_run.induct)
  case (booted disk s recovered t q n s1 now input)
  have "map db_id (st_programs s1) = map db_id (st_programs disk)"
    using reload_programs [OF booted(3)] store_open_ids [OF booted(2)] by simp
  with booted(1) show ?case
    using reach_init [of E input] by (simp add: sys_boot_def mirrors_def states_def sched_new_def)
next
  case (requested y op i)
  let ?d = "sy_daemon y" and ?d' = "sy_daemon (sys_request DE i op y)"
  let ?P = "queued ?d' \<union> {pid. \<exists>fs. op = Op_Resume pid fs}"
  have rows: "rows_kept ?P (dm_store ?d) (dm_store ?d')" "queued ?d \<subseteq> queued ?d'"
    using request_rows [of op ?d DE i] requested(2)
    by (auto simp: sys_request_def read_only rows_kept_same)
  have "mirrors (sys_request DE i op y)"
    by (rule mirrors_request [OF _ refl _ rows]) (use requested in \<open>auto simp: sys_request_def\<close>)
  with requested rows(1) show ?case by (auto simp: rows_kept_def sys_request_def)
next
  case (turned y it cap y')
  obtain es where "announces (sy_sched y) (sy_sched y') (queued (sy_daemon y) - queued (sy_daemon y')) es"
    "sy_channel y' = sy_channel y @ es" "reachable E (sy_sched y')"
    "dm_store (sy_daemon y') = dm_store (sy_daemon y)" "sy_pump_alive y' = sy_pump_alive y"
    using turn_announces [OF conjunct1 [OF turned(7)] turned(3,4,5,6)] by blast
  with mirrors_turn [of y y' es] turned(7) show ?case by simp
next
  case (pumped y)
  have "map db_id (st_programs (persist_event X ev s)) = map db_id (st_programs s)" for X ev s
    by (cases "program_id_of (ev_data ev)"; cases "ev_data ev")
       (auto simp: persist_event_def persist_program_event_def Let_def keep_def append_logged_def append_event_def
         update_state_def set_body_cursor_def set_last_error_def update_where_def set_state_row_def)
  with pumped mirrors_pump [of y "dx_store (de_ext DE)"] show ?case
    by (auto simp: sys_pump_def split: list.split)
next
  case (stopped y now)
  let ?d' = "snd (send_cmd ShutdownCmd (sy_daemon y))"
  have "mirrors (y\<lparr>sy_daemon := ?d'\<rparr>)"
  proof (rule mirrors_request [of y _ ?d'])
    show "rows_kept {} (dm_store (sy_daemon y)) (dm_store ?d')" by (simp add: send_cmd_cases rows_kept_same)
    show "queued (sy_daemon y) \<subseteq> queued ?d'" by (rule send_cmd_cases(2))
  qed (use stopped in simp_all)
  from mirrors_daemon_event [OF this, of now] stopped show ?case by (simp add: sys_stop_def send_cmd_cases)
next
  case (signalled y)
  have "mirrors (sys_signal y)"
    by (rule mirrors_request [of y _ "trigger_shutdown (sy_daemon y)" "{}"])
       (use signalled in \<open>simp_all add: sys_signal_def trigger_shutdown_rows rows_kept_same\<close>)
  with signalled show ?case by (simp add: sys_signal_def trigger_shutdown_rows)
qed

end
