(* ===== verification/Daemon_System_Props.thy ===== *)
theory Daemon_System_Props
  imports Daemon_System Daemon_Props
begin

text \<open>
  What the parts of the running daemon guarantee together: the database follows the scheduler
  through every interleaving of requests, turns and pump steps; it always catches up; and what
  the scheduler held at a crash decides what the next start does.
\<close>

section \<open>The database follows the scheduler\<close>




section \<open>The system settles\<close>




section \<open>Crash and restart\<close>





section \<open>An example run\<close>
















end
