(* ===== verification/Ipc_Server.thy ===== *)
theory Ipc_Server
  imports Ipc_Lemmas
begin

text \<open>
  The life of the server (\<open>vcli-ipc/src/server.rs\<close>): binding the socket, the accept loop and the
  clean-up, over the part of the file system that holds socket files.  A file leads to the
  listener that was bound there, which may have died; the outcomes of the system calls are
  arguments.  The client's side is \<open>IpcClient::connect\<close> (\<open>client.rs\<close>).
\<close>

section \<open>Socket files\<close>

record SockFile =
  sf_listener :: nat
  sf_mode :: nat

record SockWorld =
  sk_files :: "path \<rightharpoonup> SockFile"
  sk_live :: "nat set"
  sk_next :: nat
  sk_new_mode :: nat

record SockCalls =
  sc_unlink :: "string option"
  sc_bind :: "string option"
  sc_chmod :: "string option"

record IpcServer =
  srv_listener :: nat
  srv_socket_path :: path

definition socket_mode :: nat where "socket_mode = 384"

text \<open>A listener that is dropped stops listening, but its file stays.\<close>

definition bind_server :: "SockCalls \<Rightarrow> path \<Rightarrow> SockWorld \<Rightarrow> (IpcError + IpcServer) \<times> SockWorld" where
  "bind_server c p w =
     (case (if sk_files w p = None then Inr w
            else case sc_unlink c of
                   Some e \<Rightarrow> Inl (IE_SocketSetup (''unlink stale socket: '' @ e))
                 | None \<Rightarrow> Inr (w\<lparr>sk_files := (sk_files w)(p := None)\<rparr>)) of
        Inl e \<Rightarrow> (Inl e, w)
      | Inr w1 \<Rightarrow>
          (case sc_bind c of
             Some e \<Rightarrow> (Inl (IE_SocketSetup (''bind '' @ p @ '': '' @ e)), w1)
           | None \<Rightarrow>
               (let n = sk_next w1;
                    w2 = w1\<lparr>sk_files := (sk_files w1)(p \<mapsto> \<lparr>sf_listener = n, sf_mode = sk_new_mode w1\<rparr>),
                             sk_next := n + 1\<rparr>
                in case sc_chmod c of
                     Some e \<Rightarrow> (Inl (IE_SocketSetup (''chmod 0600: '' @ e)), w2)
                   | None \<Rightarrow>
                       (Inr \<lparr>srv_listener = n, srv_socket_path = p\<rparr>,
                        w2\<lparr>sk_files := (sk_files w2)(p \<mapsto> \<lparr>sf_listener = n, sf_mode = socket_mode\<rparr>),
                            sk_live := insert n (sk_live w2)\<rparr>))))"

text \<open>\<open>Drop\<close>: whatever file has the name is removed, then the listener is closed.\<close>

definition drop_server :: "IpcServer \<Rightarrow> SockWorld \<Rightarrow> SockWorld" where
  "drop_server srv w =
     w\<lparr>sk_files := (sk_files w)(srv_socket_path srv := None), sk_live := sk_live w - {srv_listener srv}\<rparr>"

text \<open>A killed process does not run \<open>Drop\<close>.\<close>

definition kill_server :: "IpcServer \<Rightarrow> SockWorld \<Rightarrow> SockWorld" where
  "kill_server srv w = w\<lparr>sk_live := sk_live w - {srv_listener srv}\<rparr>"

datatype Dial = DialNotFound | DialRefused | DialTo nat

definition client_connect :: "path \<Rightarrow> SockWorld \<Rightarrow> Dial" where
  "client_connect p w =
     (case sk_files w p of
        None \<Rightarrow> DialNotFound
      | Some f \<Rightarrow> if sf_listener f \<in> sk_live w then DialTo (sf_listener f) else DialRefused)"

section \<open>The accept loop\<close>

text \<open>
  A turn of the loop: whether the shutdown signal is ready, and what \<open>accept\<close> gives if
  anything.  The signal is looked at first.  The result is \<open>None\<close> while the loop waits; the
  list holds the connections for which a task was spawned.
\<close>

type_synonym 'c accept_turn = "bool \<times> (string + 'c) option"

fun serve :: "'c accept_turn list \<Rightarrow> (IpcError + unit) option \<times> 'c list" where
  "serve [] = (None, [])"
| "serve ((True, _) # ts) = (Some (Inr ()), [])"
| "serve ((False, None) # ts) = serve ts"
| "serve ((False, Some (Inl e)) # ts) = (Some (Inl (IE_Io e)), [])"
| "serve ((False, Some (Inr c)) # ts) = (case serve ts of (r, cs) \<Rightarrow> (r, c # cs))"

section \<open>Many connections\<close>

text \<open>
  The tasks of the accepted connections take turns: in each step one connection has its next
  request read, dispatched and answered.  A connection is what its client has still to send and
  what was written to it; one that has ended with an error or with the end of the stream has
  no further step.
\<close>

record Conn =
  cn_input :: "bytes list"
  cn_output :: bytes
  cn_open :: bool

definition conn_step :: "Codec \<Rightarrow> RequestId \<Rightarrow> 'd Handler \<Rightarrow> Conn \<Rightarrow> 'd \<Rightarrow> Conn \<times> 'd" where
  "conn_step C fresh H c d =
     (if \<not> cn_open c then (c, d)
      else case read_frame (cd_dec_request C) (cn_input c) of
        Inr (req, rest) \<Rightarrow>
          (case dispatch C H req d of
             ((out, e), d') \<Rightarrow> (c\<lparr>cn_input := rest, cn_output := cn_output c @ out, cn_open := (e = None)\<rparr>, d'))
      | Inl e \<Rightarrow>
          (case handle_connection C fresh H (cn_input c) d of
             ((out, _), d') \<Rightarrow> (c\<lparr>cn_output := cn_output c @ out, cn_open := False\<rparr>, d')))"

definition serve_step :: "Codec \<Rightarrow> RequestId \<Rightarrow> 'd Handler \<Rightarrow> nat \<Rightarrow> Conn list \<times> 'd \<Rightarrow> Conn list \<times> 'd" where
  "serve_step C fresh H i cd =
     (case cd of (cs, d) \<Rightarrow>
        if i < length cs then (case conn_step C fresh H (cs ! i) d of (c, d') \<Rightarrow> (cs[i := c], d')) else (cs, d))"

definition serve_steps :: "Codec \<Rightarrow> RequestId \<Rightarrow> 'd Handler \<Rightarrow> nat list \<Rightarrow> Conn list \<times> 'd \<Rightarrow> Conn list \<times> 'd" where
  "serve_steps C fresh H turns = fold (serve_step C fresh H) turns"

end
