(* ===== verification/Ipc_Server_Props.thy ===== *)
theory Ipc_Server_Props
  imports Ipc_Server
begin

text \<open>
  What the server guarantees: who is reached through a socket file during its life, which
  connections are accepted, and that connections do not disturb each other.
\<close>

section \<open>Socket files\<close>

definition sock_wf :: "SockWorld \<Rightarrow> bool" where
  "sock_wf w \<longleftrightarrow> (\<forall>n \<in> sk_live w. n < sk_next w) \<and>
     (\<forall>p f. sk_files w p = Some f \<longrightarrow> sf_listener f < sk_next w)"

lemma sock_wf_new: "sock_wf w \<Longrightarrow> sk_next w \<notin> sk_live w" "sock_wf w \<Longrightarrow> sk_files w q = Some f \<Longrightarrow> sf_listener f \<noteq> sk_next w"
  by (auto simp: sock_wf_def) (metis less_irrefl)

lemma bind_server_ok:
  assumes "bind_server c p w = (Inr srv, w')"
  shows "srv = \<lparr>srv_listener = sk_next w, srv_socket_path = p\<rparr>"
    "sk_files w' = (sk_files w)(p \<mapsto> \<lparr>sf_listener = sk_next w, sf_mode = socket_mode\<rparr>)"
    "sk_live w' = insert (sk_next w) (sk_live w)" "sk_next w' = sk_next w + 1"
  using assms by (auto simp: bind_server_def Let_def split: if_splits option.splits)

lemma bind_server_runs:
  assumes "sc_unlink c = None" "sc_bind c = None" "sc_chmod c = None"
  shows "\<exists>srv w'. bind_server c p w = (Inr srv, w')"
  using assms by (simp add: bind_server_def Let_def)

lemma sock_wf_kept:
  "sock_wf w \<Longrightarrow> bind_server c p w = (r, w') \<Longrightarrow> sock_wf w'"
  "sock_wf w \<Longrightarrow> sock_wf (drop_server srv w)" "sock_wf w \<Longrightarrow> sock_wf (kill_server srv w)"
proof -
  show "sock_wf w \<Longrightarrow> bind_server c p w = (r, w') \<Longrightarrow> sock_wf w'"
    by (auto simp: bind_server_def sock_wf_def Let_def less_Suc_eq split: if_splits option.splits)
qed (auto simp: sock_wf_def drop_server_def kill_server_def)


definition sock_calls_ok :: SockCalls where
  "sock_calls_ok = \<lparr>sc_unlink = None, sc_bind = None, sc_chmod = None\<rparr>"

definition demo_sockets :: SockWorld where
  "demo_sockets = \<lparr>sk_files = [''/s'' \<mapsto> \<lparr>sf_listener = 0, sf_mode = 384\<rparr>], sk_live = {}, sk_next = 1, sk_new_mode = 493\<rparr>"

lemma demo_sockets_wf: "sock_wf demo_sockets"
  by (simp add: sock_wf_def demo_sockets_def)

lemma sock_calls_run: "\<exists>srv w'. bind_server sock_calls_ok p w = (Inr srv, w')"
  by (rule bind_server_runs) (simp_all add: sock_calls_ok_def)


text \<open>
  Binding takes the socket away from a living daemon.  The file is removed because it exists, not
  because it is stale: a second daemon on the same path succeeds, the first one still listens but
  nobody reaches it any more; and when the first one ends in order it removes the file of the
  second, which from then on runs unreachable.
\<close>

theorem bind_takes_over:
  assumes "sock_wf w" "bind_server c p w = (Inr srv1, w1)" "bind_server c' p w1 = (Inr srv2, w2)"
  shows "srv_listener srv1 \<in> sk_live w2 \<and> client_connect p w2 = DialTo (srv_listener srv2) \<and>
    srv_listener srv1 \<noteq> srv_listener srv2 \<and>
    srv_listener srv2 \<in> sk_live (drop_server srv1 w2) \<and> client_connect p (drop_server srv1 w2) = DialNotFound"
  using bind_server_ok [OF assms(2)] bind_server_ok [OF assms(3)]
  by (simp add: client_connect_def drop_server_def)

theorem bind_takes_over_witness:
  "\<exists>srv1 w1 srv2 w2. bind_server sock_calls_ok ''/s'' demo_sockets = (Inr srv1, w1) \<and>
     bind_server sock_calls_ok ''/s'' w1 = (Inr srv2, w2) \<and> client_connect ''/s'' (drop_server srv1 w2) = DialNotFound"
proof -
  obtain srv1 w1 where b1: "bind_server sock_calls_ok ''/s'' demo_sockets = (Inr srv1, w1)" using sock_calls_run by blast
  obtain srv2 w2 where b2: "bind_server sock_calls_ok ''/s'' w1 = (Inr srv2, w2)" using sock_calls_run by blast
  from bind_takes_over [OF demo_sockets_wf b1 b2] b1 b2 show ?thesis by blast
qed

text \<open>
  What a failed bind leaves.  When the old file cannot be removed nothing changes; when binding
  fails the old file is gone, even one that led to a living daemon; when the mode cannot be set
  a file stays behind that refuses every client.
\<close>

theorem failed_bind_leaves:
  assumes "sock_wf w" "bind_server c p w = (Inl e, w')"
  shows "(w' = w \<and> sk_files w p \<noteq> None \<and> sc_unlink c \<noteq> None) \<or>
    (client_connect p w' = DialNotFound \<and> sc_bind c \<noteq> None) \<or>
    (client_connect p w' = DialRefused \<and> sc_chmod c \<noteq> None)"
  using assms(2) sock_wf_new(1) [OF assms(1)]
  by (auto simp: bind_server_def client_connect_def Let_def split: if_splits option.splits)

theorem failed_bind_leaves_witness:
  "\<exists>e w'. bind_server (sock_calls_ok\<lparr>sc_chmod := Some ''denied''\<rparr>) ''/s'' demo_sockets = (Inl e, w') \<and>
     client_connect ''/s'' w' = DialRefused"
proof -
  let ?c = "sock_calls_ok\<lparr>sc_chmod := Some ''denied''\<rparr>"
  obtain e w' where b: "bind_server ?c ''/s'' demo_sockets = (Inl e, w')"
    by (cases "bind_server ?c ''/s'' demo_sockets"; cases "fst (bind_server ?c ''/s'' demo_sockets)")
       (auto simp: bind_server_def sock_calls_ok_def Let_def split: if_splits)
  with failed_bind_leaves [OF demo_sockets_wf b] show ?thesis by (auto simp: sock_calls_ok_def)
qed

section \<open>The accept loop\<close>

text \<open>
  The accept loop accepts exactly what comes before its end.  A script of turns in which neither
  the signal is ready nor an accept fails only adds its connections, in order; at the first turn
  with the signal the loop returns without an error and without looking at a connection that is
  ready as well; at the first failing accept without the signal it returns that error.
\<close>

theorem serve_until_end:
  assumes "\<forall>(stop, acc) \<in> set ts. \<not> stop \<and> (\<forall>e. acc \<noteq> Some (Inl e))"
  defines "cs \<equiv> [c. (_, Some (Inr c)) \<leftarrow> ts]"
  shows "serve ts = (None, cs) \<and> serve (ts @ (True, acc) # rest) = (Some (Inr ()), cs) \<and>
    serve (ts @ (False, Some (Inl e)) # rest) = (Some (Inl (IE_Io e)), cs)"
  unfolding cs_def using assms(1)
  by (induction ts rule: serve.induct) auto

theorem serve_until_end_witness:
  "serve [(False, Some (Inr 1)), (False, None), (False, Some (Inr 2)), (True, Some (Inr 3)), (False, Some (Inr 4))]
     = (Some (Inr ()), [1, 2 :: nat])"
  using serve_until_end [of "[(False, Some (Inr 1)), (False, None), (False, Some (Inr (2 :: nat)))]" "Some (Inr 3)"
      "[(False, Some (Inr 4))]"] by simp

section \<open>Connections side by side\<close>

text \<open>A connection from which no request can be read any more.\<close>

definition garbage :: "Codec \<Rightarrow> Conn \<Rightarrow> bool" where
  "garbage C c \<longleftrightarrow> \<not> cn_open c \<or> isl (read_frame (cd_dec_request C) (cn_input c))"

lemma unreadable_changes_nothing:
  assumes "read_frame (cd_dec_request C) chunks = Inl e"
  shows "snd (handle_connection C fresh H chunks d) = d"
  using assms by (subst handle_connection.simps) (auto split: IpcError.split)

lemma garbage_step:
  assumes "garbage C c"
  shows "snd (conn_step C fresh H c d) = d \<and> garbage C (fst (conn_step C fresh H c d))"
proof (cases "cn_open c")
  case True
  with assms obtain e where e: "read_frame (cd_dec_request C) (cn_input c) = Inl e"
    by (auto simp: garbage_def isl_def)
  with True unreadable_changes_nothing [OF e, of fresh H d] show ?thesis
    by (auto simp: conn_step_def garbage_def split: prod.split)
qed (use assms in \<open>simp add: conn_step_def\<close>)

text \<open>Two servers that differ at most in one such connection.\<close>

definition alike :: "Codec \<Rightarrow> nat \<Rightarrow> Conn list \<times> 'd \<Rightarrow> Conn list \<times> 'd \<Rightarrow> bool" where
  "alike C k x y \<longleftrightarrow> snd x = snd y \<and> length (fst x) = length (fst y) \<and>
     (\<forall>j < length (fst x). j \<noteq> k \<longrightarrow> fst x ! j = fst y ! j) \<and> (k < length (fst x) \<longrightarrow> garbage C (fst x ! k))"

lemma alike_other:
  assumes "alike C k x y" "j \<noteq> k"
  shows "alike C k (serve_step C fresh H j x) (serve_step C fresh H j y)"
  using assms by (auto simp: alike_def serve_step_def nth_list_update split: prod.splits)

lemma alike_garbage:
  assumes "alike C k x y"
  shows "alike C k (serve_step C fresh H k x) y"
  using assms garbage_step [of C "fst x ! k" fresh H "snd x"]
  by (cases x) (auto simp: alike_def serve_step_def split: prod.splits)

lemma alike_steps:
  "alike C k x y \<Longrightarrow> alike C k (serve_steps C fresh H turns x) (serve_steps C fresh H (filter (\<lambda>i. i \<noteq> k) turns) y)"
proof (induction turns arbitrary: x y)
  case (Cons i turns)
  then show ?case
    by (cases "i = k") (simp_all add: serve_steps_def alike_other alike_garbage)
qed (simp add: serve_steps_def)

text \<open>
  C31. A broken client disturbs nobody.  Let any number of clients be connected, one of which sends
  something that is not a request (a truncated or oversized frame, or no JSON, or nothing at all); for every way in which
  the connections take turns, the daemon ends in the same state and every other client has been sent the same
  bytes as if the broken client had never been served.
\<close>

theorem broken_client_isolated:
  assumes "k < length cs" "read_frame (cd_dec_request C) (cn_input (cs ! k)) = Inl e"
  shows "snd (serve_steps C fresh H turns (cs, d)) = snd (serve_steps C fresh H (filter (\<lambda>i. i \<noteq> k) turns) (cs, d)) \<and>
    (\<forall>j < length cs. j \<noteq> k \<longrightarrow> fst (serve_steps C fresh H turns (cs, d)) ! j
       = fst (serve_steps C fresh H (filter (\<lambda>i. i \<noteq> k) turns) (cs, d)) ! j)"
proof -
  have "alike C k (cs, d) (cs, d)" using assms by (simp add: alike_def garbage_def isl_def)
  from alike_steps [OF this] have a: "alike C k (serve_steps C fresh H turns (cs, d))
      (serve_steps C fresh H (filter (\<lambda>i. i \<noteq> k) turns) (cs, d))" .
  have "length (fst (serve_step C fresh H i x)) = length (fst x)" for i x
    by (simp add: serve_step_def split: prod.split)
  then have "length (fst (serve_steps C fresh H turns x)) = length (fst x)" for x
    unfolding serve_steps_def by (induction turns arbitrary: x) simp_all
  with a show ?thesis by (auto simp: alike_def)
qed

text \<open>A client and one that closes in the middle of a header.\<close>

definition demo_conns :: "Conn list" where
  "demo_conns = [\<lparr>cn_input = [], cn_output = [], cn_open = True\<rparr>, \<lparr>cn_input = [[1, 2]], cn_output = [], cn_open = True\<rparr>]"

theorem broken_client_isolated_witness:
  "\<forall>C fresh H d. snd (serve_steps C fresh H [1, 0, 1] (demo_conns, d)) = snd (serve_steps C fresh H [0] (demo_conns, d))"
proof (intro allI)
  fix C :: Codec and fresh and H :: "'d Handler" and d
  have "read_frame (cd_dec_request C) (cn_input (demo_conns ! 1)) = Inl (IE_UnexpectedEof 2 4)"
    using read_truncated_header [of "[[1, 2]]"] by (simp add: demo_conns_def solid_def numeral_2_eq_2)
  from broken_client_isolated [OF _ this, of fresh H "[1, 0, 1]" d]
  show "snd (serve_steps C fresh H [1, 0, 1] (demo_conns, d)) = snd (serve_steps C fresh H [0] (demo_conns, d))"
    by (simp add: demo_conns_def)
qed










end
