(* ===== verification/Clocks.thy ===== *)
theory Clocks
  imports Prelude Input
begin

text \<open>
  The clocks (\<open>vcli-core/src/clock.rs\<close>, \<open>vcli-runtime/src/clock.rs\<close>) and the observer of the kill
  switch (\<open>kill_switch.rs\<close>).  A duration is a number of nanoseconds, at most \<open>Duration::MAX\<close>; the
  time of the system is an argument.
\<close>

section \<open>The core clocks\<close>

definition duration_max :: nat where "duration_max = 18446744073709551615 * 1000000000 + 999999999"

definition duration_saturating_add :: "nat \<Rightarrow> nat \<Rightarrow> nat" where
  "duration_saturating_add a b = min (a + b) duration_max"

definition as_millis :: "nat \<Rightarrow> nat" where "as_millis d = d div 1000000"

definition i64_try_from_or_max :: "nat \<Rightarrow> int" where
  "i64_try_from_or_max n = (if int n \<le> i64_max then int n else i64_max)"

text \<open>The system time as nanoseconds relative to the epoch; before it the difference is an error,
  which the code reads as zero.\<close>

definition system_unix_ms :: "int \<Rightarrow> UnixMs" where
  "system_unix_ms since_epoch_ns =
     i64_try_from_or_max (as_millis (if since_epoch_ns < 0 then 0 else nat since_epoch_ns))"

definition now_unix_ms :: "int \<Rightarrow> UnixMs" where
  "now_unix_ms since_epoch_ns = system_unix_ms since_epoch_ns"

record TestClock =
  tc_now :: nat
  tc_unix_ms :: UnixMs

definition at_unix_ms :: "UnixMs \<Rightarrow> TestClock" where
  "at_unix_ms baseline = \<lparr>tc_now = 0, tc_unix_ms = baseline\<rparr>"

definition advance_by :: "nat \<Rightarrow> TestClock \<Rightarrow> TestClock" where
  "advance_by d c =
     \<lparr>tc_now = duration_saturating_add (tc_now c) d,
      tc_unix_ms = i64_sat_add (tc_unix_ms c) (i64_try_from_or_max (as_millis d))\<rparr>"

section \<open>The clocks of the scheduler\<close>

text \<open>\<open>ManualClock\<close> is its reading; sleeping moves it.\<close>

definition manual_new :: "UnixMs \<Rightarrow> UnixMs" where "manual_new start_ms = start_ms"

definition manual_set_unix_ms :: "UnixMs \<Rightarrow> UnixMs \<Rightarrow> UnixMs" where "manual_set_unix_ms ms c = ms"

definition manual_advance_ms :: "u32 \<Rightarrow> UnixMs \<Rightarrow> UnixMs" where
  "manual_advance_ms delta_ms c = i64_sat_add c (int delta_ms)"

definition manual_sleep_ms :: "u32 \<Rightarrow> UnixMs \<Rightarrow> UnixMs" where
  "manual_sleep_ms ms c = manual_advance_ms ms c"

text \<open>The production clock over the system time; a sleep lasts at least as long as asked, the
  excess is the scheduler of the operating system's.\<close>

definition system_sleep_ms :: "nat \<Rightarrow> u32 \<Rightarrow> int \<Rightarrow> int" where
  "system_sleep_ms excess_ns ms since_epoch_ns = since_epoch_ns + int ms * 1000000 + int excess_ns"

section \<open>Waiting for the kill switch\<close>

text \<open>One element per poll: whether the switch is engaged and whether the deadline has passed; \<open>None\<close>
  while the wait goes on.\<close>

fun wait_until_engaged :: "(bool \<times> bool) list \<Rightarrow> bool option" where
  "wait_until_engaged [] = None"
| "wait_until_engaged ((engaged, late) # polls) =
     (if engaged then Some True else if late then Some False else wait_until_engaged polls)"

section \<open>The contract\<close>

text \<open>What the scheduler relies on: a sleep never moves the reading back, and unless the reading has
  reached the end of its range it moves on by at least the time asked for.\<close>

locale runtime_clock =
  fixes unix_ms :: "'c \<Rightarrow> UnixMs" and sleep :: "u32 \<Rightarrow> 'c \<Rightarrow> 'c" and good :: "'c \<Rightarrow> bool"
  assumes good_sleep: "good c \<Longrightarrow> good (sleep ms c)"
    and in_range: "good c \<Longrightarrow> unix_ms c \<le> i64_max"
    and slept: "good c \<Longrightarrow> unix_ms (sleep ms c) \<ge> min i64_max (unix_ms c + int ms)"
begin

lemma sleeps_forward: "good c \<Longrightarrow> unix_ms (sleep ms c) \<ge> unix_ms c"
  using slept [of c ms] in_range [of c] by linarith

text \<open>A loop that sleeps after every turn.\<close>

lemma sleeps_add_up:
  "good c \<Longrightarrow> unix_ms (fold sleep mss c) \<ge> min i64_max (unix_ms c + int (sum_list mss))"
proof (induction mss arbitrary: c)
  case Nil
  then show ?case by simp
next
  case (Cons ms mss)
  have "unix_ms (fold sleep mss (sleep ms c)) \<ge> min i64_max (unix_ms (sleep ms c) + int (sum_list mss))"
    by (rule Cons.IH [OF good_sleep [OF Cons.prems]])
  with slept [OF Cons.prems, of ms] show ?case by simp
qed

end

interpretation manual_clock: runtime_clock "\<lambda>c. c" manual_sleep_ms "\<lambda>c. c \<le> i64_max"
  by unfold_locales (auto simp: manual_sleep_ms_def manual_advance_ms_def i64_sat_add_def sat_i64_def)

interpretation system_clock: runtime_clock system_unix_ms "system_sleep_ms excess" "\<lambda>c. 0 \<le> c" for excess
proof (unfold_locales, goal_cases)
  case (3 c ms)
  have "(nat c + ms * 1000000 + excess) div 1000000 \<ge> nat c div 1000000 + ms"
    using div_le_mono [of "nat c + ms * 1000000" "nat c + ms * 1000000 + excess" 1000000] by simp
  moreover have "nat (c + int ms * 1000000 + int excess) = nat c + ms * 1000000 + excess"
    using 3 by linarith
  ultimately show ?case
    using 3 by (auto simp: system_unix_ms_def system_sleep_ms_def i64_try_from_or_max_def as_millis_def)
qed (auto simp: system_unix_ms_def system_sleep_ms_def i64_try_from_or_max_def)

section \<open>Properties\<close>

text \<open>
  The scheduler's loop makes progress in time on both clocks: after any number of sleeps the
  reading has moved on by at least their sum, up to the end of its range; the test clock moves
  by exactly the sum.
\<close>

theorem clock_progress:
  "0 \<le> t \<Longrightarrow> system_unix_ms (fold (system_sleep_ms excess) mss t) \<ge> min i64_max (system_unix_ms t + int (sum_list mss)) \<and>
   (i64_min \<le> c \<and> c + int (sum_list mss) \<le> i64_max \<longrightarrow> fold manual_sleep_ms mss c = c + int (sum_list mss))"
proof (rule conjI)
  assume "0 \<le> t"
  then show "system_unix_ms (fold (system_sleep_ms excess) mss t) \<ge> min i64_max (system_unix_ms t + int (sum_list mss))"
    by (rule system_clock.sleeps_add_up)
next
  show "i64_min \<le> c \<and> c + int (sum_list mss) \<le> i64_max \<longrightarrow> fold manual_sleep_ms mss c = c + int (sum_list mss)"
    by (induction mss arbitrary: c) (auto simp: manual_sleep_ms_def manual_advance_ms_def i64_sat_add_def sat_i64_def)
qed

theorem clock_progress_witness: "fold manual_sleep_ms [100, 100, 50] 1000 = 1250"
  using clock_progress [where t = 0 and c = 1000 and mss = "[100, 100, 50]"] by simp

lemma advances_add_up:
  "n + sum_list ds \<le> duration_max \<Longrightarrow> 0 \<le> u \<Longrightarrow> u + int (sum_list (map as_millis ds)) \<le> i64_max \<Longrightarrow>
   fold advance_by ds \<lparr>tc_now = n, tc_unix_ms = u\<rparr>
     = \<lparr>tc_now = n + sum_list ds, tc_unix_ms = u + int (sum_list (map as_millis ds))\<rparr>"
proof (induction ds arbitrary: n u)
  case (Cons d ds)
  then have "advance_by d \<lparr>tc_now = n, tc_unix_ms = u\<rparr> = \<lparr>tc_now = n + d, tc_unix_ms = u + int (as_millis d)\<rparr>"
    by (simp add: advance_by_def duration_saturating_add_def i64_sat_add_def sat_i64_def i64_try_from_or_max_def)
  with Cons.IH [of "n + d" "u + int (as_millis d)"] Cons.prems show ?case by simp
qed simp

lemma millis_of_sum:
  "sum_list (map as_millis ds) \<le> as_millis (sum_list ds) \<and>
   as_millis (sum_list ds) \<le> sum_list (map as_millis ds) + length ds"
proof (induction ds)
  case (Cons d ds)
  have "(d mod 1000000 + sum_list ds mod 1000000) div 1000000 \<le> 1"
    using pos_mod_bound [of 1000000 d] pos_mod_bound [of 1000000 "sum_list ds"] by simp
  with Cons show ?case
    using div_add1_eq [of d "sum_list ds" 1000000] by (simp add: as_millis_def)
qed (simp add: as_millis_def)

text \<open>
  The two readings of the test clock drift apart.  \<open>now\<close> adds nanoseconds, \<open>unix_ms\<close> only whole
  milliseconds of every single advance: after \<open>n\<close> advances the wall clock lags behind by at most
  \<open>n\<close> milliseconds, and advances of half a millisecond never move it at all.
\<close>

theorem test_clock_drift:
  assumes "sum_list ds \<le> duration_max" "0 \<le> b" "b + int (as_millis (sum_list ds)) \<le> i64_max"
  shows "let c = fold advance_by ds (at_unix_ms b); lag = int (as_millis (tc_now c)) - (tc_unix_ms c - b) in
    tc_now c = sum_list ds \<and> 0 \<le> lag \<and> lag \<le> int (length ds) \<and>
    (set ds \<subseteq> {500000} \<longrightarrow> tc_unix_ms c = b)"
proof -
  let ?u = "int (sum_list (map as_millis ds))"
  have "fold advance_by ds (at_unix_ms b) = \<lparr>tc_now = sum_list ds, tc_unix_ms = b + ?u\<rparr>"
    using advances_add_up [of 0 ds b] millis_of_sum [of ds] assms by (simp add: at_unix_ms_def)
  moreover have "sum_list (map as_millis ds) = 0" if "set ds \<subseteq> {500000}"
    using that by (induction ds) (auto simp: as_millis_def)
  ultimately show ?thesis using millis_of_sum [of ds] by (simp add: Let_def)
qed

theorem test_clock_drift_witness:
  "tc_now (fold advance_by [500000, 500000] (at_unix_ms 7)) = 1000000 \<and>
   tc_unix_ms (fold advance_by [500000, 500000] (at_unix_ms 7)) = 7"
  using test_clock_drift [of "[500000, 500000]" 7]
  by (simp add: Let_def duration_max_def as_millis_def)

text \<open>
  The observer reports an engagement exactly when a poll sees it no later than the first poll after the deadline.
\<close>

theorem observer_exact:
  "wait_until_engaged (replicate n (False, False) @ (True, late) # rest) = Some True \<and>
   wait_until_engaged (replicate n (False, False) @ (False, True) # rest) = Some False"
  by (induction n) simp_all

end
