(* ===== verification/Wire.thy ===== *)
theory Wire
  imports Cli_Commands Ipc_Lemmas "HOL-Library.Monad_Syntax"
begin

text \<open>
  The wire format: the JSON documents of requests, responses, events and stream frames as the
  attributes on the types of \<open>vcli-ipc/src/wire\<close> and \<open>vcli-core\<close> prescribe them, and reading them back.
  Unknown fields are ignored, an absent or null optional field is \<open>None\<close>, an absent field with a
  default has its default.  Texts of JSON documents and of UUIDs are parameters.  The documents are
  objects; the positional form that derived readers accept besides is not part of the format.
\<close>

section \<open>Fields\<close>

record WireExt =
  wx_uuid :: "string \<Rightarrow> string option"
  wx_print :: "JsonValue \<Rightarrow> string + bytes"
  wx_parse :: "bytes \<Rightarrow> string + JsonValue"
  wx_mismatch :: string

text \<open>The JSON library reads back the documents it printed.\<close>

definition json_text_ok :: "WireExt \<Rightarrow> bool" where
  "json_text_ok W \<longleftrightarrow> (\<forall>v b. wx_print W v = Inr b \<longrightarrow> wx_parse W b = Inr v)"

definition field :: "string \<Rightarrow> (JsonValue \<Rightarrow> 'a option) \<Rightarrow> JsonValue \<Rightarrow> 'a option" where
  "field k f v = Option.bind (value_get k v) f"

definition field_opt :: "string \<Rightarrow> (JsonValue \<Rightarrow> 'a option) \<Rightarrow> JsonValue \<Rightarrow> 'a option option" where
  "field_opt k f v =
     (case value_get k v of
        None \<Rightarrow> Some None
      | Some x \<Rightarrow> if x = JNull then Some None else map_option Some (f x))"

definition field_default :: "string \<Rightarrow> 'a \<Rightarrow> (JsonValue \<Rightarrow> 'a option) \<Rightarrow> JsonValue \<Rightarrow> 'a option" where
  "field_default k d f v = (case value_get k v of None \<Rightarrow> Some d | Some x \<Rightarrow> f x)"

definition bool_from :: "JsonValue \<Rightarrow> bool option" where
  "bool_from v = (case v of JBool b \<Rightarrow> Some b | _ \<Rightarrow> None)"

definition int_from :: "int \<Rightarrow> int \<Rightarrow> JsonValue \<Rightarrow> int option" where
  "int_from lo hi v = (case v of JNumber (JInt n) \<Rightarrow> if lo \<le> n \<and> n \<le> hi then Some n else None | _ \<Rightarrow> None)"

definition u32_from :: "JsonValue \<Rightarrow> u32 option" where
  "u32_from v = map_option nat (int_from 0 (int u32_max) v)"

definition uuid_from :: "WireExt \<Rightarrow> JsonValue \<Rightarrow> string option" where
  "uuid_from W v = Option.bind (as_str v) (wx_uuid W)"

definition state_from :: "JsonValue \<Rightarrow> ProgramState option" where
  "state_from v = Option.bind (as_str v) (\<lambda>s. case state_from_str s of Inl _ \<Rightarrow> None | Inr st \<Rightarrow> Some st)"

definition point_from :: "JsonValue \<Rightarrow> Point option" where
  "point_from v = do {
     x \<leftarrow> field ''x'' (int_from i32_min i32_max) v;
     y \<leftarrow> field ''y'' (int_from i32_min i32_max) v;
     Some \<lparr>pt_x = x, pt_y = y\<rparr> }"

section \<open>Requests\<close>

fun op_tag :: "RequestOp \<Rightarrow> string" where
  "op_tag (Op_Submit _ _) = ''submit''"
| "op_tag (Op_List _) = ''list''"
| "op_tag (Op_Status _) = ''status''"
| "op_tag (Op_Cancel _) = ''cancel''"
| "op_tag (Op_Start _) = ''start''"
| "op_tag (Op_Resume _ _) = ''resume''"
| "op_tag (Op_Logs _ _) = ''logs''"
| "op_tag (Op_Events _) = ''events''"
| "op_tag (Op_Trace _) = ''trace''"
| "op_tag Op_Health = ''health''"
| "op_tag Op_Gc = ''gc''"
| "op_tag Op_Shutdown = ''shutdown''"

fun op_params :: "RequestOp \<Rightarrow> JsonValue option" where
  "op_params (Op_Submit prog dir) = Some (json_obj ((''program'', prog) # opt_field ''base_dir'' JString dir))"
| "op_params (Op_List state) = Some (json_obj (opt_field ''state'' JString state))"
| "op_params (Op_Status pid) = Some (json_obj [(''program_id'', JString pid)])"
| "op_params (Op_Cancel pid) = Some (json_obj [(''program_id'', JString pid)])"
| "op_params (Op_Start pid) = Some (json_obj [(''program_id'', JString pid)])"
| "op_params (Op_Resume pid b) = Some (json_obj [(''program_id'', JString pid), (''from_start'', JBool b)])"
| "op_params (Op_Logs pid b) = Some (json_obj [(''program_id'', JString pid), (''follow'', JBool b)])"
| "op_params (Op_Events b) = Some (json_obj [(''follow'', JBool b)])"
| "op_params (Op_Trace pid) = Some (json_obj [(''program_id'', JString pid)])"
| "op_params _ = None"

definition request_to_value :: "Request \<Rightarrow> JsonValue" where
  "request_to_value r =
     json_obj ([(''id'', JString (rq_id r)), (''op'', JString (op_tag (rq_op r)))]
               @ opt_field ''params'' (\<lambda>v. v) (op_params (rq_op r)))"

text \<open>An operation without parameters has none or null; the others need their object.\<close>

definition op_from_value :: "WireExt \<Rightarrow> JsonValue \<Rightarrow> RequestOp option" where
  "op_from_value W v = do {
     t \<leftarrow> field ''op'' as_str v;
     (let pid = field ''program_id'' (uuid_from W);
          plain = (\<lambda>op. if value_get ''params'' v \<in> {None, Some JNull} then Some op else None);
          params = (\<lambda>f. field ''params'' (\<lambda>q. case q of JObject _ \<Rightarrow> f q | _ \<Rightarrow> None) v)
      in if t = ''submit'' then params (\<lambda>q. do {
              prog \<leftarrow> value_get ''program'' q; dir \<leftarrow> field_opt ''base_dir'' as_str q; Some (Op_Submit prog dir) })
         else if t = ''list'' then params (\<lambda>q. map_option Op_List (field_opt ''state'' as_str q))
         else if t = ''status'' then params (\<lambda>q. map_option Op_Status (pid q))
         else if t = ''cancel'' then params (\<lambda>q. map_option Op_Cancel (pid q))
         else if t = ''start'' then params (\<lambda>q. map_option Op_Start (pid q))
         else if t = ''resume'' then params (\<lambda>q. do {
              p \<leftarrow> pid q; b \<leftarrow> field_default ''from_start'' False bool_from q; Some (Op_Resume p b) })
         else if t = ''logs'' then params (\<lambda>q. do {
              p \<leftarrow> pid q; b \<leftarrow> field_default ''follow'' False bool_from q; Some (Op_Logs p b) })
         else if t = ''events'' then params (\<lambda>q. map_option Op_Events (field_default ''follow'' False bool_from q))
         else if t = ''trace'' then params (\<lambda>q. map_option Op_Trace (pid q))
         else if t = ''health'' then plain Op_Health
         else if t = ''gc'' then plain Op_Gc
         else if t = ''shutdown'' then plain Op_Shutdown
         else None) }"

definition request_from_value :: "WireExt \<Rightarrow> JsonValue \<Rightarrow> Request option" where
  "request_from_value W v = do {
     i \<leftarrow> field ''id'' (uuid_from W) v;
     op \<leftarrow> op_from_value W v;
     Some \<lparr>rq_id = i, rq_op = op\<rparr> }"

section \<open>Responses\<close>

definition payload_to_value :: "ErrorPayload \<Rightarrow> JsonValue" where
  "payload_to_value e =
     json_obj ([(''code'', JString (error_code_as_str (ep_code e))), (''message'', JString (ep_message e))]
       @ opt_field ''path'' JString (ep_path e) @ opt_field ''line'' jnat (ep_line e)
       @ opt_field ''column'' jnat (ep_column e) @ opt_field ''span_len'' jnat (ep_span_len e)
       @ opt_field ''hint'' JString (ep_hint e))"

definition error_code_from :: "JsonValue \<Rightarrow> ErrorCode option" where
  "error_code_from v = Option.bind (as_str v) (\<lambda>s. List.find (\<lambda>c. error_code_as_str c = s)
     [InvalidProgram, UnknownProgram, BadStateTransition, PermissionDenied, CaptureFailed, DaemonBusy,
      NotResumable, ResumePreconditionFailed, Internal])"

definition payload_from_value :: "JsonValue \<Rightarrow> ErrorPayload option" where
  "payload_from_value v = do {
     c \<leftarrow> field ''code'' error_code_from v;
     m \<leftarrow> field ''message'' as_str v;
     p \<leftarrow> field_opt ''path'' as_str v;
     l \<leftarrow> field_opt ''line'' u32_from v;
     col \<leftarrow> field_opt ''column'' u32_from v;
     n \<leftarrow> field_opt ''span_len'' u32_from v;
     h \<leftarrow> field_opt ''hint'' as_str v;
     Some \<lparr>ep_code = c, ep_message = m, ep_path = p, ep_line = l, ep_column = col, ep_span_len = n, ep_hint = h\<rparr> }"

definition ok_flag_from :: "JsonValue \<Rightarrow> unit option" where
  "ok_flag_from v = do { b \<leftarrow> bool_from v; if b then Some () else None }"

definition err_flag_from :: "JsonValue \<Rightarrow> unit option" where
  "err_flag_from v = do { b \<leftarrow> bool_from v; if b then None else Some () }"

definition response_to_value :: "Response \<Rightarrow> JsonValue" where
  "response_to_value r =
     json_obj ((''id'', JString (rs_id r)) #
       (case rs_body r of
          RB_Ok result \<Rightarrow> [(''ok'', JBool True), (''result'', result)]
        | RB_Err e \<Rightarrow> [(''ok'', JBool False), (''error'', payload_to_value e)]))"

text \<open>The body has no tag: the variants are tried in their order.\<close>

definition response_from_value :: "WireExt \<Rightarrow> JsonValue \<Rightarrow> Response option" where
  "response_from_value W v = do {
     i \<leftarrow> field ''id'' (uuid_from W) v;
     b \<leftarrow> (case do { _ \<leftarrow> field ''ok'' ok_flag_from v; value_get ''result'' v } of
             Some result \<Rightarrow> Some (RB_Ok result)
           | None \<Rightarrow> do { _ \<leftarrow> field ''ok'' err_flag_from v;
                          map_option RB_Err (field ''error'' payload_from_value v) });
     Some \<lparr>rs_id = i, rs_body = b\<rparr> }"

section \<open>Events and stream frames\<close>

definition event_to_value :: "Event \<Rightarrow> JsonValue" where
  "event_to_value ev =
     json_obj ([(''at'', jint (ev_at ev)), (''type'', JString (event_type_tag (ev_data ev)))] @ event_fields (ev_data ev))"

definition event_data_from_value :: "WireExt \<Rightarrow> JsonValue \<Rightarrow> EventData option" where
  "event_data_from_value W v = do {
     t \<leftarrow> field ''type'' as_str v;
     (let pid = field ''program_id'' (uuid_from W) v; str = (\<lambda>k. field k as_str v); num = (\<lambda>k. field k u32_from v)
      in if t = ''program.submitted'' then do { p \<leftarrow> pid; n \<leftarrow> str ''name''; Some (ProgramSubmitted p n) }
         else if t = ''program.state_changed'' then do {
           p \<leftarrow> pid; a \<leftarrow> field ''from'' state_from v; b \<leftarrow> field ''to'' state_from v; r \<leftarrow> str ''reason'';
           Some (ProgramStateChanged p a b r) }
         else if t = ''program.completed'' then do {
           p \<leftarrow> pid; e \<leftarrow> field_opt ''emit'' as_str v; Some (ProgramCompleted p e) }
         else if t = ''program.failed'' then do {
           p \<leftarrow> pid; r \<leftarrow> str ''reason''; s \<leftarrow> field_opt ''step'' as_str v; e \<leftarrow> field_opt ''emit'' as_str v;
           Some (ProgramFailed p r s e) }
         else if t = ''program.resumed'' then do { p \<leftarrow> pid; n \<leftarrow> num ''from_step''; Some (ProgramResumed p n) }
         else if t = ''watch.fired'' then do {
           p \<leftarrow> pid; i \<leftarrow> num ''watch_index''; q \<leftarrow> str ''predicate''; Some (WatchFired p i q) }
         else if t = ''action.dispatched'' then do {
           p \<leftarrow> pid; s \<leftarrow> value_get ''step'' v; pt \<leftarrow> field_opt ''target'' point_from v; Some (ActionDispatched p s pt) }
         else if t = ''action.deferred'' then do {
           p \<leftarrow> pid; s \<leftarrow> value_get ''step'' v; r \<leftarrow> value_get ''reason'' v; Some (ActionDeferred p s r) }
         else if t = ''tick.frame_skipped'' then map_option TickFrameSkipped (str ''reason'')
         else if t = ''daemon.pressure'' then map_option DaemonPressure (num ''tick_budget_ms'')
         else if t = ''stream.dropped'' then do {
           n \<leftarrow> num ''count''; s \<leftarrow> field ''since'' (int_from i64_min i64_max) v; Some (StreamDropped n s) }
         else if t = ''capture.permission_missing'' then map_option CapturePermissionMissing (str ''backend'')
         else if t = ''daemon.started'' then map_option DaemonStarted (str ''version'')
         else if t = ''daemon.stopped'' then Some DaemonStopped
         else None) }"

definition event_from_value :: "WireExt \<Rightarrow> JsonValue \<Rightarrow> Event option" where
  "event_from_value W v = do {
     t \<leftarrow> field ''at'' (int_from i64_min i64_max) v;
     d \<leftarrow> event_data_from_value W v;
     Some \<lparr>ev_at = t, ev_data = d\<rparr> }"

fun stream_kind_str :: "StreamKind \<Rightarrow> string" where
  "stream_kind_str SK_Events = ''events''"
| "stream_kind_str SK_Trace = ''trace''"

definition stream_kind_from :: "JsonValue \<Rightarrow> StreamKind option" where
  "stream_kind_from v = Option.bind (as_str v)
     (\<lambda>s. if s = ''events'' then Some SK_Events else if s = ''trace'' then Some SK_Trace else None)"

definition frame_to_value :: "StreamFrame \<Rightarrow> JsonValue" where
  "frame_to_value f =
     json_obj ([(''id'', JString (sf_id f)), (''stream'', JString (stream_kind_str (sf_stream f)))]
       @ (if sf_end f then [(''end'', JBool True)] else [])
       @ opt_field ''event'' event_to_value (sf_event f) @ opt_field ''trace'' (\<lambda>v. v) (sf_trace f))"

definition frame_from_value :: "WireExt \<Rightarrow> JsonValue \<Rightarrow> StreamFrame option" where
  "frame_from_value W v = do {
     i \<leftarrow> field ''id'' (uuid_from W) v;
     k \<leftarrow> field ''stream'' stream_kind_from v;
     e \<leftarrow> field_default ''end'' False bool_from v;
     ev \<leftarrow> field_opt ''event'' (event_from_value W) v;
     tr \<leftarrow> field_opt ''trace'' Some v;
     Some \<lparr>sf_id = i, sf_stream = k, sf_end = e, sf_event = ev, sf_trace = tr\<rparr> }"

end
