(* ===== verification/Wire_Props.thy ===== *)
theory Wire_Props
  imports Wire Daemon
begin

text \<open>
  The wire format is lossless: what the types of the wire become as documents is read back as what it
  was.  A format is the locale \<open>wire_format\<close>, interpreted on every type that crosses the socket.
\<close>

section \<open>Reading fields\<close>

lemma map_of_inserts: "map_of (fold (\<lambda>(k, v) m. btree_insert k v m) kvs m) k = (map_of m ++ map_of (rev kvs)) k"
  by (induction kvs arbitrary: m) (auto simp: map_of_btree_insert map_add_def split: option.splits)

lemma value_get_obj [simp]: "value_get k (json_obj kvs) = map_of (rev kvs) k"
  using map_of_inserts [of kvs "[]" k] by (simp add: value_get_def json_obj_def)

lemma json_obj_not_null [simp]: "json_obj kvs \<noteq> JNull" by (simp add: json_obj_def)

lemma json_obj_case [simp]: "(case json_obj kvs of JObject _ \<Rightarrow> f (json_obj kvs) | _ \<Rightarrow> None) = f (json_obj kvs)"
  by (simp add: json_obj_def)

lemma opt_field_get [simp]: "map_of (rev (opt_field k f v)) k' = (if k = k' then map_option f v else None)"
  by (simp add: opt_field_def split: option.split)

lemma int_from_jint [simp]: "int_from lo hi (jint n) = (if lo \<le> n \<and> n \<le> hi then Some n else None)"
  by (simp add: int_from_def jint_def)

lemma u32_from_jnat [simp]: "u32_from (jnat n) = (if n \<le> u32_max then Some n else None)"
  by (simp add: u32_from_def int_from_def jnat_def)

lemma scalar_from [simp]:
  "bool_from (JBool b) = Some b" "as_str (JString s) = Some s" "uuid_from W (JString s) = wx_uuid W s"
  "state_from (JString (state_as_str st)) = Some st" "jnat n \<noteq> JNull"
  by (simp_all add: bool_from_def as_str_def uuid_from_def state_from_def state_from_as_str jnat_def)

lemma error_code_round [simp]: "error_code_from (JString (error_code_as_str c)) = Some c"
  by (cases c) (simp_all add: error_code_from_def)

lemma stream_kind_round [simp]: "stream_kind_from (JString (stream_kind_str k)) = Some k"
  by (cases k) (simp_all add: stream_kind_from_def)

text \<open>A field that a document certainly has or has not.\<close>

lemmas fields = field_def field_opt_def field_default_def map_add_def

section \<open>Values of the source's types\<close>

definition point_typed :: "Point \<Rightarrow> bool" where
  "point_typed p \<longleftrightarrow> is_i32 (pt_x p) \<and> is_i32 (pt_y p)"

lemma point_round: "point_typed p \<Longrightarrow> point_from (point_to_value p) = Some p"
  by (simp add: point_typed_def is_i32_def point_from_def point_to_value_def fields)

lemma point_not_null [simp]: "point_to_value p \<noteq> JNull" by (simp add: point_to_value_def)

fun data_typed :: "WireExt \<Rightarrow> EventData \<Rightarrow> bool" where
  "data_typed W (ProgramResumed p n) \<longleftrightarrow> wx_uuid W p = Some p \<and> n \<le> u32_max"
| "data_typed W (WatchFired p i _) \<longleftrightarrow> wx_uuid W p = Some p \<and> i \<le> u32_max"
| "data_typed W (ActionDispatched p _ t) \<longleftrightarrow> wx_uuid W p = Some p \<and> (case t of None \<Rightarrow> True | Some x \<Rightarrow> point_typed x)"
| "data_typed W (DaemonPressure n) \<longleftrightarrow> n \<le> u32_max"
| "data_typed W (StreamDropped n t) \<longleftrightarrow> n \<le> u32_max \<and> is_i64 t"
| "data_typed W d \<longleftrightarrow> (case program_id_of d of None \<Rightarrow> True | Some p \<Rightarrow> wx_uuid W p = Some p)"

definition event_typed :: "WireExt \<Rightarrow> Event \<Rightarrow> bool" where
  "event_typed W ev \<longleftrightarrow> is_i64 (ev_at ev) \<and> data_typed W (ev_data ev)"

fun op_typed :: "WireExt \<Rightarrow> RequestOp \<Rightarrow> bool" where
  "op_typed W (Op_Status p) \<longleftrightarrow> wx_uuid W p = Some p"
| "op_typed W (Op_Cancel p) \<longleftrightarrow> wx_uuid W p = Some p"
| "op_typed W (Op_Start p) \<longleftrightarrow> wx_uuid W p = Some p"
| "op_typed W (Op_Resume p _) \<longleftrightarrow> wx_uuid W p = Some p"
| "op_typed W (Op_Logs p _) \<longleftrightarrow> wx_uuid W p = Some p"
| "op_typed W (Op_Trace p) \<longleftrightarrow> wx_uuid W p = Some p"
| "op_typed W _ \<longleftrightarrow> True"

definition request_typed :: "WireExt \<Rightarrow> Request \<Rightarrow> bool" where
  "request_typed W r \<longleftrightarrow> wx_uuid W (rq_id r) = Some (rq_id r) \<and> op_typed W (rq_op r)"

definition payload_typed :: "ErrorPayload \<Rightarrow> bool" where
  "payload_typed e \<longleftrightarrow> (\<forall>n \<in> set_option (ep_line e) \<union> set_option (ep_column e) \<union> set_option (ep_span_len e). n \<le> u32_max)"

definition response_typed :: "WireExt \<Rightarrow> Response \<Rightarrow> bool" where
  "response_typed W r \<longleftrightarrow> wx_uuid W (rs_id r) = Some (rs_id r) \<and>
     (case rs_body r of RB_Ok _ \<Rightarrow> True | RB_Err e \<Rightarrow> payload_typed e)"

definition frame_typed :: "WireExt \<Rightarrow> StreamFrame \<Rightarrow> bool" where
  "frame_typed W f \<longleftrightarrow> wx_uuid W (sf_id f) = Some (sf_id f) \<and>
     (case sf_event f of None \<Rightarrow> True | Some ev \<Rightarrow> event_typed W ev)"

section \<open>Round trips of documents\<close>

lemma op_round: "op_typed W (rq_op r) \<Longrightarrow> op_from_value W (request_to_value r) = Some (rq_op r)"
  by (cases "rq_op r") (auto simp: op_from_value_def request_to_value_def fields Let_def split: option.split)

lemma request_round: "request_typed W r \<Longrightarrow> request_from_value W (request_to_value r) = Some r"
  using op_round [of W r]
  by (simp add: request_typed_def request_from_value_def) (simp add: request_to_value_def fields)

lemma payload_round: "payload_typed e \<Longrightarrow> payload_from_value (payload_to_value e) = Some e"
  by (cases "ep_path e"; cases "ep_line e"; cases "ep_column e"; cases "ep_span_len e"; cases "ep_hint e")
     (simp_all add: payload_from_value_def payload_to_value_def payload_typed_def fields)

lemma response_round: "response_typed W r \<Longrightarrow> response_from_value W (response_to_value r) = Some r"
  by (cases "rs_body r")
     (simp_all add: response_from_value_def response_to_value_def response_typed_def fields payload_round
       ok_flag_from_def err_flag_from_def)

lemma data_round:
  "data_typed W (ev_data ev) \<Longrightarrow> event_data_from_value W (event_to_value ev) = Some (ev_data ev)"
  by (cases "ev_data ev")
     (auto simp: event_data_from_value_def event_to_value_def fields Let_def point_round is_i64_def split: option.splits)

lemma event_at: "field ''at'' f (event_to_value ev) = f (jint (ev_at ev))"
  by (cases "ev_data ev") (auto simp: event_to_value_def fields split: option.split)

lemma event_round: "event_typed W ev \<Longrightarrow> event_from_value W (event_to_value ev) = Some ev"
  using data_round [of W ev] by (simp add: event_typed_def event_from_value_def event_at is_i64_def)

lemma event_not_null [simp]: "event_to_value ev \<noteq> JNull" by (simp add: event_to_value_def)

lemma frame_round:
  "frame_typed W f \<Longrightarrow>
   frame_from_value W (frame_to_value f) = Some (f\<lparr>sf_trace := if sf_trace f = Some JNull then None else sf_trace f\<rparr>)"
  by (cases "sf_event f"; cases "sf_trace f"; cases "sf_end f")
     (simp_all add: frame_from_value_def frame_to_value_def frame_typed_def fields event_round)

section \<open>Formats\<close>

definition write_text :: "WireExt \<Rightarrow> ('a \<Rightarrow> bool) \<Rightarrow> ('a \<Rightarrow> JsonValue) \<Rightarrow> 'a encoder" where
  "write_text W typed doc v = (if typed v then wx_print W (doc v) else Inl (wx_mismatch W))"

definition read_text :: "WireExt \<Rightarrow> (JsonValue \<Rightarrow> 'a option) \<Rightarrow> 'a decoder" where
  "read_text W load b =
     (case wx_parse W b of
        Inl e \<Rightarrow> Inl e
      | Inr v \<Rightarrow> (case load v of None \<Rightarrow> Inl (wx_mismatch W) | Some x \<Rightarrow> Inr x))"

locale wire_format =
  fixes doc :: "'a \<Rightarrow> JsonValue" and load :: "JsonValue \<Rightarrow> 'a option" and typed :: "'a \<Rightarrow> bool" and norm :: "'a \<Rightarrow> 'a"
  assumes round: "typed v \<Longrightarrow> load (doc v) = Some (norm v)"
begin

lemma unambiguous: "typed v \<Longrightarrow> typed w \<Longrightarrow> doc v = doc w \<Longrightarrow> norm v = norm w"
  by (metis option.inject round)

lemma text_round: "json_text_ok W \<Longrightarrow> write_text W typed doc v = Inr b \<Longrightarrow> read_text W load b = Inr (norm v)"
  by (auto simp: json_text_ok_def write_text_def read_text_def round split: if_splits)

end

text \<open>A null trace record is the one thing that is lost.\<close>

definition frame_norm :: "StreamFrame \<Rightarrow> StreamFrame" where
  "frame_norm f = f\<lparr>sf_trace := if sf_trace f = Some JNull then None else sf_trace f\<rparr>"

interpretation requests: wire_format request_to_value "request_from_value W" "request_typed W" "\<lambda>r. r" for W
  by unfold_locales (rule request_round)

interpretation responses: wire_format response_to_value "response_from_value W" "response_typed W" "\<lambda>r. r" for W
  by unfold_locales (rule response_round)

interpretation events: wire_format event_to_value "event_from_value W" "event_typed W" "\<lambda>e. e" for W
  by unfold_locales (rule event_round)

interpretation frames: wire_format frame_to_value "frame_from_value W" "frame_typed W" frame_norm for W
  by unfold_locales (simp add: frame_round frame_norm_def)

text \<open>The codec of the socket.  Identifiers are texts in the model; one that is no UUID is no value of the
  source's type, and neither is a number out of its range.\<close>

definition wire_codec :: "WireExt \<Rightarrow> Codec" where
  "wire_codec W =
     \<lparr>cd_enc_request = write_text W (request_typed W) request_to_value,
      cd_dec_request = read_text W (request_from_value W),
      cd_enc_response = write_text W (response_typed W) response_to_value,
      cd_dec_response = read_text W (response_from_value W),
      cd_enc_frame = write_text W (frame_typed W) frame_to_value,
      cd_dec_frame = read_text W (frame_from_value W)\<rparr>"

section \<open>Properties\<close>

text \<open>
  C29. The wire loses nothing.  Over any JSON library that reads back the documents it printed, the format
  of the wire types satisfies what server and client rely on: every request, every response and every stream
  frame is read as what was sent; the one exception is a frame with a null trace record, which
  arrives without one.  Two different requests never have the same document.
\<close>

theorem wire_lossless:
  assumes "json_text_ok W"
  shows "codec_ok (wire_codec W) \<and>
    (\<forall>f b. cd_enc_frame (wire_codec W) f = Inr b \<longrightarrow>
       cd_dec_frame (wire_codec W) b = Inr (f\<lparr>sf_trace := if sf_trace f = Some JNull then None else sf_trace f\<rparr>)) \<and>
    (\<forall>r r'. request_typed W r \<and> request_typed W r' \<and> request_to_value r = request_to_value r' \<longrightarrow> r = r')"
proof -
  have "cd_dec_frame (wire_codec W) b = Inr (frame_norm f)" if "cd_enc_frame (wire_codec W) f = Inr b" for f b
    using frames.text_round [OF assms, of W f b] that by (simp add: wire_codec_def)
  moreover have "frame_norm f = f" if "sf_trace f \<noteq> Some JNull" for f
    using that by (simp add: frame_norm_def)
  ultimately show ?thesis
    using requests.text_round [OF assms] responses.text_round [OF assms] requests.unambiguous
    by (auto simp: codec_ok_def frame_norm_def) (auto simp: wire_codec_def)
qed

text \<open>A library that prints two documents.\<close>

definition demo_wire_request :: Request where "demo_wire_request = \<lparr>rq_id = ''r'', rq_op = Op_Resume ''p'' True\<rparr>"

definition demo_wire :: WireExt where
  "demo_wire =
     \<lparr>wx_uuid = Some, wx_print = (\<lambda>v. if v = request_to_value demo_wire_request then Inr [7] else Inl ''no''),
      wx_parse = (\<lambda>b. if b = [7] then Inr (request_to_value demo_wire_request) else Inl ''no''), wx_mismatch = ''mismatch''\<rparr>"

theorem wire_lossless_witness:
  "cd_enc_request (wire_codec demo_wire) demo_wire_request = Inr [7] \<and>
   cd_dec_request (wire_codec demo_wire) [7] = Inr demo_wire_request"
proof -
  have "json_text_ok demo_wire" by (simp add: json_text_ok_def demo_wire_def)
  moreover have "cd_enc_request (wire_codec demo_wire) demo_wire_request = Inr [7]"
    by (simp add: wire_codec_def write_text_def request_typed_def demo_wire_def demo_wire_request_def)
  ultimately show ?thesis using wire_lossless [of demo_wire] by (auto simp: codec_ok_def)
qed

text \<open>
  An answer is never misread: whatever document arrives, it is read as a success only if its flag is
  true and it has a result, which is the result read, and as a failure only if its flag is false and it has a
  well-formed error.
\<close>

theorem response_never_misread:
  assumes "response_from_value W v = Some r"
  shows "case rs_body r of
      RB_Ok x \<Rightarrow> value_get ''ok'' v = Some (JBool True) \<and> value_get ''result'' v = Some x
    | RB_Err e \<Rightarrow> value_get ''ok'' v = Some (JBool False) \<and> field ''error'' payload_from_value v = Some e"
  using assms
  by (auto simp: response_from_value_def field_def ok_flag_from_def err_flag_from_def bool_from_def
      split: option.splits bind_splits JsonValue.splits if_splits)

theorem response_never_misread_witness:
  "value_get ''ok'' (response_to_value (response_ok ''r'' JNull)) = Some (JBool True)"
  using response_never_misread [OF response_round [of demo_wire "response_ok ''r'' JNull"]]
  by (simp add: response_typed_def response_ok_def demo_wire_def)

end
