(* ===== verification/Daemon_Log.thy ===== *)
theory Daemon_Log
  imports Daemon_Props
begin

text \<open>
  From the scheduler's events to the client: what the pump stored of them is what \<open>logs\<close> and
  \<open>events\<close> give without \<open>follow\<close> (\<open>persist.rs\<close>, \<open>events.rs\<close>, \<open>handler.rs\<close>).
\<close>

section \<open>The log as a list of events\<close>

definition logs_row :: "StoreExt \<Rightarrow> StoredEvent \<Rightarrow> Event \<Rightarrow> bool" where
  "logs_row X row ev \<longleftrightarrow> se_data_json row = ext_event_json X ev \<and> program_id_of (ev_data ev) = Some (se_program_id row)"

definition log_holds :: "StoreExt \<Rightarrow> Store \<Rightarrow> Event list \<Rightarrow> bool" where
  "log_holds X s es \<longleftrightarrow> list_all2 (logs_row X) (st_events s) es \<and> sorted (map se_id (st_events s)) \<and>
     (\<forall>row \<in> set (st_events s). 0 < se_id row \<and> se_id row \<le> st_event_seq s)"

text \<open>Stored events can be read: the text of an event is read as that event.\<close>

definition readable :: "StoreExt \<Rightarrow> Event \<Rightarrow> bool" where
  "readable X ev \<longleftrightarrow> ext_event_parse X (ext_event_json X ev) = Some ev"

lemma log_holds_persist:
  assumes "log_holds X s es" "0 \<le> st_event_seq s" "st_event_seq s < i64_max"
  shows "log_holds X (persist_event X ev s) (es @ (if scoped s ev then [ev] else []))"
proof (cases "program_id_of (ev_data ev)")
  case None
  then show ?thesis using assms(1) by (simp add: persist_event_def scoped_def)
next
  case (Some pid)
  let ?s = "append_logged X pid ev s"
  have "st_events (persist_event X ev s) = st_events ?s" "st_event_seq (persist_event X ev s) = st_event_seq ?s"
    using Some by (simp_all add: persist_event_def persist_log_append)
  moreover have "log_holds X ?s (es @ (if scoped s ev then [ev] else []))"
    using assms Some
    by (auto simp: append_logged_def append_event_def Let_def new_event_row_def log_holds_def logs_row_def scoped_def
        list_all2_appendI sorted_append)
  ultimately show ?thesis by (simp add: log_holds_def)
qed

lemma log_holds_pump:
  "log_holds X s es \<Longrightarrow> 0 \<le> st_event_seq s \<Longrightarrow> st_event_seq s + int (length evs) \<le> i64_max \<Longrightarrow>
   log_holds X (fold (persist_event X) evs s) (es @ filter (scoped s) evs)"
proof (induction evs arbitrary: s es)
  case (Cons e evs)
  let ?s = "persist_event X e s"
  have lt: "st_event_seq s < i64_max" using Cons.prems(3) by simp
  have seq: "st_event_seq ?s \<ge> st_event_seq s" "st_event_seq ?s + int (length evs) \<le> i64_max"
    using persist_log(2) [OF lt, of X e] Cons.prems(3)
    by (auto simp: persist_event_def persist_log_append append_logged_def append_event_def Let_def split: option.split)
  from Cons.IH [OF log_holds_persist [OF Cons.prems(1,2) lt] _ seq(2)] Cons.prems(2) seq(1) show ?case
    using scoped_persist [of X e s] by (simp add: fun_eq_iff split: if_splits)
qed simp

lemma stream_whole_log:
  assumes "log_holds X s es"
  shows "stream_events s 0 n = take n (st_events s)"
proof -
  have "filter (\<lambda>e. 0 < se_id e) (st_events s) = st_events s"
    using assms by (auto simp: log_holds_def filter_id_conv)
  with assms show ?thesis by (simp add: stream_events_def log_holds_def sort_key_id_if_sorted)
qed

lemma history_of_log:
  "list_all2 (logs_row X) rows es \<Longrightarrow> \<forall>e \<in> set es. readable X e \<Longrightarrow>
   history_frames X i fp rows = map (event_frame i) (filter (\<lambda>e. case fp of None \<Rightarrow> True | Some p \<Rightarrow> program_id_of (ev_data e) = Some p) es)"
  by (induction rule: list_all2_induct)
     (auto simp: history_frames_def logs_row_def readable_def split: option.splits)

section \<open>Properties\<close>

text \<open>
  C9. The log tells what happened.  Let the event pump consume any events on a store whose log holds
  \<open>old\<close>: \<open>vcli logs\<close> of a program then receives exactly the events of that program among the first ten thousand
  of the old events and the new ones of stored programs, in the order in which the scheduler
  sent them; \<open>vcli events\<close> receives all of these.
\<close>

theorem log_tells_what_happened:
  assumes "log_holds X s old" "0 \<le> st_event_seq s" "st_event_seq s + int (length evs) \<le> i64_max"
    and "dx_store (de_ext E) = X" "\<forall>e \<in> set old \<union> set evs. readable X e"
    and "dm_store d = fst (event_pump X evs (s, []))" "\<not> dm_poisoned d"
  shows "let seen = take 10000 (old @ filter (scoped s) evs) in
    fst (daemon_handle_stream E i (Op_Logs pid False) d) =
      map (event_frame i) (filter (\<lambda>e. program_id_of (ev_data e) = Some pid) seen) \<and>
    fst (daemon_handle_stream E i (Op_Events False) d) = map (event_frame i) seen"
proof -
  define whole where "whole = old @ filter (scoped s) evs"
  have "log_holds X (dm_store d) whole"
    using log_holds_pump [OF assms(1-3)] by (simp add: assms(6) pump_split whole_def)
  then have rows: "stream_events (dm_store d) 0 10000 = take 10000 (st_events (dm_store d))"
    "list_all2 (logs_row X) (take 10000 (st_events (dm_store d))) (take 10000 whole)"
    by (auto simp: stream_whole_log log_holds_def list_all2_takeI)
  moreover have "\<forall>e \<in> set (take 10000 whole). readable X e"
    using assms(5) by (auto simp: whole_def dest!: in_set_takeD simp del: take_append)
  ultimately show ?thesis
    using history_of_log [OF rows(2)] assms(4,7)
    unfolding whole_def [symmetric]
    by (simp add: daemon_handle_stream_def daemon_stream_events_def with_store_def Let_def)
qed

definition demo_submitted :: Event where "demo_submitted = \<lparr>ev_at = 3, ev_data = ProgramSubmitted ''p1'' ''n''\<rparr>"

definition demo_log_env :: DaemonEnv where
  "demo_log_env = (demo_denv demo_program)\<lparr>de_ext := (de_ext (demo_denv demo_program))\<lparr>dx_store :=
     demo_sx\<lparr>ext_event_parse := (\<lambda>t. if t = ''program.submitted'' then Some demo_submitted else None)\<rparr>\<rparr>\<rparr>"

theorem log_tells_what_happened_witness:
  "fst (daemon_handle_stream demo_log_env ''r'' (Op_Logs ''p1'' False)
     (demo_daemon (fst (event_pump (dx_store (de_ext demo_log_env)) [demo_submitted] (demo_rows, [])))))
   = [event_frame ''r'' demo_submitted]"
proof -
  have empty: "log_holds X demo_rows []" "st_event_seq demo_rows = 0" for X
    by (simp_all add: log_holds_def demo_rows_def demo_opened_def fresh_disk_def)
  have "readable (dx_store (de_ext demo_log_env)) demo_submitted"
    by (simp add: readable_def demo_log_env_def demo_sx_def demo_submitted_def)
  moreover have "scoped demo_rows demo_submitted" by (simp add: scoped_def demo_submitted_def demo_row_found)
  ultimately show ?thesis
    using log_tells_what_happened [OF empty(1), of "[demo_submitted]" demo_log_env
        "dx_store (de_ext demo_log_env)" "demo_daemon (fst (event_pump (dx_store (de_ext demo_log_env)) [demo_submitted] (demo_rows, [])))" "''r''" "''p1''"]
    by (simp add: empty(2) demo_daemon_def demo_submitted_def Let_def)
qed

end
