(* ===== verification/Spec2Isabelle.thy ===== *)
theory Spec2Isabelle
  imports Sched_Props Dsl_Props Perception_Props Runtime_Props Daemon_Props Daemon_Run_Props
    Capture_Props Mac_Input_Props Cli_Props Daemon_System_Props Ipc_Server_Props Clocks Wire_Props Daemon_Log
begin

text \<open>
  \<^bold>\<open>The program.\<close> vcli is a daemon that runs small programs against the screen. A program
  (JSON) names visual predicates, watches that act when a predicate becomes true, and a body of steps. A client
  submits it over a Unix socket (\<open>vcli-ipc\<close>); the request handler (\<open>vcli-daemon\<close>)
  validates it (\<open>vcli-dsl\<close>), stores it with its template images (\<open>vcli-store\<close>) and
  sends a command to the scheduler thread (\<open>vcli-runtime\<close>). Every tick the scheduler takes a frame
  (\<open>vcli-capture\<close>), evaluates triggers and watches (\<open>vcli-perception\<close>), lets the
  arbiter choose one program to act, drives the input sink (\<open>vcli-input\<close>) and advances bodies. What
  happens is sent as events, which the event pump of the daemon persists and then broadcasts to the streaming
  clients. The command line (\<open>vcli-cli\<close>) is one such client; it also starts and stops the daemon
  process, of which a pid file allows one.

  \<^bold>\<open>Theories and sources\<close> (paths below \<open>src/crates\<close>):

  \<^item> \<open>Prelude\<close>: machine integers, byte strings, the standard-library functions the code
    calls, ordered maps (locale \<open>ordered_map\<close>, interpreted on \<open>btree\<close>).
  \<^item> \<open>Core_Types\<close>, \<open>Canonical\<close>, \<open>Serde\<close>: \<open>vcli-core\<close>,
    its data types, canonical JSON with SHA-256, and the derived serialisation.  \<open>Canonical_Lemmas\<close>
    has the facts on both.
  \<^item> \<open>Dsl_Base\<close>, \<open>Dsl_Predicates\<close>, \<open>Dsl_Validate\<close>:
    \<open>vcli-dsl\<close>, one definition per function of \<open>path.rs\<close>, \<open>error.rs\<close>,
    \<open>hint.rs\<close>, \<open>expression.rs\<close>, \<open>predicates.rs\<close>, \<open>steps.rs\<close>,
    \<open>triggers.rs\<close>, \<open>watches.rs\<close>, \<open>hash.rs\<close>, \<open>parse.rs\<close> and
    \<open>lib.rs\<close>; lemmas in \<open>Dsl_Lemmas\<close>.
  \<^item> \<open>Frame_View\<close>, \<open>Perception\<close>: \<open>vcli-perception\<close>, pixel access,
    the seven evaluators, the per-tick cache and the state kept across ticks.
  \<^item> \<open>Capture\<close>: \<open>vcli-capture\<close>, the mock, the conversion and halving of pixel
    buffers (\<open>macos/convert.rs\<close>), windows and grabs of \<open>macos/sck.rs\<close>. The contract of
    a backend is the locale \<open>capture_backend\<close>, interpreted on all three backends; lemmas in
    \<open>Capture_Lemmas\<close>.
  \<^item> \<open>Input\<close>, \<open>Mac_Input\<close>: \<open>vcli-input\<close>. The sink contract is the
    locale \<open>input_sink\<close>, interpreted on the recording sink; the weaker \<open>halting_sink\<close>
    also on the macOS sink (\<open>cg_sink.rs\<close>, \<open>cg_events.rs\<close>,
    \<open>cg_typing.rs\<close>), whose state is the trace of posted events.
  \<^item> \<open>Runtime_Base\<close>, \<open>Scheduler\<close>: \<open>vcli-runtime\<close>, the decision
    rules and the scheduler, phase by phase.  \<open>Runtime_Lemmas\<close> (locale \<open>max_order\<close> for
    the arbiter), \<open>Scheduler_Lemmas\<close>, \<open>Scheduler_Safety\<close>,
    \<open>Scheduler_Watch\<close> and \<open>Scheduler_Runs\<close> build up what a tick and a run of ticks do.
  \<^item> \<open>Store_Paths\<close>, \<open>Store\<close>, \<open>Store_Assets\<close>:
    \<open>vcli-store\<close>; tables are lists of rows in rowid order, files a finite map from paths to bytes.
    \<open>Store_Lemmas\<close> (locale \<open>row_table\<close>) and \<open>Store_Gc\<close> hold the invariant
    and what collection removes.
  \<^item> \<open>Ipc\<close>: \<open>vcli-ipc\<close>; a connection is the list of chunks that successive reads
    return.  \<open>Ipc_Lemmas\<close> states the contract between server and handler as the locale
    \<open>handler_contract\<close>, interpreted on the daemon's handler in \<open>Daemon_Assets\<close>.
    \<open>Ipc_Server\<close>: the socket file from bind to clean-up, the accept loop, and any number of
    connections taking turns.  \<open>Wire\<close>: the JSON documents of requests, responses, events and frames
    and their readers, as the attributes of the types prescribe; each is a \<open>wire_format\<close>, a locale
    of \<open>Wire_Props\<close>.
  \<^item> \<open>Daemon\<close>, \<open>Daemon_Handler\<close>: \<open>vcli-daemon\<close>; event pump, asset
    materialisation, start-up, and one definition per request. Lemmas in \<open>Daemon_Lemmas\<close>,
    \<open>Daemon_Assets\<close> and \<open>Daemon_Log\<close>.
  \<^item> \<open>Pidfile\<close>, \<open>Locations\<close>, \<open>Daemon_Run\<close>: the daemon as a process:
    \<open>pidfile.rs\<close> system call by system call for any number of processes,
    \<open>socket_path.rs\<close> and \<open>config.rs\<close> over a platform record, \<open>run.rs\<close> and
    the factories as the list of steps a daemon takes.
  \<^item> \<open>Daemon_System\<close>: the running daemon as one system (\<open>run.rs\<close>): requests,
    turns of the scheduler, steps of the pump, signals and the stop interleave over the two channels and the
    store; the relation \<open>system_run\<close> holds of the states so reached.
  \<^item> \<open>Clocks\<close>: the clocks of \<open>vcli-core\<close> and \<open>vcli-runtime\<close> (locale
    \<open>runtime_clock\<close>, interpreted on the manual and on the system clock) and the observer of the
    kill switch.
  \<^item> \<open>Text_Numbers\<close>, \<open>Cli_Time\<close>, \<open>Cli\<close>,
    \<open>Cli_Commands\<close>, \<open>Cli_Main\<close>: \<open>vcli-cli\<close>; a command maps what lies
    behind the socket (\<open>CliLink\<close>) to its output and its error, \<open>run\<close> adds the exit
    code.
  \<^item> \<open>Demo\<close>: one small concrete system on which the properties are instantiated.

  \<^bold>\<open>What is shown.\<close> \<open>Sched_Props\<close>: from every reachable scheduler a tick
  returns, the emitted events determine every program state, terminal programs are frozen, one-shot watches fire
  once, one program acts per tick, a body moves at most one step, the kill switch silences a tick, the main loop
  returns.  \<open>Dsl_Props\<close>: the validator accepts exactly a declarative condition, its cycle search is
  exact, the expression grammar, the edit distance, JSON pointers, the digest.  \<open>Perception_Props\<close>:
  the memoised evaluator computes the meaning of a predicate and reports only errors of the leaves; crops and
  samples are exact.  \<open>Runtime_Props\<close>: arbitration, firing decisions, sleeps, error codes.
  \<open>Store_Props\<close>: an invariant over every sequence of store operations and restarts, content
  addressing, garbage collection, paging, recovery and resume.  \<open>Daemon_Props\<close>: the database
  mirrors the scheduler, the log is written before the broadcast, submission is a transaction, a client gets the
  daemon's answer however the bytes are split, materialised programs never miss an asset.
  \<open>Daemon_System_Props\<close>: through every interleaving the database follows the scheduler and catches
  up, and what a crash at rest leads to at the next start.  \<open>Ipc_Server_Props\<close>: the socket leads to
  the daemon while it lives, connections side by side behave as if one after the other, a broken client disturbs
  nobody.  \<open>Wire_Props\<close>: what is sent is what is read.  \<open>Daemon_Log\<close>: the log shows
  the events of the scheduler.  \<open>Pidfile_Props\<close>: mutual exclusion under every interleaving without
  an overlapping exit.  \<open>Daemon_Run_Props\<close>: the order of what a starting daemon does, and that it
  can always be started again.  \<open>Capture_Props\<close>: conversion is total and averages exactly,
  enumerated windows have unique addresses, frames can be read.  \<open>Mac_Input_Props\<close>: the kill
  switch, released buttons, the path of a drag.  \<open>Cli_Props\<close>: the date algorithm is the calendar,
  time stamps can be given back, exit codes, tables, the local check of programs, the end of a watch.
  \<open>Clocks\<close>: time moves on. Some theorems show what goes wrong: a reserved name that the validator
  accepts stops the scheduler, a result cache shared between programs, a recovered program that can never be
  resumed, a short digest that poisons the store, two daemons after an exit that overlaps a start, a button that
  stays down, a socket file that blocks the start, a bind that takes the socket from a living daemon, a log that
  shows only its first ten thousand rows, a test clock whose readings drift apart.

  \<^bold>\<open>Errors, partiality, bounds.\<close> A \<open>Result\<close> is a sum with the error on the
  left. A panic, or a call that does not return, is \<open>None\<close>; theorems that code returns are proved
  as such. The recursion of the evaluator is bounded by the stack, the fuel argument of
  \<open>evaluate_named_with_depth\<close>; the environment fixes the stack bound and the properties require it
  to exceed the recursion that the depth limit of the source and the number of predicates allow. The loops of
  the cycle search, of the frame reader and of the connection are total functions with measures. The main loop
  runs over a finite script of turns, each with the commands that have arrived, the capture result and the
  iteration order of the program table. A stream that a client reads is the list of frames up to its end or its
  error; the waiting loops of the command line run over the answers their polls get before the timeout. Integers
  are bounded: arithmetic of \<open>i32\<close> and \<open>u32\<close> wraps where the release build wraps, row
  ids stop at \<open>i64::MAX\<close>.

  \<^bold>\<open>Parameters.\<close> Code outside the repository is an argument of the model: image decoding,
  grayscale, resizing and template matching (\<open>PerceptionExt\<close>), Unicode normalisation and float
  printing (\<open>CanonExt\<close>), the deserialiser (\<open>DslExt\<close>), the SHA-256 of
  \<open>sha2\<close> and the text form of \<open>serde_json\<close> (\<open>StoreExt\<close>, with the
  hypothesis \<open>digest_hex\<close>), the JSON codec of the wire (\<open>Codec\<close>, with the hypothesis
  \<open>codec_ok\<close> that decoding inverts encoding, which \<open>Wire_Props\<close> derives from the JSON
  text alone, \<open>json_text_ok\<close>), clocks, fresh identifiers and the broadcast feed; what
  ScreenCaptureKit returns (\<open>Sck\<close>), which Core Graphics calls fail and what the kill switch answers
  at each read (\<open>Cg\<close>), the platform with its environment (\<open>Platform\<close>), the outcomes of
  logger, signals, threads and sockets (\<open>BootWorld\<close>), the argument parser of the command line.

  \<^bold>\<open>Not modelled.\<close> Foreign frameworks below the calls above, the kernel's part of the
  sockets, the async runtime, the log files and their rotation (\<open>logging.rs\<close>), the texts of the
  argument parser, the text of JSON documents and the derived deserialiser of programs, and failures of the disk
  or of the database engine other than constraint violations. A request is handled while no other touches the
  store, as the mutex enforces; the steps of different requests interleave only between requests. Test code is
  not modelled.

  \<^bold>\<open>Limits of the system run.\<close> \<open>system_run\<close> takes a turn only on commands whose
  programs satisfy the condition under which a tick returns (\<open>cmd_ok\<close>; the validator is weaker, see
  \<open>inline_key_collision\<close>), submits only while the scheduler lives (afterwards the handler answers
  \<open>DaemonBusy\<close> and leaves a pending row) and resumes only programs the scheduler does not hold:
  resumable are those alone that the recovery of this start has failed.
\<close>

end
